(* ===== verification/Prelude.thy ===== *)
theory Prelude
  imports Complex_Main "HOL-Library.Monad_Syntax" "HOL-Library.State_Monad"
begin

text \<open>
  Shared vocabulary of the development.

  A JavaScript string is a sequence of UTF-16 code units, here a list of naturals
  (\<open>jstr\<close>); \<open>U ''abc''\<close> is the literal \<open>"abc"\<close>. \<open>String.prototype\<close> functions that
  several components use (\<open>slice\<close>, \<open>startsWith\<close>, \<open>endsWith\<close>, \<open>trim\<close>,
  \<open>toLowerCase\<close> on ASCII, \<open>split\<close>) are defined once, and association lists with the
  insertion-order semantics of JavaScript objects and \<open>Map\<close>s. The named collections
  \<open>js_defs\<close> (definitions of the language's own operations) and \<open>handler_defs\<close> (definitions
  of request handlers) are used by the proofs of every component.
\<close>

named_theorems js_defs
named_theorems handler_defs

section \<open>Strings as code units\<close>

type_synonym jstr = "nat list"

definition U :: "string \<Rightarrow> jstr" where
  "U s = map of_char s"

lemma inj_of_char_nat: "inj (of_char :: char \<Rightarrow> nat)"
  by (auto intro!: injI)

lemma U_inject [simp]: "U a = U b \<longleftrightarrow> a = b"
  by (simp add: U_def inj_of_char_nat inj_map_eq_map)

lemma U_Nil [simp]: "U [] = []"
  by (simp add: U_def)

lemma U_eq_Nil [simp]: "U a = [] \<longleftrightarrow> a = []" "[] = U a \<longleftrightarrow> a = []"
  by (simp_all add: U_def)

lemma length_U [simp]: "length (U a) = length a"
  by (simp add: U_def)

lemma U_append: "U (a @ b) = U a @ U b"
  by (simp add: U_def)

definition starts_with :: "jstr \<Rightarrow> jstr \<Rightarrow> bool" where
  "starts_with s p \<longleftrightarrow> take (length p) s = p"

definition ends_with :: "jstr \<Rightarrow> jstr \<Rightarrow> bool" where
  "ends_with s p \<longleftrightarrow> length p \<le> length s \<and> drop (length s - length p) s = p"

lemma starts_with_iff: "starts_with s p \<longleftrightarrow> (\<exists>r. s = p @ r)"
  by (metis append_eq_conv_conj append_take_drop_id starts_with_def)

lemma ends_with_iff: "ends_with s p \<longleftrightarrow> (\<exists>r. s = r @ p)"
proof
  assume "ends_with s p"
  then show "\<exists>r. s = r @ p"
    by (metis append_take_drop_id ends_with_def)
next
  assume "\<exists>r. s = r @ p"
  then show "ends_with s p"
    by (auto simp: ends_with_def)
qed

text \<open>\<open>s.slice(-n)\<close>: the last \<open>n\<close> code units, all of them if there are fewer; \<open>slice(-0)\<close>
  is \<open>slice(0)\<close>, the whole string.\<close>

definition slice_last :: "nat \<Rightarrow> jstr \<Rightarrow> jstr" where
  "slice_last n s = (if n = 0 then s else drop (length s - n) s)"

text \<open>WhiteSpace and LineTerminator code units, as \<open>trim\<close> removes them.\<close>

definition is_ws :: "nat \<Rightarrow> bool" where
  "is_ws c \<longleftrightarrow> c \<in> {9, 10, 11, 12, 13, 32, 0xA0, 0x1680, 0x2028, 0x2029, 0x202F, 0x205F, 0x3000, 0xFEFF}
     \<or> (0x2000 \<le> c \<and> c \<le> 0x200A)"

definition trim_start :: "jstr \<Rightarrow> jstr" where
  "trim_start s = dropWhile is_ws s"

definition trim_end :: "jstr \<Rightarrow> jstr" where
  "trim_end s = rev (dropWhile is_ws (rev s))"

definition trim :: "jstr \<Rightarrow> jstr" where
  "trim s = trim_end (trim_start s)"

text \<open>\<open>toLowerCase\<close> and \<open>toUpperCase\<close>, on the ASCII letters; other code units are kept.\<close>

definition to_lower :: "jstr \<Rightarrow> jstr" where
  "to_lower s = map (\<lambda>c. if 65 \<le> c \<and> c \<le> 90 then c + 32 else c) s"

definition to_upper :: "jstr \<Rightarrow> jstr" where
  "to_upper s = map (\<lambda>c. if 97 \<le> c \<and> c \<le> 122 then c - 32 else c) s"

text \<open>\<open>s.split(c)\<close> for a one-unit separator: always at least one piece.\<close>

fun split_on :: "nat \<Rightarrow> jstr \<Rightarrow> jstr list" where
  "split_on c [] = [[]]"
| "split_on c (x # xs) =
     (if x = c then [] # split_on c xs
      else (case split_on c xs of [] \<Rightarrow> [[x]] | p # ps \<Rightarrow> (x # p) # ps))"

lemma split_on_ne [simp]: "split_on c s \<noteq> []"
  by (induction s) (auto split: list.splits)

fun join_with :: "jstr \<Rightarrow> jstr list \<Rightarrow> jstr" where
  "join_with sep [] = []"
| "join_with sep [x] = x"
| "join_with sep (x # xs) = x @ sep @ join_with sep xs"

lemma split_on_no_sep: "c \<notin> set s \<Longrightarrow> split_on c s = [s]"
  by (induction s) auto

lemma split_on_append: "c \<notin> set s \<Longrightarrow> split_on c (s @ c # t) = s # split_on c t"
  by (induction s) (auto split: list.splits)

section \<open>Insertion-ordered dictionaries\<close>

text \<open>
  A JavaScript object or \<open>Map\<close> keeps its keys in insertion order; writing a present key
  keeps its place, writing a new one appends.
\<close>

fun put :: "'k \<Rightarrow> 'v \<Rightarrow> ('k \<times> 'v) list \<Rightarrow> ('k \<times> 'v) list" where
  "put k v [] = [(k, v)]"
| "put k v ((k', v') # xs) = (if k' = k then (k, v) # xs else (k', v') # put k v xs)"

definition del :: "'k \<Rightarrow> ('k \<times> 'v) list \<Rightarrow> ('k \<times> 'v) list" where
  "del k xs = filter (\<lambda>p. fst p \<noteq> k) xs"

lemma map_of_put [simp]: "map_of (put k v xs) = (map_of xs)(k \<mapsto> v)"
  by (induction k v xs rule: put.induct) auto

lemma map_of_del [simp]: "map_of (del k xs) = (map_of xs)(k := None)"
  unfolding del_def by (induction xs) auto

lemma set_put: "set (put k v xs) \<subseteq> insert (k, v) (set xs)"
  by (induction k v xs rule: put.induct) auto

lemma set_del: "set (del k xs) \<subseteq> set xs"
  by (auto simp: del_def)

lemma keys_put: "set (map fst (put k v xs)) = insert k (set (map fst xs))"
  by (induction k v xs rule: put.induct) auto

lemma distinct_put [simp]: "distinct (map fst xs) \<Longrightarrow> distinct (map fst (put k v xs))"
proof (induction k v xs rule: put.induct)
  case (2 k v k' v' xs)
  then show ?case using keys_put [of k v xs] by auto
qed simp

lemma distinct_del [simp]: "distinct (map fst xs) \<Longrightarrow> distinct (map fst (del k xs))"
  unfolding del_def by (rule distinct_map_filter)

section \<open>Lists\<close>

text \<open>\<open>xs.findIndex(p)\<close>: \<open>None\<close> stands for \<open>-1\<close>.\<close>

fun find_index :: "('a \<Rightarrow> bool) \<Rightarrow> 'a list \<Rightarrow> nat option" where
  "find_index p [] = None"
| "find_index p (x # xs) = (if p x then Some 0 else map_option Suc (find_index p xs))"

lemma find_index_Some:
  "find_index p xs = Some i \<Longrightarrow> i < length xs \<and> p (xs ! i) \<and> (\<forall>j<i. \<not> p (xs ! j))"
proof (induction xs arbitrary: i)
  case (Cons x xs)
  then show ?case
    by (auto simp: nth_Cons less_Suc_eq_0_disj split: if_splits nat.splits)
qed simp

lemma find_index_None: "find_index p xs = None \<longleftrightarrow> (\<forall>x\<in>set xs. \<not> p x)"
  by (induction xs) auto

lemma distinct_map_filterI: "distinct (map f xs) \<Longrightarrow> distinct (map f (filter p xs))"
  by (rule distinct_map_filter)

section \<open>Results\<close>

text \<open>Early return: the left side of a sum ends the computation.\<close>

definition and_then :: "'e + 'a \<Rightarrow> ('a \<Rightarrow> 'e + 'b) \<Rightarrow> 'e + 'b" where
  "and_then x f = (case x of Inl e \<Rightarrow> Inl e | Inr a \<Rightarrow> f a)"

lemma and_then_simps [simp]: "and_then (Inl e) f = Inl e" "and_then (Inr a) f = f a"
  by (simp_all add: and_then_def)

lemma and_then_Inr: "and_then x f = Inr b \<longleftrightarrow> (\<exists>a. x = Inr a \<and> f a = Inr b)"
  by (cases x) auto

text \<open>\<open>xs.map(f)\<close> where \<open>f\<close> may throw: the first exception ends it.\<close>

fun traverse :: "('a \<Rightarrow> 'e + 'b) \<Rightarrow> 'a list \<Rightarrow> 'e + 'b list" where
  "traverse f [] = Inr []"
| "traverse f (x # xs) = and_then (f x) (\<lambda>y. and_then (traverse f xs) (\<lambda>ys. Inr (y # ys)))"

lemma traverse_Inr: "traverse f xs = Inr ys \<longleftrightarrow> list_all2 (\<lambda>x y. f x = Inr y) xs ys"
  by (induction xs arbitrary: ys) (auto simp: and_then_Inr list_all2_Cons1)

lemma traverse_length: "traverse f xs = Inr ys \<Longrightarrow> length ys = length xs"
  by (auto simp: traverse_Inr dest: list_all2_lengthD)

lemma traverse_map: "(\<And>x. x \<in> set xs \<Longrightarrow> f x = Inr (g x)) \<Longrightarrow> traverse f xs = Inr (map g xs)"
  by (induction xs) auto

section \<open>The state monad of effectful code\<close>

text \<open>
  Effectful code is a \<open>('s, 'a) state\<close> of the library; \<open>do\<close> blocks keep the order of the
  source's statements. Two lemmas read a block from its start state.
\<close>

lemma run_bind: "run_state (m \<bind> f) s = (let (a, s') = run_state m s in run_state (f a) s')"
  by (simp add: Let_def)

lemma run_if: "run_state (if b then m else n) s = (if b then run_state m s else run_state n s)"
  by simp

lemma run_State [simp]: "run_state (State f) s = f s"
  by simp

end
