(* ===== verification/JsNum.thy ===== *)
theory JsNum
  imports Prelude
begin

text \<open>
  JavaScript numbers: IEEE 754 doubles, as exact rationals with \<open>NaN\<close> and the infinities.
  \<open>fl\<close> rounds a rational to the nearest double, ties to even, with the subnormal range and
  overflow; every arithmetic operation of the source rounds its exact result with it. The sign
  of zero is not modelled: no component observes it (\<open>Object.is\<close> and division by a computed
  zero do not occur). The lemmas show that rounding is monotone, exact on the integers up to
  \<open>2 ^ 53\<close>, and within half a unit in the last place.
\<close>

datatype jsnum = NaN | PInf | NInf | Fin rat

section \<open>Rounding to double\<close>

definition pow2 :: "int \<Rightarrow> rat" where
  "pow2 e = (if 0 \<le> e then 2 ^ nat e else 1 / 2 ^ nat (- e))"

lemma pow2_pos [simp]: "0 < pow2 e"
  by (simp add: pow2_def)

lemma pow2_neq0 [simp]: "pow2 e \<noteq> 0"
  using pow2_pos [of e] by linarith

lemma pow2_succ: "pow2 (e + 1) = 2 * pow2 e"
proof (cases "0 \<le> e")
  case True
  then have "nat (e + 1) = Suc (nat e)" by simp
  with True show ?thesis by (simp add: pow2_def)
next
  case False
  then have "nat (- e) = Suc (nat (- (e + 1)))" by simp
  with False show ?thesis by (auto simp: pow2_def)
qed

lemma pow2_add_nat: "pow2 (e + int k) = pow2 e * 2 ^ k"
proof (induction k)
  case (Suc k)
  have "pow2 (e + int (Suc k)) = pow2 (e + int k + 1)" by (simp add: algebra_simps)
  then show ?case using Suc pow2_succ [of "e + int k"] by simp
qed simp

lemma pow2_mono: "a \<le> b \<Longrightarrow> pow2 a \<le> pow2 b"
proof -
  assume "a \<le> b"
  then obtain k where k: "b = a + int k" using zle_iff_zadd by blast
  have "1 \<le> (2::rat) ^ k" by simp
  then have "pow2 a * 1 \<le> pow2 a * 2 ^ k"
    by (intro mult_left_mono) (auto intro: less_imp_le)
  then show ?thesis by (simp add: k pow2_add_nat)
qed

lemma pow2_less_imp: "pow2 a < pow2 b \<Longrightarrow> a < b"
  using pow2_mono [of b a] by (meson not_le)

text \<open>The binary exponent of a positive rational: halve or double until it is in \<open>[1, 2)\<close>.\<close>

function flog2 :: "rat \<Rightarrow> int" where
  "flog2 q = (if 2 \<le> q then flog2 (q / 2) + 1
     else if 0 < q \<and> q < 1 then flog2 (2 * q) - 1 else 0)"
  by pat_completeness auto

definition flog2_size :: "rat \<Rightarrow> nat" where
  "flog2_size q = (if 1 \<le> q then nat \<lfloor>q\<rfloor> else nat \<lceil>1 / q\<rceil>)"

lemma flog2_size_half: "2 \<le> q \<Longrightarrow> flog2_size (q / 2) < flog2_size q"
proof -
  assume q: "2 \<le> q"
  then have "q / 2 \<le> q - 1" by simp
  then have "\<lfloor>q / 2\<rfloor> \<le> \<lfloor>q - 1\<rfloor>" by (rule floor_mono)
  then have "\<lfloor>q / 2\<rfloor> < \<lfloor>q\<rfloor>" by simp
  moreover have "1 \<le> \<lfloor>q / 2\<rfloor>" using q by (simp add: le_floor_iff)
  ultimately show ?thesis using q by (simp add: flog2_size_def)
qed

lemma flog2_size_double:
  assumes "0 < q" "q < 1"
  shows "flog2_size (2 * q) < flog2_size q"
proof -
  have big: "1 < 1 / q" using assms by simp
  then have "1 < \<lceil>1 / q\<rceil>" by (simp only: less_ceiling_iff of_int_1)
  then have c2: "2 \<le> \<lceil>1 / q\<rceil>" by simp
  show ?thesis
  proof (cases "1 \<le> 2 * q")
    case True
    then have "\<lfloor>2 * q\<rfloor> = 1" using assms by (intro floor_unique) auto
    then show ?thesis using assms True c2 by (simp add: flog2_size_def)
  next
    case False
    then have "2 < 1 / q" using assms by (simp add: field_simps)
    then have "1 / (2 * q) \<le> 1 / q - 1" by simp
    then have "\<lceil>1 / (2 * q)\<rceil> \<le> \<lceil>1 / q - 1\<rceil>" by (rule ceiling_mono)
    then have "\<lceil>1 / (2 * q)\<rceil> < \<lceil>1 / q\<rceil>" by simp
    then show ?thesis using assms False c2 by (simp add: flog2_size_def)
  qed
qed

termination flog2
  by (relation "measure flog2_size") (auto intro: flog2_size_half flog2_size_double)

declare flog2.simps [simp del]

lemma flog2_bounds: "0 < q \<Longrightarrow> pow2 (flog2 q) \<le> q \<and> q < pow2 (flog2 q + 1)"
proof (induction q rule: flog2.induct)
  case (1 q)
  consider "2 \<le> q" | "q < 1" | "1 \<le> q" "q < 2" by linarith
  then show ?case
  proof cases
    case a: 1
    then have "pow2 (flog2 (q / 2)) \<le> q / 2 \<and> q / 2 < pow2 (flog2 (q / 2) + 1)"
      using 1 by simp
    moreover have "pow2 (flog2 q) = 2 * pow2 (flog2 (q / 2))"
      using a by (simp only: flog2.simps [of q] pow2_succ if_True)
    ultimately show ?thesis using a by (simp add: pow2_succ)
  next
    case b: 2
    then have "pow2 (flog2 (2 * q)) \<le> 2 * q \<and> 2 * q < pow2 (flog2 (2 * q) + 1)"
      using 1 by simp
    moreover have "flog2 q = flog2 (2 * q) - 1" using 1 b by (simp add: flog2.simps [of q])
    then have "pow2 (flog2 (2 * q)) = 2 * pow2 (flog2 q)"
      using pow2_succ [of "flog2 q"] by simp
    ultimately show ?thesis by (simp add: pow2_succ)
  next
    case 3
    then show ?thesis by (simp add: flog2.simps [of q] pow2_def)
  qed
qed

lemma flog2_mono: "0 < p \<Longrightarrow> p \<le> q \<Longrightarrow> flog2 p \<le> flog2 q"
proof -
  assume "0 < p" "p \<le> q"
  then have "pow2 (flog2 p) < pow2 (flog2 q + 1)"
    using flog2_bounds [of p] flog2_bounds [of q] by linarith
  then show ?thesis using pow2_less_imp by fastforce
qed

definition round_even :: "rat \<Rightarrow> int" where
  "round_even x = (let f = \<lfloor>x\<rfloor>; d = x - of_int f in
     if d < 1/2 then f else if 1/2 < d then f + 1 else if even f then f else f + 1)"

lemma round_even_int [simp]: "round_even (of_int n) = n"
  by (simp add: round_even_def)

lemma round_even_err: "\<bar>of_int (round_even x) - x\<bar> \<le> 1/2"
  using floor_correct [of x] unfolding round_even_def Let_def
  by (auto simp: abs_le_iff)

lemma round_even_mono: "x \<le> y \<Longrightarrow> round_even x \<le> round_even y"
proof (cases "\<lfloor>x\<rfloor> = \<lfloor>y\<rfloor>")
  case True
  moreover assume "x \<le> y"
  ultimately show ?thesis
    unfolding round_even_def Let_def by auto
next
  case False
  moreover assume "x \<le> y"
  then have "\<lfloor>x\<rfloor> \<le> \<lfloor>y\<rfloor>" by (rule floor_mono)
  ultimately have "\<lfloor>x\<rfloor> + 1 \<le> \<lfloor>y\<rfloor>" by simp
  then show ?thesis
    unfolding round_even_def Let_def by auto
qed

definition ulp_exp :: "rat \<Rightarrow> int" where
  "ulp_exp q = (if q = 0 then - 1074 else max (flog2 \<bar>q\<bar>) (- 1022) - 52)"

definition round_to :: "rat \<Rightarrow> rat" where
  "round_to q = of_int (round_even (q / pow2 (ulp_exp q))) * pow2 (ulp_exp q)"

definition fl :: "rat \<Rightarrow> jsnum" where
  "fl q = (let r = round_to q in
     if 2 ^ 1024 \<le> r then PInf else if r \<le> - (2 ^ 1024) then NInf else Fin r)"

lemma round_even_minus: "round_even (- x) = - round_even x"
proof -
  define f where "f = \<lfloor>x\<rfloor>"
  have fx: "of_int f \<le> x" "x < of_int f + 1"
    using floor_correct [of x] by (simp_all add: f_def)
  show ?thesis
  proof (cases "x = of_int f")
    case True
    then show ?thesis by (metis of_int_minus round_even_int)
  next
    case False
    then have g: "\<lfloor>- x\<rfloor> = - f - 1"
      using fx by (intro floor_unique) auto
    show ?thesis
      using fx False unfolding round_even_def g f_def [symmetric] Let_def by auto
  qed
qed

lemma ulp_exp_minus [simp]: "ulp_exp (- q) = ulp_exp q"
  by (simp add: ulp_exp_def)

lemma round_to_minus: "round_to (- q) = - round_to q"
  by (simp add: round_to_def round_even_minus)

lemma round_to_0 [simp]: "round_to 0 = 0"
  using round_even_int [of 0] by (simp add: round_to_def)

lemma pow2_div: "pow2 (e + int k) / pow2 e = of_int (2 ^ k)"
  by (simp add: pow2_add_nat)

lemma round_to_ge:
  assumes "pow2 k \<le> q" and "ulp_exp q \<le> k"
  shows "pow2 k \<le> round_to q"
proof -
  let ?u = "ulp_exp q"
  obtain n where n: "k = ?u + int n" using assms(2) zle_iff_zadd by blast
  have "of_int (2 ^ n) = pow2 k / pow2 ?u" by (simp only: n pow2_div)
  also have "\<dots> \<le> q / pow2 ?u" using assms(1) by (intro divide_right_mono) (auto intro: less_imp_le)
  finally have "round_even (of_int (2 ^ n)) \<le> round_even (q / pow2 ?u)" by (rule round_even_mono)
  then have "2 ^ n \<le> round_even (q / pow2 ?u)" by (simp only: round_even_int)
  then have "of_int (2 ^ n) * pow2 ?u \<le> of_int (round_even (q / pow2 ?u)) * pow2 ?u"
    by (intro mult_right_mono) (simp_all only: of_int_le_iff less_imp_le pow2_pos)
  then show ?thesis by (simp add: round_to_def n pow2_add_nat mult.commute)
qed

lemma round_to_le:
  assumes "q \<le> pow2 k" and "ulp_exp q \<le> k"
  shows "round_to q \<le> pow2 k"
proof -
  let ?u = "ulp_exp q"
  obtain n where n: "k = ?u + int n" using assms(2) zle_iff_zadd by blast
  have "q / pow2 ?u \<le> pow2 k / pow2 ?u" using assms(1) by (intro divide_right_mono) (auto intro: less_imp_le)
  also have "\<dots> = of_int (2 ^ n)" by (simp only: n pow2_div)
  finally have "round_even (q / pow2 ?u) \<le> round_even (of_int (2 ^ n))" by (rule round_even_mono)
  then have "round_even (q / pow2 ?u) \<le> 2 ^ n" by (simp only: round_even_int)
  then have "of_int (round_even (q / pow2 ?u)) * pow2 ?u \<le> of_int (2 ^ n) * pow2 ?u"
    by (intro mult_right_mono) (simp_all only: of_int_le_iff less_imp_le pow2_pos)
  then show ?thesis by (simp add: round_to_def n pow2_add_nat mult.commute)
qed

lemma round_to_nonneg: "0 \<le> q \<Longrightarrow> 0 \<le> round_to q"
proof -
  assume "0 \<le> q"
  then have "round_even (of_int 0) \<le> round_even (q / pow2 (ulp_exp q))"
    by (intro round_even_mono) (simp add: less_imp_le)
  then have "0 \<le> round_even (q / pow2 (ulp_exp q))"
    by (simp only: round_even_int)
  then show ?thesis by (simp add: round_to_def less_imp_le)
qed

lemma round_to_mono_pos:
  assumes "0 < p" and "p \<le> q"
  shows "round_to p \<le> round_to q"
proof (cases "ulp_exp p = ulp_exp q")
  case True
  have "p / pow2 (ulp_exp q) \<le> q / pow2 (ulp_exp q)"
    using assms by (intro divide_right_mono) (auto intro: less_imp_le)
  then have "round_even (p / pow2 (ulp_exp q)) \<le> round_even (q / pow2 (ulp_exp q))"
    by (rule round_even_mono)
  then show ?thesis by (simp add: round_to_def True)
next
  case False
  have fm: "flog2 p \<le> flog2 q" using assms by (rule flog2_mono)
  then have ul: "ulp_exp p < ulp_exp q" and e: "ulp_exp q = flog2 q - 52" and lt: "flog2 p < flog2 q"
    using False assms by (auto simp: ulp_exp_def max_def split: if_splits)
  have "p \<le> pow2 (flog2 q)"
    using flog2_bounds [of p] assms(1) pow2_mono [of "flog2 p + 1" "flog2 q"] lt by simp
  then have "round_to p \<le> pow2 (flog2 q)"
    using ul e by (intro round_to_le) auto
  also have "\<dots> \<le> round_to q"
    using flog2_bounds [of q] assms e by (intro round_to_ge) auto
  finally show ?thesis .
qed

lemma round_to_mono: "p \<le> q \<Longrightarrow> round_to p \<le> round_to q"
proof -
  assume le: "p \<le> q"
  consider "0 < p" | "p \<le> 0" "0 \<le> q" | "q < 0" by linarith
  then show ?thesis
  proof cases
    case 1
    then show ?thesis using le by (rule round_to_mono_pos)
  next
    case 2
    then have "0 \<le> round_to (- p)" "0 \<le> round_to q" by (auto intro: round_to_nonneg)
    then show ?thesis by (simp add: round_to_minus)
  next
    case 3
    then have "round_to (- q) \<le> round_to (- p)" using le by (intro round_to_mono_pos) auto
    then show ?thesis by (simp add: round_to_minus)
  qed
qed

lemma round_to_exact:
  assumes "q = of_int m * pow2 e" and "ulp_exp q \<le> e"
  shows "round_to q = q"
proof -
  let ?u = "ulp_exp q"
  obtain n where n: "e = ?u + int n" using assms(2) zle_iff_zadd by blast
  have "q / pow2 ?u = of_int m * (pow2 e / pow2 ?u)" by (simp add: assms(1))
  also have "\<dots> = of_int (m * 2 ^ n)" by (simp only: n pow2_div of_int_mult)
  finally have "q / pow2 ?u = of_int (m * 2 ^ n)" .
  then have "round_to q = of_int (m * 2 ^ n) * pow2 ?u"
    by (simp only: round_to_def round_even_int)
  also have "\<dots> = of_int m * pow2 e" by (simp add: n pow2_add_nat)
  finally show ?thesis by (simp add: assms(1))
qed

lemma flog2_less: "0 < q \<Longrightarrow> q < pow2 k \<Longrightarrow> flog2 q < k"
  using flog2_bounds [of q] pow2_less_imp [of "flog2 q" k] by linarith

lemma round_to_int: "\<bar>n\<bar> \<le> 2 ^ 53 \<Longrightarrow> round_to (of_int n) = of_int n"
proof -
  assume le: "\<bar>n\<bar> \<le> 2 ^ 53"
  have big: "pow2 53 = of_int (2 ^ 53)" by (simp add: pow2_def)
  consider "n = 0" | "n \<noteq> 0" "\<bar>n\<bar> < 2 ^ 53" | "\<bar>n\<bar> = 2 ^ 53" using le by linarith
  then show ?thesis
  proof cases
    case 2
    then have "\<bar>of_int n\<bar> < pow2 53"
      by (simp only: big of_int_abs [symmetric] of_int_less_iff)
    then have "flog2 \<bar>of_int n\<bar> < 53" using 2 by (intro flog2_less) auto
    then have "ulp_exp (of_int n) \<le> 0" using 2 by (simp add: ulp_exp_def)
    then show ?thesis by (intro round_to_exact [of _ n 0]) (auto simp: pow2_def)
  next
    case 3
    have "\<bar>of_int n\<bar> < pow2 54"
      using 3 by (simp add: pow2_def abs_if split: if_splits)
    then have "flog2 \<bar>of_int n\<bar> < 54" using 3 by (intro flog2_less) auto
    then have "ulp_exp (of_int n) \<le> 1" using 3 by (auto simp: ulp_exp_def)
    moreover have "n = 9007199254740992 \<or> n = - 9007199254740992" using 3 by auto
    then have "n = n div 2 * 2" by auto
    then have "rat_of_int n = of_int (n div 2) * pow2 1"
      by (metis of_int_mult of_int_numeral pow2_succ pow2_def add_0 order_refl nat_0 power_0 mult.right_neutral)
    ultimately show ?thesis by (rule round_to_exact [rotated])
  qed simp
qed

lemma round_to_err: "\<bar>round_to q - q\<bar> \<le> pow2 (ulp_exp q) / 2"
proof -
  let ?u = "pow2 (ulp_exp q)"
  have "\<bar>of_int (round_even (q / ?u)) - q / ?u\<bar> * ?u \<le> 1 / 2 * ?u"
    using round_even_err by (intro mult_right_mono) (auto intro: less_imp_le)
  moreover have "\<bar>of_int (round_even (q / ?u)) - q / ?u\<bar> * ?u = \<bar>round_to q - q\<bar>"
  proof -
    have "\<bar>of_int (round_even (q / ?u)) - q / ?u\<bar> * ?u
        = \<bar>(of_int (round_even (q / ?u)) - q / ?u) * ?u\<bar>"
      by (simp add: abs_mult abs_of_pos)
    then show ?thesis by (simp add: round_to_def left_diff_distrib)
  qed
  ultimately show ?thesis by simp
qed

lemma fl_int: "\<bar>n\<bar> \<le> 2 ^ 53 \<Longrightarrow> fl (of_int n) = Fin (of_int n)"
proof -
  assume le: "\<bar>n\<bar> \<le> 2 ^ 53"
  then have "\<bar>of_int n\<bar> \<le> (2::rat) ^ 53"
    by (metis of_int_abs of_int_le_iff of_int_numeral of_int_power)
  moreover have "(2::rat) ^ 53 < 2 ^ 1024" by simp
  ultimately have "\<bar>of_int n\<bar> < (2::rat) ^ 1024" by linarith
  then have "\<not> 2 ^ 1024 \<le> rat_of_int n" "\<not> rat_of_int n \<le> - (2 ^ 1024)" by linarith+
  then show ?thesis unfolding fl_def Let_def round_to_int [OF le] by simp
qed

lemma fl_0 [simp]: "fl 0 = Fin 0"
  using fl_int [of 0] by simp

text \<open>A result between two small integers stays between them and is finite.\<close>

lemma fl_between:
  assumes "of_int a \<le> q" "q \<le> of_int b" "\<bar>a\<bar> \<le> 2 ^ 53" "\<bar>b\<bar> \<le> 2 ^ 53"
  shows "\<exists>r. fl q = Fin r \<and> r = round_to q \<and> of_int a \<le> r \<and> r \<le> of_int b"
proof -
  have r: "of_int a \<le> round_to q" "round_to q \<le> of_int b"
    using round_to_mono [OF assms(1)] round_to_mono [OF assms(2)] assms(3,4) by (simp_all add: round_to_int)
  have "(2::rat) ^ 53 < 2 ^ 1024" by simp
  moreover have "\<bar>of_int a\<bar> \<le> (2::rat) ^ 53" "\<bar>of_int b\<bar> \<le> (2::rat) ^ 53"
    using assms(3,4) by (metis of_int_abs of_int_le_iff of_int_numeral of_int_power)+
  ultimately have "\<not> 2 ^ 1024 \<le> round_to q" "\<not> round_to q \<le> - (2 ^ 1024)"
    using r by linarith+
  then show ?thesis using r unfolding fl_def Let_def by simp
qed

text \<open>The relative error of a normal number is at most \<open>2\<^sup>-\<^sup>5\<^sup>3\<close>.\<close>

lemma round_to_rel:
  assumes "pow2 (- 1022) \<le> q"
  shows "\<bar>round_to q - q\<bar> \<le> q / 2 ^ 53"
proof -
  have q: "0 < q" using assms pow2_pos [of "- 1022"] by linarith
  have "pow2 (- 1022) < pow2 (flog2 q + 1)" using assms flog2_bounds [OF q] by linarith
  then have n: "- 1022 \<le> flog2 q" using pow2_less_imp by fastforce
  then have "ulp_exp q = flog2 q - 52" using q by (simp add: ulp_exp_def max_def)
  then have "pow2 (ulp_exp q) * 2 ^ 52 = pow2 (flog2 q)"
    using pow2_add_nat [of "flog2 q - 52" 52] by simp
  then have "pow2 (ulp_exp q) * 2 ^ 52 \<le> q" using flog2_bounds [OF q] by simp
  then have "pow2 (ulp_exp q) / 2 \<le> q / 2 ^ 53" by (simp add: field_simps)
  then show ?thesis using round_to_err [of q] by linarith
qed

text \<open>Evaluation of \<open>fl\<close> on a literal quotient, by the simplifier.\<close>

lemma floor_rat_numeral [simp]:
  "\<lfloor>numeral a / (numeral b :: rat)\<rfloor> = numeral a div numeral b"
  "\<lfloor>1 / (numeral b :: rat)\<rfloor> = 1 div numeral b"
  "\<lfloor>- (numeral a / (numeral b :: rat))\<rfloor> = (- numeral a) div numeral b"
  using floor_divide_of_int_eq [of "numeral a" "numeral b", where 'a = rat]
    floor_divide_of_int_eq [of 1 "numeral b", where 'a = rat]
    floor_divide_of_int_eq [of "- numeral a" "numeral b", where 'a = rat]
  by simp_all

lemmas fl_eval = fl_def round_to_def ulp_exp_def flog2.simps pow2_def round_even_def Let_def

section \<open>Arithmetic and comparison\<close>

fun num_neg :: "jsnum \<Rightarrow> jsnum" where
  "num_neg NaN = NaN"
| "num_neg PInf = NInf"
| "num_neg NInf = PInf"
| "num_neg (Fin q) = Fin (- q)"

fun num_add :: "jsnum \<Rightarrow> jsnum \<Rightarrow> jsnum" where
  "num_add NaN _ = NaN"
| "num_add _ NaN = NaN"
| "num_add PInf NInf = NaN"
| "num_add NInf PInf = NaN"
| "num_add PInf _ = PInf"
| "num_add _ PInf = PInf"
| "num_add NInf _ = NInf"
| "num_add _ NInf = NInf"
| "num_add (Fin a) (Fin b) = fl (a + b)"

definition num_sub :: "jsnum \<Rightarrow> jsnum \<Rightarrow> jsnum" where
  "num_sub a b = num_add a (num_neg b)"

definition inf_of_sign :: "rat \<Rightarrow> jsnum" where
  "inf_of_sign s = (if s = 0 then NaN else if 0 < s then PInf else NInf)"

fun num_sign :: "jsnum \<Rightarrow> rat" where
  "num_sign NaN = 0"
| "num_sign PInf = 1"
| "num_sign NInf = - 1"
| "num_sign (Fin q) = sgn q"

fun num_mul :: "jsnum \<Rightarrow> jsnum \<Rightarrow> jsnum" where
  "num_mul NaN _ = NaN"
| "num_mul _ NaN = NaN"
| "num_mul (Fin a) (Fin b) = fl (a * b)"
| "num_mul a b = inf_of_sign (num_sign a * num_sign b)"

fun num_div :: "jsnum \<Rightarrow> jsnum \<Rightarrow> jsnum" where
  "num_div NaN _ = NaN"
| "num_div _ NaN = NaN"
| "num_div (Fin a) (Fin b) = (if b = 0 then inf_of_sign (sgn a) else fl (a / b))"
| "num_div (Fin a) _ = Fin 0"
| "num_div a (Fin b) = (if b < 0 then num_neg a else a)"
| "num_div _ _ = NaN"

fun num_lt :: "jsnum \<Rightarrow> jsnum \<Rightarrow> bool" where
  "num_lt NaN _ = False"
| "num_lt _ NaN = False"
| "num_lt (Fin a) (Fin b) = (a < b)"
| "num_lt NInf y = (y \<noteq> NInf)"
| "num_lt _ NInf = False"
| "num_lt PInf _ = False"
| "num_lt _ PInf = True"

definition num_eq :: "jsnum \<Rightarrow> jsnum \<Rightarrow> bool" where
  "num_eq a b \<longleftrightarrow> a \<noteq> NaN \<and> a = b"

definition num_le :: "jsnum \<Rightarrow> jsnum \<Rightarrow> bool" where
  "num_le a b \<longleftrightarrow> num_lt a b \<or> num_eq a b"

lemma num_le_Fin [simp]: "num_le (Fin a) (Fin b) \<longleftrightarrow> a \<le> b"
  by (auto simp: num_le_def num_eq_def)

text \<open>\<open>Math.min\<close>, \<open>Math.max\<close>: \<open>NaN\<close> if either argument is.\<close>

definition math_min :: "jsnum \<Rightarrow> jsnum \<Rightarrow> jsnum" where
  "math_min a b = (if a = NaN \<or> b = NaN then NaN else if num_lt a b then a else b)"

definition math_max :: "jsnum \<Rightarrow> jsnum \<Rightarrow> jsnum" where
  "math_max a b = (if a = NaN \<or> b = NaN then NaN else if num_lt a b then b else a)"

text \<open>\<open>Math.floor\<close> and \<open>Math.round\<close> (ties towards plus infinity); both are exact.\<close>

fun math_floor :: "jsnum \<Rightarrow> jsnum" where
  "math_floor (Fin q) = Fin (of_int \<lfloor>q\<rfloor>)"
| "math_floor x = x"

fun math_round :: "jsnum \<Rightarrow> jsnum" where
  "math_round (Fin q) = Fin (of_int \<lfloor>q + 1 / 2\<rfloor>)"
| "math_round x = x"

fun num_is_integer :: "jsnum \<Rightarrow> bool" where
  "num_is_integer (Fin q) = (of_int \<lfloor>q\<rfloor> = q)"
| "num_is_integer _ = False"

fun num_abs :: "jsnum \<Rightarrow> jsnum" where
  "num_abs (Fin q) = Fin \<bar>q\<bar>"
| "num_abs NInf = PInf"
| "num_abs x = x"

text \<open>A small integer literal.\<close>

abbreviation NumI :: "int \<Rightarrow> jsnum" where
  "NumI n \<equiv> Fin (of_int n)"

text \<open>A percentage of a part is a number between 0 and 100.\<close>

lemma percent_between:
  assumes "0 \<le> a" "a \<le> b" "0 < b"
  shows "\<exists>r. num_mul (num_div (Fin a) (Fin b)) (NumI 100) = Fin r \<and> 0 \<le> r \<and> r \<le> 100"
proof -
  have "0 \<le> a / b" "a / b \<le> 1" using assms by simp_all
  then obtain s where s: "fl (a / b) = Fin s" "0 \<le> s" "s \<le> 1"
    using fl_between [of 0 "a / b" 1] by auto
  then obtain r where "fl (s * 100) = Fin r" "0 \<le> r" "r \<le> 100"
    using fl_between [of 0 "s * 100" 100] by auto
  then show ?thesis using assms s by simp
qed

end
