(* ===== verification/JsVal.thy ===== *)
theory JsVal
  imports JsNum
begin

text \<open>
  JavaScript values as the handlers see them (\<open>unknown\<close> request bodies, JSON answers of the
  engines, database rows), with the coercions the source relies on: truthiness, \<open>??\<close>, \<open>||\<close>,
  property access (which throws on \<open>undefined\<close> and \<open>null\<close>), \<open>String(v)\<close>, \<open>Number(v)\<close> (which throw on some objects),
  \<open>parseInt\<close>, and \<open>JSON.parse\<close>. \<open>wire v\<close> is the value a client reads back from
  \<open>JSON.stringify(v)\<close>: \<open>undefined\<close> members vanish and non-finite numbers become \<open>null\<close>.
  Integer-like keys keep their insertion place (the engine's reordering of such keys is not
  modelled; no component depends on it).
\<close>

datatype jsval =
    VUndef
  | VNull
  | VBool bool
  | VNum jsnum
  | VStr jstr
  | VArr "jsval list"
  | VObj "(jstr \<times> jsval) list"
  | VDate int \<comment> \<open>a valid \<open>Date\<close>, as milliseconds since the epoch\<close>

text \<open>A thrown value: \<open>Err m\<close> is an \<open>Error\<close> whose \<open>message\<close> is \<open>m\<close>, \<open>TypeErr\<close> a
  \<open>TypeError\<close>; \<open>NotError\<close> is a thrown value that is no \<open>Error\<close>.\<close>

datatype exn = Err jstr | TypeErr jstr | NotError

definition exn_msg :: "jstr \<Rightarrow> exn \<Rightarrow> jstr" where
  \<comment> \<open>\<open>e instanceof Error ? e.message : fallback\<close>\<close>
  "exn_msg dflt e = (case e of Err m \<Rightarrow> m | TypeErr m \<Rightarrow> m | NotError \<Rightarrow> dflt)"

section \<open>Building and reading values\<close>

definition S :: "string \<Rightarrow> jsval" where
  "S s = VStr (U s)"

definition obj :: "(string \<times> jsval) list \<Rightarrow> jsval" where
  "obj ps = VObj (map (\<lambda>(k, v). (U k, v)) ps)"

abbreviation VI :: "int \<Rightarrow> jsval" where
  "VI n \<equiv> VNum (NumI n)"

text \<open>A decimal literal of the source is the nearest double.\<close>

abbreviation VD :: "rat \<Rightarrow> jsval" where
  "VD q \<equiv> VNum (fl q)"

definition lookup :: "jstr \<Rightarrow> (jstr \<times> jsval) list \<Rightarrow> jsval" where
  "lookup k ps = (case map_of ps k of Some v \<Rightarrow> v | None \<Rightarrow> VUndef)"

text \<open>\<open>v.k\<close> on a value that is neither \<open>undefined\<close> nor \<open>null\<close>.\<close>

definition get :: "jsval \<Rightarrow> string \<Rightarrow> jsval" where
  "get v k = (case v of VObj ps \<Rightarrow> lookup (U k) ps | _ \<Rightarrow> VUndef)"

definition nullish :: "jsval \<Rightarrow> bool" where
  "nullish v \<longleftrightarrow> v = VUndef \<or> v = VNull"

definition read_err :: "jsval \<Rightarrow> string \<Rightarrow> exn" where
  "read_err v k = TypeErr (U ''Cannot read properties of '' @ U (if v = VUndef then ''undefined'' else ''null'')
     @ U '' (reading '' @ [39] @ U k @ [39, 41])"

definition read_prop :: "jsval \<Rightarrow> string \<Rightarrow> exn + jsval" where
  "read_prop v k = (if nullish v then Inl (read_err v k) else Inr (get v k))"

definition destructure_err :: "jsval \<Rightarrow> string \<Rightarrow> exn" where
  \<comment> \<open>\<open>const { k } = req.body\<close> on \<open>undefined\<close> or \<open>null\<close>\<close>
  "destructure_err v k = TypeErr (U ''Cannot destructure property '' @ [39] @ U k @ [39] @ U '' of ''
     @ [39] @ U ''req.body'' @ [39] @ U '' as it is '' @ U (if v = VUndef then ''undefined'' else ''null'') @ [46])"

definition nvl :: "jsval \<Rightarrow> jsval \<Rightarrow> jsval" where
  \<comment> \<open>\<open>v ?? d\<close>\<close>
  "nvl v d = (if nullish v then d else v)"

fun num_truthy :: "jsnum \<Rightarrow> bool" where
  "num_truthy NaN = False"
| "num_truthy (Fin q) = (q \<noteq> 0)"
| "num_truthy _ = True"

fun truthy :: "jsval \<Rightarrow> bool" where
  "truthy VUndef = False"
| "truthy VNull = False"
| "truthy (VBool b) = b"
| "truthy (VNum n) = num_truthy n"
| "truthy (VStr s) = (s \<noteq> [])"
| "truthy _ = True"

definition or_else :: "jsval \<Rightarrow> jsval \<Rightarrow> jsval" where
  \<comment> \<open>\<open>v || d\<close>\<close>
  "or_else v d = (if truthy v then v else d)"

definition of_opt :: "('a \<Rightarrow> jsval) \<Rightarrow> 'a option \<Rightarrow> jsval" where
  \<comment> \<open>a nullable column or an optional field that reads as \<open>null\<close>\<close>
  "of_opt f x = (case x of None \<Rightarrow> VNull | Some a \<Rightarrow> f a)"

lemma get_obj_Nil [simp]: "get (obj []) k = VUndef"
  by (simp add: get_def obj_def lookup_def)

lemma get_obj_Cons [simp]:
  "get (obj ((k', v) # ps)) k = (if k = k' then v else get (obj ps) k)"
  by (auto simp: get_def obj_def lookup_def)

lemma get_simps [simp]:
  "get VUndef k = VUndef" "get VNull k = VUndef" "get (VBool b) k = VUndef"
  "get (VNum n) k = VUndef" "get (VStr s) k = VUndef" "get (VArr xs) k = VUndef"
  by (simp_all add: get_def)

lemma obj_inject [simp]: "obj a = obj b \<longleftrightarrow> a = b"
proof -
  have "inj (\<lambda>(k, v). (U k, v :: jsval))" by (auto intro!: injI)
  then show ?thesis by (simp add: obj_def inj_map_eq_map)
qed

lemma nullish_simps [simp]:
  "nullish VUndef" "nullish VNull" "\<not> nullish (VBool b)" "\<not> nullish (VNum n)"
  "\<not> nullish (VStr s)" "\<not> nullish (VArr xs)" "\<not> nullish (VObj ps)" "\<not> nullish (VDate t)"
  by (simp_all add: nullish_def)

lemma not_nullish_obj [simp]: "\<not> nullish (obj ps)" "\<not> nullish (S s)"
  by (simp_all add: obj_def S_def)

lemma truthy_not_nullish: "truthy v \<Longrightarrow> \<not> nullish v"
  by (cases v) auto

lemma S_inject [simp]: "S a = S b \<longleftrightarrow> a = b"
  by (simp add: S_def)

lemma truthy_S_obj [simp]: "truthy (S s) \<longleftrightarrow> s \<noteq> []" "truthy (obj ps)"
  by (simp_all add: S_def obj_def)

lemma obj_S_distinct [simp]:
  "obj ps \<noteq> VUndef" "obj ps \<noteq> VNull" "S s \<noteq> VUndef" "S s \<noteq> VNull"
  "VUndef \<noteq> S s" "VNull \<noteq> S s" "obj ps \<noteq> S s" "S s \<noteq> obj ps" "VBool b \<noteq> S s" "S s \<noteq> VBool b"
  "VNum n \<noteq> S s" "S s \<noteq> VNum n"
  by (simp_all add: S_def obj_def)

lemma nvl_simps [simp]:
  "nullish v \<Longrightarrow> nvl v d = d" "\<not> nullish v \<Longrightarrow> nvl v d = v"
  by (simp_all add: nvl_def)

section \<open>Decimal digits\<close>

definition is_digit :: "nat \<Rightarrow> bool" where
  "is_digit c \<longleftrightarrow> 48 \<le> c \<and> c \<le> 57"

definition digits_val :: "jstr \<Rightarrow> nat" where
  "digits_val ds = foldl (\<lambda>a d. 10 * a + (d - 48)) 0 ds"

fun dec_nat :: "nat \<Rightarrow> jstr" where
  "dec_nat n = (if n < 10 then [48 + n] else dec_nat (n div 10) @ [48 + n mod 10])"

declare dec_nat.simps [simp del]

lemma digits_val_append1: "digits_val (ds @ [d]) = 10 * digits_val ds + (d - 48)"
  by (simp add: digits_val_def)

lemma digits_val_dec_nat [simp]: "digits_val (dec_nat n) = n"
proof (induction n rule: dec_nat.induct)
  case (1 n)
  then show ?case
    by (subst dec_nat.simps) (auto simp: digits_val_append1 digits_val_def)
qed

lemma dec_nat_digits: "c \<in> set (dec_nat n) \<Longrightarrow> is_digit c"
proof (induction n rule: dec_nat.induct)
  case (1 n)
  show ?case
  proof (cases "n < 10")
    case True
    then show ?thesis using 1(2) by (subst (asm) dec_nat.simps) (auto simp: is_digit_def)
  next
    case False
    then show ?thesis using 1 by (subst (asm) (2) dec_nat.simps) (auto simp: is_digit_def)
  qed
qed

lemma dec_nat_ne [simp]: "dec_nat n \<noteq> []"
  by (subst dec_nat.simps) simp

definition dec_int :: "int \<Rightarrow> jstr" where
  "dec_int i = (if i < 0 then 45 # dec_nat (nat (- i)) else dec_nat (nat i))"

definition pad_left :: "nat \<Rightarrow> nat \<Rightarrow> jstr" where
  \<comment> \<open>at least \<open>w\<close> digits, zeros in front\<close>
  "pad_left w n = (let ds = dec_nat n in replicate (w - length ds) 48 @ ds)"

section \<open>Number to string\<close>

text \<open>\<open>log10f\<close> is the decimal exponent; 700 steps cover every double.\<close>

fun log10f :: "nat \<Rightarrow> rat \<Rightarrow> int" where
  "log10f 0 q = 0"
| "log10f (Suc k) q = (if 10 \<le> q then 1 + log10f k (q / 10) else if q < 1 then log10f k (q * 10) - 1 else 0)"

definition pow10 :: "int \<Rightarrow> rat" where
  "pow10 e = (if 0 \<le> e then 10 ^ nat e else 1 / 10 ^ nat (- e))"

text \<open>The shortest digits that round back to \<open>q\<close>: the candidates of \<open>k\<close> digits, nearest first.\<close>

definition digit_cands :: "rat \<Rightarrow> int \<Rightarrow> nat \<Rightarrow> (nat \<times> int) list" where
  "digit_cands q n k = (let x = q / pow10 (n - int k); lo = nat \<lfloor>x\<rfloor>;
     near = (if x - of_nat lo \<le> 1 / 2 then [lo, lo + 1] else [lo + 1, lo])
     in map (\<lambda>s. (s, n - int k)) (filter (\<lambda>s. fl (of_nat s * pow10 (n - int k)) = Fin q) near))"

fun shortest :: "nat \<Rightarrow> rat \<Rightarrow> int \<Rightarrow> nat \<Rightarrow> nat \<times> int" where
  "shortest 0 q n k = (0, 0)"
| "shortest (Suc f) q n k =
     (case digit_cands q n k of c # _ \<Rightarrow> c | [] \<Rightarrow> shortest f q n (Suc k))"

fun strip_zeros :: "nat \<Rightarrow> nat \<Rightarrow> int \<Rightarrow> nat \<times> int" where
  "strip_zeros 0 s e = (s, e)"
| "strip_zeros (Suc f) s e = (if 0 < s \<and> s mod 10 = 0 then strip_zeros f (s div 10) (e + 1) else (s, e))"

definition pos_to_string :: "rat \<Rightarrow> jstr" where
  "pos_to_string q =
     (let (s0, e0) = shortest 20 q (log10f 700 q + 1) 1;
          (s, e) = strip_zeros 20 s0 e0;
          ds = dec_nat s; k = int (length ds); n = k + e
      in if k \<le> n \<and> n \<le> 21 then ds @ replicate (nat (n - k)) 48
         else if 0 < n \<and> n \<le> 21 then take (nat n) ds @ [46] @ drop (nat n) ds
         else if - 6 < n \<and> n \<le> 0 then [48, 46] @ replicate (nat (- n)) 48 @ ds
         else take 1 ds @ (if k = 1 then [] else 46 # drop 1 ds) @ [101]
           @ (if 0 \<le> n - 1 then [43] else []) @ dec_int (n - 1))"

fun num_to_string :: "jsnum \<Rightarrow> jstr" where
  "num_to_string NaN = U ''NaN''"
| "num_to_string PInf = U ''Infinity''"
| "num_to_string NInf = U ''-Infinity''"
| "num_to_string (Fin q) =
     (if q = 0 then [48] else if q < 0 then 45 # pos_to_string (- q) else pos_to_string q)"

section \<open>Dates\<close>

text \<open>\<open>toISOString\<close>: the proleptic Gregorian date of a day number, then the time of day.\<close>

definition civil :: "int \<Rightarrow> int \<times> int \<times> int" where
  "civil days =
     (let z = days + 719468; era = z div 146097; doe = z mod 146097;
          yoe = (doe - doe div 1460 + doe div 36524 - doe div 146096) div 365;
          doy = doe - (365 * yoe + yoe div 4 - yoe div 100);
          mp = (5 * doy + 2) div 153;
          d = doy - (153 * mp + 2) div 5 + 1;
          m = (if mp < 10 then mp + 3 else mp - 9);
          y = yoe + era * 400 + (if m \<le> 2 then 1 else 0)
      in (y, m, d))"

definition iso_of_ms :: "int \<Rightarrow> jstr" where
  "iso_of_ms t =
     (let (y, m, d) = civil (t div 86400000); ms = t mod 86400000;
          ys = (if 0 \<le> y \<and> y \<le> 9999 then pad_left 4 (nat y)
                else (if y < 0 then 45 else 43) # pad_left 6 (nat \<bar>y\<bar>))
      in ys @ [45] @ pad_left 2 (nat m) @ [45] @ pad_left 2 (nat d) @ [84]
         @ pad_left 2 (nat (ms div 3600000)) @ [58] @ pad_left 2 (nat (ms div 60000 mod 60)) @ [58]
         @ pad_left 2 (nat (ms div 1000 mod 60)) @ [46] @ pad_left 3 (nat (ms mod 1000)) @ [90])"

section \<open>Coercions\<close>

text \<open>\<open>String(v)\<close>; \<open>String(date)\<close> is locale text in the source's runtime and is rendered as its
  ISO form here (no component converts a \<open>Date\<close> this way). This is the value where the conversion does not throw;
  when it does, see \<open>convertible\<close> below.\<close>

fun to_str :: "jsval \<Rightarrow> jstr" where
  "to_str VUndef = U ''undefined''"
| "to_str VNull = U ''null''"
| "to_str (VBool b) = U (if b then ''true'' else ''false'')"
| "to_str (VNum n) = num_to_string n"
| "to_str (VStr s) = s"
| "to_str (VArr xs) = join_with [44] (map (\<lambda>x. if nullish x then [] else to_str x) xs)"
| "to_str (VObj ps) = U ''[object Object]''"
| "to_str (VDate t) = iso_of_ms t"

text \<open>Radix prefixes \<open>0x\<close>, \<open>0o\<close>, \<open>0b\<close> of a numeric string.\<close>

definition digit_in :: "nat \<Rightarrow> nat \<Rightarrow> nat option" where
  "digit_in base c =
     (let v = (if is_digit c then Some (c - 48) else if 97 \<le> c \<and> c \<le> 102 then Some (c - 87)
               else if 65 \<le> c \<and> c \<le> 70 then Some (c - 55) else None)
      in case v of Some d \<Rightarrow> if d < base then Some d else None | None \<Rightarrow> None)"

fun radix_val :: "nat \<Rightarrow> nat \<Rightarrow> jstr \<Rightarrow> nat option" where
  "radix_val base acc [] = Some acc"
| "radix_val base acc (c # cs) =
     (case digit_in base c of None \<Rightarrow> None | Some d \<Rightarrow> radix_val base (base * acc + d) cs)"

definition radix_num :: "nat \<Rightarrow> jstr \<Rightarrow> jsnum" where
  "radix_num base s = (if s = [] then NaN
     else case radix_val base 0 s of None \<Rightarrow> NaN | Some n \<Rightarrow> fl (of_nat n))"

text \<open>An exponent part: \<open>None\<close> if malformed, the exponent otherwise (0 if absent).\<close>

definition exp_part :: "jstr \<Rightarrow> int option" where
  "exp_part s = (case s of [] \<Rightarrow> Some 0
     | c # r \<Rightarrow> if c = 101 \<or> c = 69 then
         (let (neg, ds) = (case r of [] \<Rightarrow> (False, []) | x # xs \<Rightarrow> if x = 45 then (True, xs) else if x = 43 then (False, xs) else (False, r))
          in if ds \<noteq> [] \<and> list_all is_digit ds then Some (if neg then - int (digits_val ds) else int (digits_val ds)) else None)
       else None)"

definition unsigned_dec :: "jstr \<Rightarrow> jsnum option" where
  "unsigned_dec s =
     (if s = U ''Infinity'' then Some PInf
      else let ip = takeWhile is_digit s; r = dropWhile is_digit s;
               (fp, r2) = (if r \<noteq> [] \<and> hd r = 46 then (takeWhile is_digit (tl r), dropWhile is_digit (tl r)) else ([], r))
           in if ip = [] \<and> fp = [] then None
              else case exp_part r2 of None \<Rightarrow> None
                | Some e \<Rightarrow> Some (fl (of_nat (digits_val (ip @ fp)) * pow10 (e - int (length fp)))))"

definition str_to_num :: "jstr \<Rightarrow> jsnum" where
  "str_to_num s0 =
     (let s = trim s0 in
      if s = [] then Fin 0
      else if starts_with s (U ''0x'') \<or> starts_with s (U ''0X'') then radix_num 16 (drop 2 s)
      else if starts_with s (U ''0o'') \<or> starts_with s (U ''0O'') then radix_num 8 (drop 2 s)
      else if starts_with s (U ''0b'') \<or> starts_with s (U ''0B'') then radix_num 2 (drop 2 s)
      else if hd s = 45 then (case unsigned_dec (tl s) of None \<Rightarrow> NaN | Some n \<Rightarrow> num_neg n)
      else (case unsigned_dec (if hd s = 43 then tl s else s) of None \<Rightarrow> NaN | Some n \<Rightarrow> n))"

fun to_num :: "jsval \<Rightarrow> jsnum" where
  "to_num VUndef = NaN"
| "to_num VNull = Fin 0"
| "to_num (VBool b) = (if b then Fin 1 else Fin 0)"
| "to_num (VNum n) = n"
| "to_num (VStr s) = str_to_num s"
| "to_num (VDate t) = fl (of_int t)"
| "to_num v = str_to_num (to_str v)"

text \<open>
  An object with a \<open>toString\<close> member of its own, which is no function in a value read from JSON, cannot be converted,
  nor can an array that holds one: \<open>String(v)\<close> and \<open>Number(v)\<close> throw. \<open>to_str\<close> and \<open>to_num\<close> are the values of the
  conversions that do not throw; \<open>str_of\<close> and \<open>num_of\<close> are the conversions of a value that may come from outside, and
  \<open>new_error\<close> is what \<open>throw new Error(v)\<close> throws. (An own \<open>valueOf\<close> member alone is passed over.)
\<close>

fun convertible :: "jsval \<Rightarrow> bool" where
  "convertible (VArr xs) \<longleftrightarrow> list_all convertible xs"
| "convertible (VObj ps) \<longleftrightarrow> U ''toString'' \<notin> fst ` set ps"
| "convertible v \<longleftrightarrow> True"

definition not_primitive :: exn where
  "not_primitive = TypeErr (U ''Cannot convert object to primitive value'')"

definition str_of :: "jsval \<Rightarrow> exn + jstr" where
  "str_of v = (if convertible v then Inr (to_str v) else Inl not_primitive)"

definition num_of :: "jsval \<Rightarrow> exn + jsnum" where
  "num_of v = (if convertible v then Inr (to_num v) else Inl not_primitive)"

definition new_error :: "jsval \<Rightarrow> exn" where
  "new_error v = (case str_of v of Inr m \<Rightarrow> Err m | Inl e \<Rightarrow> e)"

definition parse_int10 :: "jstr \<Rightarrow> jsnum" where
  \<comment> \<open>\<open>parseInt(s, 10)\<close>\<close>
  "parse_int10 s0 =
     (let s = trim_start s0;
          (neg, r) = (case s of [] \<Rightarrow> (False, []) | c # cs \<Rightarrow> if c = 45 then (True, cs) else if c = 43 then (False, cs) else (False, s));
          ds = takeWhile is_digit r
      in if ds = [] then NaN
         else if neg then num_neg (fl (of_nat (digits_val ds))) else fl (of_nat (digits_val ds)))"

section \<open>The value a client reads\<close>

fun wire :: "jsval \<Rightarrow> jsval" where
  "wire VUndef = VNull"
| "wire VNull = VNull"
| "wire (VBool b) = VBool b"
| "wire (VNum n) = (case n of Fin q \<Rightarrow> VNum (Fin q) | _ \<Rightarrow> VNull)"
| "wire (VStr s) = VStr s"
| "wire (VArr xs) = VArr (map wire xs)"
| "wire (VObj ps) = VObj (map (\<lambda>p. (fst p, wire (snd p))) (filter (\<lambda>p. snd p \<noteq> VUndef) ps))"
| "wire (VDate t) = VStr (iso_of_ms t)"

lemma wire_obj:
  "wire (obj ps) = obj (map (\<lambda>(k, v). (k, wire v)) (filter (\<lambda>(k, v). v \<noteq> VUndef) ps))"
  by (induction ps) (auto simp: obj_def)

lemma wire_S [simp]: "wire (S s) = S s"
  by (simp add: S_def)

end
