(* ===== verification/JsJson.thy ===== *)
theory JsJson
  imports JsVal
begin

text \<open>
  \<open>JSON.parse\<close> on code units, as ECMA-262 gives it: \<open>None\<close> is a thrown \<open>SyntaxError\<close>. A
  repeated key keeps its first place and its last value (\<open>put\<close>). The recursion spends fuel; the
  fuel \<open>json_parse\<close> starts with is enough, because a value is parsed from strictly fewer units
  than are left and every second call consumes one (\<open>jvalue_fuel\<close> shows that more fuel never
  changes an answer).
\<close>

definition json_ws :: "nat \<Rightarrow> bool" where
  "json_ws c \<longleftrightarrow> c = 32 \<or> c = 9 \<or> c = 10 \<or> c = 13"

definition skip_ws :: "jstr \<Rightarrow> jstr" where
  "skip_ws s = dropWhile json_ws s"

definition hex4 :: "nat \<Rightarrow> nat \<Rightarrow> nat \<Rightarrow> nat \<Rightarrow> nat option" where
  "hex4 a b c d = radix_val 16 0 [a, b, c, d]"

definition simple_escape :: "nat \<Rightarrow> nat option" where
  "simple_escape e = (if e = 34 \<or> e = 92 \<or> e = 47 then Some e
     else if e = 98 then Some 8 else if e = 102 then Some 12 else if e = 110 then Some 10
     else if e = 114 then Some 13 else if e = 116 then Some 9 else None)"

fun jstring :: "jstr \<Rightarrow> jstr \<Rightarrow> (jstr \<times> jstr) option" where
  "jstring acc [] = None"
| "jstring acc (c # r) =
     (if c = 34 then Some (rev acc, r)
      else if c < 32 then None
      else if c = 92 then
        (case r of [] \<Rightarrow> None
         | e # r' \<Rightarrow>
           if e = 117 then
             (case r' of w # x # y # z # r'' \<Rightarrow>
                (case hex4 w x y z of None \<Rightarrow> None | Some u \<Rightarrow> jstring (u # acc) r'')
              | _ \<Rightarrow> None)
           else (case simple_escape e of None \<Rightarrow> None | Some u \<Rightarrow> jstring (u # acc) r'))
      else jstring (c # acc) r)"

text \<open>\<open>-? (0 | [1-9][0-9]*) (. [0-9]+)? ([eE] [+-]? [0-9]+)?\<close>\<close>

definition jfrac :: "jstr \<Rightarrow> (jstr \<times> jstr) option" where
  "jfrac s = (if s \<noteq> [] \<and> hd s = 46 then
       (if takeWhile is_digit (tl s) = [] then None
        else Some (takeWhile is_digit (tl s), dropWhile is_digit (tl s)))
     else Some ([], s))"

definition jsign :: "jstr \<Rightarrow> bool \<times> jstr" where
  "jsign s = (if s \<noteq> [] \<and> hd s = 45 then (True, tl s) else if s \<noteq> [] \<and> hd s = 43 then (False, tl s) else (False, s))"

definition jexp :: "jstr \<Rightarrow> (int \<times> jstr) option" where
  "jexp s = (if s \<noteq> [] \<and> (hd s = 101 \<or> hd s = 69) then
       (let (neg, r) = jsign (tl s); ds = takeWhile is_digit r in
        if ds = [] then None
        else Some (if neg then - int (digits_val ds) else int (digits_val ds), dropWhile is_digit r))
     else Some (0, s))"

definition junsigned :: "jstr \<Rightarrow> (jsnum \<times> jstr) option" where
  "junsigned s =
     (let ip = takeWhile is_digit s in
      if ip = [] \<or> (hd ip = 48 \<and> tl ip \<noteq> []) then None
      else (case jfrac (dropWhile is_digit s) of None \<Rightarrow> None
        | Some (fp, c) \<Rightarrow>
          (case jexp c of None \<Rightarrow> None
           | Some (e, r) \<Rightarrow> Some (fl (of_nat (digits_val (ip @ fp)) * pow10 (e - int (length fp))), r))))"

definition jnumber :: "jstr \<Rightarrow> (jsval \<times> jstr) option" where
  "jnumber s =
     (if s \<noteq> [] \<and> hd s = 45 then map_option (\<lambda>(n, r). (VNum (num_neg n), r)) (junsigned (tl s))
      else map_option (\<lambda>(n, r). (VNum n, r)) (junsigned s))"

definition jliteral :: "jstr \<Rightarrow> (jsval \<times> jstr) option" where
  "jliteral s = (if starts_with s (U ''true'') then Some (VBool True, drop 4 s)
     else if starts_with s (U ''false'') then Some (VBool False, drop 5 s)
     else if starts_with s (U ''null'') then Some (VNull, drop 4 s) else None)"

fun jvalue :: "nat \<Rightarrow> jstr \<Rightarrow> (jsval \<times> jstr) option"
  and jelems :: "nat \<Rightarrow> jsval list \<Rightarrow> jstr \<Rightarrow> (jsval \<times> jstr) option"
  and jmembers :: "nat \<Rightarrow> (jstr \<times> jsval) list \<Rightarrow> jstr \<Rightarrow> (jsval \<times> jstr) option" where
  "jvalue 0 s = None"
| "jvalue (Suc f) s =
     (case skip_ws s of [] \<Rightarrow> None
      | c # r \<Rightarrow>
        if c = 123 then
          (if skip_ws r \<noteq> [] \<and> hd (skip_ws r) = 125 then Some (VObj [], tl (skip_ws r)) else jmembers f [] r)
        else if c = 91 then
          (if skip_ws r \<noteq> [] \<and> hd (skip_ws r) = 93 then Some (VArr [], tl (skip_ws r)) else jelems f [] r)
        else if c = 34 then map_option (\<lambda>(t, r'). (VStr t, r')) (jstring [] r)
        else if c = 45 \<or> is_digit c then jnumber (c # r)
        else jliteral (c # r))"
| "jelems 0 acc s = None"
| "jelems (Suc f) acc s =
     (case jvalue f s of None \<Rightarrow> None
      | Some (v, r) \<Rightarrow>
        (case skip_ws r of [] \<Rightarrow> None
         | c # r' \<Rightarrow> if c = 44 then jelems f (acc @ [v]) r'
                   else if c = 93 then Some (VArr (acc @ [v]), r') else None))"
| "jmembers 0 acc s = None"
| "jmembers (Suc f) acc s =
     (case skip_ws s of [] \<Rightarrow> None
      | c # r \<Rightarrow>
        if c \<noteq> 34 then None
        else (case jstring [] r of None \<Rightarrow> None
          | Some (k, r1) \<Rightarrow>
            (case skip_ws r1 of [] \<Rightarrow> None
             | c1 # r2 \<Rightarrow>
               if c1 \<noteq> 58 then None
               else (case jvalue f r2 of None \<Rightarrow> None
                 | Some (v, r3) \<Rightarrow>
                   (case skip_ws r3 of [] \<Rightarrow> None
                    | c3 # r4 \<Rightarrow>
                      if c3 = 44 then jmembers f (put k v acc) r4
                      else if c3 = 125 then Some (VObj (put k v acc), r4) else None)))))"

definition json_parse :: "jstr \<Rightarrow> jsval option" where
  "json_parse s =
     (case jvalue (2 * length s + 2) s of None \<Rightarrow> None
      | Some (v, r) \<Rightarrow> if skip_ws r = [] then Some v else None)"

section \<open>The fuel is enough\<close>

lemma length_skip_ws: "length (skip_ws s) \<le> length s"
  by (simp add: skip_ws_def length_dropWhile_le)

lemma skip_ws_Cons: "skip_ws s = c # r \<Longrightarrow> length r < length s"
  using length_skip_ws [of s] by simp

lemma jstring_length: "jstring acc s = Some (t, r) \<Longrightarrow> length r < length s"
proof (induction acc s rule: jstring.induct)
  case (2 acc c r0)
  then show ?case
    by (auto split: if_splits list.splits option.splits simp: less_SucI)
qed simp

lemma jfrac_length: "jfrac s = Some (fp, r) \<Longrightarrow> length r \<le> length s"
  unfolding jfrac_def using length_dropWhile_le [of is_digit "tl s"]
  by (auto split: if_splits)

lemma jexp_length: "jexp s = Some (e, r) \<Longrightarrow> length r \<le> length s"
  unfolding jexp_def jsign_def Let_def
  using length_dropWhile_le [of is_digit "tl s"] length_dropWhile_le [of is_digit "tl (tl s)"]
  by (auto split: if_splits)

lemma drop_digits_length: "takeWhile is_digit s \<noteq> [] \<Longrightarrow> length (dropWhile is_digit s) < length s"
  by (cases s) (auto simp: le_imp_less_Suc length_dropWhile_le split: if_splits)

lemma junsigned_length: "junsigned s = Some (n, r) \<Longrightarrow> length r < length s"
  unfolding junsigned_def Let_def
  using drop_digits_length [of s]
  by (auto split: if_splits option.splits dest!: jfrac_length jexp_length)

lemma jnumber_length: "jnumber s = Some (v, r) \<Longrightarrow> length r < length s"
  unfolding jnumber_def
  by (auto split: if_splits dest!: junsigned_length)

lemma jliteral_length: "jliteral s = Some (v, r) \<Longrightarrow> length r < length s"
proof -
  have "starts_with s (U p) \<Longrightarrow> p \<noteq> [] \<Longrightarrow> s \<noteq> []" for p
    by (auto simp: starts_with_iff)
  then show "jliteral s = Some (v, r) \<Longrightarrow> length r < length s"
    unfolding jliteral_def by (auto split: if_splits)
qed

lemma parse_length:
  "jvalue f s = Some (v, r) \<Longrightarrow> length r < length s"
  "jelems f acc s = Some (v, r) \<Longrightarrow> length r < length s"
  "jmembers f ps s = Some (v, r) \<Longrightarrow> length r < length s"
proof (induction f s and f acc s and f ps s arbitrary: v r and v r and v r rule: jvalue_jelems_jmembers.induct)
  case (2 f s)
  obtain c r0 where c: "skip_ws s = c # r0" using 2 by (auto split: list.splits)
  then have l: "length r0 < length s" by (rule skip_ws_Cons)
  have tl: "length (tl (skip_ws r0)) < length s"
    using l length_skip_ws [of r0] by (simp add: le_less_trans diff_le_self)
  have full: "length (c # r0) \<le> length s" using c length_skip_ws [of s] by simp
  from 2 c l tl full show ?case
    by (auto split: if_splits dest!: jstring_length jnumber_length jliteral_length)
      (meson less_trans)+
next
  case (4 f acc s)
  then show ?case
    by (auto split: option.splits list.splits if_splits dest!: skip_ws_Cons) (meson less_trans)+
next
  case (6 f acc s)
  obtain r1 k r2 r3 where e: "skip_ws s = 34 # r1" "jstring [] r1 = Some (k, r2)" "skip_ws r2 = 58 # r3"
    using 6(3) by (auto split: option.splits list.splits if_splits)
  have l3: "length r3 < length s"
    using skip_ws_Cons [OF e(1)] jstring_length [OF e(2)] skip_ws_Cons [OF e(3)] by simp
  obtain w r4 c r5 where p: "jvalue f r3 = Some (w, r4)" "skip_ws r4 = c # r5"
    using 6(3) e by (auto split: option.splits list.splits)
  have "length r4 < length r3" using 6(1) e p by simp
  then have l5: "length r5 < length s" using l3 skip_ws_Cons [OF p(2)] by simp
  show ?case
  proof (cases "c = 44")
    case True
    then have "jmembers f (put k w acc) r5 = Some (v, r)" using 6(3) e p by simp
    then have "length r < length r5" using 6(2) e p True by simp
    then show ?thesis using l5 by simp
  next
    case False
    then show ?thesis using 6(3) e p l5 by (simp split: if_splits)
  qed
qed auto

text \<open>Any two amounts of fuel that cover the text give the same answer.\<close>

lemma parse_fuel:
  "2 * length s < f \<Longrightarrow> 2 * length s < g \<Longrightarrow> jvalue f s = jvalue g s"
  "2 * length s + 1 < f \<Longrightarrow> 2 * length s + 1 < g \<Longrightarrow> jelems f acc s = jelems g acc s"
  "2 * length s < f \<Longrightarrow> 2 * length s < g \<Longrightarrow> jmembers f ps s = jmembers g ps s"
proof (induction f s and f acc s and f ps s arbitrary: g and g and g rule: jvalue_jelems_jmembers.induct)
  case (2 f s)
  obtain g' where g: "g = Suc g'" using 2(4) by (cases g) auto
  show ?case
  proof (cases "skip_ws s")
    case (Cons c r)
    then have "length r < length s" by (rule skip_ws_Cons)
    then have l: "2 * length r < g'" "2 * length r + 1 < g'" "2 * length r < f" "2 * length r + 1 < f"
      using 2(3,4) g by auto
    have "jmembers f [] r = jmembers g' [] r" if "c = 123" "\<not> (skip_ws r \<noteq> [] \<and> hd (skip_ws r) = 125)"
      using 2(1) Cons that l by blast
    moreover have "jelems f [] r = jelems g' [] r" if "c = 91" "\<not> (skip_ws r \<noteq> [] \<and> hd (skip_ws r) = 93)"
      using 2(2) [of c r g'] Cons that l by simp
    ultimately show ?thesis using Cons g by simp
  qed (simp add: g)
next
  case (4 f acc s)
  obtain g' where g: "g = Suc g'" using 4(4) by (cases g) auto
  have b: "2 * length s < f" "2 * length s < g'" using 4(3,4) g by auto
  then have v: "jvalue f s = jvalue g' s" by (rule 4(1))
  show ?case
  proof (cases "jvalue g' s")
    case (Some p)
    obtain v r where p: "p = (v, r)" by (cases p)
    have l: "length r < length s" using parse_length(1) Some p by blast
    show ?thesis
    proof (cases "skip_ws r")
      case (Cons c r')
      then have "length r' < length s" using l skip_ws_Cons less_trans by blast
      then have b': "2 * length r' + 1 < f" "2 * length r' + 1 < g'" using b by auto
      have "jelems f (acc @ [v]) r' = jelems g' (acc @ [v]) r'" if "c = 44"
        by (rule 4(2) [of p v r c r' g']) (use b' in \<open>simp_all add: v Some p Cons that\<close>)
      then show ?thesis using v Some p Cons g by simp
    qed (use v Some p g in simp)
  qed (use v g in simp)
next
  case (6 f acc s)
  obtain g' where g: "g = Suc g'" using 6(4) by (cases g) auto
  show ?case
  proof (cases "\<exists>r k r1 r2. skip_ws s = 34 # r \<and> jstring [] r = Some (k, r1) \<and> skip_ws r1 = 58 # r2")
    case True
    then obtain r k r1 r2 where e: "skip_ws s = 34 # r" "jstring [] r = Some (k, r1)" "skip_ws r1 = 58 # r2"
      by blast
    have l2: "length r2 < length s"
      using skip_ws_Cons [OF e(1)] jstring_length [OF e(2)] skip_ws_Cons [OF e(3)] by simp
    then have b: "2 * length r2 < f" "2 * length r2 < g'" using 6(3,4) g by auto
    have v: "jvalue f r2 = jvalue g' r2"
      by (rule 6(1) [of 34 r "(k, r1)" k r1 58 r2]) (simp_all add: e b)
    show ?thesis
    proof (cases "jvalue g' r2")
      case (Some p)
      obtain v r3 where p: "p = (v, r3)" by (cases p)
      have l3: "length r3 < length s" using parse_length(1) Some p l2 less_trans by blast
      show ?thesis
      proof (cases "skip_ws r3")
        case (Cons c r4)
        then have "length r4 < length s" using l3 skip_ws_Cons less_trans by blast
        then have b4: "2 * length r4 < f" "2 * length r4 < g'" using 6(3,4) g by auto
        have "jmembers f (put k v acc) r4 = jmembers g' (put k v acc) r4" if "c = 44"
          by (rule 6(2) [of 34 r "(k, r1)" k r1 58 r2 "(v, r3)" v r3 c r4 g'])
            (simp_all add: v e Some p Cons that b4)
        then show ?thesis using v e Some p Cons g by simp
      qed (use v e Some p g in simp)
    qed (use v e g in simp)
  next
    case False
    then show ?thesis using g by (auto split: list.splits option.splits)
  qed
qed auto

lemma jvalue_fuel: "2 * length s < f \<Longrightarrow> jvalue f s = jvalue (2 * length s + 2) s"
  by (rule parse_fuel(1)) auto

end
