(* ===== verification/Tables.thy ===== *)
theory Tables
  imports JsJson
begin

text \<open>
  The rows of the Drizzle schema (\<open>lib/db/src/schema/*.ts\<close>): one record per table, a nullable
  column as an option, a \<open>timestamp\<close> as milliseconds. For each table the row that an insert of
  the required columns alone creates (the column defaults of the schema), and the object that
  \<open>res.json(row)\<close> sends, with the schema's field names.
\<close>

definition js_str_opt :: "jstr option \<Rightarrow> jsval" where
  "js_str_opt = of_opt VStr"

definition js_num_opt :: "jsnum option \<Rightarrow> jsval" where
  "js_num_opt = of_opt VNum"

definition js_int_opt :: "int option \<Rightarrow> jsval" where
  "js_int_opt = of_opt (\<lambda>n. VNum (NumI n))"

definition js_date_opt :: "int option \<Rightarrow> jsval" where
  "js_date_opt = of_opt VDate"

section \<open>trades\<close>

record trade_row =
  tr_id :: jstr
  tr_walletId :: "jstr option"
  tr_mint :: jstr
  tr_tokenName :: "jstr option"
  tr_tokenSymbol :: "jstr option"
  tr_side :: jstr
  tr_amountSol :: jsnum
  tr_price :: "jsnum option"
  tr_status :: jstr
  tr_strategy :: jstr
  tr_signature :: "jstr option"
  tr_pnlSol :: "jsnum option"
  tr_slippageBps :: "int option"
  tr_createdAt :: "int option"
  tr_executedAt :: "int option"
  tr_clientOrderId :: "jstr option"
  tr_traceId :: "jstr option"

definition new_trade :: "jstr \<Rightarrow> jstr \<Rightarrow> jstr \<Rightarrow> jsnum \<Rightarrow> int \<Rightarrow> trade_row" where
  "new_trade i mint side amount now =
     \<lparr>tr_id = i, tr_walletId = None, tr_mint = mint, tr_tokenName = None, tr_tokenSymbol = None,
      tr_side = side, tr_amountSol = amount, tr_price = None, tr_status = U ''Pending'',
      tr_strategy = U ''manual'', tr_signature = None, tr_pnlSol = None, tr_slippageBps = Some 100,
      tr_createdAt = Some now, tr_executedAt = None, tr_clientOrderId = None, tr_traceId = None\<rparr>"

definition trade_json :: "trade_row \<Rightarrow> jsval" where
  "trade_json r = obj
     [(''id'', VStr (tr_id r)), (''walletId'', js_str_opt (tr_walletId r)), (''mint'', VStr (tr_mint r)),
      (''tokenName'', js_str_opt (tr_tokenName r)), (''tokenSymbol'', js_str_opt (tr_tokenSymbol r)),
      (''side'', VStr (tr_side r)), (''amountSol'', VNum (tr_amountSol r)), (''price'', js_num_opt (tr_price r)),
      (''status'', VStr (tr_status r)), (''strategy'', VStr (tr_strategy r)),
      (''signature'', js_str_opt (tr_signature r)), (''pnlSol'', js_num_opt (tr_pnlSol r)),
      (''slippageBps'', js_int_opt (tr_slippageBps r)), (''createdAt'', js_date_opt (tr_createdAt r)),
      (''executedAt'', js_date_opt (tr_executedAt r)), (''clientOrderId'', js_str_opt (tr_clientOrderId r)),
      (''traceId'', js_str_opt (tr_traceId r))]"

lemma opt_json:
  "js_str_opt a \<noteq> VUndef" "js_num_opt b \<noteq> VUndef" "js_int_opt c \<noteq> VUndef" "js_date_opt d \<noteq> VUndef"
  "wire (js_str_opt a) = js_str_opt a"
  by (auto simp: js_str_opt_def js_num_opt_def js_int_opt_def js_date_opt_def of_opt_def split: option.splits)

section \<open>strategies\<close>

record strategy_row =
  sr_name :: jstr
  sr_enabled :: bool
  sr_buyAmountSol :: "jsnum option"
  sr_slippageBps :: "int option"
  sr_tradesExecuted :: int
  sr_tradesWon :: int
  sr_totalPnlSol :: jsnum
  sr_updatedAt :: "int option"

definition new_strategy :: "jstr \<Rightarrow> int \<Rightarrow> strategy_row" where
  "new_strategy name now =
     \<lparr>sr_name = name, sr_enabled = True, sr_buyAmountSol = Some (fl (5 / 100)), sr_slippageBps = Some 100,
      sr_tradesExecuted = 0, sr_tradesWon = 0, sr_totalPnlSol = Fin 0, sr_updatedAt = Some now\<rparr>"

section \<open>bot_config and system_config\<close>

record bot_config =
  bc_key :: jstr
  bc_value :: jstr
  bc_updatedAt :: "int option"

record system_config =
  sc_key :: jstr
  sc_value :: jstr
  sc_version :: int
  sc_description :: "jstr option"
  sc_updatedBy :: "jstr option"
  sc_updatedAt :: "int option"

definition new_system_config :: "jstr \<Rightarrow> jstr \<Rightarrow> int \<Rightarrow> system_config" where
  "new_system_config k v now =
     \<lparr>sc_key = k, sc_value = v, sc_version = 1, sc_description = None, sc_updatedBy = None, sc_updatedAt = Some now\<rparr>"

definition system_config_json :: "system_config \<Rightarrow> jsval" where
  "system_config_json r = obj
     [(''key'', VStr (sc_key r)), (''value'', VStr (sc_value r)), (''version'', VNum (NumI (sc_version r))),
      (''description'', js_str_opt (sc_description r)), (''updatedBy'', js_str_opt (sc_updatedBy r)),
      (''updatedAt'', js_date_opt (sc_updatedAt r))]"

section \<open>wallet_config, wallet_registry, wallet_alerts\<close>

record wallet_config =
  wc_walletId :: jstr
  wc_riskPerTradeSol :: jsnum
  wc_dailyLossLimitSol :: jsnum
  wc_strategyPreset :: jstr
  wc_status :: jstr
  wc_ownerPubkey :: "jstr option"
  wc_createdAt :: "int option"
  wc_updatedAt :: "int option"

definition new_wallet_config :: "jstr \<Rightarrow> int \<Rightarrow> wallet_config" where
  "new_wallet_config i now =
     \<lparr>wc_walletId = i, wc_riskPerTradeSol = fl (1 / 10), wc_dailyLossLimitSol = Fin 1,
      wc_strategyPreset = U ''balanced'', wc_status = U ''enabled'', wc_ownerPubkey = None,
      wc_createdAt = Some now, wc_updatedAt = Some now\<rparr>"

definition wallet_config_json :: "wallet_config \<Rightarrow> jsval" where
  "wallet_config_json r = obj
     [(''walletId'', VStr (wc_walletId r)), (''riskPerTradeSol'', VNum (wc_riskPerTradeSol r)),
      (''dailyLossLimitSol'', VNum (wc_dailyLossLimitSol r)), (''strategyPreset'', VStr (wc_strategyPreset r)),
      (''status'', VStr (wc_status r)), (''ownerPubkey'', js_str_opt (wc_ownerPubkey r)),
      (''createdAt'', js_date_opt (wc_createdAt r)), (''updatedAt'', js_date_opt (wc_updatedAt r))]"

record wallet_registry =
  wr_walletId :: jstr
  wr_keypairPath :: "jstr option"
  wr_status :: jstr
  wr_ownerPubkey :: "jstr option"
  wr_lastActiveAt :: "int option"
  wr_createdAt :: "int option"

definition new_wallet_registry :: "jstr \<Rightarrow> int \<Rightarrow> wallet_registry" where
  "new_wallet_registry i now =
     \<lparr>wr_walletId = i, wr_keypairPath = None, wr_status = U ''enabled'', wr_ownerPubkey = None,
      wr_lastActiveAt = None, wr_createdAt = Some now\<rparr>"

record wallet_alert =
  wa_walletId :: jstr
  wa_errorType :: jstr
  wa_count :: int
  wa_lastAt :: "int option"
  wa_autoPausedAt :: "int option"
  wa_createdAt :: "int option"

definition new_wallet_alert :: "jstr \<Rightarrow> jstr \<Rightarrow> int \<Rightarrow> wallet_alert" where
  "new_wallet_alert i t now =
     \<lparr>wa_walletId = i, wa_errorType = t, wa_count = 0, wa_lastAt = Some now, wa_autoPausedAt = None,
      wa_createdAt = Some now\<rparr>"

section \<open>token_metrics\<close>

record token_metric =
  tm_id :: int
  tm_mint :: jstr
  tm_price :: jsnum
  tm_liquiditySol :: "jsnum option"
  tm_marketCapSol :: "jsnum option"
  tm_volume24hSol :: "jsnum option"
  tm_holderCount :: "int option"
  tm_bondingCurveProgress :: "jsnum option"
  tm_recordedAt :: int

definition token_metric_json :: "token_metric \<Rightarrow> jsval" where
  "token_metric_json r = obj
     [(''id'', VNum (NumI (tm_id r))), (''mint'', VStr (tm_mint r)), (''price'', VNum (tm_price r)),
      (''liquiditySol'', js_num_opt (tm_liquiditySol r)), (''marketCapSol'', js_num_opt (tm_marketCapSol r)),
      (''volume24hSol'', js_num_opt (tm_volume24hSol r)), (''holderCount'', js_int_opt (tm_holderCount r)),
      (''bondingCurveProgress'', js_num_opt (tm_bondingCurveProgress r)), (''recordedAt'', VDate (tm_recordedAt r))]"

end
