(* ===== verification/Http.thy ===== *)
theory Http
  imports Tables
begin

text \<open>
  Requests and responses of the Express server, the process environment, and the world outside
  the server as the handlers meet it. The Rust engine (over gRPC), the Python engine (over HTTP)
  and the database are separate programs: a handler gets their answers from the functions of an
  \<open>engines\<close> record, which see the whole history of calls, so that every behaviour of a stateful
  peer is an instance. A handler runs in the state monad over that history (\<open>event list\<close>, in
  order), which makes the calls it sends, and their order, part of its result.
\<close>

section \<open>Responses\<close>

record response =
  r_status :: nat
  r_body :: jsval

definition reply :: "nat \<Rightarrow> jsval \<Rightarrow> response" where
  "reply s b = \<lparr>r_status = s, r_body = b\<rparr>"

abbreviation ok :: "jsval \<Rightarrow> response" where
  "ok b \<equiv> reply 200 b"

definition err_reply :: "nat \<Rightarrow> string \<Rightarrow> response" where
  "err_reply s m = reply s (obj [(''error'', S m)])"

lemma status_reply [simp]: "r_status (reply s b) = s" "r_body (reply s b) = b"
  by (simp_all add: reply_def)

lemma status_err_reply [simp]: "r_status (err_reply s m) = s" "r_body (err_reply s m) = obj [(''error'', S m)]"
  by (simp_all add: err_reply_def)

lemma reply_inject [simp]: "reply s b = reply s' b' \<longleftrightarrow> s = s' \<and> b = b'"
  by (simp add: reply_def)

text \<open>A handler that throws outside its \<open>try\<close> rejects, and Express answers with its own error
  handler: \<open>Crash\<close> keeps the exception.\<close>

datatype outcome = Reply response | Crash exn

section \<open>The environment of the process\<close>

type_synonym env = "jstr \<rightharpoonup> jstr"

definition env_or :: "env \<Rightarrow> string \<Rightarrow> string \<Rightarrow> jstr" where
  \<comment> \<open>\<open>process.env.K ?? "d"\<close>\<close>
  "env_or e k d = (case e (U k) of Some v \<Rightarrow> v | None \<Rightarrow> U d)"

definition env_truthy :: "env \<Rightarrow> string \<Rightarrow> bool" where
  "env_truthy e k \<longleftrightarrow> (case e (U k) of Some v \<Rightarrow> v \<noteq> [] | None \<Rightarrow> False)"

section \<open>Calls to the engines\<close>

record py_req =
  py_url :: jstr
  py_method :: string
  py_body :: "jsval option" \<comment> \<open>the JSON text sent, as the value it denotes\<close>

datatype event =
    GrpcConnect jstr \<comment> \<open>the client of an address is created\<close>
  | RustCall string jsval
  | PyCall py_req
  | DbStrategies
  | NewUuid

type_synonym 'a io = "(event list, 'a) state"

abbreviation ret :: "'a \<Rightarrow> 'a io" where
  "ret \<equiv> State_Monad.return"

text \<open>
  \<open>grpc_load h\<close> is \<open>None\<close> when the proto file loads and the client is created. \<open>rust h m r\<close>: what \<open>client[m](r)\<close> calls back with after the history \<open>h\<close>, an error or a message
  object. \<open>python h q\<close>: whether \<open>fetch\<close> settles with a response, and then \<open>resp.ok\<close> and the outcome
  of \<open>resp.json()\<close>; a timeout is a rejection.
\<close>

record engines =
  grpc_load :: "event list \<Rightarrow> exn option" \<comment> \<open>loading the proto file and making the client\<close>
  grpc_methods :: "string \<Rightarrow> bool" \<comment> \<open>the methods of the service definition\<close>
  rust :: "event list \<Rightarrow> string \<Rightarrow> jsval \<Rightarrow> exn + (jstr \<times> jsval) list"
  python :: "event list \<Rightarrow> py_req \<Rightarrow> exn + (bool \<times> (exn + jsval))"
  db_strategies :: "event list \<Rightarrow> exn + strategy_row list"
  uuid :: "event list \<Rightarrow> jstr"
  proc_env :: env
  proc_uptime :: jsnum

definition call_rust :: "engines \<Rightarrow> string \<Rightarrow> jsval \<Rightarrow> (exn + jsval) io" where
  "call_rust w m r = State (\<lambda>h. (map_sum id VObj (rust w h m r), h @ [RustCall m r]))"

definition call_python :: "engines \<Rightarrow> py_req \<Rightarrow> (exn + (bool \<times> (exn + jsval))) io" where
  "call_python w q = State (\<lambda>h. (python w h q, h @ [PyCall q]))"

definition select_strategies :: "engines \<Rightarrow> (exn + strategy_row list) io" where
  "select_strategies w = State (\<lambda>h. (db_strategies w h, h @ [DbStrategies]))"

definition randomUUID :: "engines \<Rightarrow> jstr io" where
  "randomUUID w = State (\<lambda>h. (uuid w h, h @ [NewUuid]))"

lemma run_call_rust [simp]:
  "run_state (call_rust w m r) h = (map_sum id VObj (rust w h m r), h @ [RustCall m r])"
  by (simp add: call_rust_def)

lemma run_call_python [simp]:
  "run_state (call_python w q) h = (python w h q, h @ [PyCall q])"
  by (simp add: call_python_def)

lemma run_select_strategies [simp]:
  "run_state (select_strategies w) h = (db_strategies w h, h @ [DbStrategies])"
  by (simp add: select_strategies_def)

lemma run_randomUUID [simp]: "run_state (randomUUID w) h = (uuid w h, h @ [NewUuid])"
  by (simp add: randomUUID_def)

text \<open>What a handler answers, the events it adds to the history, and those of them that reach an
  engine.\<close>

definition answer :: "'a io \<Rightarrow> event list \<Rightarrow> 'a" where
  "answer m h = fst (run_state m h)"

fun to_engine :: "event \<Rightarrow> bool" where
  "to_engine (RustCall m r) = True"
| "to_engine (PyCall q) = True"
| "to_engine _ = False"

definition sent :: "'a io \<Rightarrow> event list \<Rightarrow> event list" where
  "sent m h = filter to_engine (drop (length h) (snd (run_state m h)))"

text \<open>A computation only appends to the history.\<close>

definition extends :: "'a io \<Rightarrow> bool" where
  "extends m \<longleftrightarrow> (\<forall>h. \<exists>evs. snd (run_state m h) = h @ evs)"

lemma extendsD: "extends m \<Longrightarrow> run_state m h = (x, h') \<Longrightarrow> \<exists>evs. h' = h @ evs"
  unfolding extends_def by (metis snd_conv)

lemma extends_return [simp, intro]: "extends (ret x)"
  by (simp add: extends_def State_Monad.return_def)

lemma extends_case_sum [simp, intro]:
  "(\<And>a. extends (f a)) \<Longrightarrow> (\<And>b. extends (g b)) \<Longrightarrow> extends (case x of Inl a \<Rightarrow> f a | Inr b \<Rightarrow> g b)"
  by (cases x) auto

lemma extends_if [simp, intro]: "extends m \<Longrightarrow> extends n \<Longrightarrow> extends (if b then m else n)"
  by simp

lemma extends_bind [simp, intro]:
  assumes "extends m" "\<And>x. extends (f x)"
  shows "extends (m \<bind> f)"
proof -
  have "\<exists>evs. snd (run_state (m \<bind> f) h) = h @ evs" for h
  proof -
    obtain x h1 where m: "run_state m h = (x, h1)" by fastforce
    obtain e1 where "h1 = h @ e1" using extendsD [OF assms(1) m] by blast
    moreover obtain e2 where "snd (run_state (f x) h1) = h1 @ e2"
      using assms(2) unfolding extends_def by blast
    ultimately show ?thesis using m by (simp add: run_bind)
  qed
  then show ?thesis by (simp add: extends_def)
qed

lemma extends_calls [simp, intro]:
  "extends (call_rust w m r)" "extends (call_python w q)" "extends (select_strategies w)" "extends (randomUUID w)"
  by (simp_all add: extends_def)

lemma after_no_engine:
  assumes "extends m" "sent m h = []"
  shows "\<exists>evs. snd (run_state m h) = h @ evs \<and> filter to_engine evs = []"
proof -
  obtain evs where "snd (run_state m h) = h @ evs" using assms(1) unfolding extends_def by blast
  then show ?thesis using assms(2) by (auto simp: sent_def)
qed

lemma sent_return [simp]: "sent (ret x) h = []"
  by (simp add: sent_def State_Monad.return_def)

lemma sent_bind:
  assumes "extends m" "\<And>x. extends (f x)"
  shows "sent (m \<bind> f) h = sent m h @ sent (f (answer m h)) (snd (run_state m h))"
proof -
  obtain x h1 where m: "run_state m h = (x, h1)" by fastforce
  obtain e1 where 1: "h1 = h @ e1" using extendsD [OF assms(1) m] by blast
  obtain y h2 where f: "run_state (f x) h1 = (y, h2)" by fastforce
  obtain e2 where "h2 = h1 @ e2" using extendsD [OF assms(2) f] by blast
  with 1 m f show ?thesis by (simp add: sent_def answer_def run_bind)
qed

lemma answer_return [simp]: "answer (ret x) h = x"
  by (simp add: answer_def State_Monad.return_def)

lemma answer_bind: "answer (m \<bind> f) h = answer (f (answer m h)) (snd (run_state m h))"
  by (simp add: answer_def run_bind split_def)

lemma sent_calls [simp]:
  "sent (call_rust w m r) h = [RustCall m r]" "sent (call_python w q) h = [PyCall q]"
  "sent (select_strategies w) h = []" "sent (randomUUID w) h = []"
  by (simp_all add: sent_def)

lemma answer_calls [simp]:
  "answer (call_rust w m r) h = map_sum id VObj (rust w h m r)" "answer (call_python w q) h = python w h q"
  "answer (select_strategies w) h = db_strategies w h" "answer (randomUUID w) h = uuid w h"
  by (simp_all add: answer_def)

text \<open>\<open>{...v}\<close>: the own enumerable properties of a value.\<close>

fun spread :: "jsval \<Rightarrow> (jstr \<times> jsval) list" where
  "spread (VObj ps) = ps"
| "spread (VArr xs) = map (\<lambda>(i, x). (dec_nat i, x)) (List.enumerate 0 xs)"
| "spread (VStr s) = map (\<lambda>(i, c). (dec_nat i, VStr [c])) (List.enumerate 0 s)"
| "spread _ = []"

end
