(* ===== verification/AdminAuth.thy ===== *)
theory AdminAuth
  imports Http
begin

text \<open>
  \<open>lib/admin-auth.ts\<close>: the operator guard in front of every mutating wallet route and of the
  system configuration. \<open>None\<close> stands for \<open>next()\<close>.
\<close>

definition requireAdminKey :: "env \<Rightarrow> jstr option \<Rightarrow> response option" where
  "requireAdminKey e header =
     (case e (U ''ADMIN_API_KEY'') of
        None \<Rightarrow> Some (err_reply 503 ''Admin endpoints are disabled: ADMIN_API_KEY is not configured'')
      | Some adminKey \<Rightarrow>
          if adminKey = [] then
            Some (err_reply 503 ''Admin endpoints are disabled: ADMIN_API_KEY is not configured'')
          else (case header of
              None \<Rightarrow> Some (err_reply 401 ''Unauthorized: valid X-Admin-Key header required'')
            | Some provided \<Rightarrow>
                if provided = [] \<or> provided \<noteq> adminKey
                then Some (err_reply 401 ''Unauthorized: valid X-Admin-Key header required'')
                else None))"

text \<open>Access is granted exactly when a non-empty key is configured and the header equals it.\<close>

definition authorised :: "env \<Rightarrow> jstr option \<Rightarrow> bool" where
  "authorised e header \<longleftrightarrow> header \<noteq> None \<and> header \<noteq> Some [] \<and> header = e (U ''ADMIN_API_KEY'')"

lemma requireAdminKey_None: "requireAdminKey e hdr = None \<longleftrightarrow> authorised e hdr"
  by (auto simp: requireAdminKey_def authorised_def split: option.splits)

lemma requireAdminKey_authorised [simp]: "authorised e hdr \<Longrightarrow> requireAdminKey e hdr = None"
  by (simp add: requireAdminKey_None)

lemma requireAdminKey_Some:
  "requireAdminKey e hdr = Some r \<Longrightarrow>
     \<not> authorised e hdr \<and> r_status r = (if env_truthy e ''ADMIN_API_KEY'' then 401 else 503)"
  by (auto simp: requireAdminKey_def authorised_def env_truthy_def split: option.splits if_splits)

text \<open>A guarded handler: what the router runs for \<open>requireAdminKey, handler\<close>.\<close>

definition admin_only :: "env \<Rightarrow> jstr option \<Rightarrow> ('s \<Rightarrow> outcome \<times> 's) \<Rightarrow> 's \<Rightarrow> outcome \<times> 's" where
  "admin_only e header handler s =
     (case requireAdminKey e header of Some r \<Rightarrow> (Reply r, s) | None \<Rightarrow> handler s)"

lemma admin_only_authorised [simp]: "authorised e hdr \<Longrightarrow> admin_only e hdr f s = f s"
  by (simp add: admin_only_def)

lemma admin_only_refused:
  "\<not> authorised e hdr \<Longrightarrow>
     \<exists>r. admin_only e hdr f s = (Reply r, s) \<and> r_status r = (if env_truthy e ''ADMIN_API_KEY'' then 401 else 503)"
  using requireAdminKey_Some [of e hdr] requireAdminKey_None [of e hdr]
  by (cases "requireAdminKey e hdr") (auto simp: admin_only_def)

end
