(* ===== verification/Store.thy ===== *)
theory Store
  imports Tables
begin

text \<open>
  The database as the handlers use it. PostgreSQL and Drizzle are not part of the repository: a
  table is a record of the statements the source issues against it (\<open>table_ops\<close>), each of which
  may fail with an exception, and the locale \<open>db_table\<close> states what the source relies on, over
  the abstract contents of the table (a map from the primary key). The statements are those the
  source builds: select all, select by primary key, \<open>update \<dots> set \<dots> where pk = k returning\<close>, insert
  with \<open>onConflictDoUpdate\<close> or \<open>onConflictDoNothing\<close>, delete by primary key.

  \<open>mem_ops\<close> is an executable table on association lists with a switch that makes every statement
  fail; it satisfies the laws (\<open>mem_db_table\<close>), so the hypotheses of the theorems that assume
  them can hold.
\<close>

record ('d, 'k, 'r) table_ops =
  t_all :: "'d \<Rightarrow> exn + 'r list"
  t_find :: "'k \<Rightarrow> 'd \<Rightarrow> exn + 'r list"
  t_update :: "'k \<Rightarrow> ('r \<Rightarrow> 'r) \<Rightarrow> 'd \<Rightarrow> (exn + 'r list) \<times> 'd"
  t_upsert :: "'r \<Rightarrow> ('r \<Rightarrow> 'r) \<Rightarrow> 'd \<Rightarrow> (exn + unit) \<times> 'd"
  t_insert_new :: "'r \<Rightarrow> 'd \<Rightarrow> (exn + 'r list) \<times> 'd"
  t_delete :: "'k \<Rightarrow> 'd \<Rightarrow> (exn + unit) \<times> 'd"

definition rows_of :: "'r option \<Rightarrow> 'r list" where
  "rows_of x = (case x of None \<Rightarrow> [] | Some r \<Rightarrow> [r])"

lemma rows_of_simps [simp]: "rows_of None = []" "rows_of (Some r) = [r]"
  by (simp_all add: rows_of_def)

lemma rows_of_Nil [simp]: "rows_of x = [] \<longleftrightarrow> x = None" "[] = rows_of x \<longleftrightarrow> x = None"
  by (cases x; simp)+

locale db_table =
  fixes T :: "('d, 'k, 'r) table_ops"
    and key :: "'r \<Rightarrow> 'k"
    and view :: "'d \<Rightarrow> ('k \<rightharpoonup> 'r)"
    and invar :: "'d \<Rightarrow> bool"
  assumes all_rows: "invar d \<Longrightarrow> t_all T d = Inr rs \<Longrightarrow> set rs = ran (view d) \<and> distinct (map key rs)"
    and view_key: "invar d \<Longrightarrow> view d k = Some r \<Longrightarrow> key r = k"
    and find_rows: "invar d \<Longrightarrow> t_find T k d = Inr rs \<Longrightarrow> rs = rows_of (view d k)"
    and update_ok: "invar d \<Longrightarrow> (\<And>r. key (f r) = key r) \<Longrightarrow> t_update T k f d = (Inr rs, d') \<Longrightarrow>
      rs = rows_of (map_option f (view d k)) \<and> view d' = (view d)(k := map_option f (view d k)) \<and> invar d'"
    and update_fail: "invar d \<Longrightarrow> t_update T k f d = (Inl e, d') \<Longrightarrow> view d' = view d \<and> invar d'"
    and upsert_ok: "invar d \<Longrightarrow> (\<And>r. key (f r) = key r) \<Longrightarrow> t_upsert T r f d = (Inr u, d') \<Longrightarrow>
      view d' = (view d)(key r \<mapsto> (case view d (key r) of None \<Rightarrow> r | Some r0 \<Rightarrow> f r0)) \<and> invar d'"
    and upsert_fail: "invar d \<Longrightarrow> t_upsert T r f d = (Inl e, d') \<Longrightarrow> view d' = view d \<and> invar d'"
    and insert_ok: "invar d \<Longrightarrow> t_insert_new T r d = (Inr rs, d') \<Longrightarrow>
      rs = (if view d (key r) = None then [r] else []) \<and>
      view d' = (if view d (key r) = None then (view d)(key r \<mapsto> r) else view d) \<and> invar d'"
    and insert_fail: "invar d \<Longrightarrow> t_insert_new T r d = (Inl e, d') \<Longrightarrow> view d' = view d \<and> invar d'"
    and delete_ok: "invar d \<Longrightarrow> t_delete T k d = (Inr u, d') \<Longrightarrow> view d' = (view d)(k := None) \<and> invar d'"
    and delete_fail: "invar d \<Longrightarrow> t_delete T k d = (Inl e, d') \<Longrightarrow> view d' = view d \<and> invar d'"

section \<open>Transactions\<close>

text \<open>
  \<open>db.transaction(f)\<close>: the work of the callback is committed when it resolves and rolled back when
  it, or the commit, fails; the exception reaches the caller.
\<close>

definition transaction :: "('d \<Rightarrow> exn option) \<Rightarrow> ('d \<Rightarrow> (exn + 'a) \<times> 'd) \<Rightarrow> 'd \<Rightarrow> (exn + 'a) \<times> 'd" where
  "transaction commit f d =
     (case f d of (Inl e, _) \<Rightarrow> (Inl e, d)
      | (Inr x, d') \<Rightarrow> (case commit d' of None \<Rightarrow> (Inr x, d') | Some e \<Rightarrow> (Inl e, d)))"

lemma transaction_fail: "transaction commit f d = (Inl e, d') \<Longrightarrow> d' = d"
  by (auto simp: transaction_def split: prod.splits sum.splits option.splits)

lemma transaction_ok: "transaction commit f d = (Inr x, d') \<Longrightarrow> f d = (Inr x, d')"
  by (auto simp: transaction_def split: prod.splits sum.splits option.splits)

text \<open>\<open>await\<close> of one statement after another: the first failure ends the sequence.\<close>

definition db_then ::
  "('d \<Rightarrow> (exn + 'a) \<times> 'd) \<Rightarrow> ('a \<Rightarrow> 'd \<Rightarrow> (exn + 'b) \<times> 'd) \<Rightarrow> 'd \<Rightarrow> (exn + 'b) \<times> 'd" where
  "db_then f g d = (case f d of (Inl e, d') \<Rightarrow> (Inl e, d') | (Inr x, d') \<Rightarrow> g x d')"

definition db_return :: "'a \<Rightarrow> 'd \<Rightarrow> (exn + 'a) \<times> 'd" where
  "db_return x d = (Inr x, d)"

lemma db_then_Inr:
  "db_then f g d = (Inr y, d'') \<longleftrightarrow> (\<exists>x d'. f d = (Inr x, d') \<and> g x d' = (Inr y, d''))"
  by (auto simp: db_then_def split: prod.splits sum.splits)

lemma db_return_Inr [simp]: "db_return x d = (Inr y, d') \<longleftrightarrow> y = x \<and> d' = d"
  by (auto simp: db_return_def)

section \<open>A table in memory\<close>

definition db_down :: exn where
  "db_down = Err (U ''connection refused'')"

definition mem_ops ::
  "('d \<Rightarrow> ('k \<times> 'r) list) \<Rightarrow> (('k \<times> 'r) list \<Rightarrow> 'd \<Rightarrow> 'd) \<Rightarrow> ('d \<Rightarrow> bool) \<Rightarrow> ('r \<Rightarrow> 'k) \<Rightarrow> ('d, 'k, 'r) table_ops" where
  "mem_ops rd wr up key =
    \<lparr>t_all = (\<lambda>d. if up d then Inr (map snd (rd d)) else Inl db_down),
     t_find = (\<lambda>k d. if up d then Inr (rows_of (map_of (rd d) k)) else Inl db_down),
     t_update = (\<lambda>k f d. if up d then
        (case map_of (rd d) k of None \<Rightarrow> (Inr [], d) | Some r \<Rightarrow> (Inr [f r], wr (put k (f r) (rd d)) d))
        else (Inl db_down, d)),
     t_upsert = (\<lambda>r f d. if up d then
        (Inr (), wr (put (key r) (case map_of (rd d) (key r) of None \<Rightarrow> r | Some r0 \<Rightarrow> f r0) (rd d)) d)
        else (Inl db_down, d)),
     t_insert_new = (\<lambda>r d. if up d then
        (case map_of (rd d) (key r) of None \<Rightarrow> (Inr [r], wr (put (key r) r (rd d)) d) | Some _ \<Rightarrow> (Inr [], d))
        else (Inl db_down, d)),
     t_delete = (\<lambda>k d. if up d then (Inr (), wr (del k (rd d)) d) else (Inl db_down, d))\<rparr>"

definition well_keyed :: "('r \<Rightarrow> 'k) \<Rightarrow> ('k \<times> 'r) list \<Rightarrow> bool" where
  "well_keyed key xs \<longleftrightarrow> distinct (map fst xs) \<and> (\<forall>p\<in>set xs. key (snd p) = fst p)"

lemma well_keyed_put: "well_keyed key xs \<Longrightarrow> key v = k \<Longrightarrow> well_keyed key (put k v xs)"
  using set_put [of k v xs] by (auto simp: well_keyed_def)

lemma well_keyed_del: "well_keyed key xs \<Longrightarrow> well_keyed key (del k xs)"
  by (auto simp: well_keyed_def) (auto simp: del_def)

lemma well_keyed_map_of: "well_keyed key xs \<Longrightarrow> map_of xs k = Some r \<Longrightarrow> key r = k"
  by (auto simp: well_keyed_def dest: map_of_SomeD)

lemma mem_db_table:
  assumes lens: "\<And>x d. rd (wr x d) = x" and rest: "\<And>x d. J (wr x d) = J d"
  shows "db_table (mem_ops rd wr up key) key (\<lambda>d. map_of (rd d)) (\<lambda>d. well_keyed key (rd d) \<and> J d)"
proof
  fix d rs assume w: "well_keyed key (rd d) \<and> J d" and "t_all (mem_ops rd wr up key) d = Inr rs"
  then have rs: "rs = map snd (rd d)" by (auto simp: mem_ops_def split: if_splits)
  have m: "map key rs = map fst (rd d)" using w unfolding rs well_keyed_def by simp
  have "distinct (map key rs)" unfolding m using w by (simp add: well_keyed_def)
  moreover have "set rs = ran (map_of (rd d))" unfolding rs using w by (simp add: ran_distinct well_keyed_def)
  ultimately show "set rs = ran (map_of (rd d)) \<and> distinct (map key rs)" by simp
next
  fix d k r assume "well_keyed key (rd d) \<and> J d" "map_of (rd d) k = Some r"
  then show "key r = k" by (blast dest: well_keyed_map_of)
next
  fix d k rs assume "well_keyed key (rd d) \<and> J d" "t_find (mem_ops rd wr up key) k d = Inr rs"
  then show "rs = rows_of (map_of (rd d) k)" by (simp add: mem_ops_def split: if_splits)
next
  fix d f k rs d'
  assume w: "well_keyed key (rd d) \<and> J d" and f: "\<And>r. key (f r) = key r"
    and u: "t_update (mem_ops rd wr up key) k f d = (Inr rs, d')"
  show "rs = rows_of (map_option f (map_of (rd d) k)) \<and>
        map_of (rd d') = (map_of (rd d))(k := map_option f (map_of (rd d) k)) \<and> well_keyed key (rd d') \<and> J d'"
  proof (cases "map_of (rd d) k")
    case None
    then have "(map_of (rd d))(k := None) = map_of (rd d)" by (metis fun_upd_triv)
    with None u w show ?thesis by (auto simp: mem_ops_def split: if_splits)
  next
    case (Some r)
    then have "key (f r) = k" using f well_keyed_map_of [OF conjunct1 [OF w]] by simp
    with Some u w show ?thesis by (auto simp: mem_ops_def lens rest well_keyed_put split: if_splits)
  qed
next
  fix d k f e d' assume "well_keyed key (rd d) \<and> J d" "t_update (mem_ops rd wr up key) k f d = (Inl e, d')"
  then show "map_of (rd d') = map_of (rd d) \<and> well_keyed key (rd d') \<and> J d'"
    by (simp add: mem_ops_def split: if_splits option.splits)
next
  fix d f r u d'
  assume w: "well_keyed key (rd d) \<and> J d" and f: "\<And>r. key (f r) = key r"
    and u: "t_upsert (mem_ops rd wr up key) r f d = (Inr u, d')"
  have "key (case map_of (rd d) (key r) of None \<Rightarrow> r | Some r0 \<Rightarrow> f r0) = key r"
    using f well_keyed_map_of [OF conjunct1 [OF w]] by (simp split: option.split)
  with u w show "map_of (rd d') = (map_of (rd d))(key r \<mapsto> (case map_of (rd d) (key r) of None \<Rightarrow> r | Some r0 \<Rightarrow> f r0)) \<and>
      well_keyed key (rd d') \<and> J d'"
    by (auto simp: mem_ops_def lens rest well_keyed_put split: if_splits)
next
  fix d r f e d' assume "well_keyed key (rd d) \<and> J d" "t_upsert (mem_ops rd wr up key) r f d = (Inl e, d')"
  then show "map_of (rd d') = map_of (rd d) \<and> well_keyed key (rd d') \<and> J d'"
    by (simp add: mem_ops_def split: if_splits)
next
  fix d r rs d' assume "well_keyed key (rd d) \<and> J d" "t_insert_new (mem_ops rd wr up key) r d = (Inr rs, d')"
  then show "rs = (if map_of (rd d) (key r) = None then [r] else []) \<and>
      map_of (rd d') = (if map_of (rd d) (key r) = None then (map_of (rd d))(key r \<mapsto> r) else map_of (rd d)) \<and>
      well_keyed key (rd d') \<and> J d'"
    by (auto simp: mem_ops_def lens rest well_keyed_put split: if_splits option.splits)
next
  fix d r e d' assume "well_keyed key (rd d) \<and> J d" "t_insert_new (mem_ops rd wr up key) r d = (Inl e, d')"
  then show "map_of (rd d') = map_of (rd d) \<and> well_keyed key (rd d') \<and> J d'"
    by (simp add: mem_ops_def split: if_splits option.splits)
next
  fix d k u d' assume "well_keyed key (rd d) \<and> J d" "t_delete (mem_ops rd wr up key) k d = (Inr u, d')"
  then show "map_of (rd d') = (map_of (rd d))(k := None) \<and> well_keyed key (rd d') \<and> J d'"
    by (auto simp: mem_ops_def lens rest well_keyed_del split: if_splits)
next
  fix d k e d' assume "well_keyed key (rd d) \<and> J d" "t_delete (mem_ops rd wr up key) k d = (Inl e, d')"
  then show "map_of (rd d') = map_of (rd d) \<and> well_keyed key (rd d') \<and> J d'"
    by (simp add: mem_ops_def split: if_splits)
qed

end
