(* ===== verification/Wallets.thy ===== *)
theory Wallets
  imports AdminAuth Store "HOL-Library.Product_Lexorder"
begin

text \<open>
  \<open>routes/wallets.ts\<close>: per-wallet configuration and status, kept in two tables (\<open>wallet_config\<close> and
  \<open>wallet_registry\<close>) that the routes update together in transactions. A handler maps the database
  and the call history to its answer and the new pair. The clock is the argument \<open>now\<close>.
\<close>

section \<open>Domains and presets\<close>

definition VALID_PRESETS :: "jstr list" where
  "VALID_PRESETS = [U ''conservative'', U ''balanced'', U ''aggressive'']"

definition VALID_STATUSES :: "jstr list" where
  "VALID_STATUSES = [U ''enabled'', U ''paused'', U ''halted'']"

record preset_params =
  pp_risk :: jsnum
  pp_stop :: jsnum
  pp_take :: jsnum
  pp_max :: jsnum

definition PRESET_PARAMS :: "(jstr \<times> preset_params) list" where
  "PRESET_PARAMS =
     [(U ''conservative'', \<lparr>pp_risk = fl (5 / 100), pp_stop = NumI 5, pp_take = NumI 20, pp_max = NumI 2\<rparr>),
      (U ''balanced'', \<lparr>pp_risk = fl (15 / 100), pp_stop = NumI 10, pp_take = NumI 50, pp_max = NumI 5\<rparr>),
      (U ''aggressive'', \<lparr>pp_risk = fl (5 / 10), pp_stop = NumI 20, pp_take = NumI 100, pp_max = NumI 10\<rparr>)]"

definition preset_params_json :: "preset_params \<Rightarrow> jsval" where
  "preset_params_json p = obj
     [(''risk_per_trade_sol'', VNum (pp_risk p)), (''stop_loss_pct'', VNum (pp_stop p)),
      (''take_profit_pct'', VNum (pp_take p)), (''max_positions'', VNum (pp_max p))]"

section \<open>The tables\<close>

text \<open>\<open>w_text\<close> is the database driver's conversion of a parameter to the text of a \<open>text\<close> column;
  \<open>w_commit\<close> is the commit of a transaction, which may fail.\<close>

record 'd wallet_db =
  w_reg :: "('d, jstr, wallet_registry) table_ops"
  w_cfg :: "('d, jstr, wallet_config) table_ops"
  w_commit :: "'d \<Rightarrow> exn option"
  w_text :: "jsval \<Rightarrow> exn + jstr"

text \<open>What the routes rely on: both tables keep the laws of \<open>db_table\<close>, and a statement on one
  table does not touch the other.\<close>

locale wallet_store =
  cfg: db_table "w_cfg W" wc_walletId cview invar + reg: db_table "w_reg W" wr_walletId rview invar
  for W :: "'d wallet_db"
    and cview :: "'d \<Rightarrow> (jstr \<rightharpoonup> wallet_config)"
    and rview :: "'d \<Rightarrow> (jstr \<rightharpoonup> wallet_registry)"
    and invar :: "'d \<Rightarrow> bool" +
  assumes cfg_frame: "invar d \<Longrightarrow> t_update (w_cfg W) k f d = (r, d') \<Longrightarrow> rview d' = rview d"
    and reg_frame: "invar d \<Longrightarrow> t_update (w_reg W) k g d = (r', d') \<Longrightarrow> cview d' = cview d"

section \<open>Reading\<close>

text \<open>\<open>ORDER BY created_at\<close>: ascending, nulls last; rows with equal keys keep the order in which
  the database produced them.\<close>

definition created_key :: "wallet_registry \<Rightarrow> bool \<times> int" where
  "created_key r = (case wr_createdAt r of None \<Rightarrow> (True, 0) | Some t \<Rightarrow> (False, t))"

definition wallet_list_json :: "wallet_registry \<Rightarrow> jsval" where
  "wallet_list_json r = obj
     [(''walletId'', VStr (wr_walletId r)), (''status'', VStr (wr_status r)),
      (''ownerPubkey'', js_str_opt (wr_ownerPubkey r)), (''lastActiveAt'', js_date_opt (wr_lastActiveAt r)),
      (''createdAt'', js_date_opt (wr_createdAt r))]"

definition list_wallets :: "'d wallet_db \<Rightarrow> 'd \<Rightarrow> response" where
  "list_wallets W d =
     (case t_all (w_reg W) d of
        Inr rows \<Rightarrow> ok (VArr (map wallet_list_json (sort_key created_key rows)))
      | Inl _ \<Rightarrow> err_reply 500 ''Failed to list wallets'')"

definition get_wallet_config :: "'d wallet_db \<Rightarrow> jstr \<Rightarrow> 'd \<Rightarrow> response" where
  "get_wallet_config W i d =
     (case t_find (w_cfg W) i d of
        Inr rows \<Rightarrow> (case take 1 rows of [] \<Rightarrow> err_reply 404 ''Wallet config not found''
                    | r # _ \<Rightarrow> ok (wallet_config_json r))
      | Inl _ \<Rightarrow> err_reply 500 ''Failed to load wallet config'')"

section \<open>Updating the configuration\<close>

record config_update =
  cu_risk :: "jsnum option"
  cu_loss :: "jsnum option"
  cu_preset :: "jstr option"
  cu_status :: "jstr option"
  cu_updatedAt :: int

definition positive_field :: "jsval \<Rightarrow> string \<Rightarrow> string \<Rightarrow> outcome + jsnum option" where
  "positive_field body k msg =
     (if get body k = VUndef then Inr None
      else case num_of (get body k) of
          Inl e \<Rightarrow> Inl (Crash e)
        | Inr v \<Rightarrow> if v = NaN \<or> num_le v (Fin 0) then Inl (Reply (err_reply 400 msg)) else Inr (Some v))"

definition member_field :: "jsval \<Rightarrow> string \<Rightarrow> jstr list \<Rightarrow> string \<Rightarrow> outcome + jstr option" where
  "member_field body k valid msg =
     (if get body k = VUndef then Inr None
      else case str_of (get body k) of
          Inl e \<Rightarrow> Inl (Crash e)
        | Inr s \<Rightarrow> if s \<notin> set valid then Inl (Reply (err_reply 400 msg)) else Inr (Some s))"

definition read_update :: "int \<Rightarrow> jsval \<Rightarrow> outcome + config_update" where
  "read_update now body =
     and_then (positive_field body ''risk_per_trade_sol'' ''risk_per_trade_sol must be a positive number'')
       (\<lambda>risk. and_then
         (positive_field body ''daily_loss_limit_sol'' ''daily_loss_limit_sol must be a positive number'')
       (\<lambda>loss. and_then
         (member_field body ''strategy_preset'' VALID_PRESETS
            ''strategy_preset must be conservative, balanced, or aggressive'')
       (\<lambda>preset. and_then
         (member_field body ''status'' VALID_STATUSES ''status must be enabled, paused, or halted'')
       (\<lambda>newStatus. Inr \<lparr>cu_risk = risk, cu_loss = loss, cu_preset = preset, cu_status = newStatus,
                          cu_updatedAt = now\<rparr>))))"

text \<open>\<open>.set(configUpdate)\<close>: a field that is absent from the update is left alone.\<close>

definition apply_update :: "config_update \<Rightarrow> wallet_config \<Rightarrow> wallet_config" where
  "apply_update u r =
     r\<lparr>wc_riskPerTradeSol := (case cu_risk u of None \<Rightarrow> wc_riskPerTradeSol r | Some v \<Rightarrow> v),
       wc_dailyLossLimitSol := (case cu_loss u of None \<Rightarrow> wc_dailyLossLimitSol r | Some v \<Rightarrow> v),
       wc_strategyPreset := (case cu_preset u of None \<Rightarrow> wc_strategyPreset r | Some v \<Rightarrow> v),
       wc_status := (case cu_status u of None \<Rightarrow> wc_status r | Some v \<Rightarrow> v),
       wc_updatedAt := Some (cu_updatedAt u)\<rparr>"

definition config_tx :: "'d wallet_db \<Rightarrow> jstr \<Rightarrow> config_update \<Rightarrow> 'd \<Rightarrow> (exn + wallet_config list) \<times> 'd" where
  "config_tx W i u =
     db_then (t_update (w_cfg W) i (apply_update u)) (\<lambda>updated.
       if updated = [] then db_return updated
       else (case cu_status u of
           None \<Rightarrow> db_return updated
         | Some newStatus \<Rightarrow>
             db_then (t_update (w_reg W) i (wr_status_update (\<lambda>_. newStatus))) (\<lambda>_. db_return updated)))"

definition put_wallet_config :: "'d wallet_db \<Rightarrow> int \<Rightarrow> jstr \<Rightarrow> jsval \<Rightarrow> 'd \<Rightarrow> outcome \<times> 'd" where
  "put_wallet_config W now i body d =
     (if nullish body then (Crash (read_err body ''risk_per_trade_sol''), d)
      else case read_update now body of
        Inl out \<Rightarrow> (out, d)
      | Inr u \<Rightarrow>
          (case transaction (w_commit W) (config_tx W i u) d of
             (Inl _, d') \<Rightarrow> (Reply (err_reply 500 ''Failed to update wallet config''), d')
           | (Inr [], d') \<Rightarrow> (Reply (err_reply 404 ''Wallet config not found''), d')
           | (Inr (r # _), d') \<Rightarrow> (Reply (ok (wallet_config_json r)), d')))"

section \<open>Presets\<close>

definition PYTHON_API :: "env \<Rightarrow> jstr" where
  "PYTHON_API e = env_or e ''PYTHON_API_URL'' ''http://localhost:8001''"

definition apply_preset :: "jstr \<Rightarrow> preset_params \<Rightarrow> int \<Rightarrow> wallet_config \<Rightarrow> wallet_config" where
  "apply_preset preset params now r =
     r\<lparr>wc_strategyPreset := preset, wc_riskPerTradeSol := pp_risk params, wc_updatedAt := Some now\<rparr>"

definition preset_notice :: "env \<Rightarrow> jstr \<Rightarrow> jsval \<Rightarrow> py_req" where
  "preset_notice e preset walletId =
     \<lparr>py_url = PYTHON_API e @ U ''/api/strategy/preset'', py_method = ''PUT'',
      py_body = Some (wire (obj [(''preset'', VStr preset), (''wallet_id'', walletId)]))\<rparr>"

text \<open>The answer of the Python engine is only logged, whatever it is.\<close>

definition put_preset ::
  "'d wallet_db \<Rightarrow> engines \<Rightarrow> int \<Rightarrow> jsval \<Rightarrow> 'd \<times> event list \<Rightarrow> outcome \<times> 'd \<times> event list" where
  "put_preset W w now body s =
     (let (d, h) = s in
      if nullish body then (Crash (read_err body ''preset''), s)
      else let walletId = nvl (get body ''wallet_id'') (S ''wallet_001'') in
        case get body ''preset'' of
          VStr preset \<Rightarrow>
           (if preset = [] \<or> preset \<notin> set VALID_PRESETS then
              (Reply (err_reply 400 ''preset must be conservative, balanced, or aggressive''), s)
            else let params = the (map_of PRESET_PARAMS preset) in
               (case w_text W walletId of
                  Inl _ \<Rightarrow> (Reply (err_reply 500 ''Failed to save preset''), s)
                | Inr key \<Rightarrow>
                  (case t_update (w_cfg W) key (apply_preset preset params now) d of
                     (Inl _, d') \<Rightarrow> (Reply (err_reply 500 ''Failed to save preset''), (d', h))
                   | (Inr updated, d') \<Rightarrow>
                      if updated = [] then
                        (Reply (reply 404 (obj [(''error'', VStr (U ''Wallet config for '' @ [39] @ to_str walletId
                            @ [39] @ U '' not found''))])), (d', h))
                      else
                        (Reply (ok (obj [(''ok'', VBool True), (''preset'', VStr preset), (''walletId'', walletId),
                                         (''params'', preset_params_json params)])),
                         (d', snd (run_state (call_python w (preset_notice (proc_env w) preset walletId)) h))))))
        | _ \<Rightarrow> (Reply (err_reply 400 ''preset must be conservative, balanced, or aggressive''), s))"

definition get_preset :: response where
  "get_preset = ok (VObj (map (\<lambda>(k, p). (k, preset_params_json p)) PRESET_PARAMS))"

section \<open>Pause, resume, halt\<close>

definition status_tx :: "'d wallet_db \<Rightarrow> jstr \<Rightarrow> jstr \<Rightarrow> int \<Rightarrow> 'd \<Rightarrow> (exn + unit) \<times> 'd" where
  "status_tx W i st now =
     db_then (t_update (w_reg W) i (wr_status_update (\<lambda>_. st))) (\<lambda>_.
     db_then (t_update (w_cfg W) i (\<lambda>r. r\<lparr>wc_status := st, wc_updatedAt := Some now\<rparr>)) (\<lambda>_.
     db_return ()))"

definition status_done :: "jstr \<Rightarrow> string \<Rightarrow> string \<Rightarrow> exn + unit \<Rightarrow> response" where
  "status_done i st msg r =
     (case r of Inr _ \<Rightarrow> ok (obj [(''ok'', VBool True), (''walletId'', VStr i), (''status'', S st)])
      | Inl _ \<Rightarrow> err_reply 500 msg)"

definition pause_wallet :: "'d wallet_db \<Rightarrow> int \<Rightarrow> jstr \<Rightarrow> 'd \<Rightarrow> outcome \<times> 'd" where
  "pause_wallet W now i d =
     (let (r, d') = transaction (w_commit W) (status_tx W i (U ''paused'') now) d
      in (Reply (status_done i ''paused'' ''Failed to pause wallet'' r), d'))"

definition resume_wallet :: "'d wallet_db \<Rightarrow> int \<Rightarrow> jstr \<Rightarrow> 'd \<Rightarrow> outcome \<times> 'd" where
  "resume_wallet W now i d =
     (let (r, d') = transaction (w_commit W) (status_tx W i (U ''enabled'') now) d
      in (Reply (status_done i ''enabled'' ''Failed to resume wallet'' r), d'))"

definition halt_wallet :: "'d wallet_db \<Rightarrow> int \<Rightarrow> jstr \<Rightarrow> jsval \<Rightarrow> 'd \<Rightarrow> outcome \<times> 'd" where
  "halt_wallet W now i body d =
     (if nullish body then (Crash (destructure_err body ''confirm''), d)
      else if \<not> truthy (get body ''confirm'') then
        (Reply (err_reply 400 ''Halting a wallet requires { confirm: true } in the request body''), d)
      else let (r, d') = transaction (w_commit W) (status_tx W i (U ''halted'') now) d
           in (Reply (status_done i ''halted'' ''Failed to halt wallet'' r), d'))"

section \<open>The router\<close>

datatype wallet_request =
    GetWallets
  | GetConfig jstr
  | PutConfig jstr jsval
  | PutPreset jsval
  | GetPreset
  | Pause jstr
  | Resume jstr
  | Halt jstr jsval

text \<open>A handler that does not use the call history.\<close>

definition on_db :: "('d \<Rightarrow> outcome \<times> 'd) \<Rightarrow> 'd \<times> event list \<Rightarrow> outcome \<times> 'd \<times> event list" where
  "on_db f s = (let (r, d') = f (fst s) in (r, (d', snd s)))"

fun mutating :: "wallet_request \<Rightarrow> bool" where
  "mutating GetWallets = False"
| "mutating (GetConfig _) = False"
| "mutating GetPreset = False"
| "mutating _ = True"

fun wallet_route ::
  "'d wallet_db \<Rightarrow> engines \<Rightarrow> int \<Rightarrow> jstr option \<Rightarrow> wallet_request \<Rightarrow> 'd \<times> event list \<Rightarrow> outcome \<times> 'd \<times> event list" where
  "wallet_route W w now hdr GetWallets s = (Reply (list_wallets W (fst s)), s)"
| "wallet_route W w now hdr (GetConfig i) s = (Reply (get_wallet_config W i (fst s)), s)"
| "wallet_route W w now hdr (PutConfig i body) s =
     admin_only (proc_env w) hdr (on_db (put_wallet_config W now i body)) s"
| "wallet_route W w now hdr (PutPreset body) s = admin_only (proc_env w) hdr (put_preset W w now body) s"
| "wallet_route W w now hdr GetPreset s = (Reply get_preset, s)"
| "wallet_route W w now hdr (Pause i) s = admin_only (proc_env w) hdr (on_db (pause_wallet W now i)) s"
| "wallet_route W w now hdr (Resume i) s = admin_only (proc_env w) hdr (on_db (resume_wallet W now i)) s"
| "wallet_route W w now hdr (Halt i body) s =
     admin_only (proc_env w) hdr (on_db (halt_wallet W now i body)) s"

section \<open>Effects on the tables\<close>

text \<open>The specification: what a request does to the contents of the two tables when it is answered
  with 200.\<close>

type_synonym wallet_view = "(jstr \<rightharpoonup> wallet_config) \<times> (jstr \<rightharpoonup> wallet_registry)"

definition change :: "'k \<Rightarrow> ('r \<Rightarrow> 'r) \<Rightarrow> ('k \<rightharpoonup> 'r) \<Rightarrow> 'k \<rightharpoonup> 'r" where
  "change k f m = m(k := map_option f (m k))"

lemma change_None [simp]: "m k = None \<Longrightarrow> change k f m = m"
  by (auto simp: change_def fun_eq_iff)

lemma change_eq_None [simp]: "change k f m i = None \<longleftrightarrow> m i = None"
  by (simp add: change_def)

lemma change_Some: "change k f m i = Some r \<longleftrightarrow> (\<exists>r0. m i = Some r0 \<and> r = (if i = k then f r0 else r0))"
  by (auto simp: change_def)

definition set_status :: "jstr \<Rightarrow> jstr \<Rightarrow> int \<Rightarrow> wallet_view \<Rightarrow> wallet_view" where
  "set_status i st now v =
     (change i (\<lambda>r. r\<lparr>wc_status := st, wc_updatedAt := Some now\<rparr>) (fst v),
      change i (wr_status_update (\<lambda>_. st)) (snd v))"

fun wallet_effect :: "(jsval \<Rightarrow> exn + jstr) \<Rightarrow> int \<Rightarrow> wallet_request \<Rightarrow> wallet_view \<Rightarrow> wallet_view" where
  "wallet_effect txt now (PutConfig i body) v =
     (case read_update now body of
        Inr u \<Rightarrow> (change i (apply_update u) (fst v),
                  (case cu_status u of None \<Rightarrow> snd v | Some st \<Rightarrow> change i (wr_status_update (\<lambda>_. st)) (snd v)))
      | Inl _ \<Rightarrow> v)"
| "wallet_effect txt now (PutPreset body) v =
     (case (get body ''preset'', txt (nvl (get body ''wallet_id'') (S ''wallet_001''))) of
        (VStr p, Inr key) \<Rightarrow>
           (case map_of PRESET_PARAMS p of
              Some params \<Rightarrow> (change key (apply_preset p params now) (fst v), snd v)
            | None \<Rightarrow> v)
      | _ \<Rightarrow> v)"
| "wallet_effect txt now (Pause i) v = set_status i (U ''paused'') now v"
| "wallet_effect txt now (Resume i) v = set_status i (U ''enabled'') now v"
| "wallet_effect txt now (Halt i body) v = set_status i (U ''halted'') now v"
| "wallet_effect txt now _ v = v"

fun is_ok :: "outcome \<Rightarrow> bool" where
  "is_ok (Reply r) = (r_status r = 200)"
| "is_ok (Crash _) = False"

lemma preset_keys: "p \<in> set VALID_PRESETS \<longleftrightarrow> map_of PRESET_PARAMS p \<noteq> None"
  by (auto simp: VALID_PRESETS_def PRESET_PARAMS_def)

lemma positive_field_status: "positive_field b k m = Inl out \<Longrightarrow> \<not> is_ok out"
  by (auto simp: positive_field_def split: if_splits sum.splits)

lemma member_field_status: "member_field b k vs m = Inl out \<Longrightarrow> \<not> is_ok out"
  by (auto simp: member_field_def split: if_splits sum.splits)

lemma read_update_status: "read_update now b = Inl out \<Longrightarrow> \<not> is_ok out"
  by (auto simp: read_update_def and_then_def split: sum.splits
      dest: positive_field_status member_field_status)

lemma positive_field_pos: "positive_field b k m = Inr (Some v) \<Longrightarrow> num_lt (Fin 0) v"
  by (cases v) (auto simp: positive_field_def num_le_def num_eq_def split: if_splits sum.splits)

lemma member_field_mem: "member_field b k vs m = Inr (Some v) \<Longrightarrow> v \<in> set vs"
  by (auto simp: member_field_def split: if_splits sum.splits)

lemma read_update_domain:
  assumes "read_update now b = Inr u"
  shows "case_option True (num_lt (Fin 0)) (cu_risk u)" "case_option True (num_lt (Fin 0)) (cu_loss u)"
    "case_option True (\<lambda>p. p \<in> set VALID_PRESETS) (cu_preset u)"
    "case_option True (\<lambda>p. p \<in> set VALID_STATUSES) (cu_status u)"
  using assms
  by (auto simp: read_update_def and_then_Inr dest: positive_field_pos member_field_mem split: option.splits)

context wallet_store
begin

abbreviation views :: "'d \<Rightarrow> wallet_view" where
  "views d \<equiv> (cview d, rview d)"

lemma cfg_update:
  assumes "invar d" "\<And>r. wc_walletId (f r) = wc_walletId r" "t_update (w_cfg W) k f d = (Inr rs, d')"
  shows "rs = rows_of (map_option f (cview d k))" "cview d' = change k f (cview d)" "rview d' = rview d" "invar d'"
  using cfg.update_ok [OF assms] cfg_frame [OF assms(1,3)] by (auto simp: change_def)

lemma reg_update:
  assumes "invar d" "\<And>r. wr_walletId (f r) = wr_walletId r" "t_update (w_reg W) k f d = (Inr rs, d')"
  shows "rview d' = change k f (rview d)" "cview d' = cview d" "invar d'"
  using reg.update_ok [OF assms] reg_frame [OF assms(1,3)] by (auto simp: change_def)

lemma cfg_update_fail:
  assumes "invar d" "t_update (w_cfg W) k f d = (Inl e, d')"
  shows "cview d' = cview d" "rview d' = rview d" "invar d'"
  using cfg.update_fail [OF assms] cfg_frame [OF assms] by auto

lemma status_tx_ok:
  assumes "invar d" "status_tx W i st now d = (Inr u, d')"
  shows "views d' = set_status i st now (views d)" "invar d'"
proof -
  obtain x d1 where 1: "t_update (w_reg W) i (wr_status_update (\<lambda>_. st)) d = (Inr x, d1)"
    and "\<exists>y. t_update (w_cfg W) i (\<lambda>r. r\<lparr>wc_status := st, wc_updatedAt := Some now\<rparr>) d1 = (Inr y, d')"
    using assms(2) by (auto simp: status_tx_def db_then_Inr)
  then obtain y where 2: "t_update (w_cfg W) i (\<lambda>r. r\<lparr>wc_status := st, wc_updatedAt := Some now\<rparr>) d1 = (Inr y, d')"
    by blast
  note r = reg_update [OF assms(1) _ 1, simplified]
  note c = cfg_update [OF r(3) _ 2, simplified]
  show "views d' = set_status i st now (views d)" "invar d'"
    using r c by (simp_all add: set_status_def)
qed

lemma config_tx_ok:
  assumes "invar d" "config_tx W i u d = (Inr rs, d')"
  shows "rs = rows_of (map_option (apply_update u) (cview d i))"
    "views d' = (if rs = [] then views d
       else (change i (apply_update u) (cview d),
             (case cu_status u of None \<Rightarrow> rview d | Some st \<Rightarrow> change i (wr_status_update (\<lambda>_. st)) (rview d))))"
    "invar d'"
proof -
  obtain x d1 where 1: "t_update (w_cfg W) i (apply_update u) d = (Inr x, d1)"
    and 2: "(if x = [] then db_return x
       else (case cu_status u of None \<Rightarrow> db_return x
         | Some newStatus \<Rightarrow>
             db_then (t_update (w_reg W) i (wr_status_update (\<lambda>_. newStatus))) (\<lambda>_. db_return x))) d1 = (Inr rs, d')"
    using assms(2) by (auto simp: config_tx_def db_then_Inr)
  have key: "wc_walletId (apply_update u r) = wc_walletId r" for r by (simp add: apply_update_def)
  note c = cfg_update [OF assms(1) key 1]
  have rs: "rs = x" using 2 by (auto simp: db_then_Inr split: if_splits option.splits)
  show "rs = rows_of (map_option (apply_update u) (cview d i))" using c(1) rs by simp
  show "views d' = (if rs = [] then views d
       else (change i (apply_update u) (cview d),
             (case cu_status u of None \<Rightarrow> rview d | Some st \<Rightarrow> change i (wr_status_update (\<lambda>_. st)) (rview d))))"
    "invar d'"
    using 2 c rs reg_update [OF c(4), of "wr_status_update (\<lambda>_. the (cu_status u))" i _ d']
    by (auto simp: db_then_Inr split: if_splits option.splits)
qed

lemma status_done_ok: "is_ok (Reply (status_done i st m r)) \<longleftrightarrow> (\<exists>u. r = Inr u)"
  by (auto simp: status_done_def split: sum.splits)

lemma status_route:
  assumes "invar d" "(case transaction (w_commit W) (status_tx W i (U st) now) d of
      (r, d') \<Rightarrow> (Reply (status_done i st m r), d')) = (out, d')"
  shows "views d' = (if is_ok out then set_status i (U st) now (views d) else views d) \<and> invar d'"
proof (cases "transaction (w_commit W) (status_tx W i (U st) now) d")
  case (Pair r d1)
  show ?thesis
  proof (cases r)
    case (Inl e)
    then have "d1 = d" using Pair by (auto dest: transaction_fail)
    then show ?thesis using assms Pair Inl by (auto simp: status_done_def)
  next
    case (Inr u)
    then have "status_tx W i (U st) now d = (Inr u, d1)" using Pair by (auto dest: transaction_ok)
    note status_tx_ok [OF assms(1) this]
    then show ?thesis using assms(2) Pair Inr by (auto simp: status_done_def)
  qed
qed

lemma put_config_route:
  assumes "invar d" "put_wallet_config W now i b d = (out, d')"
  shows "views d' = (if is_ok out then wallet_effect (w_text W) now (PutConfig i b) (views d) else views d) \<and> invar d'"
proof (cases "nullish b \<or> (\<exists>r. read_update now b = Inl r)")
  case True
  then show ?thesis using assms read_update_status [of now b]
    by (cases "nullish b") (auto simp: put_wallet_config_def)
next
  case False
  then obtain u where u: "read_update now b = Inr u" by (cases "read_update now b") auto
  obtain r d1 where t: "transaction (w_commit W) (config_tx W i u) d = (r, d1)" by fastforce
  show ?thesis
  proof (cases r)
    case (Inl e)
    then have "d1 = d" using t by (auto dest: transaction_fail)
    then show ?thesis using assms False u t Inl by (auto simp: put_wallet_config_def)
  next
    case (Inr rs)
    then have "config_tx W i u d = (Inr rs, d1)" using t by (auto dest: transaction_ok)
    note c = config_tx_ok [OF assms(1) this]
    show ?thesis
    proof (cases rs)
      case Nil
      then show ?thesis using assms False u t Inr c by (auto simp: put_wallet_config_def)
    next
      case (Cons x xs)
      then show ?thesis using assms False u t Inr c
        by (auto simp: put_wallet_config_def split: option.splits)
    qed
  qed
qed

lemma put_preset_route:
  assumes "invar d" "put_preset W w now b (d, h) = (out, (d', h'))"
  shows "views d' = (if is_ok out then wallet_effect (w_text W) now (PutPreset b) (views d) else views d) \<and> invar d'"
proof (cases "\<exists>p params key. get b ''preset'' = VStr p \<and> map_of PRESET_PARAMS p = Some params
    \<and> w_text W (nvl (get b ''wallet_id'') (S ''wallet_001'')) = Inr key \<and> \<not> nullish b")
  case False
  then show ?thesis using assms preset_keys
    by (auto simp: put_preset_def Let_def split: if_splits jsval.splits sum.splits)
next
  case True
  then obtain p params key where k: "get b ''preset'' = VStr p" "map_of PRESET_PARAMS p = Some params"
    "w_text W (nvl (get b ''wallet_id'') (S ''wallet_001'')) = Inr key" "\<not> nullish b" by blast
  have p: "p \<in> set VALID_PRESETS" "p \<noteq> []"
    using k(2) preset_keys [of p] by (auto simp: VALID_PRESETS_def)
  obtain r d1 where t: "t_update (w_cfg W) key (apply_preset p params now) d = (r, d1)" by fastforce
  have same: "wc_walletId (apply_preset p params now x) = wc_walletId x" for x by (simp add: apply_preset_def)
  show ?thesis
  proof (cases r)
    case (Inl e)
    then show ?thesis using assms k p t cfg_update_fail [OF assms(1), of key "apply_preset p params now" e d1]
      by (auto simp: put_preset_def Let_def)
  next
    case (Inr rs)
    note c = cfg_update [OF assms(1) same t [unfolded Inr]]
    show ?thesis
    proof (cases rs)
      case Nil
      then show ?thesis using assms k p t Inr c by (auto simp: put_preset_def Let_def)
    next
      case (Cons x xs)
      then show ?thesis using assms k p t Inr c by (auto simp: put_preset_def Let_def)
    qed
  qed
qed

lemma route_effect:
  assumes "invar d" "wallet_route W w now hdr req (d, h) = (out, (d', h'))"
  shows "views d' = (if is_ok out \<and> (mutating req \<longrightarrow> authorised (proc_env w) hdr)
       then wallet_effect (w_text W) now req (views d) else views d) \<and> invar d'"
proof (cases "mutating req \<and> \<not> authorised (proc_env w) hdr")
  case True
  then show ?thesis using assms by (cases req) (auto simp: admin_only_def requireAdminKey_None [symmetric] split: option.splits)
next
  case False
  note defs = admin_only_def on_db_def pause_wallet_def resume_wallet_def halt_wallet_def Let_def
  show ?thesis
  proof (cases req)
    case (PutConfig i b)
    then show ?thesis using assms False put_config_route [of d now i b out d']
      by (auto simp: on_db_def split: prod.splits)
  next
    case (PutPreset b)
    then show ?thesis using assms False put_preset_route [of d w now b h out d' h'] by simp
  next
    case (Pause i)
    then show ?thesis using assms False status_route [where d = d and i = i and st = "''paused''" and now = now and out = out and d' = d']
      by (auto simp: defs split: prod.splits)
  next
    case (Resume i)
    then show ?thesis using assms False status_route [where d = d and i = i and st = "''enabled''" and now = now and out = out and d' = d']
      by (auto simp: defs split: prod.splits)
  next
    case (Halt i b)
    then show ?thesis using assms False status_route [where d = d and i = i and st = "''halted''" and now = now and out = out and d' = d']
      by (auto simp: defs split: prod.splits if_splits)
  qed (use assms False in auto)
qed

end

section \<open>Two tables in memory\<close>

record mem_wallets =
  mw_cfg :: "(jstr \<times> wallet_config) list"
  mw_reg :: "(jstr \<times> wallet_registry) list"
  mw_up :: bool

definition mem_wallet_db :: "mem_wallets wallet_db" where
  "mem_wallet_db =
     \<lparr>w_reg = mem_ops mw_reg (\<lambda>x. mw_reg_update (\<lambda>_. x)) mw_up wr_walletId,
      w_cfg = mem_ops mw_cfg (\<lambda>x. mw_cfg_update (\<lambda>_. x)) mw_up wc_walletId,
      w_commit = (\<lambda>_. None),
      w_text = (\<lambda>v. case v of VStr s \<Rightarrow> Inr s | _ \<Rightarrow> Inl NotError)\<rparr>"

definition mem_invar :: "mem_wallets \<Rightarrow> bool" where
  "mem_invar d \<longleftrightarrow> well_keyed wc_walletId (mw_cfg d) \<and> well_keyed wr_walletId (mw_reg d)"

interpretation mem_wallets: wallet_store mem_wallet_db "\<lambda>d. map_of (mw_cfg d)" "\<lambda>d. map_of (mw_reg d)" mem_invar
proof -
  have c: "db_table (w_cfg mem_wallet_db) wc_walletId (\<lambda>d. map_of (mw_cfg d)) mem_invar"
    using mem_db_table [of mw_cfg "\<lambda>x. mw_cfg_update (\<lambda>_. x)" "\<lambda>d. well_keyed wr_walletId (mw_reg d)" mw_up wc_walletId]
    by (simp add: mem_wallet_db_def mem_invar_def [abs_def])
  have r: "db_table (w_reg mem_wallet_db) wr_walletId (\<lambda>d. map_of (mw_reg d)) mem_invar"
    using mem_db_table [of mw_reg "\<lambda>x. mw_reg_update (\<lambda>_. x)" "\<lambda>d. well_keyed wc_walletId (mw_cfg d)" mw_up wr_walletId]
    by (simp add: mem_wallet_db_def mem_invar_def [abs_def] conj_commute)
  show "wallet_store mem_wallet_db (\<lambda>d. map_of (mw_cfg d)) (\<lambda>d. map_of (mw_reg d)) mem_invar"
    by (intro wallet_store.intro c r wallet_store_axioms.intro)
      (auto simp: mem_wallet_db_def mem_ops_def split: if_splits option.splits)
qed

section \<open>Properties\<close>

text \<open>The wallet rows are well formed: every status and preset is in its domain, the two limits are
  positive, and the two tables agree on the status of a wallet that both hold.\<close>

definition wallet_row_ok :: "wallet_config \<Rightarrow> bool" where
  "wallet_row_ok r \<longleftrightarrow> wc_status r \<in> set VALID_STATUSES \<and> wc_strategyPreset r \<in> set VALID_PRESETS
     \<and> num_lt (Fin 0) (wc_riskPerTradeSol r) \<and> num_lt (Fin 0) (wc_dailyLossLimitSol r)"

definition wallets_ok :: "wallet_view \<Rightarrow> bool" where
  "wallets_ok v \<longleftrightarrow> (\<forall>i r. fst v i = Some r \<longrightarrow> wallet_row_ok r) \<and>
     (\<forall>i r g. fst v i = Some r \<longrightarrow> snd v i = Some g \<longrightarrow> wc_status r = wr_status g)"

lemma wallets_ok_change:
  assumes "wallets_ok v" "\<And>r. fst v k = Some r \<Longrightarrow> wallet_row_ok r \<Longrightarrow> wallet_row_ok (f r)"
    "\<And>r g. fst v k = Some r \<Longrightarrow> snd v k = Some g \<Longrightarrow> wc_status r = wr_status g \<Longrightarrow> wc_status (f r) = wr_status (h g)"
  shows "wallets_ok (change k f (fst v), change k h (snd v))"
  using assms by (fastforce simp: wallets_ok_def change_Some)

lemma change_id [simp]: "change k (\<lambda>r. r) m = m"
  by (auto simp: change_def fun_eq_iff map_option.identity)

lemma set_status_ok:
  "wallets_ok v \<Longrightarrow> st \<in> set VALID_STATUSES \<Longrightarrow> wallets_ok (set_status i st now v)"
  unfolding set_status_def by (rule wallets_ok_change) (auto simp: wallet_row_ok_def)

lemma apply_update_ok:
  "read_update now b = Inr u \<Longrightarrow> wallet_row_ok r \<Longrightarrow> wallet_row_ok (apply_update u r)"
  using read_update_domain [of now b u] by (auto simp: wallet_row_ok_def apply_update_def split: option.splits)

lemma apply_update_status:
  "wc_status (apply_update u r) = (case cu_status u of None \<Rightarrow> wc_status r | Some st \<Rightarrow> st)"
  by (simp add: apply_update_def)

lemma preset_params_pos: "map_of PRESET_PARAMS p = Some q \<Longrightarrow> num_lt (Fin 0) (pp_risk q)"
  by (auto simp: PRESET_PARAMS_def fl_eval split: if_splits)

lemma apply_preset_ok:
  "map_of PRESET_PARAMS p = Some q \<Longrightarrow> wallet_row_ok r \<Longrightarrow> wallet_row_ok (apply_preset p q now r)"
  using preset_keys [of p] preset_params_pos [of p q] by (auto simp: wallet_row_ok_def apply_preset_def)

lemma wallet_effect_ok:
  assumes "wallets_ok v"
  shows "wallets_ok (wallet_effect txt now req v)"
proof (cases req)
  case (PutConfig i b)
  show ?thesis
  proof (cases "read_update now b")
    case (Inr u)
    have "wallets_ok (change i (apply_update u) (fst v),
        change i (case cu_status u of None \<Rightarrow> (\<lambda>r. r) | Some st \<Rightarrow> wr_status_update (\<lambda>_. st)) (snd v))"
      using assms by (rule wallets_ok_change)
        (auto simp: apply_update_ok [OF Inr] apply_update_status split: option.splits)
    then show ?thesis using Inr by (simp add: PutConfig split: option.splits)
  qed (simp add: PutConfig assms)
next
  case (PutPreset b)
  have "wallets_ok (change key (apply_preset p q now) (fst v), change key (\<lambda>r. r) (snd v))"
    if "map_of PRESET_PARAMS p = Some q" for p q key
    using assms by (rule wallets_ok_change) (auto simp: apply_preset_ok [OF that], simp add: apply_preset_def)
  then show ?thesis using assms by (simp add: PutPreset split: jsval.split sum.split option.split)
qed (use assms in \<open>simp_all add: set_status_ok VALID_STATUSES_def\<close>)

text \<open>A run of the router: requests arrive one after another, each with its time and header.\<close>

type_synonym wallet_call = "int \<times> jstr option \<times> wallet_request"

fun wallet_run ::
  "'d wallet_db \<Rightarrow> engines \<Rightarrow> wallet_call list \<Rightarrow> 'd \<times> event list \<Rightarrow> 'd \<times> event list" where
  "wallet_run W w [] s = s"
| "wallet_run W w ((now, hdr, req) # cs) s = wallet_run W w cs (snd (wallet_route W w now hdr req s))"

context wallet_store
begin

lemma run_ok:
  "invar d \<Longrightarrow> wallets_ok (views d) \<Longrightarrow> wallet_run W w cs (d, h) = (d', h') \<Longrightarrow> invar d' \<and> wallets_ok (views d')"
proof (induction cs arbitrary: d h)
  case (Cons c cs)
  obtain now hdr req where c: "c = (now, hdr, req)" by (cases c) auto
  obtain out d1 h1 where r: "wallet_route W w now hdr req (d, h) = (out, (d1, h1))" by (metis prod.collapse)
  note e = route_effect [OF Cons.prems(1) r]
  have "wallets_ok (views d1)"
    using e wallet_effect_ok [OF Cons.prems(2), of "w_text W" now req] Cons.prems(2) by (simp split: if_splits)
  then show ?case using Cons.IH [of d1 h1] Cons.prems(3) e r c by simp
qed simp

end

text \<open>C9: the admin guard fails closed. Without a configured \<open>ADMIN_API_KEY\<close>, or with a missing or
  wrong header, every mutating wallet route answers 503 or 401 and changes neither the tables nor
  sends any call.\<close>

theorem wallet_auth_fail_closed:
  assumes "mutating req" and "\<not> authorised (proc_env w) hdr"
  shows "\<exists>r. wallet_route W w now hdr req s = (Reply r, s)
      \<and> r_status r = (if env_truthy (proc_env w) ''ADMIN_API_KEY'' then 401 else 503)"
  using assms admin_only_refused [OF assms(2)] by (cases req) auto

text \<open>C1: every wallet request refines its effect on the two tables. A request that is answered with
  200 changes the contents exactly as \<open>wallet_effect\<close> says (the named fields of the named wallet, in
  both tables, nothing else); one that is answered in any other way, or fails at any statement or at
  the commit, leaves both tables as they were.\<close>

theorem wallet_requests_refine:
  assumes "wallet_store W cview rview invar" and "invar d"
    and "wallet_route W w now hdr req (d, h) = (out, (d', h'))"
  shows "(cview d', rview d') =
      (if is_ok out \<and> (mutating req \<longrightarrow> authorised (proc_env w) hdr)
       then wallet_effect (w_text W) now req (cview d, rview d) else (cview d, rview d)) \<and> invar d'"
  by (rule wallet_store.route_effect [OF assms])

text \<open>C8: after any sequence of wallet requests, successful or failed, statuses and presets stay in
  their domains, the risk and loss limits stay positive, and the configuration and the registry agree
  on every wallet's status.\<close>

theorem wallet_status_consistent:
  assumes "wallet_store W cview rview invar" and "invar d" and "wallets_ok (cview d, rview d)"
    and "wallet_run W w cs (d, h) = (d', h')"
  shows "wallets_ok (cview d', rview d')"
  using wallet_store.run_ok [OF assms] by simp

text \<open>a halted wallet is enabled again by a successful resume: the status the route comment calls
  permanent is not.\<close>

theorem halt_is_reversible:
  assumes "wallet_store W cview rview invar" and "invar d"
    and "cview d i = Some row" and "wc_status row = U ''halted''" and "rview d i = Some reg"
    and "wallet_route W w now hdr (Resume i) (d, h) = (Reply r, (d', h'))" and "r_status r = 200"
    and "authorised (proc_env w) hdr"
  shows "\<exists>row' reg'. cview d' i = Some row' \<and> wc_status row' = U ''enabled''
      \<and> rview d' i = Some reg' \<and> wr_status reg' = U ''enabled''"
  using wallet_store.route_effect [OF assms(1,2,6)] assms(3,5,7,8) by (auto simp: set_status_def change_def)

section \<open>A concrete run\<close>

definition demo_env :: env where
  "demo_env = [U ''ADMIN_API_KEY'' \<mapsto> U ''k'']"

definition demo_engines :: engines where
  "demo_engines = \<lparr>grpc_load = (\<lambda>_. None), grpc_methods = (\<lambda>_. True), rust = (\<lambda>_ _ _. Inl db_down), python = (\<lambda>_ _. Inl db_down), db_strategies = (\<lambda>_. Inl db_down),
     uuid = (\<lambda>_. U ''id''), proc_env = demo_env, proc_uptime = NumI 1\<rparr>"

definition demo_wallets :: "string \<Rightarrow> mem_wallets" where
  "demo_wallets st =
     \<lparr>mw_cfg = [(U ''w1'', (new_wallet_config (U ''w1'') 0)\<lparr>wc_status := U st\<rparr>)],
      mw_reg = [(U ''w1'', (new_wallet_registry (U ''w1'') 0)\<lparr>wr_status := U st\<rparr>)], mw_up = True\<rparr>"

lemma demo_invar [simp]: "mem_invar (demo_wallets st)"
  by (simp add: mem_invar_def well_keyed_def demo_wallets_def new_wallet_config_def new_wallet_registry_def)

lemma demo_authorised [simp]: "authorised (proc_env demo_engines) (Some (U ''k''))"
  by (simp add: authorised_def demo_engines_def demo_env_def)

theorem wallet_auth_fail_closed_witness:
  "\<exists>r. wallet_route mem_wallet_db demo_engines 5 (Some (U ''x'')) (Pause (U ''w1'')) (demo_wallets ''enabled'', [])
        = (Reply r, (demo_wallets ''enabled'', []))
      \<and> r_status r = (if env_truthy (proc_env demo_engines) ''ADMIN_API_KEY'' then 401 else 503)"
  by (rule wallet_auth_fail_closed) (auto simp: authorised_def demo_engines_def demo_env_def)

theorem wallet_requests_refine_witness:
  "\<exists>out d' h'. wallet_route mem_wallet_db demo_engines 5 (Some (U ''k'')) (Pause (U ''w1''))
        (demo_wallets ''enabled'', []) = (out, (d', h')) \<and> mem_invar d' \<and> map_of (mw_cfg d') (U ''w1'') =
     map_option (\<lambda>r. r\<lparr>wc_status := U ''paused'', wc_updatedAt := Some 5\<rparr>)
       (map_of (mw_cfg (demo_wallets ''enabled'')) (U ''w1''))"
proof -
  obtain out d' h' where r: "wallet_route mem_wallet_db demo_engines 5 (Some (U ''k'')) (Pause (U ''w1''))
      (demo_wallets ''enabled'', []) = (out, (d', h'))" by (metis prod.collapse)
  have "is_ok out" using r by (auto simp: on_db_def pause_wallet_def transaction_def status_tx_def db_then_def
        db_return_def mem_wallet_db_def mem_ops_def demo_wallets_def status_done_def)
  then show ?thesis
    using wallet_requests_refine [OF mem_wallets.wallet_store_axioms demo_invar r] r
    by (auto simp: set_status_def change_def)
qed

theorem wallet_status_consistent_witness:
  "\<exists>d' h'. wallet_run mem_wallet_db demo_engines
      [(5, Some (U ''k''), Pause (U ''w1'')), (6, Some (U ''k''), PutConfig (U ''w1'') (obj [(''status'', S ''halted'')]))]
      (demo_wallets ''enabled'', []) = (d', h') \<and> wallets_ok (map_of (mw_cfg d'), map_of (mw_reg d'))"
proof -
  obtain d' h' where r: "wallet_run mem_wallet_db demo_engines
      [(5, Some (U ''k''), Pause (U ''w1'')), (6, Some (U ''k''), PutConfig (U ''w1'') (obj [(''status'', S ''halted'')]))]
      (demo_wallets ''enabled'', []) = (d', h')" by (metis prod.collapse)
  have ok: "wallets_ok (map_of (mw_cfg (demo_wallets ''enabled'')), map_of (mw_reg (demo_wallets ''enabled'')))"
    by (auto simp: wallets_ok_def wallet_row_ok_def demo_wallets_def new_wallet_config_def new_wallet_registry_def
        VALID_STATUSES_def VALID_PRESETS_def fl_eval split: if_splits)
  show ?thesis
    using wallet_status_consistent [OF mem_wallets.wallet_store_axioms demo_invar ok r] r by blast
qed

theorem halt_is_reversible_witness:
  "\<exists>row reg out d' h'. wallet_route mem_wallet_db demo_engines 5 (Some (U ''k'')) (Resume (U ''w1''))
        (demo_wallets ''halted'', []) = (out, (d', h')) \<and> map_of (mw_cfg d') (U ''w1'') = Some row \<and> wc_status row = U ''enabled''
      \<and> map_of (mw_reg d') (U ''w1'') = Some reg \<and> wr_status reg = U ''enabled''"
proof -
  obtain out d' h' where r: "wallet_route mem_wallet_db demo_engines 5 (Some (U ''k'')) (Resume (U ''w1''))
      (demo_wallets ''halted'', []) = (out, (d', h'))" by (metis prod.collapse)
  have "\<exists>x. out = Reply x \<and> r_status x = 200" using r by (auto simp: on_db_def resume_wallet_def transaction_def
        status_tx_def db_then_def db_return_def mem_wallet_db_def mem_ops_def demo_wallets_def status_done_def)
  then obtain x where x: "out = Reply x" "r_status x = 200" by blast
  show ?thesis
    using halt_is_reversible [OF mem_wallets.wallet_store_axioms demo_invar, of _ "U ''w1''", OF _ _ _ r [unfolded x(1)] x(2) demo_authorised] r
    by (auto simp: demo_wallets_def)
qed

end
