(* ===== verification/GrpcClient.thy ===== *)
theory GrpcClient
  imports Http
begin

text \<open>
  \<open>lib/grpc-client.ts\<close>: the client of the Rust engine. The module variable \<open>_client\<close> is created on
  the first use and kept; here it is set exactly when the history holds a \<open>GrpcConnect\<close> event. The
  five unary methods are wrappers of \<open>callUnary\<close>; \<open>streamOrders\<close> is modelled with its consumer.
\<close>

definition GRPC_ADDR :: "env \<Rightarrow> jstr" where
  "GRPC_ADDR e = env_or e ''GRPC_HOST'' ''localhost'' @ U '':'' @ env_or e ''GRPC_PORT'' ''50051''"

definition has_client :: "event list \<Rightarrow> bool" where
  "has_client h \<longleftrightarrow> (\<exists>e\<in>set h. case e of GrpcConnect _ \<Rightarrow> True | _ \<Rightarrow> False)"

definition getClient :: "engines \<Rightarrow> (exn + unit) io" where
  "getClient w = State (\<lambda>h.
     if has_client h then (Inr (), h)
     else case grpc_load w h of
         Some e \<Rightarrow> (Inl e, h)
       | None \<Rightarrow> (Inr (), h @ [GrpcConnect (GRPC_ADDR (proc_env w))]))"

definition callUnary :: "engines \<Rightarrow> string \<Rightarrow> jsval \<Rightarrow> (exn + jsval) io" where
  "callUnary w m request = do {
     client \<leftarrow> getClient w;
     case client of
       Inl e \<Rightarrow> ret (Inl e)
     | Inr _ \<Rightarrow>
         if \<not> grpc_methods w m then ret (Inl (Err (U ''gRPC method not found: '' @ U m)))
         else call_rust w m request
   }"

definition submitOrder :: "engines \<Rightarrow> jsval \<Rightarrow> (exn + jsval) io" where
  "submitOrder w req = callUnary w ''SubmitOrder'' req"

definition cancelOrder :: "engines \<Rightarrow> jstr \<Rightarrow> (exn + jsval) io" where
  "cancelOrder w orderId = callUnary w ''CancelOrder'' (obj [(''order_id'', VStr orderId)])"

definition getOrderStatus :: "engines \<Rightarrow> jstr \<Rightarrow> (exn + jsval) io" where
  "getOrderStatus w orderId = callUnary w ''GetOrderStatus'' (obj [(''order_id'', VStr orderId)])"

definition getTokenInfo :: "engines \<Rightarrow> jstr \<Rightarrow> (exn + jsval) io" where
  "getTokenInfo w mint = callUnary w ''GetTokenInfo'' (obj [(''token_mint'', VStr mint)])"

definition getPortfolioSummary :: "engines \<Rightarrow> (exn + jsval) io" where
  "getPortfolioSummary w = callUnary w ''GetPortfolioSummary'' (obj [])"

text \<open>Whether a call reaches the engine, and its outcome.\<close>

definition reachable_rust :: "engines \<Rightarrow> string \<Rightarrow> event list \<Rightarrow> bool" where
  "reachable_rust w m h \<longleftrightarrow> (has_client h \<or> grpc_load w h = None) \<and> grpc_methods w m"

definition with_client :: "engines \<Rightarrow> event list \<Rightarrow> event list" where
  "with_client w h = snd (run_state (getClient w) h)"

lemma run_callUnary:
  "run_state (callUnary w m r) h =
     (if reachable_rust w m h then (map_sum id VObj (rust w (with_client w h) m r), with_client w h @ [RustCall m r])
      else if has_client h \<or> grpc_load w h = None then (Inl (Err (U ''gRPC method not found: '' @ U m)), with_client w h)
      else (Inl (the (grpc_load w h)), h))"
  by (auto simp: callUnary_def getClient_def run_bind reachable_rust_def with_client_def
      State_Monad.return_def split: option.splits)

lemma with_client_extends: "\<exists>evs. with_client w h = h @ evs \<and> filter to_engine evs = []"
  by (auto simp: with_client_def getClient_def split: option.splits)

lemma extends_callUnary [simp, intro]: "extends (callUnary w m r)"
  unfolding extends_def
proof
  fix h
  obtain evs where "with_client w h = h @ evs" using with_client_extends by blast
  then show "\<exists>evs. snd (run_state (callUnary w m r) h) = h @ evs" by (auto simp: run_callUnary)
qed

lemma sent_callUnary [simp]:
  "sent (callUnary w m r) h = (if reachable_rust w m h then [RustCall m r] else [])"
proof -
  obtain evs where "with_client w h = h @ evs" "filter to_engine evs = []" using with_client_extends by blast
  then show ?thesis by (auto simp: sent_def run_callUnary)
qed

lemma answer_callUnary:
  "answer (callUnary w m r) h = Inr v \<longleftrightarrow>
     reachable_rust w m h \<and> (\<exists>ps. rust w (with_client w h) m r = Inr ps \<and> v = VObj ps)"
  by (auto simp: answer_def run_callUnary map_sum_def split: sum.splits if_splits)

lemmas rust_methods = submitOrder_def cancelOrder_def getOrderStatus_def getTokenInfo_def getPortfolioSummary_def

text \<open>The client is created once.\<close>

definition connects :: "event list \<Rightarrow> nat" where
  "connects h = length (filter (\<lambda>e. case e of GrpcConnect _ \<Rightarrow> True | _ \<Rightarrow> False) h)"

lemma has_client_connects: "has_client h \<longleftrightarrow> 0 < connects h"
  by (auto simp: has_client_def connects_def filter_empty_conv)

lemma connects_append [simp]: "connects (h @ h') = connects h + connects h'"
  by (simp add: connects_def)

lemma callUnary_connects: "connects h \<le> 1 \<Longrightarrow> connects (snd (run_state (callUnary w m r) h)) \<le> 1"
  by (auto simp: run_callUnary with_client_def getClient_def has_client_connects connects_def split: option.splits)

end
