(* ===== verification/BotRoutes.thy ===== *)
theory BotRoutes
  imports GrpcClient
begin

text \<open>
  \<open>routes/bot.ts\<close>: the trading API. Every route asks the Rust engine over gRPC first, or the Python
  engine over HTTP, and falls back in a fixed order. A handler is an \<open>io\<close> action whose answer is the
  response; its events are the calls it sends. Every handler is one \<open>try\<close> block, so it always answers.
\<close>

section \<open>The Python engine\<close>

definition py_url_of :: "engines \<Rightarrow> jstr \<Rightarrow> jstr" where
  "py_url_of w path = env_or (proc_env w) ''PYTHON_API_URL'' ''http://localhost:8001'' @ path"

definition fetchPython :: "engines \<Rightarrow> jstr \<Rightarrow> string \<Rightarrow> jsval option \<Rightarrow> jsval io" where
  "fetchPython w path meth b = do {
     r \<leftarrow> call_python w \<lparr>py_url = py_url_of w path, py_method = meth, py_body = map_option wire b\<rparr>;
     ret (case r of
         Inl _ \<Rightarrow> VNull
       | Inr (resp_ok, json) \<Rightarrow> if \<not> resp_ok then VNull else (case json of Inr v \<Rightarrow> v | Inl _ \<Rightarrow> VNull))
   }"

section \<open>Portfolio\<close>

definition portfolio_rust :: "jsval \<Rightarrow> jsval" where
  "portfolio_rust g = obj
     [(''totalValueSol'', get g ''total_value_sol''), (''cashBalanceSol'', get g ''cash_balance_sol''),
      (''positionsValueSol'', get g ''positions_value_sol''), (''dailyPnlSol'', get g ''daily_pnl_sol''),
      (''totalPnlSol'', get g ''total_pnl_sol''), (''openPositionsCount'', get g ''open_positions_count''),
      (''winRate'', get g ''win_rate''), (''source'', S ''rust'')]"

definition portfolio_mock :: jsval where
  "portfolio_mock = obj
     [(''totalValueSol'', VI 10), (''cashBalanceSol'', VD (95 / 10)), (''positionsValueSol'', VD (5 / 10)),
      (''dailyPnlSol'', VI 0), (''totalPnlSol'', VI 0), (''openPositionsCount'', VI 0), (''winRate'', VI 0),
      (''source'', S ''mock'')]"

definition get_portfolio :: "engines \<Rightarrow> response io" where
  "get_portfolio w = do {
     grpc \<leftarrow> getPortfolioSummary w;
     case grpc of
       Inr g \<Rightarrow> ret (ok (portfolio_rust g))
     | Inl _ \<Rightarrow> do {
         pyData \<leftarrow> fetchPython w (U ''/api/portfolio'') ''GET'' None;
         if truthy pyData then ret (ok (VObj (put (U ''source'') (S ''python'') (spread pyData))))
         else ret (ok portfolio_mock)
       }
   }"

section \<open>Orders\<close>

definition lamports :: "jsval \<Rightarrow> jsnum" where
  "lamports amountSol = math_round (num_mul (to_num amountSol) (NumI 1000000000))"

definition rust_order :: "jsval \<Rightarrow> jsval \<Rightarrow> jsval \<Rightarrow> jsval" where
  "rust_order b clientOrderId traceId = obj
     [(''token_mint'', get b ''tokenMint''), (''order_type'', nvl (get b ''orderType'') (S ''MARKET'')),
      (''side'', get b ''side''), (''amount'', VNum (lamports (get b ''amountSol''))),
      (''slippage_bps'', nvl (get b ''slippageBps'') (VI 100)),
      (''strategy_name'', nvl (get b ''strategyName'') (S ''manual'')),
      (''client_order_id'', clientOrderId), (''trace_id'', traceId)]"

definition python_order :: "jsval \<Rightarrow> jsval \<Rightarrow> jsval" where
  "python_order b traceId = obj
     [(''token_mint'', get b ''tokenMint''), (''side'', get b ''side''), (''amount_sol'', get b ''amountSol''),
      (''order_type'', nvl (get b ''orderType'') (S ''MARKET'')),
      (''slippage_bps'', nvl (get b ''slippageBps'') (VI 100)),
      (''strategy_name'', nvl (get b ''strategyName'') (S ''manual'')), (''trace_id'', traceId)]"

text \<open>\<open>body.k ?? randomUUID()\<close>: a fresh identifier is drawn only when the caller gave none.\<close>

definition id_or_fresh :: "engines \<Rightarrow> jsval \<Rightarrow> jsval io" where
  "id_or_fresh w v = (if nullish v then do { u \<leftarrow> randomUUID w; ret (VStr u) } else ret v)"

definition complete_order :: "jsval \<Rightarrow> bool" where
  "complete_order b \<longleftrightarrow> truthy (get b ''tokenMint'') \<and> truthy (get b ''side'') \<and> truthy (get b ''amountSol'')"

definition post_order :: "engines \<Rightarrow> jsval \<Rightarrow> response io" where
  "post_order w b =
     (if nullish b then ret (reply 400 (obj [(''error'', VStr (exn_msg (U ''Invalid request'') (read_err b ''tokenMint'')))]))
      else if \<not> complete_order b then ret (err_reply 400 ''Missing required fields: tokenMint, side, amountSol'')
      else do {
        clientOrderId \<leftarrow> id_or_fresh w (get b ''clientOrderId'');
        traceId \<leftarrow> id_or_fresh w (get b ''traceId'');
        grpcResp \<leftarrow> (case num_of (get b ''amountSol'') of Inl e \<Rightarrow> ret (Inl e)
                     | Inr _ \<Rightarrow> submitOrder w (rust_order b clientOrderId traceId));
        case grpcResp of
          Inr g \<Rightarrow> ret (ok (obj
            [(''orderId'', get g ''order_id''), (''success'', get g ''success''), (''message'', get g ''message''),
             (''clientOrderId'', clientOrderId), (''traceId'', traceId), (''source'', S ''rust'')]))
        | Inl _ \<Rightarrow> do {
            pyData \<leftarrow> fetchPython w (U ''/api/orders'') ''POST'' (Some (python_order b traceId));
            ret (ok (nvl pyData (obj
              [(''success'', VBool False), (''orderId'', S ''''), (''message'', S ''Engine not available''),
               (''traceId'', traceId)])))
          }
      })"

definition order_status_rust :: "jsval \<Rightarrow> jsval" where
  "order_status_rust g = obj
     [(''orderId'', get g ''order_id''), (''status'', get g ''status''),
      (''signature'', or_else (get g ''signature'') VNull), (''error'', or_else (get g ''error'') VNull),
      (''executedAt'', nvl (get g ''executed_at'') VNull), (''source'', S ''rust'')]"

definition get_order :: "engines \<Rightarrow> jstr \<Rightarrow> response io" where
  "get_order w orderId = do {
     status \<leftarrow> getOrderStatus w orderId;
     case status of
       Inr g \<Rightarrow> ret (ok (order_status_rust g))
     | Inl _ \<Rightarrow> do {
         pyData \<leftarrow> fetchPython w (U ''/api/orders/'' @ orderId) ''GET'' None;
         if truthy pyData then ret (ok pyData) else ret (err_reply 404 ''Order not found'')
       }
   }"

definition delete_order :: "engines \<Rightarrow> jstr \<Rightarrow> response io" where
  "delete_order w orderId = do {
     resp \<leftarrow> cancelOrder w orderId;
     case resp of
       Inr g \<Rightarrow> ret (ok (obj
         [(''success'', get g ''success''), (''message'', get g ''message''), (''source'', S ''rust'')]))
     | Inl _ \<Rightarrow> do {
         pyData \<leftarrow> fetchPython w (U ''/api/orders/'' @ orderId) ''DELETE'' None;
         ret (ok (nvl pyData (obj [(''success'', VBool True), (''message'', S ''Cancelled (offline)'')])))
       }
   }"

section \<open>Strategies\<close>

definition strategy_py :: "jsval \<Rightarrow> exn + jsval" where
  "strategy_py s =
     (if nullish s then Inl (read_err s ''name'')
      else Inr (obj
        [(''name'', get s ''name''), (''enabled'', get s ''enabled''),
         (''tradesExecuted'', nvl (get s ''trades_executed'') (VI 0)),
         (''tradesWon'', nvl (get s ''trades_won'') (VI 0)), (''winRate'', nvl (get s ''win_rate'') (VI 0)),
         (''totalPnlSol'', nvl (get s ''total_pnl_sol'') (VI 0)), (''buyAmountSol'', get s ''buy_amount_sol'')]))"

definition win_rate :: "int \<Rightarrow> int \<Rightarrow> jsnum" where
  "win_rate won executed =
     (if 0 < executed then num_mul (num_div (NumI won) (NumI executed)) (NumI 100) else NumI 0)"

definition strategy_db :: "strategy_row \<Rightarrow> jsval" where
  "strategy_db r = obj
     [(''name'', VStr (sr_name r)), (''enabled'', VBool (sr_enabled r)), (''tradesExecuted'', VI (sr_tradesExecuted r)),
      (''tradesWon'', VI (sr_tradesWon r)), (''winRate'', VNum (win_rate (sr_tradesWon r) (sr_tradesExecuted r))),
      (''totalPnlSol'', VNum (sr_totalPnlSol r)), (''buyAmountSol'', js_num_opt (sr_buyAmountSol r))]"

definition strategy_mock :: "string \<Rightarrow> jsnum \<Rightarrow> jsval" where
  "strategy_mock name amount = obj
     [(''name'', S name), (''enabled'', VBool True), (''tradesExecuted'', VI 0), (''tradesWon'', VI 0),
      (''winRate'', VI 0), (''totalPnlSol'', VI 0), (''buyAmountSol'', VNum amount)]"

definition get_strategies :: "engines \<Rightarrow> response io" where
  "get_strategies w = do {
     pyData \<leftarrow> fetchPython w (U ''/api/strategies'') ''GET'' None;
     case pyData of
       VArr xs \<Rightarrow> (case traverse strategy_py xs of
           Inr mapped \<Rightarrow> ret (ok (VArr mapped))
         | Inl _ \<Rightarrow> ret (err_reply 500 ''Failed to list strategies''))
     | _ \<Rightarrow> do {
         rows \<leftarrow> select_strategies w;
         case rows of
           Inr rs \<Rightarrow> ret (ok (VArr (map strategy_db rs)))
         | Inl _ \<Rightarrow> ret (ok (VArr [strategy_mock ''sniper'' (fl (5 / 100)), strategy_mock ''momentum'' (fl (1 / 10))]))
       }
   }"

definition strategy_patch :: "jstr \<Rightarrow> jsval \<Rightarrow> jsval" where
  "strategy_patch strategyName b = obj
     [(''strategy_name'', VStr strategyName), (''enabled'', get b ''enabled''),
      (''buy_amount_sol'', get b ''buyAmountSol''), (''slippage_bps'', get b ''slippageBps''),
      (''take_profit_pct'', get b ''takeProfitPct''), (''stop_loss_pct'', get b ''stopLossPct''),
      (''trailing_stop_pct'', get b ''trailingStopPct''), (''min_liquidity_sol'', get b ''minLiquiditySol'')]"

definition patch_strategy :: "engines \<Rightarrow> jstr \<Rightarrow> jsval \<Rightarrow> response io" where
  "patch_strategy w strategyName b =
     (if nullish b then ret (reply 400 (obj [(''error'', VStr (exn_msg (U ''Update failed'') (read_err b ''enabled'')))]))
      else do {
        pyData \<leftarrow> fetchPython w (U ''/api/strategies/'' @ strategyName) ''PATCH'' (Some (strategy_patch strategyName b));
        if truthy (get pyData ''strategy'') then ret (ok (get pyData ''strategy''))
        else ret (ok (obj
          [(''name'', VStr strategyName), (''enabled'', nvl (get b ''enabled'') (VBool True)),
           (''tradesExecuted'', VI 0), (''tradesWon'', VI 0), (''winRate'', VI 0), (''totalPnlSol'', VI 0)]))
      })"

section \<open>Tokens\<close>

text \<open>\<open>Object.values\<close> of an object or an array.\<close>

definition object_values :: "jsval \<Rightarrow> jsval list option" where
  "object_values v = (case v of VObj ps \<Rightarrow> Some (map snd ps) | VArr xs \<Rightarrow> Some xs | _ \<Rightarrow> None)"

definition token_entry :: "jsval \<Rightarrow> exn + jsval" where
  "token_entry t =
     (if nullish t then Inl (read_err t ''mint'')
      else Inr (obj
        [(''mint'', get t ''mint''), (''name'', get t ''name''), (''symbol'', get t ''symbol''),
         (''price'', nvl (get t ''price'') (VI 0)), (''liquiditySol'', nvl (get t ''liquidity_sol'') (VI 0)),
         (''marketCapSol'', nvl (get t ''market_cap_sol'') (VI 0)), (''volume24hSol'', get t ''volume_24h_sol''),
         (''holderCount'', get t ''holder_count''),
         (''bondingCurveProgress'', nvl (get t ''bonding_curve_progress'') (VI 0)),
         (''mlScore'', nvl (nvl (get t ''ml_score'') (get t ''sniper_score'')) VNull),
         (''detectedAt'', nvl (nvl (get t ''detected_at'') (get t ''created_at'')) VNull),
         (''actionTaken'', nvl (nvl (get t ''action_taken'') (get t ''action'')) VNull)]))"

definition get_tokens :: "engines \<Rightarrow> response io" where
  "get_tokens w = do {
     pyData \<leftarrow> fetchPython w (U ''/api/tokens'') ''GET'' None;
     case object_values pyData of
       Some vs \<Rightarrow> (case traverse token_entry vs of
           Inr tokens \<Rightarrow> ret (ok (VArr tokens))
         | Inl _ \<Rightarrow> ret (err_reply 500 ''Failed to list tokens''))
     | None \<Rightarrow> ret (ok (VArr []))
   }"

definition token_rust :: "jsval \<Rightarrow> jsval" where
  "token_rust i = obj
     [(''mint'', get i ''mint''), (''name'', get i ''name''), (''symbol'', get i ''symbol''),
      (''price'', get i ''price''), (''liquiditySol'', get i ''liquidity_sol''),
      (''marketCapSol'', get i ''market_cap_sol''), (''volume24hSol'', get i ''volume_24h_sol''),
      (''holderCount'', get i ''holder_count''), (''bondingCurveProgress'', get i ''bonding_curve_progress''),
      (''source'', S ''rust'')]"

definition token_python :: "jsval \<Rightarrow> jsval" where
  "token_python p = obj
     [(''mint'', get p ''mint''), (''name'', get p ''name''), (''symbol'', get p ''symbol''),
      (''price'', nvl (get p ''price'') (VI 0)), (''liquiditySol'', nvl (get p ''liquidity_sol'') (VI 0)),
      (''marketCapSol'', nvl (get p ''market_cap_sol'') (VI 0)), (''volume24hSol'', get p ''volume_24h_sol''),
      (''holderCount'', get p ''holder_count''),
      (''bondingCurveProgress'', nvl (get p ''bonding_curve_progress'') (VI 0)), (''source'', S ''python'')]"

definition get_token :: "engines \<Rightarrow> jstr \<Rightarrow> response io" where
  "get_token w mint = do {
     info \<leftarrow> getTokenInfo w mint;
     case info of
       Inr i \<Rightarrow> ret (ok (token_rust i))
     | Inl _ \<Rightarrow> do {
         pyData \<leftarrow> fetchPython w (U ''/api/tokens/'' @ mint) ''GET'' None;
         if \<not> truthy pyData then ret (err_reply 404 ''Token not found'') else ret (ok (token_python pyData))
       }
   }"

section \<open>Metrics, status, back-test\<close>

definition metrics_mock :: jsval where
  "metrics_mock = obj
     [(''ordersSubmitted'', VI 0), (''ordersExecuted'', VI 0), (''ordersFailed'', VI 0), (''ordersPending'', VI 0),
      (''jitoLanded'', VI 0), (''sandwichAttacks'', VI 0), (''avgExecutionMs'', VI 0), (''rpcErrorRate'', VI 0),
      (''tokensDiscovered'', VI 0), (''tokensSniped'', VI 0)]"

definition get_metrics :: "engines \<Rightarrow> response io" where
  "get_metrics w = do {
     pyData \<leftarrow> fetchPython w (U ''/api/metrics'') ''GET'' None;
     ret (ok (nvl pyData metrics_mock))
   }"

text \<open>\<open>filter((s) => s.enabled).map((s) => s.name)\<close>; a null element throws in the filter.\<close>

definition active_names :: "jsval \<Rightarrow> jsval list" where
  "active_names v =
     (case v of
        VArr xs \<Rightarrow> if list_ex nullish xs then []
                   else map (\<lambda>s. get s ''name'') (filter (\<lambda>s. truthy (get s ''enabled'')) xs)
      | _ \<Rightarrow> [])"

definition status_json :: "engines \<Rightarrow> bool \<Rightarrow> bool \<Rightarrow> jsval list \<Rightarrow> jsval" where
  "status_json w rustConnected pyConnected active = obj
     [(''running'', VBool (0 < length active)), (''rustEngineConnected'', VBool rustConnected),
      (''pythonEngineRunning'', VBool pyConnected), (''walletAddress'', VStr (env_or (proc_env w) ''WALLET_ADDRESS'' '''')),
      (''solBalance'', VI 0), (''activeStrategies'', VArr active),
      (''environment'', VStr (env_or (proc_env w) ''NODE_ENV'' ''development'')),
      (''uptime'', VNum (proc_uptime w))]"

definition get_status :: "engines \<Rightarrow> response io" where
  "get_status w = do {
     summary \<leftarrow> getPortfolioSummary w;
     pyHealth \<leftarrow> fetchPython w (U ''/api/health'') ''GET'' None;
     if truthy pyHealth then do {
       pyStrategies \<leftarrow> fetchPython w (U ''/api/strategies'') ''GET'' None;
       ret (ok (status_json w (\<not> isl summary) True (active_names pyStrategies)))
     } else ret (ok (status_json w (\<not> isl summary) False []))
   }"

definition post_backtest :: "engines \<Rightarrow> jsval \<Rightarrow> response io" where
  "post_backtest w b =
     (if nullish b then
        ret (reply 500 (obj [(''error'', VStr (exn_msg (U ''Backtest request failed'') (read_err b ''strategy_name'')))]))
      else if \<not> truthy (get b ''strategy_name'') then ret (err_reply 400 ''Missing required field: strategy_name'')
      else do {
        pyData \<leftarrow> fetchPython w (U ''/api/backtest'') ''POST'' (Some b);
        if \<not> truthy pyData then ret (err_reply 503 ''Python strategy engine not available'') else ret (ok pyData)
      })"

text \<open>Whether the three conversions succeed; if not, the handler's \<open>catch\<close> answers.\<close>

definition mev_readable :: "jsval \<Rightarrow> bool" where
  "mev_readable m \<longleftrightarrow> list_all (\<lambda>v. convertible v)
     [nvl (get m ''bundles_submitted'') (VI 0), nvl (get m ''bundles_landed'') (VI 0),
      nvl (nvl (get m ''mev_saved_sol'') (get m ''mevSavedSol'')) (VI 0)]"

definition mev_from_metrics :: "bool \<Rightarrow> jsval \<Rightarrow> jsval" where
  "mev_from_metrics jitoEnabled m =
     (let submitted = to_num (nvl (get m ''bundles_submitted'') (VI 0));
          landed = to_num (nvl (get m ''bundles_landed'') (VI 0));
          rate = (if num_lt (Fin 0) submitted then num_mul (num_div landed submitted) (NumI 100) else NumI 0);
          saved = to_num (nvl (nvl (get m ''mev_saved_sol'') (get m ''mevSavedSol'')) (VI 0))
      in obj [(''bundlesSubmitted'', VNum submitted), (''bundlesLanded'', VNum landed), (''landedRate'', VNum rate),
              (''mevSavedSol'', VNum saved), (''jitoEnabled'', VBool (jitoEnabled \<or> num_lt (Fin 0) submitted))])"

definition get_mev_stats :: "engines \<Rightarrow> response io" where
  "get_mev_stats w = do {
     pyMetrics \<leftarrow> fetchPython w (U ''/api/metrics'') ''GET'' None;
     let jitoEnabled = env_truthy (proc_env w) ''JITO_BUNDLE_URL'';
     if truthy pyMetrics then ret (if mev_readable pyMetrics then ok (mev_from_metrics jitoEnabled pyMetrics)
                                  else err_reply 500 ''Failed to get MEV stats'')
     else ret (ok (obj [(''bundlesSubmitted'', VI 0), (''bundlesLanded'', VI 0), (''landedRate'', VI 0),
                        (''mevSavedSol'', VI 0), (''jitoEnabled'', VBool jitoEnabled), (''_source'', S ''no-engine'')]))
   }"

section \<open>Bot control\<close>

definition names_of :: "jsval \<Rightarrow> exn + jsval list" where
  "names_of v = (case v of VArr xs \<Rightarrow> traverse (\<lambda>s. read_prop s ''name'') xs
     | _ \<Rightarrow> Inr [S ''sniper'', S ''momentum''])"

definition fetchStrategyNames :: "engines \<Rightarrow> (exn + jsval list) io" where
  "fetchStrategyNames w = do {
     pyStrategies \<leftarrow> fetchPython w (U ''/api/strategies'') ''GET'' None;
     ret (names_of pyStrategies)
   }"

definition activate :: "engines \<Rightarrow> bool \<Rightarrow> jsval \<Rightarrow> jsval io" where
  "activate w enabled name =
     fetchPython w (U ''/api/strategy/activate'') ''POST''
       (Some (obj [(''strategy_name'', name), (''enabled'', VBool enabled)]))"

fun activate_all :: "engines \<Rightarrow> bool \<Rightarrow> jsval list \<Rightarrow> nat \<Rightarrow> nat io" where
  "activate_all w enabled [] succeeded = ret succeeded"
| "activate_all w enabled (name # names) succeeded = do {
     result \<leftarrow> activate w enabled name;
     activate_all w enabled names (if result \<noteq> VNull then Suc succeeded else succeeded)
   }"

definition setAllStrategies :: "engines \<Rightarrow> bool \<Rightarrow> (exn + nat) io" where
  "setAllStrategies w enabled = do {
     names \<leftarrow> fetchStrategyNames w;
     case names of
       Inl e \<Rightarrow> ret (Inl e)
     | Inr ns \<Rightarrow> do { n \<leftarrow> activate_all w enabled ns 0; ret (Inr n) }
   }"

definition control_reply :: "nat \<Rightarrow> string \<Rightarrow> jstr \<Rightarrow> response" where
  "control_reply n verb unreachable =
     ok (obj [(''success'', VBool (0 < n)),
              (''message'', VStr (if 0 < n then dec_nat n @ U '' strategy/strategies '' @ U verb else unreachable))])"

definition start_bot :: "engines \<Rightarrow> response io" where
  "start_bot w = do {
     r \<leftarrow> setAllStrategies w True;
     ret (case r of
         Inr n \<Rightarrow> control_reply n ''activated''
           (U ''Python engine unreachable '' @ [0x2014] @ U '' start the python-strategy service first'')
       | Inl _ \<Rightarrow> ok (obj [(''success'', VBool False), (''message'', S ''Start request failed'')]))
   }"

definition stop_bot :: "engines \<Rightarrow> response io" where
  "stop_bot w = do {
     r \<leftarrow> setAllStrategies w False;
     ret (case r of
         Inr n \<Rightarrow> control_reply n ''deactivated''
           (U ''Python engine unreachable '' @ [0x2014] @ U '' engine may already be stopped'')
       | Inl _ \<Rightarrow> ok (obj [(''success'', VBool False), (''message'', S ''Stop request failed'')]))
   }"

section \<open>What the handlers send\<close>

abbreviation py_call :: "engines \<Rightarrow> jstr \<Rightarrow> string \<Rightarrow> jsval option \<Rightarrow> event" where
  "py_call w path meth b \<equiv> PyCall \<lparr>py_url = py_url_of w path, py_method = meth, py_body = map_option wire b\<rparr>"

lemma extends_fetchPython [simp, intro]: "extends (fetchPython w p m b)"
  unfolding fetchPython_def by simp

lemma sent_fetchPython [simp]: "sent (fetchPython w p m b) h = [py_call w p m b]"
  unfolding fetchPython_def by (simp add: sent_bind)

lemma extends_id_or_fresh [simp, intro]: "extends (id_or_fresh w v)"
  unfolding id_or_fresh_def by simp

lemma sent_id_or_fresh [simp]: "sent (id_or_fresh w v) h = []"
  unfolding id_or_fresh_def by (simp add: sent_bind)

lemma extends_rust_methods [simp, intro]:
  "extends (submitOrder w r)" "extends (cancelOrder w i)" "extends (getOrderStatus w i)" "extends (getTokenInfo w i)"
  "extends (getPortfolioSummary w)"
  by (simp_all add: rust_methods)

lemma sent_rust_methods [simp]:
  "sent (submitOrder w r) h = (if reachable_rust w ''SubmitOrder'' h then [RustCall ''SubmitOrder'' r] else [])"
  "sent (cancelOrder w i) h =
     (if reachable_rust w ''CancelOrder'' h then [RustCall ''CancelOrder'' (obj [(''order_id'', VStr i)])] else [])"
  "sent (getOrderStatus w i) h =
     (if reachable_rust w ''GetOrderStatus'' h then [RustCall ''GetOrderStatus'' (obj [(''order_id'', VStr i)])] else [])"
  "sent (getTokenInfo w m) h =
     (if reachable_rust w ''GetTokenInfo'' h then [RustCall ''GetTokenInfo'' (obj [(''token_mint'', VStr m)])] else [])"
  "sent (getPortfolioSummary w) h =
     (if reachable_rust w ''GetPortfolioSummary'' h then [RustCall ''GetPortfolioSummary'' (obj [])] else [])"
  by (simp_all add: rust_methods)

lemma answer_id_or_fresh: "\<exists>u. answer (id_or_fresh w v) h = (if nullish v then VStr u else v)"
  by (auto simp: id_or_fresh_def answer_bind)

lemma extends_activate [simp, intro]: "extends (activate w en n)"
  by (simp add: activate_def)

lemma extends_activate_all [simp, intro]: "extends (activate_all w en ns k)"
  by (induction w en ns k rule: activate_all.induct) simp_all

lemma sent_activate_all:
  "sent (activate_all w en ns k) h =
     map (\<lambda>n. py_call w (U ''/api/strategy/activate'') ''POST''
           (Some (obj [(''strategy_name'', n), (''enabled'', VBool en)]))) ns"
  by (induction ns arbitrary: k h) (simp_all add: sent_bind activate_def)

lemma answer_activate_all: "k \<le> answer (activate_all w en ns k) h \<and> answer (activate_all w en ns k) h \<le> k + length ns"
proof (induction ns arbitrary: k h)
  case (Cons n ns)
  define k' where "k' = (if answer (activate w en n) h \<noteq> VNull then Suc k else k)"
  define h' where "h' = snd (run_state (activate w en n) h)"
  have "answer (activate_all w en (n # ns) k) h = answer (activate_all w en ns k') h'"
    by (simp add: answer_bind k'_def h'_def)
  moreover have "k' = k \<or> k' = Suc k" by (auto simp: k'_def)
  ultimately show ?case using Cons.IH [of k' h'] by auto
qed simp

lemma extends_fetchStrategyNames [simp, intro]: "extends (fetchStrategyNames w)"
  unfolding fetchStrategyNames_def by simp

lemma answer_fetchStrategyNames:
  "answer (fetchStrategyNames w) h = names_of (answer (fetchPython w (U ''/api/strategies'') ''GET'' None) h)"
  unfolding fetchStrategyNames_def by (simp add: answer_bind)

lemma sent_fetchStrategyNames: "sent (fetchStrategyNames w) h = [py_call w (U ''/api/strategies'') ''GET'' None]"
  unfolding fetchStrategyNames_def by (simp add: sent_bind)

section \<open>Properties\<close>

text \<open>C2: what an order request sends. An incomplete order is answered 400 and nothing is sent. A complete
  one whose amount converts to a number is offered to the Rust engine (once, if a client exists) with the caller's
  identifiers, or fresh ones where the caller gave none; if Rust accepts, nothing else is sent and its reply is the answer;
  otherwise exactly one Python request follows, with the same trace identifier.\<close>

theorem order_submission:
  "if \<not> nullish b \<and> complete_order b
   then \<exists>u1 u2 cid tid h1.
     cid = (if nullish (get b ''clientOrderId'') then VStr u1 else get b ''clientOrderId'') \<and>
     tid = (if nullish (get b ''traceId'') then VStr u2 else get b ''traceId'') \<and>
     (\<exists>evs. h1 = h @ evs \<and> filter to_engine evs = []) \<and>
     (let req = rust_order b cid tid; converts = convertible (get b ''amountSol'');
          tried = (if converts \<and> reachable_rust w ''SubmitOrder'' h1 then [RustCall ''SubmitOrder'' req] else [])
      in case if converts then answer (submitOrder w req) h1 else Inl not_primitive of
           Inr g \<Rightarrow> sent (post_order w b) h = tried \<and> tried \<noteq> [] \<and>
             answer (post_order w b) h = ok (obj [(''orderId'', get g ''order_id''), (''success'', get g ''success''),
               (''message'', get g ''message''), (''clientOrderId'', cid), (''traceId'', tid), (''source'', S ''rust'')])
         | Inl _ \<Rightarrow> sent (post_order w b) h =
             tried @ [py_call w (U ''/api/orders'') ''POST'' (Some (python_order b tid))])
   else sent (post_order w b) h = [] \<and> r_status (answer (post_order w b) h) = 400"
proof (cases "\<not> nullish b \<and> complete_order b")
  case False
  then show ?thesis by (auto simp: post_order_def)
next
  case True
  define cid where "cid = answer (id_or_fresh w (get b ''clientOrderId'')) h"
  define h0 where "h0 = snd (run_state (id_or_fresh w (get b ''clientOrderId'')) h)"
  define tid where "tid = answer (id_or_fresh w (get b ''traceId'')) h0"
  define h1 where "h1 = snd (run_state (id_or_fresh w (get b ''traceId'')) h0)"
  obtain u1 u2 where u: "cid = (if nullish (get b ''clientOrderId'') then VStr u1 else get b ''clientOrderId'')"
    "tid = (if nullish (get b ''traceId'') then VStr u2 else get b ''traceId'')"
    unfolding cid_def tid_def using answer_id_or_fresh by metis
  note abbr = cid_def [symmetric] h0_def [symmetric] tid_def [symmetric] h1_def [symmetric]
  have "let req = rust_order b cid tid; converts = convertible (get b ''amountSol'');
          tried = (if converts \<and> reachable_rust w ''SubmitOrder'' h1 then [RustCall ''SubmitOrder'' req] else [])
      in case if converts then answer (submitOrder w req) h1 else Inl not_primitive of
           Inr g \<Rightarrow> sent (post_order w b) h = tried \<and> tried \<noteq> [] \<and>
             answer (post_order w b) h = ok (obj [(''orderId'', get g ''order_id''), (''success'', get g ''success''),
               (''message'', get g ''message''), (''clientOrderId'', cid), (''traceId'', tid), (''source'', S ''rust'')])
         | Inl _ \<Rightarrow> sent (post_order w b) h =
             tried @ [py_call w (U ''/api/orders'') ''POST'' (Some (python_order b tid))]"
  proof (cases "convertible (get b ''amountSol'')")
    case False
    then show ?thesis using True by (simp add: post_order_def num_of_def sent_bind answer_bind abbr Let_def)
  next
    case c: True
    show ?thesis
    proof (cases "answer (submitOrder w (rust_order b cid tid)) h1")
      case (Inl e)
      then show ?thesis using True c by (simp add: post_order_def num_of_def sent_bind answer_bind abbr Let_def)
    next
      case (Inr g)
      then have "reachable_rust w ''SubmitOrder'' h1" by (simp add: submitOrder_def answer_callUnary)
      then show ?thesis using True Inr c by (simp add: post_order_def num_of_def sent_bind answer_bind abbr Let_def)
    qed
  qed
  moreover have "\<exists>evs. h1 = h @ evs \<and> filter to_engine evs = []"
  proof -
    obtain e0 where "h0 = h @ e0" "filter to_engine e0 = []"
      using after_no_engine [of "id_or_fresh w (get b ''clientOrderId'')" h] by (auto simp: h0_def)
    moreover obtain e1 where "h1 = h0 @ e1" "filter to_engine e1 = []"
      using after_no_engine [of "id_or_fresh w (get b ''traceId'')" h0] by (auto simp: h1_def)
    ultimately show ?thesis by auto
  qed
  ultimately show ?thesis unfolding if_P [OF True] using u by blast
qed

lemma round_near:
  fixes x :: rat
  assumes "\<bar>x - of_int k\<bar> < 1 / 2"
  shows "\<lfloor>x + 1 / 2\<rfloor> = k"
  using assms unfolding abs_less_iff by (intro floor_unique) linarith+

lemma lamports_error:
  assumes "1 \<le> k" and "k \<le> 2 ^ 50"
  shows "\<exists>q z. fl (of_int k / 10 ^ 9) = Fin q \<and> fl (q * 10 ^ 9) = Fin z \<and> \<bar>z - of_int k\<bar> < 1 / 2"
proof -
  define K :: rat where "K = of_int k"
  have K: "1 \<le> K" "K \<le> 2 ^ 50"
    using assms by (simp_all add: K_def)
  define x where "x = K / 10 ^ 9"
  have small: "pow2 (- 1022) \<le> 1 / 10 ^ 9" by (simp add: pow2_def)
  have x: "1 / 10 ^ 9 \<le> x" "x \<le> of_int (2 ^ 50)" using K by (auto simp: x_def field_simps)
  then obtain q where q: "fl x = Fin q" "q = round_to x"
    using fl_between [of 0 x "2 ^ 50"] by fastforce
  have eq: "\<bar>q - x\<bar> \<le> x / 2 ^ 53" using round_to_rel [of x] small x q by linarith
  define y where "y = q * 10 ^ 9"
  have "y - K = (q - x) * 10 ^ 9" by (simp add: y_def x_def field_simps)
  then have "\<bar>y - K\<bar> = \<bar>q - x\<bar> * 10 ^ 9" by (simp only: abs_mult) simp
  also have "\<dots> \<le> x / 2 ^ 53 * 10 ^ 9" using eq by (intro mult_right_mono) simp_all
  also have "\<dots> = K / 2 ^ 53" by (simp add: x_def)
  finally have ey: "\<bar>y - K\<bar> \<le> 1 / 8" using K by simp
  have "y - K \<le> 1 / 8" "K - y \<le> 1 / 8" using ey by (simp_all only: abs_le_iff) linarith
  then have y: "1 / 2 \<le> y" "y \<le> 2 ^ 51" using K by simp_all
  then obtain z where z: "fl y = Fin z" "z = round_to y" using fl_between [of 0 y "2 ^ 51"] by fastforce
  have "pow2 (- 1022) \<le> 1 / 2" by (simp add: pow2_def)
  then have "\<bar>z - y\<bar> \<le> y / 2 ^ 53" using round_to_rel [of y] y z by linarith
  then have "\<bar>z - y\<bar> \<le> 1 / 4" using y by simp
  then have "\<bar>z - K\<bar> < 1 / 2" using ey by linarith
  then show ?thesis using q z by (auto simp: x_def y_def K_def)
qed

lemma lamports_exact:
  assumes "0 \<le> k" and "k \<le> 2 ^ 50"
  shows "lamports (VNum (fl (of_int k / 10 ^ 9))) = NumI k"
proof (cases "k = 0")
  case True
  then show ?thesis by (simp add: lamports_def)
next
  case False
  then obtain q z where "fl (of_int k / 10 ^ 9) = Fin q" "fl (q * 10 ^ 9) = Fin z" "\<bar>z - of_int k\<bar> < 1 / 2"
    using lamports_error [of k] assms by auto
  then show ?thesis using round_near [of z k] by (simp add: lamports_def)
qed

text \<open>C16: converting an amount to lamports is exact. Whatever whole number of lamports up to
  \<open>2\<^sup>5\<^sup>0\<close> (over a million SOL) a client divides by \<open>1e9\<close>, the rounded double is converted back to the
  same number, despite two further roundings.\<close>

theorem lamports_roundtrip:
  assumes "0 \<le> k" and "k \<le> 2 ^ 50"
  shows "lamports (VNum (fl (of_int k / 10 ^ 9))) = NumI k"
  using assms by (rule lamports_exact)

theorem lamports_roundtrip_witness:
  "lamports (VNum (fl (of_int 123456789012345 / 10 ^ 9))) = NumI 123456789012345"
  by (rule lamports_roundtrip) simp_all

text \<open>Starting or stopping the bot asks Python for the strategies, then sends one activation per
  strategy, in that order and whatever the earlier ones answered, and reports a count between 0 and
  their number; a malformed list stops it before any activation.\<close>

theorem all_strategies_toggled:
  "case names_of (answer (fetchPython w (U ''/api/strategies'') ''GET'' None) h) of
     Inl e \<Rightarrow> sent (setAllStrategies w on) h = [py_call w (U ''/api/strategies'') ''GET'' None]
       \<and> answer (setAllStrategies w on) h = Inl e
   | Inr names \<Rightarrow> sent (setAllStrategies w on) h = py_call w (U ''/api/strategies'') ''GET'' None #
         map (\<lambda>n. py_call w (U ''/api/strategy/activate'') ''POST''
           (Some (obj [(''strategy_name'', n), (''enabled'', VBool on)]))) names
       \<and> (\<exists>k. answer (setAllStrategies w on) h = Inr k \<and> k \<le> length names)"
proof (cases "names_of (answer (fetchPython w (U ''/api/strategies'') ''GET'' None) h)")
  case (Inl e)
  then show ?thesis
    by (simp add: setAllStrategies_def sent_bind answer_bind sent_fetchStrategyNames answer_fetchStrategyNames)
next
  case (Inr names)
  then show ?thesis
    using answer_activate_all [of 0 w on names]
    by (simp add: setAllStrategies_def sent_bind answer_bind sent_fetchStrategyNames answer_fetchStrategyNames
        sent_activate_all)
qed

text \<open>an order is reported missing exactly when neither engine answers: Rust is asked first, Python
  only when Rust fails, and 404 means that Python had no (truthy) answer either.\<close>

theorem get_order_not_found:
  "r_status (answer (get_order w i) h) =
     (if (\<exists>g. answer (getOrderStatus w i) h = Inr g)
         \<or> truthy (answer (fetchPython w (U ''/api/orders/'' @ i) ''GET'' None) (snd (run_state (getOrderStatus w i) h)))
      then 200 else 404)
   \<and> (sent (get_order w i) h = sent (getOrderStatus w i) h \<longleftrightarrow> (\<exists>g. answer (getOrderStatus w i) h = Inr g))"
proof (cases "answer (getOrderStatus w i) h")
  case (Inl e)
  then show ?thesis by (simp add: get_order_def sent_bind answer_bind)
next
  case (Inr g)
  then show ?thesis by (simp add: get_order_def sent_bind answer_bind)
qed

text \<open>the \<open>source\<close> of a portfolio names the engine it came from: \<open>rust\<close> when Rust answered, else
  \<open>python\<close> when Python answered (even if its own data has a \<open>source\<close>), else \<open>mock\<close>; the answer is
  always 200.\<close>

theorem portfolio_source:
  "r_status (answer (get_portfolio w) h) = 200 \<and>
   get (r_body (answer (get_portfolio w) h)) ''source'' =
     S (if \<not> isl (answer (getPortfolioSummary w) h) then ''rust''
        else if truthy (answer (fetchPython w (U ''/api/portfolio'') ''GET'' None)
                          (snd (run_state (getPortfolioSummary w) h))) then ''python'' else ''mock'')"
proof (cases "answer (getPortfolioSummary w) h")
  case (Inl e)
  then show ?thesis
    by (simp add: get_portfolio_def answer_bind portfolio_mock_def get_def [of "VObj x" for x] lookup_def)
next
  case (Inr g)
  then show ?thesis by (simp add: get_portfolio_def answer_bind portfolio_rust_def)
qed

text \<open>the landed rate of the MEV statistics is a number between 0 and 100 whenever the engine reports
  no more landed than submitted bundles, and 0 when none were submitted.\<close>

theorem landed_rate_bounded:
  assumes "get m ''bundles_submitted'' = VNum (Fin s)" and "get m ''bundles_landed'' = VNum (Fin l)"
    and "0 \<le> l" and "l \<le> s"
  shows "\<exists>r. get (mev_from_metrics jito m) ''landedRate'' = VNum (Fin r)
    \<and> (if s = 0 then r = 0 else 0 \<le> r \<and> r \<le> 100)"
proof (cases "s = 0")
  case True
  then show ?thesis using assms by (simp add: mev_from_metrics_def Let_def)
next
  case False
  then show ?thesis using assms percent_between [of l s] by (auto simp: mev_from_metrics_def Let_def)
qed

theorem landed_rate_bounded_witness:
  "\<exists>r. get (mev_from_metrics False (obj [(''bundles_submitted'', VI 3), (''bundles_landed'', VI 1)])) ''landedRate''
      = VNum (Fin r) \<and> (if (3 :: rat) = 0 then r = 0 else 0 \<le> r \<and> r \<le> 100)"
  by (rule landed_rate_bounded [where l = 1]) simp_all

definition python_down :: "engines \<Rightarrow> bool" where
  "python_down w \<longleftrightarrow> (\<forall>h q. isl (python w h q))"

lemma fetchPython_down: "python_down w \<Longrightarrow> answer (fetchPython w p m b) h = VNull"
proof -
  assume "python_down w"
  then have "isl (python w h' q)" for h' q by (simp add: python_down_def)
  then obtain e where "python w h \<lparr>py_url = py_url_of w p, py_method = m, py_body = map_option wire b\<rparr> = Inl e"
    unfolding isl_def by blast
  then show ?thesis by (simp add: fetchPython_def answer_bind)
qed

text \<open>with both engines unreachable, cancelling an order and changing a strategy still answer 200
  and report success, although no engine received the request.\<close>

theorem offline_cancel_succeeds:
  assumes "python_down w" and "isl (answer (cancelOrder w i) h)" and "\<not> nullish b"
  shows "answer (delete_order w i) h = ok (obj [(''success'', VBool True), (''message'', S ''Cancelled (offline)'')])
    \<and> r_status (answer (patch_strategy w name b) h) = 200
    \<and> get (r_body (answer (patch_strategy w name b) h)) ''enabled'' = nvl (get b ''enabled'') (VBool True)"
proof -
  obtain e where "answer (cancelOrder w i) h = Inl e" using assms(2) by (auto simp: isl_def)
  then show ?thesis
    using assms(1,3) by (simp add: delete_order_def patch_strategy_def answer_bind fetchPython_down)
qed

text \<open>the Python fallback does not carry the client's order identifier: when Rust is
  unreachable, two submissions that differ only in \<open>clientOrderId\<close> send the same request, so Python
  cannot recognise a re-submission.\<close>

theorem fallback_drops_client_id:
  assumes "\<And>h. \<not> reachable_rust w ''SubmitOrder'' h"
  shows "sent (post_order w (obj ((''clientOrderId'', S c1) # (''traceId'', S t) # fs))) h =
         sent (post_order w (obj ((''clientOrderId'', S c2) # (''traceId'', S t) # fs))) h"
proof -
  have r: "answer (submitOrder w r) h' = Inl (case grpc_load w h' of Some e \<Rightarrow> if has_client h' then
      Err (U ''gRPC method not found: SubmitOrder'') else e
    | None \<Rightarrow> Err (U ''gRPC method not found: SubmitOrder''))" for r h'
    using assms [of h'] by (auto simp: submitOrder_def answer_def run_callUnary reachable_rust_def U_append [symmetric]
        split: option.split)
  show ?thesis
    using assms by (simp add: post_order_def sent_bind answer_bind id_or_fresh_def num_of_def r complete_order_def python_order_def)
qed

section \<open>Engines that are down\<close>

definition dead_engines :: engines where
  "dead_engines =
     \<lparr>grpc_load = (\<lambda>_. Some (Err (U ''ENOENT''))), grpc_methods = (\<lambda>_. True), rust = (\<lambda>_ _ _. Inl (Err (U ''UNAVAILABLE''))),
      python = (\<lambda>_ _. Inl (TypeErr (U ''fetch failed''))), db_strategies = (\<lambda>_. Inl NotError), uuid = (\<lambda>_. U ''id''),
      proc_env = Map.empty, proc_uptime = NumI 1\<rparr>"

theorem offline_cancel_succeeds_witness:
  "answer (delete_order dead_engines (U ''o1'')) [] =
      ok (obj [(''success'', VBool True), (''message'', S ''Cancelled (offline)'')])
    \<and> r_status (answer (patch_strategy dead_engines (U ''sniper'') (obj [(''enabled'', VBool False)])) []) = 200
    \<and> get (r_body (answer (patch_strategy dead_engines (U ''sniper'') (obj [(''enabled'', VBool False)])) [])) ''enabled''
        = nvl (get (obj [(''enabled'', VBool False)]) ''enabled'') (VBool True)"
  by (rule offline_cancel_succeeds)
    (simp_all add: python_down_def dead_engines_def cancelOrder_def answer_def run_callUnary has_client_def reachable_rust_def)

theorem fallback_drops_client_id_witness:
  "sent (post_order (dead_engines\<lparr>grpc_methods := \<lambda>_. False\<rparr>) (obj [(''clientOrderId'', S ''a''), (''traceId'', S ''t''),
      (''tokenMint'', S ''m''), (''side'', S ''BUY''), (''amountSol'', VI 1)])) [] =
   sent (post_order (dead_engines\<lparr>grpc_methods := \<lambda>_. False\<rparr>) (obj [(''clientOrderId'', S ''b''), (''traceId'', S ''t''),
      (''tokenMint'', S ''m''), (''side'', S ''BUY''), (''amountSol'', VI 1)])) []"
  by (rule fallback_drops_client_id) (simp add: reachable_rust_def)

end
