(* ===== verification/Base58.thy ===== *)
theory Base58
  imports JsVal "HOL-Library.Word"
begin

unbundle bit_operations_syntax

text \<open>
  The base-58 codec of \<open>artifacts/api-server/src/routes/settings.ts\<close> (\<open>base58Encode\<close>,
  \<open>base58Decode\<close>): two radix conversions on little-endian digit arrays that grow in place.
  The bit operators \<open><<\<close>, \<open>&\<close> and \<open>>>=\<close> work on signed 32-bit values and are modelled with
  their truncation; lemmas show that no value of the loops leaves the range, so that the loops
  are instances of one exact radix conversion (\<open>feed\<close>). Canonical digit lists are unique, which
  gives the two round trips.
\<close>

section \<open>Signed 32-bit operators\<close>

definition to_int32 :: "int \<Rightarrow> int" where
  "to_int32 n = (n + 2 ^ 31) mod 2 ^ 32 - 2 ^ 31"

definition js_shl :: "int \<Rightarrow> nat \<Rightarrow> int" where
  "js_shl a k = to_int32 (push_bit k (to_int32 a))"

definition js_shr :: "int \<Rightarrow> nat \<Rightarrow> int" where
  "js_shr a k = drop_bit k (to_int32 a)"

definition js_and :: "int \<Rightarrow> int \<Rightarrow> int" where
  "js_and a b = to_int32 a AND to_int32 b"

lemma to_int32_id: "- (2 ^ 31) \<le> n \<Longrightarrow> n < 2 ^ 31 \<Longrightarrow> to_int32 n = n"
  by (simp add: to_int32_def)

lemma to_int32_le: "0 \<le> n \<Longrightarrow> to_int32 n \<le> n"
proof -
  assume "0 \<le> n"
  then have "(n + 2 ^ 31) mod 2 ^ 32 \<le> n + 2 ^ 31" by (intro zmod_le_nonneg_dividend) simp
  then show ?thesis by (simp add: to_int32_def)
qed

lemma js_shl_8: "0 \<le> d \<Longrightarrow> d < 2 ^ 23 \<Longrightarrow> js_shl d 8 = d * 256"
  by (simp add: js_shl_def to_int32_id push_bit_eq_mult)

lemma js_shr_8: "0 \<le> c \<Longrightarrow> c < 2 ^ 31 \<Longrightarrow> js_shr c 8 = c div 256"
  by (simp add: js_shr_def to_int32_id drop_bit_eq_div)

lemma js_and_255: "0 \<le> c \<Longrightarrow> c < 2 ^ 31 \<Longrightarrow> js_and c 255 = c mod 256"
proof -
  assume c: "0 \<le> c" "c < 2 ^ 31"
  have "c AND (2 ^ 8 - 1) = c mod 2 ^ 8" by (metis take_bit_eq_mask mask_eq_exp_minus_1 take_bit_eq_mod)
  then show ?thesis using c by (simp add: js_and_def to_int32_id)
qed

section \<open>The code\<close>

definition BASE58_ALPHABET :: jstr where
  "BASE58_ALPHABET = U ''123456789ABCDEFGHJKLMNPQRSTUVWXYZabcdefghijkmnopqrstuvwxyz''"

text \<open>The inner \<open>for\<close> loop of \<open>base58Encode\<close>: the updated digits and the carry left over.\<close>

fun enc_loop :: "int \<Rightarrow> int list \<Rightarrow> int list \<times> int" where
  "enc_loop carry [] = ([], carry)"
| "enc_loop carry (d # ds) =
     (let c = carry + js_shl d 8; (ds', c') = enc_loop (c div 58) ds in (c mod 58 # ds', c'))"

function enc_push :: "int \<Rightarrow> int list" where
  "enc_push carry = (if 0 < carry then (carry mod 58) # enc_push (carry div 58) else [])"
  by pat_completeness auto
termination by (relation "measure nat") auto

declare enc_push.simps [simp del]

definition enc_byte :: "int list \<Rightarrow> int \<Rightarrow> int list" where
  "enc_byte digits byte = (let (ds, carry) = enc_loop byte digits in ds @ enc_push carry)"

text \<open>\<open>for (let k = 0; p(xs[k]) && k < xs.length - 1; k++)\<close>: how often the body runs.\<close>

fun lead_count :: "('a \<Rightarrow> bool) \<Rightarrow> 'a list \<Rightarrow> nat" where
  "lead_count p [] = 0"
| "lead_count p [x] = 0"
| "lead_count p (x # y # r) = (if p x then Suc (lead_count p (y # r)) else 0)"

definition base58Encode :: "int list \<Rightarrow> jstr" where
  "base58Encode bytes =
     (let digits = foldl enc_byte [0] bytes
      in replicate (lead_count (\<lambda>b. b = 0) bytes) (BASE58_ALPHABET ! 0)
         @ map (\<lambda>d. BASE58_ALPHABET ! nat d) (rev digits))"

fun dec_loop :: "int \<Rightarrow> int list \<Rightarrow> int list \<times> int" where
  "dec_loop carry [] = ([], carry)"
| "dec_loop carry (b # bs) =
     (let c = carry + b * 58; (bs', c') = dec_loop (js_shr c 8) bs in (js_and c 255 # bs', c'))"

function dec_push :: "int \<Rightarrow> int list" where
  "dec_push carry = (if 0 < carry then js_and carry 255 # dec_push (js_shr carry 8) else [])"
  by pat_completeness auto
termination
proof (relation "measure nat")
  fix c :: int assume c: "0 < c"
  have "to_int32 c div 256 < c"
    using to_int32_le [of c] c by (smt (verit) div_less_dividend int_div_less_self zdiv_mono1)
  then show "(js_shr c 8, c) \<in> measure nat"
    using c by (simp add: js_shr_def drop_bit_eq_div)
qed simp

declare dec_push.simps [simp del]

text \<open>\<open>for (const c of str)\<close> steps by code points: a surrogate pair is one character, which is not in the
  alphabet, and the message quotes all of it. Every character of the alphabet is one code unit.\<close>

definition code_point :: "nat \<Rightarrow> jstr \<Rightarrow> jstr" where
  "code_point c cs =
     (if 0xD800 \<le> c \<and> c \<le> 0xDBFF \<and> cs \<noteq> [] \<and> 0xDC00 \<le> hd cs \<and> hd cs \<le> 0xDFFF then [c, hd cs] else [c])"

definition dec_char :: "int list \<Rightarrow> nat \<Rightarrow> jstr \<Rightarrow> exn + int list" where
  "dec_char bytes c cs =
     (case find_index ((=) c) BASE58_ALPHABET of
        None \<Rightarrow> Inl (Err (U ''Invalid base58 character: '' @ code_point c cs))
      | Some idx \<Rightarrow> (let (bs, carry) = dec_loop (int idx) bytes in Inr (bs @ dec_push carry)))"

fun dec_chars :: "int list \<Rightarrow> jstr \<Rightarrow> exn + int list" where
  "dec_chars bytes [] = Inr bytes"
| "dec_chars bytes (c # cs) = (case dec_char bytes c cs of Inl e \<Rightarrow> Inl e | Inr bs \<Rightarrow> dec_chars bs cs)"

definition base58Decode :: "jstr \<Rightarrow> exn + int list" where
  "base58Decode s =
     (case dec_chars [0] s of Inl e \<Rightarrow> Inl e
      | Inr bytes \<Rightarrow> Inr (rev (bytes @ replicate (lead_count (\<lambda>c. c = BASE58_ALPHABET ! 0) s) 0)))"

section \<open>Exact radix conversion\<close>

fun val :: "int \<Rightarrow> int list \<Rightarrow> int" where
  "val B [] = 0"
| "val B (d # ds) = d + B * val B ds"

definition in_base :: "int \<Rightarrow> int list \<Rightarrow> bool" where
  "in_base B ds \<longleftrightarrow> (\<forall>d\<in>set ds. 0 \<le> d \<and> d < B)"

definition canon :: "int \<Rightarrow> int list \<Rightarrow> bool" where
  "canon B ds \<longleftrightarrow> in_base B ds \<and> (ds = [0] \<or> (ds \<noteq> [] \<and> last ds \<noteq> 0))"

fun loop :: "int \<Rightarrow> int \<Rightarrow> int \<Rightarrow> int list \<Rightarrow> int list \<times> int" where
  "loop m B c [] = ([], c)"
| "loop m B c (d # ds) = (let e = c + d * m; (ds', c') = loop m B (e div B) ds in (e mod B # ds', c'))"

function push :: "int \<Rightarrow> int \<Rightarrow> int list" where
  "push B c = (if 0 < c \<and> 1 < B then (c mod B) # push B (c div B) else [])"
  by pat_completeness auto
termination by (relation "measure (\<lambda>(B, c). nat c)") (auto simp: int_div_less_self)

declare push.simps [simp del]

definition feed :: "int \<Rightarrow> int \<Rightarrow> int list \<Rightarrow> int \<Rightarrow> int list" where
  "feed m B ds x = (let (ds', c) = loop m B x ds in ds' @ push B c)"

lemma in_base_simps [simp]:
  "in_base B []" "in_base B (d # ds) \<longleftrightarrow> 0 \<le> d \<and> d < B \<and> in_base B ds"
  "in_base B (xs @ ys) \<longleftrightarrow> in_base B xs \<and> in_base B ys" "in_base B (rev xs) \<longleftrightarrow> in_base B xs"
  by (auto simp: in_base_def)

lemma val_append: "val B (xs @ ys) = val B xs + B ^ length xs * val B ys"
  by (induction xs) (auto simp: algebra_simps)

lemma val_nonneg: "in_base B ds \<Longrightarrow> 0 \<le> val B ds"
proof (induction ds)
  case (Cons d ds)
  then have "0 \<le> B * val B ds" by (intro mult_nonneg_nonneg) auto
  then show ?case using Cons by simp
qed simp

lemma loop_val:
  assumes "0 < B"
  shows "loop m B c ds = (ds', c') \<Longrightarrow> val B ds' + B ^ length ds * c' = c + m * val B ds"
proof (induction ds arbitrary: c ds' c')
  case (Cons d ds)
  obtain es e where r: "loop m B ((c + d * m) div B) ds = (es, e)" by (cases "loop m B ((c + d * m) div B) ds")
  have "val B es + B ^ length ds * e = (c + d * m) div B + m * val B ds" using Cons.IH [OF r] .
  then have "B * (val B es + B ^ length ds * e) = B * ((c + d * m) div B + m * val B ds)" by simp
  moreover have "(c + d * m) mod B + B * ((c + d * m) div B) = c + d * m" by simp
  ultimately have "(c + d * m) mod B + B * (val B es + B ^ length ds * e) = c + d * m + B * (m * val B ds)"
    unfolding distrib_left by linarith
  then show ?case using Cons.prems r by (auto simp: algebra_simps)
qed simp

lemma div_less_of_mult: "(x :: int) < m * B \<Longrightarrow> 1 < B \<Longrightarrow> x div B < m"
proof (rule ccontr)
  assume x: "x < m * B" and B: "1 < B" and "\<not> x div B < m"
  then have "m * B \<le> x div B * B" by (intro mult_right_mono) auto
  moreover have "x div B * B \<le> x" using B minus_mod_eq_div_mult [of x B] pos_mod_sign [of B x] by linarith
  ultimately show False using x by simp
qed

lemma loop_range:
  assumes "1 < B" "0 < m"
  shows "loop m B c ds = (ds', c') \<Longrightarrow> 0 \<le> c \<Longrightarrow> c < m \<Longrightarrow> in_base B ds \<Longrightarrow>
    in_base B ds' \<and> length ds' = length ds \<and> 0 \<le> c' \<and> c' < m"
proof (induction ds arbitrary: c ds' c')
  case (Cons d ds)
  have d: "0 \<le> d" "d < B" using Cons.prems by auto
  have "c + d * m < m * B"
  proof -
    have "d * m \<le> (B - 1) * m" using d assms by (intro mult_right_mono) auto
    then show ?thesis using Cons.prems(3) by (simp add: algebra_simps)
  qed
  then have "(c + d * m) div B < m" using assms div_less_of_mult by blast
  moreover have "0 \<le> (c + d * m) div B" using Cons.prems d assms by (simp add: pos_imp_zdiv_nonneg_iff)
  ultimately show ?case
    using Cons.IH Cons.prems assms by (auto simp: Let_def split: prod.splits)
qed simp

lemma push_val: "1 < B \<Longrightarrow> 0 \<le> c \<Longrightarrow> val B (push B c) = c \<and> in_base B (push B c)"
proof (induction B c rule: push.induct)
  case (1 B c)
  then show ?case
    by (cases "0 < c") (simp_all add: push.simps [of B c] push.simps [of B 0] pos_imp_zdiv_nonneg_iff)
qed

lemma push_last: "1 < B \<Longrightarrow> 0 < c \<Longrightarrow> push B c \<noteq> [] \<and> last (push B c) \<noteq> 0"
proof (induction B c rule: push.induct)
  case (1 B c)
  show ?case
  proof (cases "0 < c div B")
    case True
    then show ?thesis using 1 by (simp add: push.simps [of B c])
  next
    case False
    then have "c div B = 0" using 1 by (simp add: pos_imp_zdiv_nonneg_iff not_less order_antisym)
    then have "c mod B = c" using mult_div_mod_eq [of B c] by simp
    then show ?thesis using 1 False by (simp add: push.simps [of B c] push.simps [of B "c div B"])
  qed
qed

lemma push_0 [simp]: "push B 0 = []"
  by (simp add: push.simps)

lemma feed_val: "1 < B \<Longrightarrow> 0 < m \<Longrightarrow> 0 \<le> x \<Longrightarrow> x < m \<Longrightarrow> in_base B ds \<Longrightarrow>
    val B (feed m B ds x) = x + m * val B ds \<and> in_base B (feed m B ds x)"
proof -
  assume a: "1 < B" "0 < m" "0 \<le> x" "x < m" "in_base B ds"
  obtain es c where r: "loop m B x ds = (es, c)" by (cases "loop m B x ds")
  then show ?thesis
    using a loop_val [OF _ r] loop_range [OF _ _ r] push_val [of B c]
    by (simp add: feed_def val_append)
qed

lemma loop_append:
  "loop m B c (xs @ ys) = (let (xs', c') = loop m B c xs; (ys', c'') = loop m B c' ys in (xs' @ ys', c''))"
  by (induction xs arbitrary: c) (auto simp: Let_def split: prod.splits)

lemma feed_canon:
  assumes "1 < B" "0 < m" "0 \<le> x" "x < m" "canon B ds"
  shows "canon B (feed m B ds x)"
proof -
  have ib: "in_base B (feed m B ds x)" using assms feed_val canon_def by blast
  obtain as a where ds: "ds = as @ [a]" and a: "a \<noteq> 0 \<or> ds = [0]"
    using assms(5) by (cases ds rule: rev_cases) (auto simp: canon_def)
  obtain es c where r: "loop m B x as = (es, c)" by (cases "loop m B x as")
  have ibd: "in_base B as" "0 \<le> a" using assms(5) ds by (auto simp: canon_def)
  have c: "0 \<le> c" using loop_range [OF _ _ r] assms ibd by simp
  let ?e = "c + a * m"
  have fd: "feed m B ds x = es @ (?e mod B) # push B (?e div B)"
    by (simp add: feed_def ds loop_append r Let_def)
  show ?thesis
  proof (cases "?e = 0")
    case True
    then have "a = 0" using c assms(2) ibd by (metis add_nonneg_eq_0_iff mult_eq_0_iff mult_nonneg_nonneg less_imp_le less_irrefl)
    then have "as = []" "es = []" using a ds r by auto
    then show ?thesis using fd True assms by (simp add: canon_def)
  next
    case False
    then have pos: "0 < ?e" using c assms(2) ibd by (simp add: order_less_le)
    show ?thesis
    proof (cases "?e div B = 0")
      case True
      then have "?e mod B = ?e" using mult_div_mod_eq [of B ?e] by simp
      then show ?thesis using fd True ib pos by (simp add: canon_def)
    next
      case False
      then have "0 < ?e div B" using pos assms(1) by (simp add: order_less_le pos_imp_zdiv_nonneg_iff)
      then show ?thesis using push_last [OF assms(1), of "?e div B"] fd ib by (simp add: canon_def)
    qed
  qed
qed

text \<open>Horner's rule for a big-endian digit list.\<close>

lemma foldl_feed:
  assumes "1 < B" "0 < m"
  shows "in_base m xs \<Longrightarrow> canon B ds \<Longrightarrow>
    canon B (foldl (feed m B) ds xs) \<and>
    val B (foldl (feed m B) ds xs) = val m (rev xs) + m ^ length xs * val B ds"
proof (induction xs arbitrary: ds)
  case (Cons x xs)
  have f: "canon B (feed m B ds x)" "val B (feed m B ds x) = x + m * val B ds"
    using Cons.prems assms feed_canon feed_val canon_def by auto
  have "val B (foldl (feed m B) (feed m B ds x) xs) = val m (rev xs) + m ^ length xs * (x + m * val B ds)"
    using Cons.IH [OF _ f(1)] Cons.prems f by simp
  then show ?case using Cons.IH [OF _ f(1)] Cons.prems by (simp add: val_append algebra_simps)
qed simp

lemma val_unique:
  assumes "0 < B"
  shows "in_base B xs \<Longrightarrow> in_base B ys \<Longrightarrow> length xs = length ys \<Longrightarrow> val B xs = val B ys \<Longrightarrow> xs = ys"
proof (induction xs arbitrary: ys)
  case (Cons x xs)
  then obtain y zs where ys: "ys = y # zs" by (cases ys) auto
  have "x mod B = x" "y mod B = y" using Cons.prems ys by simp_all
  moreover have "(x + B * val B xs) mod B = (y + B * val B zs) mod B" using Cons.prems(4) ys by simp
  ultimately have "x = y" by simp
  moreover from this have "val B xs = val B zs" using Cons.prems(4) ys assms by simp
  ultimately show ?case using Cons ys by simp
qed simp

lemma val_less: "0 < B \<Longrightarrow> in_base B xs \<Longrightarrow> val B xs < B ^ length xs"
proof (induction xs)
  case (Cons x xs)
  then have "B * (val B xs + 1) \<le> B * B ^ length xs" by (intro mult_left_mono) auto
  then show ?case using Cons by (simp add: algebra_simps)
qed simp

lemma canon_pos_length:
  assumes "0 < B" "canon B xs" "canon B ys" "val B xs = val B ys"
  shows "length xs = length ys"
proof -
  have pos: "B ^ (length zs - 1) \<le> val B zs" if "in_base B zs" "zs \<noteq> []" "last zs \<noteq> 0" for zs
  proof -
    obtain as a where zs: "zs = as @ [a]" using \<open>zs \<noteq> []\<close> by (cases zs rule: rev_cases) auto
    then have "0 \<le> val B as" "1 \<le> a" using \<open>in_base B zs\<close> \<open>last zs \<noteq> 0\<close> by (auto intro: val_nonneg)
    then have "B ^ length as * 1 \<le> B ^ length as * a" using assms(1) by (intro mult_left_mono) auto
    then show ?thesis using \<open>0 \<le> val B as\<close> by (simp add: zs val_append)
  qed
  have one: "xs = [0] \<longleftrightarrow> val B xs = 0" if "canon B xs" for xs
  proof
    assume z: "val B xs = 0"
    show "xs = [0]"
    proof (rule ccontr)
      assume "xs \<noteq> [0]"
      then have "B ^ (length xs - 1) \<le> val B xs" using that pos by (auto simp: canon_def)
      then show False using z zero_less_power [OF assms(1), of "length xs - 1"] by simp
    qed
  qed simp
  have le: "length zs \<le> length ws" if "canon B zs" "canon B ws" "val B zs = val B ws" for zs ws
  proof (cases "zs = [0]")
    case True
    then show ?thesis using that one by (metis canon_def order_refl)
  next
    case False
    then have "B ^ (length zs - 1) < B ^ length ws"
      using pos [of zs] val_less [of B ws] that assms(1) by (auto simp: canon_def)
    then have "length zs - 1 < length ws"
    proof (cases "B = 1")
      case True
      then show ?thesis using \<open>B ^ (length zs - 1) < B ^ length ws\<close> by simp
    next
      case False
      then show ?thesis using assms(1) \<open>B ^ (length zs - 1) < B ^ length ws\<close>
        by (intro power_less_imp_less_exp [of B]) auto
    qed
    then show ?thesis by simp
  qed
  show ?thesis using le [of xs ys] le [of ys xs] assms by simp
qed

lemma canon_unique:
  "0 < B \<Longrightarrow> canon B xs \<Longrightarrow> canon B ys \<Longrightarrow> val B xs = val B ys \<Longrightarrow> xs = ys"
  using canon_pos_length val_unique by (metis canon_def)

section \<open>The loops are exact conversions\<close>

lemma enc_loop_eq:
  "0 \<le> c \<Longrightarrow> in_base 58 ds \<Longrightarrow> enc_loop c ds = loop 256 58 c ds"
proof (induction ds arbitrary: c)
  case (Cons d ds)
  then have "js_shl d 8 = d * 256" by (simp add: js_shl_8)
  moreover have "0 \<le> (c + d * 256) div 58" using Cons.prems by (simp add: pos_imp_zdiv_nonneg_iff)
  ultimately show ?case using Cons by (simp add: Let_def)
qed simp

lemma enc_push_eq: "enc_push c = push 58 c"
proof (induction c rule: enc_push.induct)
  case (1 c)
  then show ?case by (subst enc_push.simps, subst push.simps) simp
qed

lemma enc_byte_feed: "0 \<le> x \<Longrightarrow> in_base 58 ds \<Longrightarrow> enc_byte ds x = feed 256 58 ds x"
  by (simp add: enc_byte_def feed_def enc_loop_eq enc_push_eq)

lemma dec_loop_eq:
  "0 \<le> c \<Longrightarrow> c < 58 \<Longrightarrow> in_base 256 ds \<Longrightarrow> dec_loop c ds = loop 58 256 c ds"
proof (induction ds arbitrary: c)
  case (Cons d ds)
  let ?e = "c + d * 58"
  have e: "0 \<le> ?e" "?e < 58 * 256" using Cons.prems by auto
  then have "js_shr ?e 8 = ?e div 256" "js_and ?e 255 = ?e mod 256"
    by (simp_all add: js_shr_8 js_and_255)
  moreover have "0 \<le> ?e div 256" "?e div 256 < 58"
    using e div_less_of_mult [of ?e 58 256] by (simp_all add: pos_imp_zdiv_nonneg_iff)
  ultimately show ?case using Cons by (simp add: Let_def)
qed simp

lemma dec_push_eq: "c < 2 ^ 31 \<Longrightarrow> dec_push c = push 256 c"
proof (induction c rule: dec_push.induct)
  case (1 c)
  show ?case
  proof (cases "0 < c")
    case True
    then have e: "js_shr c 8 = c div 256" "js_and c 255 = c mod 256"
      using "1.prems" by (simp_all add: js_shr_8 js_and_255)
    have "c div 256 \<le> c" using True by (simp add: int_div_less_self less_imp_le)
    then have "dec_push (c div 256) = push 256 (c div 256)" using 1 True e by simp
    then show ?thesis using True e by (simp add: dec_push.simps [of c] push.simps [of 256 c])
  qed (simp add: dec_push.simps [of c] push.simps [of 256 c])
qed

lemma dec_feed:
  assumes "0 \<le> x" "x < 58" "in_base 256 bs"
  shows "(let (bs', c) = dec_loop x bs in bs' @ dec_push c) = feed 58 256 bs x"
proof -
  obtain es c where r: "loop 58 256 x bs = (es, c)" by (cases "loop 58 256 x bs")
  then have "c < 58" using loop_range [OF _ _ r] assms by simp
  then show ?thesis using assms r by (simp add: dec_loop_eq feed_def dec_push_eq)
qed

lemma length_alphabet [simp]: "length BASE58_ALPHABET = 58"
  by (simp add: BASE58_ALPHABET_def)

lemma distinct_alphabet: "distinct BASE58_ALPHABET"
  by (simp add: BASE58_ALPHABET_def U_def)

lemma find_index_nth: "distinct xs \<Longrightarrow> i < length xs \<Longrightarrow> find_index ((=) (xs ! i)) xs = Some i"
proof (induction xs arbitrary: i)
  case (Cons x xs)
  then show ?case by (cases i) auto
qed simp

definition sym :: "int \<Rightarrow> nat" where
  "sym d = BASE58_ALPHABET ! nat d"

lemma sym_0 [simp]: "0 \<le> d \<Longrightarrow> d < 58 \<Longrightarrow> sym d = BASE58_ALPHABET ! 0 \<longleftrightarrow> d = 0"
  using nth_eq_iff_index_eq [OF distinct_alphabet, of "nat d" 0] by (auto simp: sym_def)

lemma dec_char_sym:
  "0 \<le> d \<Longrightarrow> d < 58 \<Longrightarrow> in_base 256 bs \<Longrightarrow> dec_char bs (sym d) cs = Inr (feed 58 256 bs d)"
  using dec_feed [of d bs]
  by (simp add: dec_char_def sym_def find_index_nth distinct_alphabet split_def Let_def)

lemma dec_chars_sym:
  "in_base 58 ds \<Longrightarrow> canon 256 bs \<Longrightarrow> dec_chars bs (map sym ds) = Inr (foldl (feed 58 256) bs ds)"
proof (induction ds arbitrary: bs)
  case (Cons d ds)
  have "in_base 256 bs" using Cons.prems by (simp add: canon_def)
  then have "dec_char bs (sym d) cs = Inr (feed 58 256 bs d)" for cs using Cons.prems by (simp add: dec_char_sym)
  moreover have "canon 256 (feed 58 256 bs d)" using Cons.prems by (intro feed_canon) auto
  ultimately show ?case using Cons by simp
qed simp

lemma foldl_enc_byte:
  "in_base 256 xs \<Longrightarrow> canon 58 ds \<Longrightarrow> foldl enc_byte ds xs = foldl (feed 256 58) ds xs"
proof (induction xs arbitrary: ds)
  case (Cons x xs)
  have "enc_byte ds x = feed 256 58 ds x" using Cons.prems by (intro enc_byte_feed) (auto simp: canon_def)
  moreover have "canon 58 (feed 256 58 ds x)" using Cons.prems by (intro feed_canon) auto
  ultimately show ?case using Cons by simp
qed simp

lemma canon_0 [simp]: "0 < B \<Longrightarrow> canon B [0]"
  by (simp add: canon_def)

lemma val_replicate_0: "val B (xs @ replicate n 0) = val B xs"
proof -
  have "val B (replicate n 0) = 0" by (induction n) auto
  then show ?thesis by (simp add: val_append)
qed

text \<open>A number written with its leading zeros: their count and the canonical digits.\<close>

lemma lead_split:
  assumes "xs \<noteq> []" "in_base B xs" "0 < B"
  shows "\<exists>ds. canon B ds \<and> xs = replicate (lead_count (\<lambda>b. b = 0) xs) 0 @ rev ds"
  using assms
proof (induction "\<lambda>b::int. b = 0" xs rule: lead_count.induct)
  case (2 x)
  then show ?case by (intro exI [of _ "[x]"]) (auto simp: canon_def)
next
  case (3 x y r)
  show ?case
  proof (cases "x = 0")
    case True
    then show ?thesis using 3 by auto
  next
    case False
    then show ?thesis using 3 by (intro exI [of _ "rev (x # y # r)"]) (auto simp: canon_def)
  qed
qed simp

lemma lead_count_replicate:
  assumes "canon B ds"
  shows "lead_count (\<lambda>b. b = 0) (replicate n 0 @ rev ds) = n"
proof (induction n)
  case 0
  have "lead_count (\<lambda>b. b = 0) (rev ds) = 0"
  proof (cases "ds = [0]")
    case False
    then obtain as a where ds: "ds = as @ [a]" "a \<noteq> 0"
      using assms by (cases ds rule: rev_cases) (auto simp: canon_def)
    then show ?thesis by (cases "rev as") auto
  qed simp
  then show ?case by simp
next
  case (Suc n)
  have ne: "replicate n 0 @ rev ds \<noteq> []" using assms by (auto simp: canon_def)
  then obtain y r where yr: "replicate n 0 @ rev ds = y # r" by (cases "replicate n 0 @ rev ds") auto
  then show ?case using Suc by simp
qed

lemma lead_count_map: "lead_count p (map f xs) = lead_count (\<lambda>x. p (f x)) xs"
  by (induction "\<lambda>x. p (f x)" xs rule: lead_count.induct) auto

lemma lead_count_cong: "(\<And>x. x \<in> set xs \<Longrightarrow> p x = q x) \<Longrightarrow> lead_count p xs = lead_count q xs"
  by (induction p xs rule: lead_count.induct) auto

lemma lead_count_sym:
  "in_base 58 ds \<Longrightarrow> lead_count (\<lambda>c. c = BASE58_ALPHABET ! 0) (map sym ds) = lead_count (\<lambda>d. d = 0) ds"
  unfolding lead_count_map by (rule lead_count_cong) (auto simp: in_base_def)

text \<open>Both functions, on digit lists: leading zeros pass through, the number changes its base.\<close>

lemma base58Encode_eq:
  assumes "canon 256 ds" "canon 58 es" "val 256 ds = val 58 es"
  shows "base58Encode (replicate n 0 @ rev ds) = map sym (replicate n 0 @ rev es)"
proof -
  let ?xs = "replicate n 0 @ rev ds"
  have ib: "in_base 256 ?xs" using assms by (auto simp: canon_def in_base_def)
  have f: "canon 58 (foldl enc_byte [0] ?xs)" "val 58 (foldl enc_byte [0] ?xs) = val 256 (rev ?xs)"
    using foldl_feed [OF _ _ ib, of 58 "[0]"] foldl_enc_byte [OF ib, of "[0]"] by simp_all
  have "val 256 (rev ?xs) = val 58 es" by (simp add: val_replicate_0 assms)
  then have "foldl enc_byte [0] ?xs = es" using f assms by (intro canon_unique [of 58]) auto
  then show ?thesis
    by (simp add: base58Encode_def lead_count_replicate [OF assms(1)] sym_def [abs_def] comp_def)
qed

lemma base58Decode_eq:
  assumes "canon 256 ds" "canon 58 es" "val 256 ds = val 58 es"
  shows "base58Decode (map sym (replicate n 0 @ rev es)) = Inr (replicate n 0 @ rev ds)"
proof -
  let ?ys = "replicate n 0 @ rev es"
  have ib: "in_base 58 ?ys" using assms by (auto simp: canon_def in_base_def)
  have f: "canon 256 (foldl (feed 58 256) [0] ?ys)" "val 256 (foldl (feed 58 256) [0] ?ys) = val 58 (rev ?ys)"
    using foldl_feed [OF _ _ ib, of 256 "[0]"] by simp_all
  have "val 58 (rev ?ys) = val 256 ds" by (simp add: val_replicate_0 assms)
  then have "foldl (feed 58 256) [0] ?ys = ds" using f assms by (intro canon_unique [of 256]) auto
  then show ?thesis
    using dec_chars_sym [OF ib, of "[0]"] lead_count_sym [OF ib] lead_count_replicate [OF assms(2), of n]
    by (simp add: base58Decode_def)
qed

text \<open>Every canonical number has a canonical counterpart in the other base.\<close>

lemma convert_exists:
  assumes "1 < B" "1 < m" "canon m ds"
  shows "\<exists>es. canon B es \<and> val B es = val m ds"
proof -
  have "in_base m (rev ds)" using assms by (simp add: canon_def)
  then show ?thesis
    using foldl_feed [of B m "rev ds" "[0]"] assms by auto
qed

lemma sym_index:
  assumes "c \<in> set BASE58_ALPHABET"
  shows "\<exists>d. 0 \<le> d \<and> d < 58 \<and> sym d = c"
proof -
  obtain i where "i < 58" "BASE58_ALPHABET ! i = c"
    using assms by (auto simp: in_set_conv_nth)
  then show ?thesis by (intro exI [of _ "int i"]) (simp add: sym_def)
qed

lemma sym_list:
  "set s \<subseteq> set BASE58_ALPHABET \<Longrightarrow> \<exists>ds. in_base 58 ds \<and> s = map sym ds"
proof (induction s)
  case (Cons c s)
  then obtain ds d where "in_base 58 ds" "s = map sym ds" "0 \<le> d" "d < 58" "sym d = c"
    using sym_index by fastforce
  then show ?case by (intro exI [of _ "d # ds"]) simp
qed simp

lemma dec_chars_Inr: "dec_chars bs s = Inr r \<Longrightarrow> set s \<subseteq> set BASE58_ALPHABET"
proof (induction bs s rule: dec_chars.induct)
  case (2 bs c cs)
  have "find_index ((=) c) BASE58_ALPHABET \<noteq> None"
    using 2(2) by (auto simp: dec_char_def split: sum.splits option.splits)
  then have "c \<in> set BASE58_ALPHABET"
    using find_index_None [of "(=) c" BASE58_ALPHABET] by auto
  then show ?case using 2 by (auto split: sum.splits)
qed simp

lemma base58_inverse:
  assumes "bytes \<noteq> []" and "\<And>b. b \<in> set bytes \<Longrightarrow> 0 \<le> b \<and> b < 256"
  shows "base58Decode (base58Encode bytes) = Inr bytes"
proof -
  have ib: "in_base 256 bytes" using assms(2) by (auto simp: in_base_def)
  obtain ds where ds: "canon 256 ds" "bytes = replicate (lead_count (\<lambda>b. b = 0) bytes) 0 @ rev ds"
    using lead_split [OF assms(1) ib] by auto
  obtain es where es: "canon 58 es" "val 58 es = val 256 ds" using convert_exists [of 58, OF _ _ ds(1)] by auto
  show ?thesis
    using base58Encode_eq [OF ds(1) es(1)] base58Decode_eq [OF ds(1) es(1)] es(2) by (subst (1 2) ds(2)) simp
qed

section \<open>Properties\<close>

text \<open>C12: decoding an encoded key gives the key back: for every non-empty sequence of bytes,
  \<open>base58Decode(base58Encode(bytes))\<close> returns the same bytes, leading zeros included.\<close>

theorem base58_decode_encode:
  assumes "bytes \<noteq> []" and "\<And>b. b \<in> set bytes \<Longrightarrow> 0 \<le> b \<and> b < 256"
  shows "base58Decode (base58Encode bytes) = Inr bytes"
  by (rule base58_inverse [OF assms])

theorem base58_decode_encode_witness:
  "base58Decode (base58Encode [0, 0, 255, 1]) = Inr [0, 0, 255, 1]"
  by (rule base58_decode_encode) auto

text \<open>The other round trip, with the error branch: a non-empty string is decoded exactly when
  all its characters are in the alphabet, and re-encoding the decoded bytes gives the same string; any
  other string is rejected with an \<open>Error\<close>.\<close>

theorem base58_encode_decode:
  assumes "s \<noteq> []"
  shows "(case base58Decode s of
      Inr bytes \<Rightarrow> set s \<subseteq> set BASE58_ALPHABET \<and> base58Encode bytes = s
    | Inl e \<Rightarrow> \<not> set s \<subseteq> set BASE58_ALPHABET)"
proof (cases "set s \<subseteq> set BASE58_ALPHABET")
  case True
  then obtain xs where xs: "in_base 58 xs" "s = map sym xs" using sym_list by blast
  then have "xs \<noteq> []" using assms by auto
  then obtain es where es: "canon 58 es" "xs = replicate (lead_count (\<lambda>b. b = 0) xs) 0 @ rev es"
    using lead_split [of xs 58] xs by auto
  obtain ds where ds: "canon 256 ds" "val 256 ds = val 58 es" using convert_exists [of 256, OF _ _ es(1)] by auto
  define n where "n = lead_count (\<lambda>b. b = 0) xs"
  have s: "s = map sym (replicate n 0 @ rev es)" using xs(2) es(2) by (simp add: n_def)
  have d: "base58Decode s = Inr (replicate n 0 @ rev ds)"
    using base58Decode_eq [OF ds(1) es(1) ds(2)] s by simp
  have e: "base58Encode (replicate n 0 @ rev ds) = s"
    using base58Encode_eq [OF ds(1) es(1) ds(2)] s by simp
  show ?thesis using True by (simp add: d e)
next
  case False
  then show ?thesis
    using dec_chars_Inr [of "[0]" s] by (auto simp: base58Decode_def split: sum.splits)
qed

theorem base58_encode_decode_witness:
  "(case base58Decode (U ''1A'') of
      Inr bytes \<Rightarrow> set (U ''1A'') \<subseteq> set BASE58_ALPHABET \<and> base58Encode bytes = U ''1A''
    | Inl e \<Rightarrow> \<not> set (U ''1A'') \<subseteq> set BASE58_ALPHABET)"
  by (rule base58_encode_decode) simp

section \<open>How long the loops run\<close>

lemma enc_push_short: "0 \<le> c \<Longrightarrow> c < 256 \<Longrightarrow> length (enc_push c) \<le> 2"
  by (subst enc_push.simps, subst enc_push.simps, subst enc_push.simps) auto

lemma push_short: "0 \<le> c \<Longrightarrow> c < 58 \<Longrightarrow> length (push 256 c) \<le> 1"
  by (subst push.simps, subst push.simps) auto

lemma enc_byte_runs:
  assumes "0 \<le> b" "b < 256" "in_base 58 ds"
  shows "case enc_loop b ds of (ds', carry) \<Rightarrow> length ds' = length ds \<and> 0 \<le> carry \<and> carry < 256 \<and> length (enc_push carry) \<le> 2"
    and "length (enc_byte ds b) \<le> length ds + 2" and "in_base 58 (enc_byte ds b)"
proof -
  obtain es c where r: "loop 256 58 b ds = (es, c)" by (cases "loop 256 58 b ds")
  note rng = loop_range [OF _ _ r] and e = enc_loop_eq [of b ds]
  show "case enc_loop b ds of (ds', carry) \<Rightarrow> length ds' = length ds \<and> 0 \<le> carry \<and> carry < 256 \<and> length (enc_push carry) \<le> 2"
    using rng e r assms enc_push_short [of c] by simp
  then show "length (enc_byte ds b) \<le> length ds + 2" by (auto simp: enc_byte_def)
  show "in_base 58 (enc_byte ds b)" using enc_byte_feed [of b ds] feed_val [of 58 256 b ds] assms by simp
qed

lemma enc_digits_length:
  "in_base 256 bs \<Longrightarrow> in_base 58 ds \<Longrightarrow>
     in_base 58 (foldl enc_byte ds bs) \<and> length (foldl enc_byte ds bs) \<le> length ds + 2 * length bs"
proof (induction bs arbitrary: ds)
  case (Cons b bs)
  then show ?case using enc_byte_runs(2,3) [of b ds] Cons.IH [of "enc_byte ds b"] by fastforce
qed simp

lemma lead_count_length: "lead_count p xs \<le> length xs"
  by (induction p xs rule: lead_count.induct) auto

lemma feed_length:
  assumes "0 \<le> d" "d < 58" "in_base 256 bs"
  shows "length (feed 58 256 bs d) \<le> length bs + 1 \<and> in_base 256 (feed 58 256 bs d)"
proof -
  obtain es c where r: "loop 58 256 d bs = (es, c)" by (cases "loop 58 256 d bs")
  show ?thesis using loop_range [OF _ _ r] push_short [of c] feed_val [of 256 58 d bs] assms r by (auto simp: feed_def)
qed

lemma dec_chars_length:
  "dec_chars bs s = Inr r \<Longrightarrow> in_base 256 bs \<Longrightarrow> in_base 256 r \<and> length r \<le> length bs + length s"
proof (induction bs s rule: dec_chars.induct)
  case (2 bs c cs)
  obtain bs' where b: "dec_char bs c cs = Inr bs'" "dec_chars bs' cs = Inr r"
    using 2(2) by (auto split: sum.splits)
  then have "c \<in> set BASE58_ALPHABET" using find_index_None [of "(=) c" BASE58_ALPHABET]
    by (auto simp: dec_char_def split: option.splits)
  then obtain ds where ds: "in_base 58 ds" "[c] = map sym ds" using sym_list [of "[c]"] by (metis empty_set empty_subsetI insert_subset list.simps(15))
  then obtain d where "c = sym d" "0 \<le> d" "d < 58" by (cases ds) auto
  then have "bs' = feed 58 256 bs d" using b(1) dec_char_sym [OF _ _ 2(3)] by simp
  then show ?case using 2(1) [OF b] feed_length [OF \<open>0 \<le> d\<close> \<open>d < 58\<close> 2(3)] by simp
qed simp

text \<open>C40: the loops of the codec end soon. For a byte array the carry that the inner loop of
  \<open>base58Encode\<close> leaves is below 256 at every byte, so its \<open>while\<close> loop runs at most twice and the text has at most
  \<open>3n + 1\<close> characters; decoding grows the array by at most one byte per character, and returns at most \<open>2n + 1\<close>
  bytes, or an error, for every string.\<close>

theorem base58_loops_bounded:
  assumes "\<forall>x\<in>set (bytes @ [b]). 0 \<le> x \<and> x < 256"
  shows "(case enc_loop b (foldl enc_byte [0] bytes) of (digits, carry) \<Rightarrow>
      0 \<le> carry \<and> carry < 256 \<and> length (enc_push carry) \<le> 2 \<and> length digits \<le> 2 * length bytes + 1) \<and>
    length (base58Encode bytes) \<le> 3 * length bytes + 1 \<and>
    (case base58Decode s of Inl e \<Rightarrow> True | Inr r \<Rightarrow> in_base 256 r \<and> length r \<le> 2 * length s + 1)"
proof (intro conjI)
  have ib: "in_base 256 bytes" "0 \<le> b" "b < 256" using assms by (auto simp: in_base_def)
  then have d: "in_base 58 (foldl enc_byte [0] bytes)" "length (foldl enc_byte [0] bytes) \<le> 2 * length bytes + 1"
    using enc_digits_length [of bytes "[0]"] by auto
  then show "case enc_loop b (foldl enc_byte [0] bytes) of (digits, carry) \<Rightarrow>
      0 \<le> carry \<and> carry < 256 \<and> length (enc_push carry) \<le> 2 \<and> length digits \<le> 2 * length bytes + 1"
    using enc_byte_runs(1) [OF ib(2,3) d(1)] by auto
  show "length (base58Encode bytes) \<le> 3 * length bytes + 1"
    using d(2) lead_count_length [of "\<lambda>b. b = 0" bytes] by (simp add: base58Encode_def)
  show "case base58Decode s of Inl e \<Rightarrow> True | Inr r \<Rightarrow> in_base 256 r \<and> length r \<le> 2 * length s + 1"
    using dec_chars_length [of "[0]" s] lead_count_length [of "\<lambda>c. c = BASE58_ALPHABET ! 0" s]
    by (auto simp: base58Decode_def in_base_def split: sum.split)
qed

theorem base58_loops_bounded_witness:
  "length (base58Encode [255, 255]) \<le> 7 \<and> length (enc_push (snd (enc_loop 255 (foldl enc_byte [0] [255, 255])))) \<le> 2"
  using base58_loops_bounded [of "[255, 255]" 255 "[]"] by (auto split: prod.splits)

end
