(* ===== verification/Settings.thy ===== *)
theory Settings
  imports Base58 JsJson Store Http
begin

text \<open>
  \<open>routes/settings.ts\<close>: the wallet's public key, the health of the RPC endpoint, the catalogue of
  environment variables, and the key-value table \<open>bot_config\<close> that overrides them. The URL parser
  (\<open>new URL\<close>), the file system, the clock and the RPC endpoints are arguments. A handler that may
  fetch returns the requests it sends beside its answer.
\<close>

section \<open>Constants\<close>

definition ALLOWED_CONFIG_KEYS :: "jstr list" where
  "ALLOWED_CONFIG_KEYS = map U
     [''SOLANA_RPC_URL'', ''SOLANA_RPC_URLS'', ''JITO_BUNDLE_URL'', ''JITO_TIP_PERCENT'',
      ''JITO_TIP_FLOOR_LAMPORTS'', ''JITO_TIP_CEILING_LAMPORTS'', ''JITO_SIMULATION_ENABLED'',
      ''MAX_POSITION_SIZE_SOL'', ''STOP_LOSS_PERCENT'', ''TAKE_PROFIT_PERCENT'', ''RUST_GRPC_URL'',
      ''PYTHON_STRATEGY_URL'']"

record env_var_def =
  ev_key :: jstr
  ev_required :: bool
  ev_description :: jstr
  ev_setIn :: jstr

definition env_var :: "string \<Rightarrow> bool \<Rightarrow> jstr \<Rightarrow> jstr \<Rightarrow> env_var_def" where
  "env_var k req d s = \<lparr>ev_key = U k, ev_required = req, ev_description = d, ev_setIn = s\<rparr>"

definition page_or_secrets :: jstr where
  "page_or_secrets = U ''Settings page or Replit Secrets panel''"

definition ENV_VAR_DEFS :: "env_var_def list" where
  "ENV_VAR_DEFS =
     [env_var ''SOLANA_RPC_URL'' True (U ''Solana JSON-RPC endpoint (e.g. your Helius / QuickNode URL).'') page_or_secrets,
      env_var ''SOLANA_RPC_URLS'' False (U ''Comma-separated RPC endpoints for automatic failover.'') page_or_secrets,
      env_var ''WALLET_PRIVATE_KEY'' True
        (U ''Wallet private key as a base58 string or JSON byte array (64 bytes).'') (U ''Replit Secrets panel''),
      env_var ''KEYPAIR_PATH'' False (U ''Path to a Solana keypair JSON file on disk.'')
        (U ''Replit Files panel '' @ [0x2014] @ U '' upload the file, then set the path here''),
      env_var ''DATABASE_URL'' True
        (U ''PostgreSQL connection string. Auto-provided when you attach a Replit database.'')
        (U ''Replit Database tab (auto-injected)''),
      env_var ''JITO_BUNDLE_URL'' False
        (U ''Jito MEV bundle submission endpoint. Enables front-running protection.'') page_or_secrets,
      env_var ''JITO_TIP_PERCENT'' False
        (U ''Jito tip as a fraction of trade value (e.g. 0.001 = 0.1%). Clamped to floor/ceiling.'') (U ''Settings page''),
      env_var ''JITO_TIP_FLOOR_LAMPORTS'' False
        (U ''Minimum Jito tip in lamports regardless of trade size (e.g. 5000 = 0.000005 SOL).'') (U ''Settings page''),
      env_var ''JITO_TIP_CEILING_LAMPORTS'' False
        (U ''Maximum Jito tip in lamports regardless of trade size (e.g. 10000000 = 0.01 SOL).'') (U ''Settings page''),
      env_var ''JITO_SIMULATION_ENABLED'' False
        (U ''Pre-submission transaction simulation gate. Set to '' @ [39] @ U ''true'' @ [39] @ U '' or '' @ [39] @ U ''false''
          @ [39, 46]) (U ''Settings page''),
      env_var ''PYTHON_STRATEGY_URL'' False
        (U ''URL of the Python strategy engine. Defaults to http://localhost:8001.'') page_or_secrets,
      env_var ''RUST_GRPC_URL'' False
        (U ''gRPC address of the Rust trading engine. Defaults to localhost:50051.'') page_or_secrets,
      env_var ''GRPC_PORT'' False (U ''Port the Rust gRPC server listens on (default: 50051).'') (U ''Replit Secrets panel''),
      env_var ''METRICS_PORT'' False (U ''Port for the Prometheus /metrics endpoint (default: 9091).'')
        (U ''Replit Secrets panel''),
      env_var ''MAX_POSITION_SIZE_SOL'' False (U ''Maximum SOL amount allowed per individual trade position.'')
        page_or_secrets,
      env_var ''STOP_LOSS_PERCENT'' False
        (U ''Stop-loss exit threshold as a percentage (e.g. 10 = exit at '' @ [0x2212] @ U ''10%).'') page_or_secrets,
      env_var ''TAKE_PROFIT_PERCENT'' False
        (U ''Take-profit exit threshold as a percentage (e.g. 50 = exit at +50%).'') page_or_secrets]"

section \<open>The wallet's public key\<close>

text \<open>\<open>new Uint8Array(v)\<close> on a JSON value: the elements of an array or array-like object, each reduced
  modulo 256 after truncation; zeros for a primitive, which is read as a length.\<close>

definition to_uint8 :: "jsnum \<Rightarrow> int" where
  "to_uint8 n = (case n of Fin q \<Rightarrow> (if 0 \<le> q then \<lfloor>q\<rfloor> else \<lceil>q\<rceil>) mod 256 | _ \<Rightarrow> 0)"

definition to_index :: "jsnum \<Rightarrow> nat option" where
  "to_index n = (case n of NaN \<Rightarrow> Some 0
     | Fin q \<Rightarrow> (let i = (if 0 \<le> q then \<lfloor>q\<rfloor> else \<lceil>q\<rceil>) in if 0 \<le> i \<and> i < 2 ^ 53 then Some (nat i) else None)
     | _ \<Rightarrow> None)"

definition to_length :: "jsnum \<Rightarrow> nat" where
  "to_length n = (case n of Fin q \<Rightarrow> min (nat \<lfloor>q\<rfloor>) (2 ^ 53 - 1) | PInf \<Rightarrow> 2 ^ 53 - 1 | _ \<Rightarrow> 0)"

definition uint8_array :: "jsval \<Rightarrow> exn + int list" where
  "uint8_array v =
     (case v of
        VArr xs \<Rightarrow> traverse (\<lambda>x. map_sum id to_uint8 (num_of x)) xs
      | VObj ps \<Rightarrow> and_then (num_of (lookup (U ''length'') ps))
          (\<lambda>n. traverse (\<lambda>i. map_sum id to_uint8 (num_of (lookup (dec_nat i) ps))) [0..<to_length n])
      | _ \<Rightarrow> (case to_index (to_num v) of
                Some n \<Rightarrow> Inr (replicate n 0)
              | None \<Rightarrow> Inl (Err (U ''Invalid typed array length''))))"

definition pubkeyFromKeypairBytes :: "int list \<Rightarrow> jstr option" where
  "pubkeyFromKeypairBytes bytes =
     (if length bytes \<noteq> 64 then None else Some (base58Encode (take 32 (drop 32 bytes))))"

record wallet_info =
  wi_pubkey :: "jstr option"
  wi_source :: "string option"

definition json_bytes :: "jstr \<Rightarrow> exn + int list" where
  "json_bytes s = (case json_parse s of Some v \<Rightarrow> uint8_array v
     | None \<Rightarrow> Inl (Err (U ''Unexpected token in JSON'')))"

definition key_bytes :: "jstr \<Rightarrow> exn + int list" where
  "key_bytes rawKey =
     (let trimmed = trim rawKey
      in if starts_with trimmed (U ''['') then json_bytes trimmed else base58Decode trimmed)"

definition ok_pubkey :: "exn + int list \<Rightarrow> jstr option" where
  "ok_pubkey r = (case r of Inr bytes \<Rightarrow> pubkeyFromKeypairBytes bytes | Inl _ \<Rightarrow> None)"

definition deriveWalletPubkey :: "env \<Rightarrow> (jstr \<Rightarrow> exn + jstr) \<Rightarrow> wallet_info" where
  "deriveWalletPubkey e readFile =
     (if env_truthy e ''WALLET_PRIVATE_KEY'' then
        \<lparr>wi_pubkey = ok_pubkey (key_bytes (the (e (U ''WALLET_PRIVATE_KEY'')))), wi_source = Some ''WALLET_PRIVATE_KEY''\<rparr>
      else if env_truthy e ''KEYPAIR_PATH'' then
        \<lparr>wi_pubkey = ok_pubkey (and_then (readFile (the (e (U ''KEYPAIR_PATH'')))) (\<lambda>raw. json_bytes (trim raw))),
         wi_source = Some ''KEYPAIR_PATH''\<rparr>
      else \<lparr>wi_pubkey = None, wi_source = None\<rparr>)"

section \<open>Masking and URL checks\<close>

definition maskString :: "jstr option \<Rightarrow> jstr" where
  "maskString v =
     (case v of None \<Rightarrow> []
      | Some s \<Rightarrow> if s = [] then [] else if length s \<le> 8 then U ''****''
                 else take 4 s @ U ''****'' @ slice_last 4 s)"

text \<open>\<open>parse url\<close> is the protocol and host name of \<open>new URL(url)\<close>, or \<open>None\<close> when it throws.\<close>

type_synonym url_parser = "jstr \<Rightarrow> (jstr \<times> jstr) option"

definition private_host :: "jstr \<Rightarrow> bool" where
  "private_host host =
     (let parts = map str_to_num (split_on 46 host)
      in length parts = 4 \<and> list_all (\<lambda>n. n \<noteq> NaN) parts \<and>
         (let a = parts ! 0; b = parts ! 1
          in num_eq a (NumI 127) \<or> num_eq a (NumI 10)
           \<or> (num_eq a (NumI 172) \<and> num_le (NumI 16) b \<and> num_le b (NumI 31))
           \<or> (num_eq a (NumI 192) \<and> num_eq b (NumI 168))
           \<or> (num_eq a (NumI 169) \<and> num_eq b (NumI 254))
           \<or> num_eq a (NumI 0)))"

definition isSafeRpcUrl :: "url_parser \<Rightarrow> jstr \<Rightarrow> bool" where
  "isSafeRpcUrl parse urlStr =
     (case parse urlStr of None \<Rightarrow> False
      | Some (protocol, hostname) \<Rightarrow>
          if protocol \<noteq> U ''http:'' \<and> protocol \<noteq> U ''https:'' then False
          else let host = to_lower hostname in
            if host = U ''localhost'' \<or> host = U ''0.0.0.0'' \<or> ends_with host (U ''.local'') then False
            else \<not> private_host host)"

section \<open>Probing the endpoint\<close>

record rpc_req =
  rq_url :: jstr
  rq_body :: jsval

text \<open>The endpoints: whether \<open>fetch\<close> settles with a response and its \<open>ok\<close>; the clock before and after.\<close>

record rpc_world =
  rpc_answer :: "rpc_req \<Rightarrow> exn + bool"
  rpc_start :: int
  rpc_end :: int

definition health_request :: "jstr \<Rightarrow> rpc_req" where
  "health_request url = \<lparr>rq_url = url,
     rq_body = obj [(''jsonrpc'', S ''2.0''), (''id'', VI 1), (''method'', S ''getHealth'')]\<rparr>"

definition pingRpc :: "rpc_world \<Rightarrow> jstr \<Rightarrow> int option \<times> rpc_req list" where
  "pingRpc p url =
     ((case rpc_answer p (health_request url) of
         Inr res_ok \<Rightarrow> if \<not> res_ok then None else Some (rpc_end p - rpc_start p)
       | Inl _ \<Rightarrow> None), [health_request url])"

section \<open>The configuration table\<close>

type_synonym 'd config_table = "('d, jstr, bot_config) table_ops"

definition from_entries :: "bot_config list \<Rightarrow> (jstr \<times> jstr) list" where
  "from_entries rows = foldl (\<lambda>m r. put (bc_key r) (bc_value r) m) [] rows"

definition loadDbConfig :: "'d config_table \<Rightarrow> 'd \<Rightarrow> (jstr \<times> jstr) list" where
  "loadDbConfig T d = (case t_all T d of Inr rows \<Rightarrow> from_entries rows | Inl _ \<Rightarrow> [])"

section \<open>GET /settings/status\<close>

text \<open>\<open>a || b || \<dots> || null\<close> on strings that may be undefined.\<close>

fun first_truthy :: "jstr option list \<Rightarrow> jstr option" where
  "first_truthy [] = None"
| "first_truthy (x # xs) = (case x of Some s \<Rightarrow> if s \<noteq> [] then Some s else first_truthy xs | None \<Rightarrow> first_truthy xs)"

definition first_url :: "jstr \<Rightarrow> jstr" where
  "first_url s = trim (hd (split_on 44 s))"

definition effective_rpc :: "env \<Rightarrow> (jstr \<Rightarrow> jstr option) \<Rightarrow> jstr option" where
  "effective_rpc e db = first_truthy
     [db (U ''SOLANA_RPC_URL''), e (U ''SOLANA_RPC_URL''),
      map_option first_url (db (U ''SOLANA_RPC_URLS'')), map_option first_url (e (U ''SOLANA_RPC_URLS''))]"

definition truthy_opt :: "jstr option \<Rightarrow> bool" where
  "truthy_opt x \<longleftrightarrow> x \<noteq> None \<and> x \<noteq> Some []"

definition env_var_json :: "env \<Rightarrow> (jstr \<Rightarrow> jstr option) \<Rightarrow> env_var_def \<Rightarrow> jsval" where
  "env_var_json e db df =
     (let envVal = e (ev_key df);
          dbVal = (if ev_key df \<in> set ALLOWED_CONFIG_KEYS then db (ev_key df) else None);
          effectiveVal = (if truthy_opt dbVal then dbVal else envVal);
          isSecret = (ev_key df = U ''WALLET_PRIVATE_KEY'' \<or> ev_key df = U ''DATABASE_URL'')
      in obj [(''key'', VStr (ev_key df)), (''required'', VBool (ev_required df)),
              (''description'', VStr (ev_description df)), (''setIn'', VStr (ev_setIn df)),
              (''set'', VBool (truthy_opt effectiveVal)),
              (''source'', if truthy_opt dbVal then S ''db'' else if truthy_opt envVal then S ''env'' else VNull),
              (''masked'', if truthy_opt effectiveVal then
                             (if isSecret then S ''****'' else VStr (maskString effectiveVal))
                           else S '''')])"

definition get_settings_status ::
  "env \<Rightarrow> (jstr \<Rightarrow> exn + jstr) \<Rightarrow> rpc_world \<Rightarrow> 'd config_table \<Rightarrow> 'd \<Rightarrow> response \<times> rpc_req list" where
  "get_settings_status e readFile p T d =
     (let walletInfo = deriveWalletPubkey e readFile;
          dbConfig = loadDbConfig T d;
          rpcUrl = effective_rpc e (map_of dbConfig);
          (rpcLatencyMs, reqs) = (case rpcUrl of Some u \<Rightarrow> pingRpc p u | None \<Rightarrow> (None, []))
      in (ok (obj
           [(''wallet'', obj
              [(''pubkey'', of_opt VStr (wi_pubkey walletInfo)), (''source'', of_opt S (wi_source walletInfo)),
               (''configured'', VBool (env_truthy e ''WALLET_PRIVATE_KEY'' \<or> env_truthy e ''KEYPAIR_PATH''))]),
            (''rpc'', obj
              [(''url'', case rpcUrl of Some u \<Rightarrow> VStr (maskString rpcUrl) | None \<Rightarrow> VNull),
               (''configured'', VBool (rpcUrl \<noteq> None)), (''latencyMs'', of_opt VI rpcLatencyMs),
               (''online'', VBool (rpcLatencyMs \<noteq> None))]),
            (''envVars'', VArr (map (env_var_json e (map_of dbConfig)) ENV_VAR_DEFS))]), reqs))"

section \<open>GET and PUT /settings/config\<close>

definition merged_config :: "env \<Rightarrow> (jstr \<Rightarrow> jstr option) \<Rightarrow> (jstr \<times> jsval) list" where
  "merged_config e db =
     List.map_filter (\<lambda>k. case db k of Some v \<Rightarrow> Some (k, VStr v)
        | None \<Rightarrow> (case e k of Some v \<Rightarrow> Some (k, VStr v) | None \<Rightarrow> None)) ALLOWED_CONFIG_KEYS"

definition get_settings_config :: "env \<Rightarrow> 'd config_table \<Rightarrow> 'd \<Rightarrow> response" where
  "get_settings_config e T d = ok (VObj (merged_config e (map_of (loadDbConfig T d))))"

definition config_entries :: "jsval \<Rightarrow> (jstr \<times> jstr) list" where
  "config_entries b = List.map_filter
     (\<lambda>(k, v). case v of VStr s \<Rightarrow> if k \<in> set ALLOWED_CONFIG_KEYS then Some (k, s) else None | _ \<Rightarrow> None) (spread b)"

definition save_entry :: "'d config_table \<Rightarrow> int \<Rightarrow> int \<Rightarrow> jstr \<times> jstr \<Rightarrow> 'd \<Rightarrow> (exn + unit) \<times> 'd" where
  "save_entry T t1 t2 kv d =
     (if snd kv = [] then t_delete T (fst kv) d
      else t_upsert T \<lparr>bc_key = fst kv, bc_value = snd kv, bc_updatedAt = Some t1\<rparr>
             (\<lambda>r. r\<lparr>bc_value := snd kv, bc_updatedAt := Some t2\<rparr>) d)"

text \<open>\<open>clock n\<close>: the time of the \<open>n\<close>-th \<open>new Date()\<close>.\<close>

fun save_entries :: "'d config_table \<Rightarrow> (nat \<Rightarrow> int) \<Rightarrow> nat \<Rightarrow> (jstr \<times> jstr) list \<Rightarrow> 'd \<Rightarrow> (exn + unit) \<times> 'd" where
  "save_entries T clock n [] d = (Inr (), d)"
| "save_entries T clock n (kv # kvs) d =
     db_then (save_entry T (clock n) (clock (n + 1)) kv) (\<lambda>_. save_entries T clock (n + 2) kvs) d"

definition js_object :: "jsval \<Rightarrow> bool" where
  "js_object v = (case v of VObj _ \<Rightarrow> True | VArr _ \<Rightarrow> True | VDate _ \<Rightarrow> True | VNull \<Rightarrow> True | _ \<Rightarrow> False)"

definition put_settings_config :: "'d config_table \<Rightarrow> (nat \<Rightarrow> int) \<Rightarrow> jsval \<Rightarrow> 'd \<Rightarrow> response \<times> 'd" where
  "put_settings_config T clock b d =
     (if \<not> truthy b \<or> \<not> js_object b then (err_reply 400 ''Request body must be a JSON object'', d)
      else let entries = config_entries b in
        if entries = [] then (err_reply 400 ''No valid config keys provided'', d)
        else case save_entries T clock 0 entries d of
            (Inr _, d') \<Rightarrow> (ok (obj [(''ok'', VBool True), (''updated'', VArr (map (\<lambda>kv. VStr (fst kv)) entries))]), d')
          | (Inl _, d') \<Rightarrow> (err_reply 500 ''Failed to save config'', d'))"

section \<open>POST /settings/config/test-rpc\<close>

definition test_error :: "nat \<Rightarrow> string \<Rightarrow> response" where
  "test_error s m = reply s (obj [(''ok'', VBool False), (''error'', S m)])"

definition post_test_rpc :: "url_parser \<Rightarrow> rpc_world \<Rightarrow> jsval \<Rightarrow> response \<times> rpc_req list" where
  "post_test_rpc parse p b =
     (if nullish b then (test_error 500 ''Test failed'', [])
      else case get b ''url'' of
          VStr url \<Rightarrow>
            if url = [] then (test_error 400 ''A URL string is required'', [])
            else if \<not> isSafeRpcUrl parse url then
              (test_error 400 ''URL must be an external https:// or http:// address. Private/local addresses are not allowed.'', [])
            else let (latencyMs, reqs) = pingRpc p url
                 in (ok (obj [(''ok'', VBool (latencyMs \<noteq> None)), (''latencyMs'', of_opt VI latencyMs)]), reqs)
        | _ \<Rightarrow> (test_error 400 ''A URL string is required'', []))"

section \<open>Numbers and hosts\<close>

lemma digit_not_ws: "is_digit c \<Longrightarrow> \<not> is_ws c"
  by (auto simp: is_digit_def is_ws_def)

lemma trim_no_ws: "(\<And>c. c \<in> set s \<Longrightarrow> \<not> is_ws c) \<Longrightarrow> trim s = s"
proof -
  assume nw: "\<And>c. c \<in> set s \<Longrightarrow> \<not> is_ws c"
  have "dropWhile is_ws t = t" if "set t \<subseteq> set s" for t
    using that nw by (cases t) auto
  then show "trim s = s" by (simp add: trim_def trim_start_def trim_end_def)
qed

lemma trim_dec_nat: "trim (dec_nat n) = dec_nat n"
  by (rule trim_no_ws) (auto dest: dec_nat_digits digit_not_ws)

lemma dec_nat_takeWhile: "takeWhile is_digit (dec_nat n) = dec_nat n" "dropWhile is_digit (dec_nat n) = []"
  using dec_nat_digits by (auto simp: takeWhile_eq_all_conv)

lemma not_radix_prefix:
  assumes "\<not> is_digit p" and "\<And>c. c \<in> set s \<Longrightarrow> is_digit c"
  shows "\<not> starts_with s [48, p]"
proof
  assume "starts_with s [48, p]"
  then obtain r where "s = [48, p] @ r" by (auto simp: starts_with_iff)
  then show False using assms by simp
qed

lemma U_radix: "U ''0x'' = [48, 120]" "U ''0X'' = [48, 88]" "U ''0o'' = [48, 111]" "U ''0O'' = [48, 79]"
    "U ''0b'' = [48, 98]" "U ''0B'' = [48, 66]" "U ''Infinity'' = [73, 110, 102, 105, 110, 105, 116, 121]"
  by (simp_all add: U_def)

lemma str_to_num_dec_nat: "str_to_num (dec_nat n) = fl (of_nat n)"
proof -
  have p: "\<not> starts_with (dec_nat n) [48, p]" if "\<not> is_digit p" for p
    using not_radix_prefix [OF that] dec_nat_digits by blast
  obtain c cs where c: "dec_nat n = c # cs" by (cases "dec_nat n") auto
  then have d: "is_digit c" using dec_nat_digits [of c n] by simp
  have "\<not> is_digit 120" "\<not> is_digit 88" "\<not> is_digit 111" "\<not> is_digit 79" "\<not> is_digit 98" "\<not> is_digit 66"
    by (simp_all add: is_digit_def)
  note pref = this [THEN p]
  have "unsigned_dec (dec_nat n) = Some (fl (of_nat n))"
    using d by (auto simp: unsigned_dec_def dec_nat_takeWhile U_radix exp_part_def pow10_def c [symmetric])
      (simp add: c is_digit_def)
  then show ?thesis
    using d pref by (auto simp: str_to_num_def trim_dec_nat U_radix Let_def) (auto simp: c is_digit_def)
qed

lemma str_to_num_small: "n \<le> 2 ^ 53 \<Longrightarrow> str_to_num (dec_nat n) = NumI (int n)"
  using fl_int [of "int n"] by (simp add: str_to_num_dec_nat)

text \<open>A canonical IPv4 host name, as the URL parser writes it.\<close>

definition ipv4_host :: "nat \<Rightarrow> nat \<Rightarrow> nat \<Rightarrow> nat \<Rightarrow> jstr" where
  "ipv4_host a b c d = dec_nat a @ 46 # dec_nat b @ 46 # dec_nat c @ 46 # dec_nat d"

lemma dot_notin_dec: "46 \<notin> set (dec_nat n)"
  using dec_nat_digits [of 46 n] by (auto simp: is_digit_def)

lemma split_ipv4: "split_on 46 (ipv4_host a b c d) = map dec_nat [a, b, c, d]"
  by (simp add: ipv4_host_def split_on_append split_on_no_sep dot_notin_dec)

lemma ipv4_chars: "x \<in> set (ipv4_host a b c d) \<Longrightarrow> is_digit x \<or> x = 46"
  by (auto simp: ipv4_host_def dest: dec_nat_digits)

lemma to_lower_ipv4: "to_lower (ipv4_host a b c d) = ipv4_host a b c d"
  unfolding to_lower_def by (rule map_idI) (auto dest!: ipv4_chars simp: is_digit_def)

lemma ipv4_not_name: "ipv4_host a b c d \<noteq> U ''localhost''" "\<not> ends_with (ipv4_host a b c d) (U ''.local'')"
proof -
  have l: "U ''localhost'' = 108 # U ''ocalhost''" "U ''.local'' = 46 # 108 # U ''ocal''" by (simp_all add: U_def)
  show "ipv4_host a b c d \<noteq> U ''localhost''"
  proof
    assume "ipv4_host a b c d = U ''localhost''"
    then have "108 \<in> set (ipv4_host a b c d)" by (simp add: l)
    then show False using ipv4_chars by (fastforce simp: is_digit_def)
  qed
  show "\<not> ends_with (ipv4_host a b c d) (U ''.local'')"
  proof
    assume "ends_with (ipv4_host a b c d) (U ''.local'')"
    then obtain r where "ipv4_host a b c d = r @ U ''.local''" by (auto simp: ends_with_iff)
    then have "108 \<in> set (ipv4_host a b c d)" by (simp add: l)
    then show False using ipv4_chars by (fastforce simp: is_digit_def)
  qed
qed

text \<open>CIDR blocks over 32-bit addresses.\<close>

definition ipv4 :: "nat \<Rightarrow> nat \<Rightarrow> nat \<Rightarrow> nat \<Rightarrow> nat" where
  "ipv4 a b c d = ((a * 256 + b) * 256 + c) * 256 + d"

definition in_cidr :: "nat \<Rightarrow> nat \<times> nat \<Rightarrow> bool" where
  "in_cidr addr blk = (addr div 2 ^ (32 - snd blk) = fst blk div 2 ^ (32 - snd blk))"

definition blocked_nets :: "(nat \<times> nat) list" where
  "blocked_nets = [(ipv4 127 0 0 0, 8), (ipv4 10 0 0 0, 8), (ipv4 172 16 0 0, 12), (ipv4 192 168 0 0, 16),
                   (ipv4 169 254 0 0, 16), (ipv4 0 0 0 0, 8)]"

lemma ipv4_prefix:
  assumes "b < 256" "c < 256" "d < 256"
  shows "ipv4 a b c d div 2 ^ 24 = a" "ipv4 a b c d div 2 ^ 20 = a * 16 + b div 16"
    "ipv4 a b c d div 2 ^ 16 = a * 256 + b"
proof -
  have split: "((a * 256 + (q * 16 + r)) * 256 + c) * 256 + d = (a * 16 + q) * 2 ^ 20 + ((r * 256 + c) * 256 + d)" for q r
    by (simp add: algebra_simps)
  have r: "(b * 256 + c) * 256 + d < 2 ^ 24" "c * 256 + d < 2 ^ 16" "(b mod 16 * 256 + c) * 256 + d < 2 ^ 20"
    using assms by simp_all
  have "ipv4 a b c d = a * 2 ^ 24 + ((b * 256 + c) * 256 + d)" by (simp add: ipv4_def)
  then show "ipv4 a b c d div 2 ^ 24 = a" using r(1) by simp
  have "ipv4 a b c d = (a * 256 + b) * 2 ^ 16 + (c * 256 + d)" by (simp add: ipv4_def)
  then show "ipv4 a b c d div 2 ^ 16 = a * 256 + b" using r(2) by simp
  have "ipv4 a b c d = (a * 16 + b div 16) * 2 ^ 20 + ((b mod 16 * 256 + c) * 256 + d)"
    using split [of "b div 16" "b mod 16"] by (simp add: ipv4_def)
  then show "ipv4 a b c d div 2 ^ 20 = a * 16 + b div 16" using r(3) by simp
qed

lemma private_host_ipv4:
  assumes "a < 256" "b < 256" "c < 256" "d < 256"
  shows "private_host (ipv4_host a b c d) \<longleftrightarrow> (\<exists>blk\<in>set blocked_nets. in_cidr (ipv4 a b c d) blk)"
proof -
  have n: "str_to_num (dec_nat x) = NumI (int x)" if "x < 256" for x
    using that by (intro str_to_num_small) simp
  have "private_host (ipv4_host a b c d) \<longleftrightarrow>
      a = 127 \<or> a = 10 \<or> (a = 172 \<and> 16 \<le> b \<and> b \<le> 31) \<or> (a = 192 \<and> b = 168) \<or> (a = 169 \<and> b = 254) \<or> a = 0"
    using assms by (simp add: private_host_def Let_def split_ipv4 n num_eq_def)
  also have "\<dots> \<longleftrightarrow> in_cidr (ipv4 a b c d) (ipv4 127 0 0 0, 8) \<or> in_cidr (ipv4 a b c d) (ipv4 10 0 0 0, 8)
      \<or> in_cidr (ipv4 a b c d) (ipv4 172 16 0 0, 12) \<or> in_cidr (ipv4 a b c d) (ipv4 192 168 0 0, 16)
      \<or> in_cidr (ipv4 a b c d) (ipv4 169 254 0 0, 16) \<or> in_cidr (ipv4 a b c d) (ipv4 0 0 0 0, 8)"
  proof -
    note pre = ipv4_prefix [OF assms(2-4), of a]
    have cidr: "in_cidr x (y, 8) \<longleftrightarrow> x div 2 ^ 24 = y div 2 ^ 24" "in_cidr x (y, 12) \<longleftrightarrow> x div 2 ^ 20 = y div 2 ^ 20"
      "in_cidr x (y, 16) \<longleftrightarrow> x div 2 ^ 16 = y div 2 ^ 16" for x y
      by (simp_all add: in_cidr_def)
    have zero: "(0 :: nat) < 256" "(16 :: nat) < 256" by simp_all
    have net8: "in_cidr (ipv4 a b c d) (ipv4 n 0 0 0, 8) \<longleftrightarrow> a = n" for n
      by (simp only: cidr pre ipv4_prefix(1) [OF zero(1,1,1)])
    have net16: "in_cidr (ipv4 a b c d) (ipv4 n m 0 0, 16) \<longleftrightarrow> a = n \<and> b = m" if "m < 256" for n m
    proof -
      have "a * 256 + b = n * 256 + m \<longleftrightarrow> a = n \<and> b = m"
      proof
        assume eq: "a * 256 + b = n * 256 + m"
        have "(a * 256 + b) div 256 = a" "(n * 256 + m) div 256 = n" using assms(2) that by simp_all
        then show "a = n \<and> b = m" using eq by simp
      qed simp
      then show ?thesis by (simp only: cidr pre ipv4_prefix(3) [OF that zero(1,1)])
    qed
    have net12: "in_cidr (ipv4 a b c d) (ipv4 172 16 0 0, 12) \<longleftrightarrow> a = 172 \<and> 16 \<le> b \<and> b \<le> 31"
    proof -
      have q: "b div 16 < 16" using assms(2) by simp
      have "a * 16 + b div 16 = 172 * 16 + 1 \<longleftrightarrow> a = 172 \<and> b div 16 = 1"
      proof
        assume eq: "a * 16 + b div 16 = 172 * 16 + 1"
        have "(a * 16 + b div 16) div 16 = a" using q by simp
        moreover have "(172 * 16 + 1) div 16 = (172 :: nat)" by simp
        ultimately show "a = 172 \<and> b div 16 = 1" using eq by simp
      qed simp
      also have "b div 16 = 1 \<longleftrightarrow> 16 \<le> b \<and> b \<le> 31" by auto
      finally have "a * 16 + b div 16 = 172 * 16 + 1 \<longleftrightarrow> a = 172 \<and> 16 \<le> b \<and> b \<le> 31" .
      then show ?thesis by (simp only: cidr pre ipv4_prefix(2) [OF zero(2,1,1)]) simp
    qed
    show ?thesis by (simp add: net8 net16 net12)
  qed
  also have "\<dots> \<longleftrightarrow> (\<exists>blk\<in>set blocked_nets. in_cidr (ipv4 a b c d) blk)" by (simp add: blocked_nets_def)
  finally show ?thesis .
qed

section \<open>Saving and reading the configuration\<close>

text \<open>What a successful save does to the stored values: the last entry for a key wins, an empty value
  removes it.\<close>

definition value_of :: "bot_config option \<Rightarrow> jstr option" where
  "value_of r = map_option bc_value r"

definition saved :: "(jstr \<times> jstr) list \<Rightarrow> jstr \<Rightarrow> jstr option \<Rightarrow> jstr option" where
  "saved kvs k old = (case map_of (rev kvs) k of None \<Rightarrow> old | Some v \<Rightarrow> if v = [] then None else Some v)"

lemma saved_Cons:
  "saved (kv # kvs) k old = saved kvs k (if k = fst kv then (if snd kv = [] then None else Some (snd kv)) else old)"
  by (auto simp: saved_def map_add_def split: option.splits)

lemma from_entries_map:
  "distinct (map bc_key rows) \<Longrightarrow>
     map_of (from_entries rows) k = map_option bc_value (map_of (map (\<lambda>r. (bc_key r, r)) rows) k)"
proof -
  have "map_of (foldl (\<lambda>m r. put (bc_key r) (bc_value r) m) m rows) k =
      (case map_of (map (\<lambda>r. (bc_key r, r)) rows) k of Some r \<Rightarrow> Some (bc_value r) | None \<Rightarrow> map_of m k)"
    if "distinct (map bc_key rows)" for m
    using that
  proof (induction rows arbitrary: m)
    case (Cons r rows)
    then have "map_of (map (\<lambda>r. (bc_key r, r)) rows) (bc_key r) = None" by (auto simp: map_of_eq_None_iff)
    then show ?case using Cons by (auto split: option.splits)
  qed simp
  from this [of "[]"] show "distinct (map bc_key rows) \<Longrightarrow> ?thesis" by (simp add: from_entries_def split: option.splits)
qed

lemma config_entries_allowed: "(k, v) \<in> set (config_entries b) \<Longrightarrow> k \<in> set ALLOWED_CONFIG_KEYS"
proof -
  have "(k, v) \<in> set (List.map_filter (\<lambda>(k, v). case v of VStr s \<Rightarrow> if k \<in> A then Some (k, s) else None | _ \<Rightarrow> None) ps)
      \<Longrightarrow> k \<in> A" for A ps
    by (induction ps) (auto simp: map_filter_simps split: jsval.splits if_splits option.splits)
  then show "(k, v) \<in> set (config_entries b) \<Longrightarrow> k \<in> set ALLOWED_CONFIG_KEYS"
    unfolding config_entries_def by blast
qed

locale config_store = db_table T bc_key view invar
  for T :: "'d config_table" and view :: "'d \<Rightarrow> (jstr \<rightharpoonup> bot_config)" and invar :: "'d \<Rightarrow> bool"
begin

lemma save_entry_ok:
  assumes "invar d" "save_entry T t1 t2 kv d = (Inr u, d')"
  shows "value_of (view d' k) = (if k = fst kv then (if snd kv = [] then None else Some (snd kv)) else value_of (view d k))
    \<and> (k \<noteq> fst kv \<longrightarrow> view d' k = view d k) \<and> invar d'"
proof (cases "snd kv = []")
  case True
  then show ?thesis using assms delete_ok [OF assms(1), of "fst kv" u d'] by (auto simp: save_entry_def value_of_def)
next
  case False
  let ?r = "\<lparr>bc_key = fst kv, bc_value = snd kv, bc_updatedAt = Some t1\<rparr>"
  let ?f = "\<lambda>r. r\<lparr>bc_value := snd kv, bc_updatedAt := Some t2\<rparr>"
  have "t_upsert T ?r ?f d = (Inr u, d')" using False assms(2) by (simp add: save_entry_def)
  from upsert_ok [OF assms(1) _ this] show ?thesis
    using False by (auto simp: value_of_def split: option.splits)
qed

lemma save_entry_fail:
  assumes "invar d" "save_entry T t1 t2 kv d = (Inl e, d')"
  shows "view d' = view d \<and> invar d'"
  using assms delete_fail [OF assms(1)] upsert_fail [OF assms(1)] by (auto simp: save_entry_def split: if_splits)

lemma save_entries_ok:
  "invar d \<Longrightarrow> save_entries T clock n kvs d = (Inr u, d') \<Longrightarrow>
     value_of (view d' k) = saved kvs k (value_of (view d k)) \<and> invar d'"
proof (induction kvs arbitrary: n d)
  case Nil
  then show ?case by (simp add: saved_def)
next
  case (Cons kv kvs)
  obtain u1 d1 where 1: "save_entry T (clock n) (clock (n + 1)) kv d = (Inr u1, d1)"
      "save_entries T clock (n + 2) kvs d1 = (Inr u, d')"
    using Cons.prems(2) by (auto simp: db_then_Inr)
  note e = save_entry_ok [OF Cons.prems(1) 1(1)]
  show ?case using Cons.IH [OF _ 1(2)] e by (simp add: saved_Cons)
qed

lemma save_entries_frame:
  "invar d \<Longrightarrow> save_entries T clock n kvs d = (r, d') \<Longrightarrow> j \<notin> fst ` set kvs \<Longrightarrow> view d' j = view d j \<and> invar d'"
proof (induction kvs arbitrary: n d)
  case (Cons kv kvs)
  obtain r1 d1 where 1: "save_entry T (clock n) (clock (n + 1)) kv d = (r1, d1)" by fastforce
  show ?case
  proof (cases r1)
    case (Inl e)
    then show ?thesis using Cons.prems 1 save_entry_fail [OF Cons.prems(1), of "clock n" "clock (n + 1)" kv e d1]
      by (simp add: db_then_def)
  next
    case (Inr u)
    then have "view d1 j = view d j" "invar d1"
      using save_entry_ok [OF Cons.prems(1), of "clock n" "clock (n + 1)" kv u d1] 1 Cons.prems(3) by auto
    then show ?thesis using Cons.IH [of d1 "n + 2"] Cons.prems 1 Inr by (simp add: db_then_def)
  qed
qed simp

lemma put_config_frame:
  assumes "invar d" "put_settings_config T clock b d = (r, d')" "j \<notin> set ALLOWED_CONFIG_KEYS"
  shows "view d' j = view d j \<and> invar d'"
proof -
  have j: "j \<notin> fst ` set (config_entries b)"
    using assms(3) config_entries_allowed by fastforce
  obtain x d1 where s: "save_entries T clock 0 (config_entries b) d = (x, d1)" by fastforce
  show ?thesis using save_entries_frame [OF assms(1) s j] assms(1,2) s
    by (auto simp: put_settings_config_def Let_def split: if_splits sum.splits)
qed

lemma loaded:
  assumes "invar d" "t_all T d = Inr rows"
  shows "map_of (loadDbConfig T d) k = value_of (view d k)"
proof -
  have r: "set rows = ran (view d)" "distinct (map bc_key rows)" using all_rows [OF assms] by auto
  have "map_of (map (\<lambda>r. (bc_key r, r)) rows) k = view d k"
  proof (cases "view d k")
    case None
    then have "k \<notin> bc_key ` set rows" using r(1) view_key [OF assms(1)] by (auto simp: ran_def)
    then show ?thesis using None by (simp add: map_of_eq_None_iff image_image)
  next
    case (Some x)
    then have "x \<in> set rows" "bc_key x = k" using r(1) view_key [OF assms(1) Some] by (auto simp: ran_def)
    then show ?thesis using Some r(2) by (intro map_of_is_SomeI [THEN trans]) (auto simp: comp_def)
  qed
  then show ?thesis using from_entries_map [OF r(2), of k] assms(2) by (simp add: loadDbConfig_def value_of_def)
qed

end

lemma merged_lookup:
  "k \<in> set ALLOWED_CONFIG_KEYS \<Longrightarrow>
     map_of (merged_config e db) k = map_option VStr (case db k of Some v \<Rightarrow> Some v | None \<Rightarrow> e k)"
proof -
  have "map_of (List.map_filter (\<lambda>k. case db k of Some v \<Rightarrow> Some (k, VStr v)
        | None \<Rightarrow> (case e k of Some v \<Rightarrow> Some (k, VStr v) | None \<Rightarrow> None)) ks) k =
     (if k \<in> set ks then map_option VStr (case db k of Some v \<Rightarrow> Some v | None \<Rightarrow> e k) else None)" for ks
    by (induction ks) (auto simp: map_filter_simps split: option.splits)
  then show "k \<in> set ALLOWED_CONFIG_KEYS \<Longrightarrow> ?thesis" unfolding merged_config_def by simp
qed

section \<open>A configuration table in memory\<close>

type_synonym mem_config = "(jstr \<times> bot_config) list \<times> bool"

definition mem_config_table :: "mem_config config_table" where
  "mem_config_table = mem_ops fst (\<lambda>x d. (x, snd d)) snd bc_key"

interpretation mem_config: config_store mem_config_table "\<lambda>d. map_of (fst d)" "\<lambda>d. well_keyed bc_key (fst d)"
  using mem_db_table [of fst "\<lambda>x d. (x, snd d)" "\<lambda>_. True" snd bc_key]
  by (simp add: config_store_def mem_config_table_def)

section \<open>Properties\<close>

lemma put_config_view:
  assumes "config_store T view invar" and "invar d"
    and "put_settings_config T clock b d = (r, d')" and "r_status r = 200"
  shows "value_of (view d' k) = saved (config_entries b) k (value_of (view d k))" "invar d'"
proof -
  obtain u where s: "save_entries T clock 0 (config_entries b) d = (Inr u, d')"
    using assms(3,4) by (auto simp: put_settings_config_def Let_def split: if_splits sum.splits prod.splits)
  show "value_of (view d' k) = saved (config_entries b) k (value_of (view d k))" "invar d'"
    using config_store.save_entries_ok [OF assms(1,2) s] by auto
qed

lemma get_config_view:
  assumes "config_store T view invar" and "invar d" and "t_all T d = Inr rows" and "k \<in> set ALLOWED_CONFIG_KEYS"
  shows "\<exists>m. get_settings_config e T d = ok (VObj m) \<and>
    map_of m k = map_option VStr (case value_of (view d k) of Some v \<Rightarrow> Some v | None \<Rightarrow> e k)"
  using config_store.loaded [OF assms(1-3), of k] merged_lookup [OF assms(4)] by (simp add: get_settings_config_def)

text \<open>C14: a configuration that is saved is read back. After a PUT that answers 200, a GET returns for every
  allowed key the last value the body gave it; an empty value removes the override, so that the
  environment's value shows again; keys that the body does not mention keep their value.\<close>

theorem config_put_get:
  assumes "config_store T view invar" and "invar d"
    and "put_settings_config T clock b d = (r, d')" and "r_status r = 200"
    and "t_all T d' = Inr rows" and "k \<in> set ALLOWED_CONFIG_KEYS"
  shows "\<exists>m. get_settings_config e T d' = ok (VObj m) \<and>
    map_of m k = map_option VStr
      (case saved (config_entries b) k (value_of (view d k)) of Some v \<Rightarrow> Some v | None \<Rightarrow> e k)"
  using get_config_view [OF assms(1) put_config_view(2) [OF assms(1-4)] assms(5,6), of e]
    put_config_view(1) [OF assms(1-4), of k] by simp

text \<open>whatever the body and whatever the answer, a configuration update never touches a key outside the
  allowed set.\<close>

theorem config_whitelist:
  assumes "config_store T view invar" and "invar d" and "j \<notin> set ALLOWED_CONFIG_KEYS"
  shows "view (snd (put_settings_config T clock b d)) j = view d j"
proof -
  obtain r d' where "put_settings_config T clock b d = (r, d')" by fastforce
  then show ?thesis using config_store.put_config_frame [OF assms(1,2) _ assms(3)] by simp
qed

text \<open>C15: on an \<open>http(s)\<close> URL whose host is a canonical IPv4 address, the SSRF guard accepts
  exactly the addresses outside the blocks 127/8, 10/8, 172.16/12, 192.168/16, 169.254/16 and 0/8.\<close>

theorem rpc_url_blocks_private_ipv4:
  assumes "parse url = Some (scheme, ipv4_host a b c d)" and "scheme \<in> {U ''http:'', U ''https:''}"
    and "a < 256" and "b < 256" and "c < 256" and "d < 256"
  shows "isSafeRpcUrl parse url \<longleftrightarrow> \<not> (\<exists>blk\<in>set blocked_nets. in_cidr (ipv4 a b c d) blk)"
proof -
  have z: "U ''0.0.0.0'' = ipv4_host 0 0 0 0" by (simp add: ipv4_host_def U_def dec_nat.simps)
  have "private_host (ipv4_host 0 0 0 0)"
    unfolding private_host_ipv4 [of 0 0 0 0, simplified] by (simp add: blocked_nets_def in_cidr_def)
  then have "isSafeRpcUrl parse url \<longleftrightarrow> \<not> private_host (ipv4_host a b c d)"
    using assms(1,2) ipv4_not_name [of a b c d] by (auto simp: isSafeRpcUrl_def to_lower_ipv4 Let_def z)
  then show ?thesis using private_host_ipv4 [OF assms(3-6)] by simp
qed

text \<open>the guard has no rule for IPv6: a URL whose host is \<open>[::1]\<close>, or any bracketed address
  without dots, is accepted, and the endpoint test then fetches it.\<close>

theorem rpc_url_admits_ipv6_loopback:
  assumes "parse url = Some (U ''http:'', 91 # h @ [93])" and "46 \<notin> set h" and "url \<noteq> []"
  shows "isSafeRpcUrl parse url \<and>
    snd (post_test_rpc parse p (obj [(''url'', VStr url)])) = [health_request url]"
proof -
  let ?h = "91 # h @ [93]"
  have l: "to_lower ?h = 91 # to_lower h @ [93]" by (simp add: to_lower_def)
  have nd: "46 \<notin> set (91 # to_lower h @ [93])" using assms(2) by (auto simp: to_lower_def split: if_splits)
  have names: "U ''localhost'' = 108 # U ''ocalhost''" "U ''0.0.0.0'' = 48 # U ''.0.0.0''" "U ''.local'' = 46 # U ''local''"
    by (simp_all add: U_def)
  have "\<not> ends_with (91 # to_lower h @ [93]) (U ''.local'')"
  proof
    assume "ends_with (91 # to_lower h @ [93]) (U ''.local'')"
    then obtain r where "91 # to_lower h @ [93] = r @ U ''.local''" by (auto simp: ends_with_iff)
    then have "46 \<in> set (91 # to_lower h @ [93])" by (simp add: names)
    then show False using nd by simp
  qed
  moreover have np: "\<not> private_host (91 # to_lower h @ [93])"
    by (simp only: private_host_def split_on_no_sep [OF nd]) (simp add: Let_def)
  ultimately have "isSafeRpcUrl parse url"
    using assms(1) by (simp add: isSafeRpcUrl_def l names Let_def)
  then show ?thesis using assms(3) by (simp add: post_test_rpc_def pingRpc_def)
qed

text \<open>The endpoint test sends one request, to the URL it was given, exactly when the URL is a
  non-empty string that the guard accepts; otherwise it sends none and answers with an error.\<close>

theorem test_rpc_fetches_only_safe:
  "case get b ''url'' of
     VStr url \<Rightarrow> snd (post_test_rpc parse p b) = (if url \<noteq> [] \<and> isSafeRpcUrl parse url then [health_request url] else [])
       \<and> (r_status (fst (post_test_rpc parse p b)) = 200 \<longleftrightarrow> url \<noteq> [] \<and> isSafeRpcUrl parse url)
   | _ \<Rightarrow> snd (post_test_rpc parse p b) = [] \<and> r_status (fst (post_test_rpc parse p b)) \<in> {400, 500}"
proof (cases "nullish b")
  case True
  then have "get b ''url'' = VUndef" by (auto simp: nullish_def)
  then show ?thesis using True by (simp add: post_test_rpc_def test_error_def)
next
  case False
  then show ?thesis by (auto simp: post_test_rpc_def test_error_def pingRpc_def split: jsval.split)
qed

text \<open>The status page depends on the two secrets only through whether they are set and the public
  key they give: two environments that differ in nothing else produce the same response and the same
  requests.\<close>

theorem status_hides_secrets:
  assumes "\<And>k. k \<noteq> U ''WALLET_PRIVATE_KEY'' \<Longrightarrow> k \<noteq> U ''DATABASE_URL'' \<Longrightarrow> e1 k = e2 k"
    and "env_truthy e1 ''WALLET_PRIVATE_KEY'' = env_truthy e2 ''WALLET_PRIVATE_KEY''"
    and "env_truthy e1 ''DATABASE_URL'' = env_truthy e2 ''DATABASE_URL''"
    and "deriveWalletPubkey e1 readFile = deriveWalletPubkey e2 readFile"
  shows "get_settings_status e1 readFile p T d = get_settings_status e2 readFile p T d"
proof -
  let ?db = "map_of (loadDbConfig T d)"
  have t: "truthy_opt (e (U k)) = env_truthy e k" for e k
    by (auto simp: truthy_opt_def env_truthy_def split: option.split)
  have na: "U ''WALLET_PRIVATE_KEY'' \<notin> set ALLOWED_CONFIG_KEYS" "U ''DATABASE_URL'' \<notin> set ALLOWED_CONFIG_KEYS"
    by (simp_all add: ALLOWED_CONFIG_KEYS_def)
  have "env_var_json e1 ?db df = env_var_json e2 ?db df" for df
  proof (cases "ev_key df = U ''WALLET_PRIVATE_KEY'' \<or> ev_key df = U ''DATABASE_URL''")
    case True
    then show ?thesis using assms(2,3) na by (auto simp: env_var_json_def Let_def t)
  next
    case False
    then show ?thesis using assms(1) [of "ev_key df"] by (simp add: env_var_json_def)
  qed
  then have j: "env_var_json e1 ?db = env_var_json e2 ?db" by (simp add: fun_eq_iff)
  have r: "effective_rpc e1 ?db = effective_rpc e2 ?db"
    using assms(1) by (simp add: effective_rpc_def)
  have k: "env_truthy e1 ''KEYPAIR_PATH'' = env_truthy e2 ''KEYPAIR_PATH''"
    using assms(1) [of "U ''KEYPAIR_PATH''"] by (simp add: env_truthy_def)
  show ?thesis unfolding get_settings_status_def Let_def j r k assms(2,4) ..
qed

lemma alphabet_plain: "c \<in> set BASE58_ALPHABET \<Longrightarrow> \<not> is_ws c \<and> c \<noteq> 91"
proof -
  assume "c \<in> set BASE58_ALPHABET"
  moreover have "list_all (\<lambda>c. 49 \<le> c \<and> c \<le> 122 \<and> c \<noteq> 91) BASE58_ALPHABET"
    by (simp add: BASE58_ALPHABET_def U_def)
  ultimately have "49 \<le> c \<and> c \<le> 122 \<and> c \<noteq> 91" by (simp add: list_all_iff)
  then show ?thesis by (auto simp: is_ws_def)
qed

lemma drop_ws:
  "(\<And>c. c \<in> set l \<Longrightarrow> is_ws c) \<Longrightarrow> s \<noteq> [] \<Longrightarrow> \<not> is_ws (hd s) \<Longrightarrow> dropWhile is_ws (l @ s @ r) = s @ r"
  by (induction l) (auto simp: neq_Nil_conv)

lemma trim_pad:
  assumes "\<And>c. c \<in> set l \<union> set r \<Longrightarrow> is_ws c" and "s \<noteq> []" and "\<And>c. c \<in> set s \<Longrightarrow> \<not> is_ws c"
  shows "trim (l @ s @ r) = s"
proof -
  have "dropWhile is_ws (l @ s @ r) = s @ r" using assms by (intro drop_ws) auto
  moreover have "dropWhile is_ws (rev (s @ r)) = rev s"
    using drop_ws [of "rev r" "rev s" "[]"] assms by (simp add: hd_rev)
  ultimately show ?thesis by (simp add: trim_def trim_start_def trim_end_def)
qed

text \<open>C13: the public key shown for a private key is the encoding of its second half: for every 64-byte key given
  in Base58, with white space around it or not, \<open>deriveWalletPubkey\<close> answers the Base58 text of bytes 32
  to 63 and never the private half.\<close>

theorem derive_pubkey:
  assumes "length kp = 64" and "\<And>b. b \<in> set kp \<Longrightarrow> 0 \<le> b \<and> b < 256"
    and "\<And>c. c \<in> set l \<union> set r \<Longrightarrow> is_ws c"
    and "e (U ''WALLET_PRIVATE_KEY'') = Some (l @ base58Encode kp @ r)"
  shows "deriveWalletPubkey e readFile =
    \<lparr>wi_pubkey = Some (base58Encode (drop 32 kp)), wi_source = Some ''WALLET_PRIVATE_KEY''\<rparr>"
proof -
  have d: "base58Decode (base58Encode kp) = Inr kp" using assms(1,2) by (intro base58_inverse) auto
  have ne: "base58Encode kp \<noteq> []"
  proof
    assume "base58Encode kp = []"
    then show False using d assms(1) by (auto simp: base58Decode_def)
  qed
  have al: "set (base58Encode kp) \<subseteq> set BASE58_ALPHABET"
    using dec_chars_Inr [of "[0]" "base58Encode kp"] d by (auto simp: base58Decode_def split: sum.splits)
  have t: "trim (l @ base58Encode kp @ r) = base58Encode kp"
    using al alphabet_plain by (intro trim_pad assms(3) ne) auto
  have "\<not> starts_with (base58Encode kp) (U ''['')"
    using al alphabet_plain ne by (cases "base58Encode kp") (auto simp: starts_with_def U_def)
  then have "key_bytes (l @ base58Encode kp @ r) = Inr kp" by (simp add: key_bytes_def t d)
  then show ?thesis
    using assms(1,4) ne by (simp add: deriveWalletPubkey_def env_truthy_def ok_pubkey_def pubkeyFromKeypairBytes_def)
qed

section \<open>Witnesses\<close>

definition demo_files :: "jstr \<Rightarrow> exn + jstr" where
  "demo_files path = Inl (Err (U ''ENOENT''))"

definition demo_rpc :: rpc_world where
  "demo_rpc = \<lparr>rpc_answer = (\<lambda>_. Inr True), rpc_start = 0, rpc_end = 12\<rparr>"

definition demo_config :: mem_config where
  "demo_config = ([(U ''STOP_LOSS_PERCENT'', \<lparr>bc_key = U ''STOP_LOSS_PERCENT'', bc_value = U ''10'', bc_updatedAt = None\<rparr>)], True)"

definition demo_body :: jsval where
  "demo_body = obj [(''STOP_LOSS_PERCENT'', S ''12''), (''HOME'', S ''/'')]"

lemma demo_config_invar: "well_keyed bc_key (fst demo_config)"
  by (simp add: demo_config_def well_keyed_def)

theorem config_put_get_witness:
  "\<exists>r d' m. put_settings_config mem_config_table int demo_body demo_config = (r, d') \<and>
    get_settings_config Map.empty mem_config_table d' = ok (VObj m) \<and>
    map_of m (U ''STOP_LOSS_PERCENT'') = Some (S ''12'')"
proof -
  have e: "config_entries demo_body = [(U ''STOP_LOSS_PERCENT'', U ''12'')]"
    by (simp add: demo_body_def obj_def config_entries_def map_filter_simps S_def ALLOWED_CONFIG_KEYS_def)
  obtain r d' where p: "put_settings_config mem_config_table int demo_body demo_config = (r, d')"
    by (metis prod.collapse)
  have o: "truthy demo_body" "js_object demo_body" by (simp_all add: demo_body_def obj_def js_object_def)
  from p have r: "r_status r = 200" "\<exists>rows. t_all mem_config_table d' = Inr rows"
    by (auto simp: put_settings_config_def e o Let_def save_entry_def
        mem_config_table_def mem_ops_def demo_config_def db_then_def)
  then obtain rows where rows: "t_all mem_config_table d' = Inr rows" by blast
  have k: "U ''STOP_LOSS_PERCENT'' \<in> set ALLOWED_CONFIG_KEYS" by (simp add: ALLOWED_CONFIG_KEYS_def)
  show ?thesis
    using config_put_get [OF mem_config.config_store_axioms demo_config_invar p r(1) rows k, of Map.empty] p
    by (auto simp: e saved_def S_def)
qed

theorem config_whitelist_witness:
  "map_of (fst (snd (put_settings_config mem_config_table int demo_body demo_config))) (U ''HOME'') =
   map_of (fst demo_config) (U ''HOME'')"
  by (rule config_whitelist [OF mem_config.config_store_axioms demo_config_invar]) (simp add: ALLOWED_CONFIG_KEYS_def)

definition demo_parse :: url_parser where
  "demo_parse url = (if url = U ''http://172.20.1.5'' then Some (U ''http:'', ipv4_host 172 20 1 5)
     else if url = U ''http://[::1]'' then Some (U ''http:'', U ''[::1]'') else None)"

theorem rpc_url_blocks_private_ipv4_witness:
  "isSafeRpcUrl demo_parse (U ''http://172.20.1.5'') \<longleftrightarrow> \<not> (\<exists>blk\<in>set blocked_nets. in_cidr (ipv4 172 20 1 5) blk)"
  by (rule rpc_url_blocks_private_ipv4 [where scheme = "U ''http:''"]) (simp_all add: demo_parse_def)

theorem rpc_url_admits_ipv6_loopback_witness:
  "isSafeRpcUrl demo_parse (U ''http://[::1]'') \<and>
    snd (post_test_rpc demo_parse demo_rpc (obj [(''url'', VStr (U ''http://[::1]''))])) = [health_request (U ''http://[::1]'')]"
  by (rule rpc_url_admits_ipv6_loopback [where h = "U ''::1''"]) (simp_all add: demo_parse_def U_def)

theorem status_hides_secrets_witness:
  "get_settings_status [U ''DATABASE_URL'' \<mapsto> U ''postgres://a''] demo_files demo_rpc mem_config_table demo_config =
   get_settings_status [U ''DATABASE_URL'' \<mapsto> U ''postgres://b''] demo_files demo_rpc mem_config_table demo_config"
  by (rule status_hides_secrets) (auto simp: env_truthy_def deriveWalletPubkey_def)

theorem derive_pubkey_witness:
  "deriveWalletPubkey [U ''WALLET_PRIVATE_KEY'' \<mapsto> U '' '' @ base58Encode (map int [0..<64]) @ [10]] demo_files =
    \<lparr>wi_pubkey = Some (base58Encode (drop 32 (map int [0..<64]))), wi_source = Some ''WALLET_PRIVATE_KEY''\<rparr>"
  by (rule derive_pubkey [where l = "U '' ''" and r = "[10]"]) (auto simp: U_def is_ws_def)

end
