(* ===== verification/Trades.thy ===== *)
theory Trades
  imports Http Store "HOL-Library.Multiset" "HOL-Library.Product_Lexorder"
begin

text \<open>
  \<open>routes/trades.ts\<close> and \<open>routes/token-metrics.ts\<close>: the two history tables, read with filters, a
  descending order and a limit. The database is a record of what the queries use: the rows of the
  table, in whatever order the database produces them, and the driver's conversions of parameters. A
  query filters the rows, sorts them stably by the order key (so that ties stay in the database's
  order) and truncates. Query-string values are \<open>undefined\<close>, a string, or an array of strings.
\<close>

section \<open>UUIDs and limits\<close>

definition hex_digit :: "nat \<Rightarrow> bool" where
  "hex_digit c \<longleftrightarrow> is_digit c \<or> (97 \<le> c \<and> c \<le> 102) \<or> (65 \<le> c \<and> c \<le> 70)"

text \<open>The regular expression: five groups of hexadecimal digits of fixed lengths.\<close>

definition UUID_RE :: "jstr \<Rightarrow> bool" where
  "UUID_RE s \<longleftrightarrow> map length (split_on 45 s) = [8, 4, 4, 4, 12] \<and> list_all (list_all hex_digit) (split_on 45 s)"

definition parseLimit :: "jsval \<Rightarrow> jsnum \<Rightarrow> jsnum \<Rightarrow> jsnum" where
  "parseLimit raw defaultVal mx =
     (let n = parse_int10 (to_str (nvl raw (VNum defaultVal)))
      in math_min (if num_is_integer n \<and> num_lt (Fin 0) n then n else defaultVal) mx)"

section \<open>Queries\<close>

text \<open>\<open>q_text\<close>, \<open>q_uuid\<close>, \<open>q_limit\<close>: the text, \<open>uuid\<close> (in canonical form) or row count that a parameter
  denotes, or the error the database answers.\<close>

record ('d, 'r) query_db =
  q_rows :: "'d \<Rightarrow> exn + 'r list"
  q_text :: "jsval \<Rightarrow> exn + jstr"
  q_uuid :: "jsval \<Rightarrow> exn + jstr"
  q_limit :: "jsnum \<Rightarrow> exn + nat"

definition sort_desc :: "('r \<Rightarrow> 'k :: linorder) \<Rightarrow> 'r list \<Rightarrow> 'r list" where
  "sort_desc key rows = rev (sort_key key (rev rows))"

lemma sort_desc_sorted: "sorted_wrt (\<lambda>x y. key y \<le> key x) (sort_desc key rows)"
  using sorted_sort_key [of key "rev rows"] unfolding sort_desc_def sorted_wrt_rev sorted_map .

lemma sort_desc_perm: "mset (sort_desc key rows) = mset rows"
  by (simp add: sort_desc_def)

text \<open>What a client may expect of the first \<open>n\<close> rows in descending order.\<close>

definition top_rows :: "('r \<Rightarrow> 'k :: linorder) \<Rightarrow> nat \<Rightarrow> 'r multiset \<Rightarrow> 'r list \<Rightarrow> bool" where
  "top_rows key n M rs \<longleftrightarrow> sorted_wrt (\<lambda>x y. key y \<le> key x) rs \<and> mset rs \<subseteq># M \<and>
     length rs = min n (size M) \<and> (\<forall>x\<in>set rs. \<forall>y\<in>#M - mset rs. key y \<le> key x)"

lemma top_rows_take: "top_rows key n (mset rows) (take n (sort_desc key rows))"
proof -
  let ?s = "sort_desc key rows"
  have m: "mset rows = mset (take n ?s) + mset (drop n ?s)"
    by (metis append_take_drop_id mset_append sort_desc_perm)
  have "sorted_wrt (\<lambda>x y. key y \<le> key x) (take n ?s @ drop n ?s)"
    unfolding append_take_drop_id by (rule sort_desc_sorted)
  then have s: "sorted_wrt (\<lambda>x y. key y \<le> key x) (take n ?s)"
    and x: "\<forall>x\<in>set (take n ?s). \<forall>y\<in>set (drop n ?s). key y \<le> key x"
    unfolding sorted_wrt_append by blast+
  have "size (mset rows) = length ?s" unfolding sort_desc_perm [of key rows, symmetric] by simp
  then have "length (take n ?s) = min n (size (mset rows))" by (simp only: length_take min.commute)
  moreover have "mset (take n ?s) \<subseteq># mset rows" unfolding m by simp
  moreover have "mset rows - mset (take n ?s) = mset (drop n ?s)" unfolding m by simp
  ultimately show ?thesis unfolding top_rows_def using s x by simp
qed

section \<open>GET /bot/trades\<close>

text \<open>\<open>ORDER BY created_at DESC\<close>: nulls first.\<close>

definition trade_order :: "trade_row \<Rightarrow> bool \<times> int" where
  "trade_order r = (case tr_createdAt r of None \<Rightarrow> (True, 0) | Some t \<Rightarrow> (False, t))"

type_synonym 'd trades_db = "('d, trade_row) query_db"

text \<open>A condition is absent, or the value of a parameter that the database may refuse.\<close>

definition opt_cond :: "jsval \<Rightarrow> (jsval \<Rightarrow> exn + jstr) \<Rightarrow> exn + jstr option" where
  "opt_cond v conv = (if truthy v then map_sum id Some (conv v) else Inr None)"

definition trade_matches :: "jstr option \<Rightarrow> jstr option \<Rightarrow> trade_row \<Rightarrow> bool" where
  "trade_matches c s r \<longleftrightarrow> (case c of None \<Rightarrow> True | Some u \<Rightarrow> tr_clientOrderId r = Some u) \<and>
     (case s of None \<Rightarrow> True | Some n \<Rightarrow> tr_strategy r = n)"

definition select_trades :: "'d trades_db \<Rightarrow> jsval \<Rightarrow> jsval \<Rightarrow> jsnum \<Rightarrow> 'd \<Rightarrow> exn + trade_row list" where
  "select_trades T clientOrderId strategy limit d =
     and_then (opt_cond clientOrderId (q_uuid T)) (\<lambda>c.
     and_then (opt_cond strategy (q_text T)) (\<lambda>s.
     and_then (q_limit T limit) (\<lambda>n.
     and_then (q_rows T d) (\<lambda>rows. Inr (take n (sort_desc trade_order (filter (trade_matches c s) rows)))))))"

definition list_trades :: "'d trades_db \<Rightarrow> jsval \<Rightarrow> 'd \<Rightarrow> response" where
  "list_trades T query d =
     (let limit = parseLimit (get query ''limit'') (NumI 50) (NumI 1000);
          strategy = get query ''strategy'';
          clientOrderId = get query ''clientOrderId''
      in if truthy clientOrderId \<and> \<not> UUID_RE (to_str clientOrderId) then
           err_reply 400 ''clientOrderId must be a valid UUID''
         else case select_trades T clientOrderId strategy limit d of
             Inr rows \<Rightarrow> ok (VArr (map trade_json rows))
           | Inl _ \<Rightarrow> err_reply 500 ''Failed to list trades'')"

definition lookup_trades :: "'d trades_db \<Rightarrow> jstr \<Rightarrow> 'd \<Rightarrow> response" where
  "lookup_trades T clientOrderId d =
     (if \<not> UUID_RE clientOrderId then err_reply 400 ''clientOrderId must be a valid UUID''
      else case and_then (q_uuid T (VStr clientOrderId)) (\<lambda>u. and_then (q_rows T d)
                  (\<lambda>rows. Inr (sort_desc trade_order (filter (trade_matches (Some u) None) rows)))) of
          Inr rows \<Rightarrow> if rows = [] then err_reply 404 ''Trade not found'' else ok (VArr (map trade_json rows))
        | Inl _ \<Rightarrow> err_reply 500 ''Failed to look up trade'')"

section \<open>Token metrics\<close>

definition snapshot_row :: "jsval \<Rightarrow> exn + jsval" where
  "snapshot_row s =
     (if nullish s then Inl (read_err s ''mint'')
      else Inr (obj
        [(''mint'', get s ''mint''), (''price'', get s ''price''),
         (''liquiditySol'', nvl (get s ''liquidity_sol'') VNull), (''marketCapSol'', nvl (get s ''market_cap_sol'') VNull),
         (''volume24hSol'', nvl (get s ''volume_24h_sol'') VNull), (''holderCount'', nvl (get s ''holder_count'') VNull),
         (''bondingCurveProgress'', nvl (get s ''bonding_curve_progress'') VNull)]))"

text \<open>\<open>ins rows\<close>: the multi-row insert of the database.\<close>

definition post_token_metrics :: "(jsval list \<Rightarrow> 'd \<Rightarrow> (exn + unit) \<times> 'd) \<Rightarrow> jsval \<Rightarrow> 'd \<Rightarrow> response \<times> 'd" where
  "post_token_metrics ins b d =
     (if nullish b then (err_reply 500 ''Failed to record token metrics'', d)
      else case get b ''snapshots'' of
          VArr (s # ss) \<Rightarrow>
            (case traverse snapshot_row (s # ss) of
               Inl _ \<Rightarrow> (err_reply 500 ''Failed to record token metrics'', d)
             | Inr rows \<Rightarrow>
                 (case ins rows d of
                    (Inr _, d') \<Rightarrow> (ok (obj [(''inserted'', VI (int (length rows)))]), d')
                  | (Inl _, d') \<Rightarrow> (err_reply 500 ''Failed to record token metrics'', d')))
        | _ \<Rightarrow> (err_reply 400 ''snapshots array is required'', d))"

definition clamp :: "jsval \<Rightarrow> jsnum \<Rightarrow> jsnum \<Rightarrow> jsnum" where
  "clamp raw dflt mx = math_max (NumI 1) (math_min mx (to_num (nvl raw (VNum dflt))))"

text \<open>\<open>new Date(x)\<close>: the truncated time value, or an invalid date, whose use as a parameter throws.\<close>

definition time_clip :: "jsnum \<Rightarrow> exn + int" where
  "time_clip x = (case x of
      Fin q \<Rightarrow> (let t = (if 0 \<le> q then \<lfloor>q\<rfloor> else \<lceil>q\<rceil>) in
                if \<bar>t\<bar> \<le> 8640000000000000 then Inr t else Inl (Err (U ''Invalid time value'')))
    | _ \<Rightarrow> Inl (Err (U ''Invalid time value'')))"

definition metrics_cutoff :: "int \<Rightarrow> jsnum \<Rightarrow> exn + int" where
  "metrics_cutoff now days =
     time_clip (num_sub (NumI now) (num_mul (num_mul (num_mul (num_mul days (NumI 24)) (NumI 60)) (NumI 60)) (NumI 1000)))"

definition query_mints :: "jsval \<Rightarrow> jsval list" where
  "query_mints raw = (case raw of VArr xs \<Rightarrow> xs | VStr s \<Rightarrow> [VStr s] | _ \<Rightarrow> [])"

type_synonym 'd metrics_db = "('d, token_metric) query_db"

definition metric_matches :: "int \<Rightarrow> jstr list \<Rightarrow> token_metric \<Rightarrow> bool" where
  "metric_matches cutoff mints r \<longleftrightarrow> cutoff \<le> tm_recordedAt r \<and> (mints = [] \<or> tm_mint r \<in> set mints)"

definition get_token_metrics :: "'d metrics_db \<Rightarrow> int \<Rightarrow> jsval \<Rightarrow> 'd \<Rightarrow> response" where
  "get_token_metrics T now query d =
     (let days = clamp (get query ''days'') (NumI 7) (NumI 30);
          limit = clamp (get query ''limit'') (NumI 1000) (NumI 5000)
      in case and_then (metrics_cutoff now days) (\<lambda>cutoff.
              and_then (traverse (q_text T) (query_mints (get query ''mint''))) (\<lambda>mints.
              and_then (q_limit T limit) (\<lambda>n.
              and_then (q_rows T d) (\<lambda>rows.
                Inr (take n (sort_desc tm_recordedAt (filter (metric_matches cutoff mints) rows))))))) of
           Inr rows \<Rightarrow> ok (VArr (map token_metric_json rows))
         | Inl _ \<Rightarrow> err_reply 500 ''Failed to query token metrics'')"

section \<open>Properties\<close>

lemma digits_val_int: "\<exists>q. fl (of_nat n) = PInf \<or> (fl (of_nat n) = Fin q \<and> 0 \<le> q)"
  using round_to_nonneg [of "of_nat n"] by (auto simp: fl_def Let_def)

lemma trade_limit:
  "\<exists>n. parseLimit raw (NumI 50) (NumI 1000) = NumI n \<and> 1 \<le> n \<and> n \<le> 1000"
proof -
  let ?p = "parse_int10 (to_str (nvl raw (VNum (NumI 50))))"
  define x where "x = (if num_is_integer ?p \<and> num_lt (Fin 0) ?p then ?p else NumI 50)"
  have "\<exists>m. x = NumI m \<and> 1 \<le> m"
  proof (cases ?p)
    case (Fin q)
    show ?thesis
    proof (cases "of_int \<lfloor>q\<rfloor> = q \<and> 0 < q")
      case True
      then have "x = NumI \<lfloor>q\<rfloor>" "1 \<le> \<lfloor>q\<rfloor>" using Fin by (auto simp: x_def)
      then show ?thesis by blast
    next
      case False
      then have "x = NumI 50" using Fin by (auto simp: x_def)
      then show ?thesis by (intro exI [of _ 50]) simp
    qed
  qed (auto simp: x_def intro!: exI [of _ 50])
  then obtain m where m: "x = NumI m" "1 \<le> m" by blast
  have "parseLimit raw (NumI 50) (NumI 1000) = math_min x (NumI 1000)" by (simp add: parseLimit_def x_def Let_def)
  then show ?thesis using m by (cases "m < 1000") (auto simp: math_min_def intro!: exI [of _ m] exI [of _ 1000])
qed

text \<open>whatever the \<open>limit\<close> parameter is (missing, a string that is no number, negative, huge, an
  array), the row limit of the trade list is a whole number between 1 and 1000.\<close>

theorem trade_limit_bounds:
  "\<exists>n. parseLimit raw (NumI 50) (NumI 1000) = NumI n \<and> 1 \<le> n \<and> n \<le> 1000"
  by (rule trade_limit)

text \<open>C18: a trade list that is answered 200 holds exactly the newest trades that match the filters: sorted by
  creation, newest first, all of them matching, as many as the limit allows, and no matching trade
  left out is newer than one that is listed. (The database takes a limit that is not negative as the number of rows.)\<close>

theorem trade_list_top:
  assumes "r_status (list_trades T query d) = 200" and "\<And>n. 0 \<le> n \<Longrightarrow> q_limit T (NumI n) = Inr (nat n)"
  shows "\<exists>rows all c s n. list_trades T query d = ok (VArr (map trade_json rows)) \<and> q_rows T d = Inr all \<and>
     opt_cond (get query ''clientOrderId'') (q_uuid T) = Inr c \<and> opt_cond (get query ''strategy'') (q_text T) = Inr s \<and>
     parseLimit (get query ''limit'') (NumI 50) (NumI 1000) = NumI (int n) \<and> n \<le> 1000 \<and>
     top_rows trade_order n (mset (filter (trade_matches c s) all)) rows"
proof -
  obtain m where m: "parseLimit (get query ''limit'') (NumI 50) (NumI 1000) = NumI m" "1 \<le> m" "m \<le> 1000"
    using trade_limit by blast
  obtain rows where r: "select_trades T (get query ''clientOrderId'') (get query ''strategy'') (NumI m) d = Inr rows"
    and a: "list_trades T query d = ok (VArr (map trade_json rows))"
    using assms(1) by (auto simp: list_trades_def Let_def m(1) [simplified] split: if_splits sum.splits)
  obtain c s all where c: "opt_cond (get query ''clientOrderId'') (q_uuid T) = Inr c"
      "opt_cond (get query ''strategy'') (q_text T) = Inr s" "q_rows T d = Inr all"
    and rows: "rows = take (nat m) (sort_desc trade_order (filter (trade_matches c s) all))"
    using r assms(2) [of m] m(2) by (auto simp: select_trades_def and_then_Inr)
  show ?thesis
    using a c m top_rows_take [of trade_order "nat m" "filter (trade_matches c s) all"]
    by (intro exI [of _ rows] exI [of _ all] exI [of _ c] exI [of _ s] exI [of _ "nat m"]) (auto simp: rows)
qed

lemma clamp_cases:
  assumes "1 \<le> m"
  shows "(to_num (nvl raw (VNum dflt)) = NaN \<and> clamp raw dflt (Fin m) = NaN) \<or>
    (to_num (nvl raw (VNum dflt)) \<noteq> NaN \<and> (\<exists>q. clamp raw dflt (Fin m) = Fin q \<and> 1 \<le> q \<and> q \<le> m))"
  using assms by (cases "to_num (nvl raw (VNum dflt))") (auto simp: clamp_def math_max_def math_min_def)

text \<open>Scaling by a whole number keeps whole-number bounds.\<close>

lemma fl_scale:
  assumes "of_int a \<le> q" "q \<le> of_int b" "0 \<le> a" "0 \<le> k" "b * k \<le> 2 ^ 53"
  shows "\<exists>r. fl (q * of_int k) = Fin r \<and> of_int (a * k) \<le> r \<and> r \<le> of_int (b * k)"
proof -
  have "of_int (a * k) \<le> q * of_int k" "q * of_int k \<le> of_int (b * k)"
    using assms by (auto simp: mult_right_mono)
  moreover have "a * k \<le> b * k" using assms by (intro mult_right_mono) auto
  moreover have "0 \<le> a * k" using assms by simp
  ultimately show ?thesis using assms(5) fl_between [of "a * k" "q * of_int k" "b * k"] by fastforce
qed

lemma cutoff_window:
  assumes "1 \<le> q" "q \<le> 30" "\<bar>now\<bar> \<le> 2 ^ 52" "metrics_cutoff now (Fin q) = Inr t"
  shows "now - 30 * 86400000 \<le> t \<and> t \<le> now - 86400000"
proof -
  obtain r1 where r1: "fl (q * of_int 24) = Fin r1" "of_int (1 * 24) \<le> r1" "r1 \<le> of_int (30 * 24)"
    using fl_scale [of 1 q 30 24] assms by auto
  obtain r2 where r2: "fl (r1 * of_int 60) = Fin r2" "of_int (24 * 60) \<le> r2" "r2 \<le> of_int (30 * 24 * 60)"
    using fl_scale [of 24 r1 "30 * 24" 60] r1 by auto
  obtain r3 where r3: "fl (r2 * of_int 60) = Fin r3" "of_int (24 * 3600) \<le> r3" "r3 \<le> of_int (30 * 24 * 3600)"
    using fl_scale [of "24 * 60" r2 "30 * 24 * 60" 60] r2 by auto
  obtain r4 where r4: "fl (r3 * of_int 1000) = Fin r4" "of_int 86400000 \<le> r4" "r4 \<le> of_int (30 * 86400000)"
    using fl_scale [of "24 * 3600" r3 "30 * 24 * 3600" 1000] r3 by auto
  define lo where "lo = now - 30 * 86400000"
  define hi where "hi = now - 86400000"
  have "of_int lo \<le> of_int now - r4" "of_int now - r4 \<le> (of_int hi :: rat)" "\<bar>lo\<bar> \<le> 2 ^ 53" "\<bar>hi\<bar> \<le> 2 ^ 53"
    using r4 assms(3) by (auto simp: lo_def hi_def)
  then obtain x where x: "fl (of_int now - r4) = Fin x" "of_int lo \<le> x" "x \<le> of_int hi" using fl_between by blast
  have "t = (if 0 \<le> x then \<lfloor>x\<rfloor> else \<lceil>x\<rceil>)"
    using assms(4) r1 r2 r3 r4 x by (simp add: metrics_cutoff_def num_sub_def time_clip_def Let_def split: if_splits)
  then have "lo \<le> t \<and> t \<le> hi" using x by (auto simp: le_floor_iff floor_le_iff ceiling_le_iff le_ceiling_iff)
  then show ?thesis by (simp add: lo_def hi_def)
qed

text \<open>A token-metrics answer holds the newest snapshots of a window of between 1 and 30 days before now,
  and at most 5000 of them, whatever the query asks for; and it is only given when \<open>days\<close> and \<open>limit\<close>
  are numbers (a text that is no number makes the route answer 500, not use the default).\<close>

theorem metrics_window:
  assumes "\<bar>now\<bar> \<le> 2 ^ 52"
    and "\<And>n k. q_limit T n = Inr k \<Longrightarrow> n = Fin (of_nat k)"
    and "r_status (get_token_metrics T now query d) = 200"
  shows "to_num (nvl (get query ''days'') (VI 7)) \<noteq> NaN \<and> to_num (nvl (get query ''limit'') (VI 1000)) \<noteq> NaN \<and>
    (\<exists>rows all cutoff mints n. get_token_metrics T now query d = ok (VArr (map token_metric_json rows)) \<and>
        now - 30 * 86400000 \<le> cutoff \<and> cutoff \<le> now - 86400000 \<and> n \<le> 5000 \<and> q_rows T d = Inr all \<and>
        top_rows tm_recordedAt n (mset (filter (metric_matches cutoff mints) all)) rows)"
proof -
  let ?days = "clamp (get query ''days'') (NumI 7) (NumI 30)"
  let ?limit = "clamp (get query ''limit'') (NumI 1000) (NumI 5000)"
  define res where "res = and_then (metrics_cutoff now ?days) (\<lambda>cutoff.
              and_then (traverse (q_text T) (query_mints (get query ''mint''))) (\<lambda>mints.
              and_then (q_limit T ?limit) (\<lambda>n.
              and_then (q_rows T d) (\<lambda>rows.
                Inr (take n (sort_desc tm_recordedAt (filter (metric_matches cutoff mints) rows)))))))"
  have g: "get_token_metrics T now query d = (case res of Inr rows \<Rightarrow> ok (VArr (map token_metric_json rows))
         | Inl _ \<Rightarrow> err_reply 500 ''Failed to query token metrics'')"
    unfolding get_token_metrics_def res_def Let_def ..
  have shape: "\<exists>q k cutoff mints all. ?days = Fin q \<and> 1 \<le> q \<and> q \<le> 30 \<and> ?limit = Fin (of_nat k) \<and> k \<le> 5000 \<and>
      metrics_cutoff now (Fin q) = Inr cutoff \<and> q_rows T d = Inr all \<and>
      rows = take k (sort_desc tm_recordedAt (filter (metric_matches cutoff mints) all))" if r: "res = Inr rows" for rows
  proof -
    obtain cutoff mints k all where *: "metrics_cutoff now ?days = Inr cutoff" "q_limit T ?limit = Inr k"
      "q_rows T d = Inr all" "rows = take k (sort_desc tm_recordedAt (filter (metric_matches cutoff mints) all))"
      using r by (auto simp: res_def and_then_Inr)
    have "?days \<noteq> NaN" using *(1) by (auto simp: metrics_cutoff_def num_sub_def time_clip_def)
    then obtain q where q: "?days = Fin q" "1 \<le> q" "q \<le> 30"
      using clamp_cases [of 30 "get query ''days''" "NumI 7"] by auto
    have l: "?limit = Fin (of_nat k)" using assms(2) [OF *(2)] .
    then have "(of_nat k :: rat) \<le> 5000" using clamp_cases [of 5000 "get query ''limit''" "NumI 1000"] by auto
    then have "k \<le> 5000" using of_nat_le_iff [of k 5000, where 'a = rat] by simp
    then show ?thesis using * q l by auto
  qed
  show ?thesis
  proof (cases res)
    case (Inl e)
    then show ?thesis using assms(3) by (simp add: g)
  next
    case (Inr rows)
    obtain q k cutoff mints all where *: "?days = Fin q" "1 \<le> q" "q \<le> 30" "?limit = Fin (of_nat k)" "k \<le> 5000"
      "metrics_cutoff now (Fin q) = Inr cutoff" "q_rows T d = Inr all"
      "rows = take k (sort_desc tm_recordedAt (filter (metric_matches cutoff mints) all))"
      using shape [OF Inr] by blast
    have nn: "to_num (nvl (get query ''days'') (VI 7)) \<noteq> NaN" "to_num (nvl (get query ''limit'') (VI 1000)) \<noteq> NaN"
      using clamp_cases [of 30 "get query ''days''" "NumI 7"] clamp_cases [of 5000 "get query ''limit''" "NumI 1000"] * by auto
    have "top_rows tm_recordedAt k (mset (filter (metric_matches cutoff mints) all)) rows"
      unfolding *(8) by (rule top_rows_take)
    moreover have "now - 30 * 86400000 \<le> cutoff \<and> cutoff \<le> now - 86400000"
      using cutoff_window [OF *(2,3) assms(1) *(6)] .
    ultimately show ?thesis using nn * by (simp add: g Inr) blast
  qed
qed

section \<open>Witnesses\<close>

definition demo_query :: "('a list, 'a) query_db" where
  "demo_query = \<lparr>q_rows = Inr, q_text = (\<lambda>v. case v of VStr s \<Rightarrow> Inr s | _ \<Rightarrow> Inl NotError),
     q_uuid = (\<lambda>v. case v of VStr s \<Rightarrow> Inr (to_lower s) | _ \<Rightarrow> Inl NotError),
     q_limit = (\<lambda>n. case n of Fin q \<Rightarrow> if of_int \<lfloor>q\<rfloor> = q \<and> 0 \<le> q then Inr (nat \<lfloor>q\<rfloor>) else Inl NotError | _ \<Rightarrow> Inl NotError)\<rparr>"

theorem trade_list_top_witness:
  "\<exists>rows all c s n. list_trades demo_query
       (obj [(''strategy'', S ''manual'')]) [new_trade (U ''t'') (U ''m'') (U ''BUY'') (NumI 1) 5] = ok (VArr (map trade_json rows)) \<and>
     q_rows demo_query [new_trade (U ''t'') (U ''m'') (U ''BUY'') (NumI 1) 5] = Inr all \<and>
     opt_cond (get (obj [(''strategy'', S ''manual'')]) ''clientOrderId'') (q_uuid (demo_query :: (trade_row list, trade_row) query_db)) = Inr c \<and>
     opt_cond (get (obj [(''strategy'', S ''manual'')]) ''strategy'') (q_text (demo_query :: (trade_row list, trade_row) query_db)) = Inr s \<and>
     parseLimit (get (obj [(''strategy'', S ''manual'')]) ''limit'') (NumI 50) (NumI 1000) = NumI (int n) \<and> n \<le> 1000 \<and>
     top_rows trade_order n (mset (filter (trade_matches c s) all)) rows"
proof -
  let ?T = "demo_query :: (trade_row list, trade_row) query_db"
  let ?q = "obj [(''strategy'', S ''manual'')]"
  let ?d = "[new_trade (U ''t'') (U ''m'') (U ''BUY'') (NumI 1) 5]"
  obtain m where m: "parseLimit VUndef (NumI 50) (NumI 1000) = NumI m" and pos: "1 \<le> m" using trade_limit by blast
  have "r_status (list_trades ?T ?q ?d) = 200"
    by (simp add: list_trades_def select_trades_def opt_cond_def demo_query_def m [simplified] S_def pos [THEN order_trans [OF zero_le_one]])
  moreover have "q_limit ?T (NumI n) = Inr (nat n)" if "0 \<le> n" for n using that by (simp add: demo_query_def)
  ultimately show ?thesis by (rule trade_list_top)
qed

theorem metrics_window_witness:
  "to_num (nvl (get (obj [(''days'', S ''90'')]) ''days'') (VI 7)) \<noteq> NaN \<and>
    to_num (nvl (get (obj [(''days'', S ''90'')]) ''limit'') (VI 1000)) \<noteq> NaN \<and>
    (\<exists>rows all cutoff mints n. get_token_metrics demo_query 0 (obj [(''days'', S ''90'')]) [] =
          ok (VArr (map token_metric_json rows)) \<and>
        0 - 30 * 86400000 \<le> cutoff \<and> cutoff \<le> 0 - 86400000 \<and> n \<le> 5000 \<and> q_rows demo_query [] = Inr all \<and>
        top_rows tm_recordedAt n (mset (filter (metric_matches cutoff mints) all)) rows)"
proof (rule metrics_window)
  have n: "to_num (S ''90'') = NumI 90"
    by (simp add: S_def U_def str_to_num_def trim_def trim_start_def trim_end_def is_ws_def starts_with_def
        unsigned_dec_def is_digit_def exp_part_def digits_val_def pow10_def fl_eval)
  have "metrics_cutoff 0 (NumI 30) = Inr (- 2592000000)"
    by (simp add: metrics_cutoff_def num_sub_def time_clip_def fl_eval)
  then show "r_status (get_token_metrics demo_query 0 (obj [(''days'', S ''90'')]) []) = 200"
    by (simp add: get_token_metrics_def clamp_def n math_max_def math_min_def demo_query_def query_mints_def)
qed (auto simp: demo_query_def split: jsnum.splits if_splits)

end
