(* ===== verification/Health.thy ===== *)
theory Health
  imports Http
begin

text \<open>
  \<open>lib/python-status.ts\<close>, \<open>routes/health.ts\<close> and the part of \<open>index.ts\<close> that runs the Python engine as a
  child process: a status record that the life cycle of the process patches, the two health routes,
  and the checks the server makes at boot.
\<close>

section \<open>The status of the Python engine\<close>

datatype python_state = Disabled | Starting | Running | Exited | Failed

record python_status =
  ps_state :: python_state
  ps_bin :: "jstr option"
  ps_binSource :: "jstr option"
  ps_pid :: "int option"
  ps_cwd :: "jstr option"
  ps_cwdExists :: "bool option"
  ps_binExists :: "bool option"
  ps_lastError :: "jstr option"
  ps_exitCode :: "int option"
  ps_exitSignal :: "jstr option"
  ps_startedAt :: "jstr option"
  ps_exitedAt :: "jstr option"

definition initial_status :: python_status where
  "initial_status =
     \<lparr>ps_state = Disabled, ps_bin = None, ps_binSource = None, ps_pid = None, ps_cwd = None, ps_cwdExists = None,
      ps_binExists = None, ps_lastError = None, ps_exitCode = None, ps_exitSignal = None, ps_startedAt = None,
      ps_exitedAt = None\<rparr>"

text \<open>\<open>setPythonStatus(patch)\<close> assigns the fields of the patch; a patch is the update function.\<close>

definition setPythonStatus :: "(python_status \<Rightarrow> python_status) \<Rightarrow> python_status \<Rightarrow> python_status" where
  "setPythonStatus patch s = patch s"

definition isPythonHealthy :: "python_status \<Rightarrow> bool" where
  "isPythonHealthy s \<longleftrightarrow> ps_state s = Running"

fun state_name :: "python_state \<Rightarrow> string" where
  "state_name Disabled = ''disabled''"
| "state_name Starting = ''starting''"
| "state_name Running = ''running''"
| "state_name Exited = ''exited''"
| "state_name Failed = ''failed''"

definition status_body :: "python_status \<Rightarrow> jsval" where
  "status_body s = obj
     [(''state'', S (state_name (ps_state s))), (''bin'', js_str_opt (ps_bin s)), (''binSource'', js_str_opt (ps_binSource s)),
      (''pid'', js_int_opt (ps_pid s)), (''cwd'', js_str_opt (ps_cwd s)), (''cwdExists'', of_opt VBool (ps_cwdExists s)),
      (''binExists'', of_opt VBool (ps_binExists s)), (''lastError'', js_str_opt (ps_lastError s)),
      (''exitCode'', js_int_opt (ps_exitCode s)), (''exitSignal'', js_str_opt (ps_exitSignal s)),
      (''startedAt'', js_str_opt (ps_startedAt s)), (''exitedAt'', js_str_opt (ps_exitedAt s))]"

section \<open>Starting the child process\<close>

text \<open>\<open>resolve\<close> is \<open>path.resolve(workspaceRoot, \<dots>)\<close> and \<open>exists\<close> is \<open>existsSync\<close>.\<close>

definition python_bin :: "env \<Rightarrow> (string list \<Rightarrow> jstr) \<Rightarrow> (jstr \<Rightarrow> bool) \<Rightarrow> jstr \<times> jstr" where
  "python_bin e resolve exists =
     (if env_truthy e ''PYTHON_BIN'' then (the (e (U ''PYTHON_BIN'')), U ''PYTHON_BIN env'')
      else let venvPython = resolve [''.pythonlibs'', ''bin'', ''python3''] in
        if exists venvPython then (venvPython, U ''.pythonlibs/bin/python3'')
        else (U ''python3'', U ''PATH''))"

definition bin_exists :: "(jstr \<Rightarrow> bool) \<Rightarrow> jstr \<Rightarrow> bool option" where
  "bin_exists exists bin = (if starts_with bin [47] \<or> 47 \<in> set bin then Some (exists bin) else None)"

definition boot_python :: "env \<Rightarrow> (string list \<Rightarrow> jstr) \<Rightarrow> (jstr \<Rightarrow> bool) \<Rightarrow> python_status \<Rightarrow> python_status" where
  "boot_python e resolve exists s =
     (if e (U ''NODE_ENV'') \<noteq> Some (U ''production'') then s
      else let pythonCwd = resolve [''python-strategy''];
               (bin, source) = python_bin e resolve exists
           in setPythonStatus (\<lambda>s. s\<lparr>ps_state := Starting, ps_bin := Some bin, ps_binSource := Some source,
                ps_cwd := Some pythonCwd, ps_cwdExists := Some (exists pythonCwd),
                ps_binExists := bin_exists exists bin\<rparr>) s)"

definition spawn_request :: "env \<Rightarrow> python_status \<Rightarrow> (jstr \<times> jstr list \<times> jstr \<times> env) option" where
  "spawn_request e s =
     (case (ps_state s, ps_bin s, ps_cwd s) of
        (Starting, Some bin, Some cwd) \<Rightarrow> Some (bin, [U ''main.py''], cwd, e(U ''PORT'' \<mapsto> U ''8001''))
      | _ \<Rightarrow> None)"

text \<open>The events of the child process; a time is the text of \<open>toISOString\<close>.\<close>

datatype proc_event =
    Spawned "int option" jstr
  | SpawnError jstr
  | ProcExit "int option" "jstr option" jstr

fun on_proc_event :: "proc_event \<Rightarrow> python_status \<Rightarrow> python_status" where
  "on_proc_event (Spawned pid now) s =
     setPythonStatus (\<lambda>s. s\<lparr>ps_state := Running, ps_pid := pid, ps_startedAt := Some now\<rparr>) s"
| "on_proc_event (SpawnError msg) s = setPythonStatus (\<lambda>s. s\<lparr>ps_state := Failed, ps_lastError := Some msg\<rparr>) s"
| "on_proc_event (ProcExit code sig now) s =
     setPythonStatus (\<lambda>s. s\<lparr>ps_state := Exited, ps_exitCode := code, ps_exitSignal := sig, ps_exitedAt := Some now,
       ps_pid := None\<rparr>) s"

definition proc_run :: "proc_event list \<Rightarrow> python_status \<Rightarrow> python_status" where
  "proc_run es s = fold on_proc_event es s"

section \<open>GET /healthz and GET /readiness\<close>

definition healthz :: "python_status \<Rightarrow> response" where
  "healthz s = ok (obj [(''status'', S ''ok''), (''python'', status_body s)])"

text \<open>The database pool as the probe meets it: a connection arrives after some milliseconds, the request
  for one fails, or nothing happens; a query ends, fails, or hangs.\<close>

datatype connect = Yields nat | Rejects nat exn | NeverConnects
datatype query = Answers | Refuses exn | Hangs

record probe =
  pr_connect :: connect
  pr_set :: query
  pr_select :: query

definition CONNECT_TIMEOUT_MS :: nat where
  "CONNECT_TIMEOUT_MS = 3000"

definition timeout_error :: exn where
  "timeout_error = Err (U ''DB pool did not yield a connection within '' @ dec_nat CONNECT_TIMEOUT_MS @ U ''ms'')"

text \<open>The race of the connection against the timer: \<open>Inr\<close> a client is held, \<open>Inl e\<close> the race failed; the
  second component tells whether it was the timer that won.\<close>

definition race_connect :: "connect \<Rightarrow> (exn + unit) \<times> bool" where
  "race_connect c = (case c of
      Yields t \<Rightarrow> if t < CONNECT_TIMEOUT_MS then (Inr (), False) else (Inl timeout_error, True)
    | Rejects t e \<Rightarrow> if t < CONNECT_TIMEOUT_MS then (Inl e, False) else (Inl timeout_error, True)
    | NeverConnects \<Rightarrow> (Inl timeout_error, True))"

definition run_queries :: "query \<Rightarrow> query \<Rightarrow> (exn + unit) option" where
  "run_queries q1 q2 = (case q1 of
      Hangs \<Rightarrow> None
    | Refuses e \<Rightarrow> Some (Inl e)
    | Answers \<Rightarrow> (case q2 of Hangs \<Rightarrow> None | Refuses e \<Rightarrow> Some (Inl e) | Answers \<Rightarrow> Some (Inr ())))"

definition unavailable :: "exn \<Rightarrow> response" where
  "unavailable e = reply 503 (obj [(''status'', S ''unavailable''), (''error'', VStr (exn_msg (U ''DB check failed'') e))])"

text \<open>The answer, if there is one, and how many times a client is released in the end. When the timer
  won, the late connection (if any) is released when it arrives.\<close>

definition readiness :: "probe \<Rightarrow> response option \<times> nat" where
  "readiness p =
     (case race_connect (pr_connect p) of
        (Inr _, _) \<Rightarrow>
          (case run_queries (pr_set p) (pr_select p) of
             None \<Rightarrow> (None, 0)
           | Some (Inr _) \<Rightarrow> (Some (ok (obj [(''status'', S ''ok''), (''db'', S ''reachable'')])), 1)
           | Some (Inl e) \<Rightarrow> (Some (unavailable e), 1))
      | (Inl e, timedOut) \<Rightarrow>
          (Some (unavailable e),
           if timedOut then (case pr_connect p of Yields _ \<Rightarrow> 1 | _ \<Rightarrow> 0) else 0))"

text \<open>How many clients the pool hands out.\<close>

definition clients_taken :: "probe \<Rightarrow> nat" where
  "clients_taken p = (case pr_connect p of Yields _ \<Rightarrow> 1 | _ \<Rightarrow> 0)"

section \<open>Booting the server\<close>

text \<open>The port check: the module throws before anything is started.\<close>

definition boot_port :: "env \<Rightarrow> exn + jsnum" where
  "boot_port e =
     (if \<not> env_truthy e ''PORT'' then Inl (Err (U ''PORT environment variable is required but was not provided.''))
      else let rawPort = the (e (U ''PORT'')); port = str_to_num rawPort in
        if port = NaN \<or> num_le port (Fin 0) then
          Inl (Err (U ''Invalid PORT value: '' @ [34] @ rawPort @ [34]))
        else Inr port)"

section \<open>Properties\<close>

text \<open>C20: the readiness probe never leaks a database client. Unless a query hangs, it answers, and
  by the end it has released exactly the clients the pool gave it, also one that arrives after the
  timeout; the answer is 200 exactly when the connection came in time and both queries succeeded.\<close>

theorem readiness_releases_clients:
  assumes "pr_set p \<noteq> Hangs" and "pr_select p \<noteq> Hangs"
  shows "\<exists>r. readiness p = (Some r, clients_taken p) \<and>
    (r_status r = 200 \<longleftrightarrow> (\<exists>t<3000. pr_connect p = Yields t) \<and> pr_set p = Answers \<and> pr_select p = Answers) \<and>
    (r_status r = 200 \<or> r_status r = 503)"
  using assms
  by (auto simp: readiness_def race_connect_def run_queries_def unavailable_def clients_taken_def CONNECT_TIMEOUT_MS_def
      split: connect.splits query.splits)

theorem readiness_releases_clients_witness:
  "\<exists>r. readiness \<lparr>pr_connect = Yields 4500, pr_set = Answers, pr_select = Answers\<rparr> =
        (Some r, clients_taken \<lparr>pr_connect = Yields 4500, pr_set = Answers, pr_select = Answers\<rparr>) \<and>
    (r_status r = 200 \<longleftrightarrow> (\<exists>t<3000. pr_connect \<lparr>pr_connect = Yields 4500, pr_set = Answers, pr_select = Answers\<rparr> = Yields t)
       \<and> pr_set \<lparr>pr_connect = Yields 4500, pr_set = Answers, pr_select = Answers\<rparr> = Answers
       \<and> pr_select \<lparr>pr_connect = Yields 4500, pr_set = Answers, pr_select = Answers\<rparr> = Answers) \<and>
    (r_status r = 200 \<or> r_status r = 503)"
  by (rule readiness_releases_clients) simp_all

lemma proc_run_snoc: "proc_run (es @ [x]) s = on_proc_event x (proc_run es s)"
  by (simp add: proc_run_def)

definition proc_inv :: "python_status \<Rightarrow> bool" where
  "proc_inv s \<longleftrightarrow> (case ps_state s of
      Exited \<Rightarrow> ps_pid s = None \<and> ps_exitedAt s \<noteq> None
    | Running \<Rightarrow> ps_startedAt s \<noteq> None
    | Failed \<Rightarrow> ps_lastError s \<noteq> None
    | _ \<Rightarrow> ps_pid s = None)"

lemma proc_inv_step: "proc_inv (on_proc_event x s)"
  by (cases x) (simp_all add: proc_inv_def setPythonStatus_def)

lemma proc_inv_boot: "proc_inv (boot_python e resolve exists initial_status)"
  by (simp add: boot_python_def initial_status_def proc_inv_def setPythonStatus_def Let_def split: prod.split)

text \<open>After any sequence of process events the reported state is that of the last event (the boot
  state if there was none), its companion fields agree with it (an exited engine has no pid and an
  exit time, a running one a start time, a failed one an error), and the interpreter chosen at boot is
  never changed.\<close>

theorem python_status_tracks_process:
  "let s0 = boot_python e resolve exists initial_status; s = proc_run es s0 in
     ps_state s = (if es = [] then ps_state s0
       else (case last es of Spawned _ _ \<Rightarrow> Running | SpawnError _ \<Rightarrow> Failed | ProcExit _ _ _ \<Rightarrow> Exited))
   \<and> proc_inv s \<and> ps_bin s = ps_bin s0 \<and> ps_cwd s = ps_cwd s0
   \<and> (isPythonHealthy s \<longleftrightarrow> es \<noteq> [] \<and> (\<exists>pid t. last es = Spawned pid t))"
proof (induction es rule: rev_induct)
  case Nil
  have "ps_state (boot_python e resolve exists initial_status) \<in> {Disabled, Starting}"
    by (simp add: boot_python_def initial_status_def setPythonStatus_def Let_def split: prod.split)
  then show ?case using proc_inv_boot by (auto simp: proc_run_def isPythonHealthy_def Let_def)
next
  case (snoc x es)
  then show ?case using snoc proc_inv_step [of x]
    by (cases x) (simp_all add: proc_run_snoc setPythonStatus_def isPythonHealthy_def Let_def)
qed

end
