(* ===== verification/SystemConfig.thy ===== *)
theory SystemConfig
  imports AdminAuth Store
begin

text \<open>
  The \<open>system_config\<close> table: the seed script \<open>db/seed-system-config.ts\<close> and the operator's listing in
  \<open>routes/admin.ts\<close>.
\<close>

section \<open>The seed\<close>

definition SEED :: "(jstr \<times> jstr \<times> jstr) list" where
  "SEED = map (\<lambda>(k, v, d). (U k, U v, U d))
     [(''max_position_size_sol'', ''1.0'', ''Maximum SOL per individual trade position''),
      (''max_portfolio_exposure_sol'', ''5.0'', ''Maximum total SOL exposure across all open positions''),
      (''max_daily_loss_sol'', ''2.0'', ''Maximum SOL loss allowed in a 24-hour window before halting''),
      (''max_slippage_bps'', ''1000'', ''Maximum allowed slippage in basis points (1000 = 10%)''),
      (''max_sandwich_risk_score'', ''70'', ''Maximum sandwich attack risk score (0-100) before rejecting trade''),
      (''jito_tip_lamports'', ''10000'', ''Default Jito bundle tip in lamports''),
      (''jito_bundle_timeout_ms'', ''5000'', ''Jito bundle submission timeout in milliseconds''),
      (''mev_protection_enabled'', ''true'', ''Whether MEV protection via Jito is enabled by default''),
      (''min_liquidity_sol'', ''5.0'', ''Minimum liquidity (SOL) required for a token to be considered for sniping''),
      (''min_market_cap_usd'', ''1000'', ''Minimum market cap USD for token discovery filter''),
      (''max_token_age_seconds'', ''30'', ''Maximum age in seconds for auto-snipe eligibility''),
      (''strategy_sniper_enabled'', ''true'', ''Whether the sniper strategy is available for activation''),
      (''strategy_momentum_enabled'', ''true'', ''Whether the momentum strategy is available for activation''),
      (''strategy_scalp_enabled'', ''false'', ''Whether the scalp strategy is available for activation''),
      (''default_snipe_amount_sol'', ''0.1'', ''Default SOL amount for auto-snipe orders''),
      (''max_retries'', ''3'', ''Maximum order retry attempts before marking as failed''),
      (''retry_delay_ms'', ''1000'', ''Delay in milliseconds between order retries'')]"

definition seed_row :: "int \<Rightarrow> jstr \<times> jstr \<times> jstr \<Rightarrow> system_config" where
  "seed_row now = (\<lambda>(k, v, d). (new_system_config k v now)
     \<lparr>sc_description := Some d, sc_updatedBy := Some (U ''system:seed''), sc_updatedAt := Some now\<rparr>)"

text \<open>\<open>clock n\<close> is the time of the \<open>n\<close>-th \<open>new Date()\<close>.\<close>

fun seed_loop ::
  "('d, jstr, system_config) table_ops \<Rightarrow> (nat \<Rightarrow> int) \<Rightarrow> nat \<Rightarrow> (jstr \<times> jstr \<times> jstr) list \<Rightarrow> nat \<Rightarrow> 'd \<Rightarrow> (exn + nat) \<times> 'd" where
  "seed_loop T clock n [] inserted d = (Inr inserted, d)"
| "seed_loop T clock n (row # rows) inserted d =
     db_then (t_insert_new T (seed_row (clock n) row)) (\<lambda>result.
       seed_loop T clock (n + 1) rows (if 0 < length result then inserted + 1 else inserted)) d"

text \<open>The exit code of the process, the number of inserted rows, and the table.\<close>

definition seed_run :: "('d, jstr, system_config) table_ops \<Rightarrow> (nat \<Rightarrow> int) \<Rightarrow> 'd \<Rightarrow> (nat \<times> nat option) \<times> 'd" where
  "seed_run T clock d =
     (case seed_loop T clock 0 SEED 0 d of
        (Inr n, d') \<Rightarrow> ((0, Some n), d')
      | (Inl _, d') \<Rightarrow> ((1, None), d'))"

section \<open>GET /admin/system-config\<close>

text \<open>\<open>rank\<close>: the position of a key in the database's collation.\<close>

definition get_system_config ::
  "env \<Rightarrow> jstr option \<Rightarrow> (jstr \<Rightarrow> int) \<Rightarrow> ('d, jstr, system_config) table_ops \<Rightarrow> 'd \<Rightarrow> response" where
  "get_system_config e hdr rank T d =
     (case requireAdminKey e hdr of
        Some r \<Rightarrow> r
      | None \<Rightarrow> (case t_all T d of
            Inr rows \<Rightarrow> ok (VArr (map system_config_json (sort_key (rank \<circ> sc_key) rows)))
          | Inl _ \<Rightarrow> err_reply 500 ''Failed to load system config''))"

section \<open>The effect of the seed\<close>

lemma seed_row_key [simp]: "sc_key (seed_row now row) = fst row"
  by (simp add: seed_row_def new_system_config_def split: prod.split)

lemma seed_keys_distinct: "distinct (map fst SEED)"
  by (simp add: SEED_def)

locale system_config_store = db_table T sc_key view invar
  for T :: "('d, jstr, system_config) table_ops" and view :: "'d \<Rightarrow> (jstr \<rightharpoonup> system_config)" and invar :: "'d \<Rightarrow> bool"
begin

lemma seed_loop_ok:
  "invar d \<Longrightarrow> seed_loop T clock n rows m d = (Inr k, d') \<Longrightarrow> distinct (map fst rows) \<Longrightarrow>
     invar d' \<and> k = m + length (filter (\<lambda>r. view d (fst r) = None) rows) \<and>
     (\<forall>key r. view d key = Some r \<longrightarrow> view d' key = Some r) \<and>
     (\<forall>key. key \<notin> fst ` set rows \<longrightarrow> view d' key = view d key) \<and>
     (\<forall>row\<in>set rows. view d (fst row) = None \<longrightarrow> (\<exists>t. view d' (fst row) = Some (seed_row t row)))"
proof (induction rows arbitrary: n m d)
  case Nil
  then show ?case by simp
next
  case (Cons row rows)
  obtain res d1 where 1: "t_insert_new T (seed_row (clock n) row) d = (Inr res, d1)"
    and 2: "seed_loop T clock (n + 1) rows (if 0 < length res then m + 1 else m) d1 = (Inr k, d')"
    using Cons.prems(2) by (auto simp: db_then_Inr)
  have i: "res = (if view d (fst row) = None then [seed_row (clock n) row] else [])"
    "view d1 = (if view d (fst row) = None then (view d)(fst row \<mapsto> seed_row (clock n) row) else view d)" "invar d1"
    using insert_ok [OF Cons.prems(1) 1] by simp_all
  have dist: "distinct (map fst rows)" and notin: "fst row \<notin> fst ` set rows" using Cons.prems(3) by auto
  note IH = Cons.IH [OF i(3) 2 dist]
  have same: "view d1 (fst r) = view d (fst r)" if "r \<in> set rows" for r
    using that notin i(2) by (auto simp: image_iff)
  have f: "filter (\<lambda>r. view d1 (fst r) = None) rows = filter (\<lambda>r. view d (fst r) = None) rows"
    using same by (intro filter_cong) auto
  have "k = m + length (filter (\<lambda>r. view d (fst r) = None) (row # rows))"
    using IH i(1) f by simp
  moreover have "view d' key = Some r" if "view d key = Some r" for key r
  proof -
    have "view d1 key = Some r" using that i(2) by (cases "key = fst row") auto
    then show ?thesis using IH by simp
  qed
  moreover have "view d' key = view d key" if "key \<notin> fst ` set (row # rows)" for key
  proof -
    have "view d1 key = view d key" using that i(2) by auto
    then show ?thesis using IH that by simp
  qed
  moreover have "\<exists>t. view d' (fst r) = Some (seed_row t r)" if "r \<in> set (row # rows)" "view d (fst r) = None" for r
  proof (cases "r = row")
    case True
    then have "view d1 (fst row) = Some (seed_row (clock n) row)" using that i(2) by simp
    then show ?thesis using IH notin True by metis
  next
    case False
    then have "r \<in> set rows" using that(1) by simp
    then show ?thesis using IH same [of r] that(2) by simp
  qed
  ultimately show ?case using IH by simp
qed

end

lemma seed_loop_step:
  "seed_loop T clock n rows m d = (Inr k, d') \<Longrightarrow> m \<le> k"
proof (induction rows arbitrary: n m d)
  case (Cons row rows)
  then show ?case by (fastforce simp: db_then_Inr split: if_splits)
qed simp

section \<open>A table in memory\<close>

type_synonym mem_system_config = "(jstr \<times> system_config) list \<times> bool"

definition mem_system_table :: "(mem_system_config, jstr, system_config) table_ops" where
  "mem_system_table = mem_ops fst (\<lambda>x d. (x, snd d)) snd sc_key"

interpretation mem_system: system_config_store mem_system_table "\<lambda>d. map_of (fst d)" "\<lambda>d. well_keyed sc_key (fst d)"
  using mem_db_table [of fst "\<lambda>x d. (x, snd d)" "\<lambda>_. True" snd sc_key]
  by (simp add: system_config_store_def mem_system_table_def)

section \<open>Properties\<close>

text \<open>The seed may be run again. A run that exits 0 keeps every row that was there, adds exactly the
  missing keys of the list with its value and description, touches no other key, and reports how many
  it added; a second run adds none and changes nothing.\<close>

theorem seed_idempotent:
  assumes "system_config_store T view invar" and "invar d"
    and "seed_run T clock d = ((0, Some k), d')" and "seed_run T clock' d' = ((0, Some k'), d'')"
  shows "k = length (filter (\<lambda>r. view d (fst r) = None) SEED) \<and>
    (\<forall>key. view d' key = (case view d key of Some r \<Rightarrow> Some r
       | None \<Rightarrow> (case map_of SEED key of None \<Rightarrow> None
                  | Some vd \<Rightarrow> view d' key))) \<and>
    (\<forall>r\<in>set SEED. if view d (fst r) = None then \<exists>t. view d' (fst r) = Some (seed_row t r)
                 else view d' (fst r) = view d (fst r)) \<and>
    k' = 0 \<and> view d'' = view d'"
proof -
  have 1: "seed_loop T clock 0 SEED 0 d = (Inr k, d')"
    using assms(3) by (auto simp: seed_run_def split: prod.splits sum.splits)
  have 2: "seed_loop T clock' 0 SEED 0 d' = (Inr k', d'')"
    using assms(4) by (auto simp: seed_run_def split: prod.splits sum.splits)
  note a = system_config_store.seed_loop_ok [OF assms(1,2) 1 seed_keys_distinct]
  then have "invar d'" by simp
  note b = system_config_store.seed_loop_ok [OF assms(1) this 2 seed_keys_distinct]
  have all: "view d' (fst r) \<noteq> None" if "r \<in> set SEED" for r
    using a that by (cases "view d (fst r)") auto
  have "view d'' key = view d' key" for key
  proof (cases "key \<in> fst ` set SEED")
    case True
    then obtain x where "view d' key = Some x" using all by fastforce
    then show ?thesis using b by simp
  next
    case False
    then show ?thesis using b by simp
  qed
  moreover have "filter (\<lambda>r. view d' (fst r) = None) SEED = []" using all by (simp add: filter_empty_conv)
  then have "k' = 0" using b by simp
  moreover have "view d' key = (case view d key of Some r \<Rightarrow> Some r
       | None \<Rightarrow> (case map_of SEED key of None \<Rightarrow> None | Some vd \<Rightarrow> view d' key))" for key
    using a by (auto simp: map_of_eq_None_iff split: option.split)
  moreover have "if view d (fst r) = None then \<exists>t. view d' (fst r) = Some (seed_row t r)
       else view d' (fst r) = view d (fst r)" if "r \<in> set SEED" for r
    using a that by auto
  ultimately show ?thesis using a by (auto simp: fun_eq_iff)
qed

theorem seed_idempotent_witness:
  "\<exists>k k' d' d''. seed_run mem_system_table int ([], True) = ((0, Some k), d') \<and>
     seed_run mem_system_table int d' = ((0, Some k'), d'') \<and> k = length SEED \<and> k' = 0"
proof -
  have up: "\<exists>k d'. seed_run mem_system_table c (t, True) = ((0, Some k), (d', True))" for c t
  proof -
    have "\<exists>k d'. seed_loop mem_system_table c n rows m (t, True) = (Inr k, (d', True))" for n rows m t
      by (induction rows arbitrary: n m t)
        (auto simp: db_then_def mem_system_table_def mem_ops_def split: option.splits)
    then obtain k d' where "seed_loop mem_system_table c 0 SEED 0 (t, True) = (Inr k, (d', True))" by blast
    then show ?thesis by (simp add: seed_run_def)
  qed
  obtain k d' where 1: "seed_run mem_system_table int ([], True) = ((0, Some k), (d', True))" using up by blast
  obtain k' d'' where 2: "seed_run mem_system_table int (d', True) = ((0, Some k'), (d'', True))" using up by blast
  have i: "well_keyed sc_key (fst (([], True) :: mem_system_config))" by (simp add: well_keyed_def)
  show ?thesis using seed_idempotent [OF mem_system.system_config_store_axioms i 1 2] 1 2 by auto
qed

end
