(* ===== verification/Stream.thy ===== *)
theory Stream
  imports Http "HOL-Library.Multiset"
begin

text \<open>
  The live-order stream of \<open>index.ts\<close> and \<open>grpcBot.streamOrders\<close>: one gRPC stream feeds every client. Its
  module variables are a record; the callbacks and timers are steps of a transition relation in which
  the environment chooses when a stream delivers or ends, what the engine answers, and the random
  number of the back-off. The second part is the relay: an update is enriched by an asynchronous
  database lookup before it is emitted.
\<close>

section \<open>Back-off\<close>

definition BACKOFF_BASE_MS :: int where "BACKOFF_BASE_MS = 1000"
definition BACKOFF_MAX_MS :: int where "BACKOFF_MAX_MS = 60000"

definition backoff_base :: "nat \<Rightarrow> int" where
  "backoff_base attempt = (let e = min attempt 10 in min (BACKOFF_BASE_MS * 2 ^ e) BACKOFF_MAX_MS)"

text \<open>\<open>rnd\<close> is \<open>Math.random()\<close>; \<open>BACKOFF_JITTER\<close> is 0.25.\<close>

definition computeBackoffDelay :: "nat \<Rightarrow> jsnum \<Rightarrow> jsnum" where
  "computeBackoffDelay attempt rnd =
     (let base = NumI (backoff_base attempt);
          jitter = num_mul (num_mul base (fl (25 / 100))) (num_sub (num_mul rnd (NumI 2)) (NumI 1))
      in math_round (num_add base jitter))"

section \<open>The singleton stream\<close>

text \<open>\<open>st_ends ! i\<close> counts how often the end callback of the \<open>i\<close>-th opened stream has run: gRPC may report an
  \<open>error\<close> and an \<open>end\<close>. A stream is live while its count is 0. The timers are pending or not; a pending
  reconnect timer keeps its delay.\<close>

record stream_state =
  st_active :: bool \<comment> \<open>\<open>_singletonActive\<close>\<close>
  st_cancel :: bool \<comment> \<open>\<open>_singletonCancelFn\<close> is set\<close>
  st_attempt :: nat \<comment> \<open>\<open>_backoffAttempt\<close>\<close>
  st_health :: bool \<comment> \<open>\<open>_streamHealthTimer\<close> is pending\<close>
  st_reconnect :: "jsnum option" \<comment> \<open>\<open>_reconnectTimer\<close>\<close>
  st_ends :: "nat list"

definition stream_init :: stream_state where
  "stream_init = \<lparr>st_active = False, st_cancel = False, st_attempt = 0, st_health = False, st_reconnect = None, st_ends = []\<rparr>"

definition resetBackoff :: "stream_state \<Rightarrow> stream_state" where
  "resetBackoff s = s\<lparr>st_attempt := 0, st_health := False\<rparr>"

definition scheduleReconnect :: "jsnum \<Rightarrow> stream_state \<Rightarrow> stream_state" where
  "scheduleReconnect rnd s =
     (if st_reconnect s \<noteq> None then s
      else s\<lparr>st_attempt := st_attempt s + 1, st_reconnect := Some (computeBackoffDelay (st_attempt s + 1) rnd)\<rparr>)"

text \<open>\<open>opened\<close>: whether \<open>streamOrders\<close> returns a stream or throws.\<close>

definition startSingletonStream :: "bool \<Rightarrow> jsnum \<Rightarrow> stream_state \<Rightarrow> stream_state" where
  "startSingletonStream opened rnd s =
     (if st_active s then s
      else if opened then s\<lparr>st_active := True, st_cancel := True, st_ends := st_ends s @ [0]\<rparr>
      else scheduleReconnect rnd (s\<lparr>st_active := False\<rparr>))"

definition on_update :: "stream_state \<Rightarrow> stream_state" where
  "on_update s = (if \<not> st_health s then s\<lparr>st_health := True\<rparr> else s)"

definition on_stream_end :: "jsnum \<Rightarrow> stream_state \<Rightarrow> stream_state" where
  "on_stream_end rnd s = scheduleReconnect rnd (s\<lparr>st_health := False, st_active := False, st_cancel := False\<rparr>)"

definition reconnect_fires :: "bool \<Rightarrow> jsnum \<Rightarrow> stream_state \<Rightarrow> stream_state" where
  "reconnect_fires opened rnd s = startSingletonStream opened rnd (s\<lparr>st_reconnect := None\<rparr>)"

text \<open>One callback of the program. The order of the two end callbacks of a stream and of the timers is the
  environment's.\<close>

inductive stream_step :: "stream_state \<Rightarrow> stream_state \<Rightarrow> bool" where
  data: "i < length (st_ends s) \<Longrightarrow> st_ends s ! i = 0 \<Longrightarrow> stream_step s (on_update s)"
| ended: "i < length (st_ends s) \<Longrightarrow> st_ends s ! i < 2 \<Longrightarrow>
     stream_step s (on_stream_end rnd (s\<lparr>st_ends := (st_ends s)[i := Suc (st_ends s ! i)]\<rparr>))"
| healthy: "st_health s \<Longrightarrow> stream_step s (resetBackoff s)"
| reconnect: "st_reconnect s \<noteq> None \<Longrightarrow> stream_step s (reconnect_fires opened rnd s)"

inductive stream_reachable :: "stream_state \<Rightarrow> bool" where
  boot: "stream_reachable (startSingletonStream opened rnd stream_init)"
| step: "stream_reachable s \<Longrightarrow> stream_step s t \<Longrightarrow> stream_reachable t"

definition open_of :: "nat list \<Rightarrow> nat set" where
  "open_of es = {i. i < length es \<and> es ! i = 0}"

abbreviation live :: "stream_state \<Rightarrow> nat set" where
  "live s \<equiv> open_of (st_ends s)"

lemma open_of_Nil [simp]: "open_of [] = {}"
  by (simp add: open_of_def)

lemma open_of_append [simp]: "open_of (es @ [0]) = insert (length es) (open_of es)"
  by (auto simp: open_of_def nth_append)

lemma open_of_update [simp]: "i < length es \<Longrightarrow> 0 < n \<Longrightarrow> open_of (es[i := n]) = open_of es - {i}"
  by (auto simp: open_of_def nth_list_update)

lemmas stream_defs = on_update_def on_stream_end_def reconnect_fires_def startSingletonStream_def
  scheduleReconnect_def resetBackoff_def stream_init_def

text \<open>The invariant of every reachable state.\<close>

definition stream_inv :: "stream_state \<Rightarrow> bool" where
  "stream_inv s \<longleftrightarrow> (st_active s \<longleftrightarrow> st_reconnect s = None) \<and> st_cancel s = st_active s \<and> (st_health s \<longrightarrow> st_ends s \<noteq> [])
     \<and> (st_active s \<longrightarrow> st_ends s \<noteq> [] \<and> last (st_ends s) = 0)"

lemma stream_step_inv: "stream_step s t \<Longrightarrow> stream_inv s \<Longrightarrow> stream_inv t"
  by (induction rule: stream_step.induct) (auto simp: stream_inv_def stream_defs)

lemma last_is_live: "es \<noteq> [] \<Longrightarrow> last es = 0 \<Longrightarrow> length es - 1 \<in> open_of es"
  by (simp add: open_of_def last_conv_nth)

lemma stream_reachable_inv: "stream_reachable s \<Longrightarrow> stream_inv s"
  by (induction rule: stream_reachable.induct) (auto simp: stream_step_inv, auto simp: stream_inv_def stream_defs)

section \<open>Prompt ends\<close>

text \<open>Runs in which the second end callback of a stream comes before the reconnect timer that the first one
  started has fired (in the program: within the same turn, at least 1.5 s before).\<close>

inductive prompt_step :: "stream_state \<Rightarrow> stream_state \<Rightarrow> bool" where
  data: "i < length (st_ends s) \<Longrightarrow> st_ends s ! i = 0 \<Longrightarrow> prompt_step s (on_update s)"
| first_end: "i < length (st_ends s) \<Longrightarrow> st_ends s ! i = 0 \<Longrightarrow>
     prompt_step s (on_stream_end rnd (s\<lparr>st_ends := (st_ends s)[i := 1]\<rparr>))"
| second_end: "i < length (st_ends s) \<Longrightarrow> st_ends s ! i = 1 \<Longrightarrow> Suc i = length (st_ends s) \<Longrightarrow> st_reconnect s \<noteq> None \<Longrightarrow>
     prompt_step s (on_stream_end rnd (s\<lparr>st_ends := (st_ends s)[i := 2]\<rparr>))"
| healthy: "st_health s \<Longrightarrow> prompt_step s (resetBackoff s)"
| reconnect: "st_reconnect s \<noteq> None \<Longrightarrow> prompt_step s (reconnect_fires opened rnd s)"

lemma prompt_step_step: "prompt_step s t \<Longrightarrow> stream_step s t"
proof (induction rule: prompt_step.induct)
  case (first_end i s rnd)
  then show ?case using stream_step.ended [of i s rnd] by simp
next
  case (second_end i s rnd)
  then show ?case using stream_step.ended [of i s rnd] by (simp add: numeral_2_eq_2)
qed (auto intro: stream_step.intros)

inductive prompt_reachable :: "stream_state \<Rightarrow> bool" where
  boot: "prompt_reachable (startSingletonStream opened rnd stream_init)"
| step: "prompt_reachable s \<Longrightarrow> prompt_step s t \<Longrightarrow> prompt_reachable t"

text \<open>At most the last stream is live, and exactly when the program thinks a stream is active.\<close>

definition single_inv :: "stream_state \<Rightarrow> bool" where
  "single_inv s \<longleftrightarrow> stream_inv s \<and> (st_active s \<longleftrightarrow> st_reconnect s = None) \<and>
     live s = (if st_active s then {length (st_ends s) - 1} else {})"

lemma prompt_step_single: "prompt_step s t \<Longrightarrow> single_inv s \<Longrightarrow> single_inv t"
proof -
  assume st: "prompt_step s t" and inv: "single_inv s"
  have si: "stream_inv t" using stream_step_inv [OF prompt_step_step [OF st]] inv by (simp add: single_inv_def)
  from st show ?thesis
  proof cases
    case (data i)
    then show ?thesis using inv si by (auto simp: single_inv_def stream_defs)
  next
    case (first_end i rnd)
    then have "i \<in> live s" by (simp add: open_of_def)
    then have "st_active s" "live s = {i}" "st_reconnect s = None"
      using inv by (auto simp: single_inv_def split: if_splits)
    then show ?thesis using first_end si by (simp add: single_inv_def on_stream_end_def scheduleReconnect_def)
  next
    case (second_end i rnd)
    then have "\<not> st_active s" "live s = {}" using inv by (auto simp: single_inv_def)
    then show ?thesis using second_end si by (simp add: single_inv_def on_stream_end_def scheduleReconnect_def)
  next
    case healthy
    then show ?thesis using inv si by (auto simp: single_inv_def stream_defs)
  next
    case (reconnect opened rnd)
    then have "\<not> st_active s" "live s = {}" using inv by (auto simp: single_inv_def)
    then show ?thesis using reconnect si by (simp add: single_inv_def stream_defs)
  qed
qed

lemma single_inv_boot: "single_inv (startSingletonStream opened rnd stream_init)"
  using open_of_append [of "[]"]
  by (simp add: single_inv_def stream_inv_def startSingletonStream_def scheduleReconnect_def stream_init_def)

lemma prompt_reachable_single: "prompt_reachable s \<Longrightarrow> single_inv s"
  by (induction rule: prompt_reachable.induct) (auto simp: single_inv_boot prompt_step_single)

section \<open>Properties of the stream\<close>

lemma backoff_base_quarter: "\<exists>c. backoff_base a = 4 * c \<and> 250 \<le> c \<and> c \<le> 15000"
proof -
  have "(1 :: int) \<le> 2 ^ min a 10" by simp
  then show ?thesis
    by (cases "1000 * (2 :: int) ^ min a 10 \<le> 60000")
      (auto simp: backoff_base_def BACKOFF_BASE_MS_def BACKOFF_MAX_MS_def Let_def min_def
        intro: exI [of _ "250 * 2 ^ min a 10"] exI [of _ 15000] split: if_splits)
qed

lemma fl_quarter: "fl (1 / 4) = Fin (1 / 4)"
  by (simp add: fl_eval)

lemma math_round_between:
  "of_int a \<le> x \<Longrightarrow> x \<le> of_int b \<Longrightarrow> \<exists>n. math_round (Fin x) = NumI n \<and> a \<le> n \<and> n \<le> b"
  by (auto simp: le_floor_iff floor_le_iff)

text \<open>The reconnect delay is a whole number of milliseconds within a quarter of the exponential base,
  \<open>min(1000 * 2^min(attempt, 10), 60000)\<close>, for every value of \<open>Math.random()\<close>. The jitter is added after
  the cap, so the delay can exceed \<open>BACKOFF_MAX_MS\<close>: at the sixth attempt a random number of 0.9 gives
  72 seconds.\<close>

theorem backoff_delay_bounds:
  assumes "0 \<le> q" and "q < 1"
  shows "(\<exists>n. computeBackoffDelay attempt (Fin q) = NumI n \<and> 3 * backoff_base attempt \<le> 4 * n \<and>
      4 * n \<le> 5 * backoff_base attempt) \<and>
    computeBackoffDelay 6 (fl (9 / 10)) = NumI 72000 \<and> BACKOFF_MAX_MS = 60000"
proof
  obtain c where c: "backoff_base attempt = 4 * c" "250 \<le> c" "c \<le> 15000" using backoff_base_quarter by blast
  obtain x where x: "fl (q * 2) = Fin x" "0 \<le> x" "x \<le> 2" using fl_between [of 0 "q * 2" 2] assms by auto
  obtain y where y: "fl (x - 1) = Fin y" "- 1 \<le> y" "y \<le> 1" using fl_between [of "- 1" "x - 1" 1] x by auto
  have cr: "0 < (of_int c :: rat)" using c by simp
  have q4: "fl (of_int c) = Fin (of_int c)" using fl_int [of c] c by simp
  have "of_int (- c) \<le> of_int c * y" "of_int c * y \<le> of_int c"
    using y cr mult_left_mono [of "- 1" y "of_int c"] mult_left_mono [of y 1 "of_int c"] by auto
  then obtain j where j: "fl (of_int c * y) = Fin j" "of_int (- c) \<le> j" "j \<le> of_int c"
    using fl_between [of "- c" "of_int c * y" c] c by auto
  have "of_int (3 * c) \<le> of_int (4 * c) + j" "of_int (4 * c) + j \<le> of_int (5 * c)" using j by auto
  then obtain z where z: "fl (of_int (4 * c) + j) = Fin z" "of_int (3 * c) \<le> z" "z \<le> of_int (5 * c)"
    using fl_between [of "3 * c" "of_int (4 * c) + j" "5 * c"] c by auto
  obtain n where n: "math_round (Fin z) = NumI n" "3 * c \<le> n" "n \<le> 5 * c" using math_round_between [OF z(2,3)] by blast
  have "computeBackoffDelay attempt (Fin q) = NumI n"
    using n z j y x q4 by (simp add: computeBackoffDelay_def c fl_quarter num_sub_def Let_def)
  then show "\<exists>n. computeBackoffDelay attempt (Fin q) = NumI n \<and> 3 * backoff_base attempt \<le> 4 * n \<and>
      4 * n \<le> 5 * backoff_base attempt" using n c by auto
next
  have "fl (9 / 10) = Fin (8106479329266893 / 9007199254740992)" by (simp add: fl_eval)
  moreover have "backoff_base 6 = 60000" by (simp add: backoff_base_def BACKOFF_BASE_MS_def BACKOFF_MAX_MS_def)
  ultimately show "computeBackoffDelay 6 (fl (9 / 10)) = NumI 72000 \<and> BACKOFF_MAX_MS = 60000"
    by (simp add: computeBackoffDelay_def num_sub_def BACKOFF_MAX_MS_def) (simp add: fl_eval)
qed

theorem backoff_delay_bounds_witness:
  "(\<exists>n. computeBackoffDelay 3 (Fin (1 / 2)) = NumI n \<and> 3 * backoff_base 3 \<le> 4 * n \<and> 4 * n \<le> 5 * backoff_base 3) \<and>
    computeBackoffDelay 6 (fl (9 / 10)) = NumI 72000 \<and> BACKOFF_MAX_MS = 60000"
  by (rule backoff_delay_bounds) simp_all

text \<open>A reconnect timer that fires while the engine refuses sets the next one; the first that is accepted opens a
  stream.\<close>

lemma refused_again:
  "st_reconnect s \<noteq> None \<Longrightarrow> \<not> st_active s \<Longrightarrow>
   (let t = fold (reconnect_fires False) rnds s in
      st_reconnect t \<noteq> None \<and> \<not> st_active t \<and> st_ends t = st_ends s \<and> st_attempt t = st_attempt s + length rnds)"
proof (induction rnds arbitrary: s)
  case (Cons x xs)
  have "st_reconnect (reconnect_fires False x s) \<noteq> None" "\<not> st_active (reconnect_fires False x s)"
    "st_ends (reconnect_fires False x s) = st_ends s" "st_attempt (reconnect_fires False x s) = st_attempt s + 1"
    using Cons.prems by (simp_all add: stream_defs)
  with Cons.IH [of "reconnect_fires False x s"] show ?case by (simp add: Let_def)
qed simp

text \<open>C21: the live stream never gets stuck. In every reachable state either the stream that was opened last is
  still live, and then the program counts it as active and keeps its cancel function, or a reconnect is scheduled, and
  then it counts none as active. Every end callback, whichever stream it is of, leaves the program without an active
  stream and with a timer. Whenever a timer is set, then however often it fires while the engine refuses, it is set
  again with the next attempt's delay, and the first time the engine accepts, a new stream is opened and is live,
  active and cancellable, and no timer is left.\<close>

theorem stream_recovers:
  assumes "stream_reachable s"
  shows "(if st_active s then length (st_ends s) - 1 \<in> live s \<and> st_cancel s \<and> st_reconnect s = None
       else st_reconnect s \<noteq> None \<and> \<not> st_cancel s) \<and>
    (let t = on_stream_end rnd (s\<lparr>st_ends := (st_ends s)[i := Suc (st_ends s ! i)]\<rparr>) in
       \<not> st_active t \<and> \<not> st_cancel t \<and> st_reconnect t \<noteq> None) \<and>
    (if st_reconnect s = None then True
     else let t = fold (reconnect_fires False) rnds s; u = reconnect_fires True rnd t in
       st_reconnect t \<noteq> None \<and> live t = live s \<and> st_attempt t = st_attempt s + length rnds \<and>
       live u = insert (length (st_ends s)) (live s) \<and> st_active u \<and> st_cancel u \<and> st_reconnect u = None)"
proof -
  have inv: "stream_inv s" by (rule stream_reachable_inv [OF assms])
  have one: "if st_active s then length (st_ends s) - 1 \<in> live s \<and> st_cancel s \<and> st_reconnect s = None
       else st_reconnect s \<noteq> None \<and> \<not> st_cancel s"
    using inv last_is_live [of "st_ends s"] by (simp add: stream_inv_def)
  have two: "let t = on_stream_end rnd (s\<lparr>st_ends := (st_ends s)[i := Suc (st_ends s ! i)]\<rparr>) in
       \<not> st_active t \<and> \<not> st_cancel t \<and> st_reconnect t \<noteq> None"
    by (simp add: stream_defs)
  have three: "let t = fold (reconnect_fires False) rnds s; u = reconnect_fires True rnd t in
       st_reconnect t \<noteq> None \<and> live t = live s \<and> st_attempt t = st_attempt s + length rnds \<and>
       live u = insert (length (st_ends s)) (live s) \<and> st_active u \<and> st_cancel u \<and> st_reconnect u = None"
    if pending: "st_reconnect s \<noteq> None"
  proof -
    have "\<not> st_active s" using inv pending by (simp add: stream_inv_def)
    from refused_again [OF pending this, of rnds] show ?thesis by (simp add: reconnect_fires_def startSingletonStream_def Let_def)
  qed
  show ?thesis
  proof (intro conjI one two)
    show "if st_reconnect s = None then True
     else let t = fold (reconnect_fires False) rnds s; u = reconnect_fires True rnd t in
       st_reconnect t \<noteq> None \<and> live t = live s \<and> st_attempt t = st_attempt s + length rnds \<and>
       live u = insert (length (st_ends s)) (live s) \<and> st_active u \<and> st_cancel u \<and> st_reconnect u = None"
      using three by (cases "st_reconnect s = None") (simp_all only: if_True if_False simp_thms)
  qed
qed

theorem stream_recovers_witness:
  "let s = startSingletonStream False (Fin 0) stream_init; t = fold (reconnect_fires False) [Fin 0, Fin (1 / 2)] s in
   st_reconnect t \<noteq> None \<and> st_attempt t = 3 \<and> live (reconnect_fires True (Fin 0) t) = {0} \<and> st_active (reconnect_fires True (Fin 0) t)"
proof -
  let ?s = "startSingletonStream False (Fin 0) stream_init"
  have s: "st_reconnect ?s \<noteq> None" "st_ends ?s = []" "st_attempt ?s = 1" by (simp_all add: stream_defs)
  show ?thesis
    using stream_recovers [OF stream_reachable.boot [of False "Fin 0"], of "Fin 0" 0 "[Fin 0, Fin (1 / 2)]"] s
    by (simp add: Let_def)
qed

text \<open>C22: as long as both end callbacks of a stream come before the reconnect timer fires, there is at most
  one live stream, and the program's flag is right: it is set exactly while that stream is live, and a
  reconnect is pending exactly while it is not.\<close>

theorem single_stream_when_prompt:
  assumes "prompt_reachable s"
  shows "card (live s) = (if st_active s then 1 else 0) \<and> (st_active s \<longleftrightarrow> st_reconnect s = None)"
  using prompt_reachable_single [OF assms] by (auto simp: single_inv_def)

theorem single_stream_when_prompt_witness:
  "let s = on_stream_end (Fin 0) ((startSingletonStream True (Fin 0) stream_init)\<lparr>st_ends := [1]\<rparr>) in
    card (live s) = (if st_active s then 1 else 0) \<and> (st_active s \<longleftrightarrow> st_reconnect s = None)"
proof -
  let ?b = "startSingletonStream True (Fin 0) stream_init"
  have e: "st_ends ?b = [0]" by (simp add: stream_defs)
  have "prompt_step ?b (on_stream_end (Fin 0) (?b\<lparr>st_ends := (st_ends ?b)[0 := 1]\<rparr>))"
    by (rule prompt_step.first_end) (simp_all add: e)
  then have "prompt_reachable (on_stream_end (Fin 0) (?b\<lparr>st_ends := [1]\<rparr>))"
    using prompt_reachable.step [OF prompt_reachable.boot] by (simp add: e)
  from single_stream_when_prompt [OF this] show ?thesis by (simp only: Let_def)
qed

text \<open>the guard against duplicate end callbacks is only the pending timer. A second end callback of a
  stream that arrives after the reconnect makes the program forget the new, live stream and open
  another: a state with two live streams, each of which would relay every order, is reachable.\<close>

theorem late_end_duplicates_stream:
  "\<exists>s. stream_reachable s \<and> st_active s \<and> live s = {1, 2}"
proof -
  define b where "b = startSingletonStream True (Fin 0) stream_init"
  define e where "e = on_stream_end (Fin 0) (b\<lparr>st_ends := (st_ends b)[0 := Suc (st_ends b ! 0)]\<rparr>)"
  define r where "r = reconnect_fires True (Fin 0) e"
  define l where "l = on_stream_end (Fin 0) (r\<lparr>st_ends := (st_ends r)[0 := Suc (st_ends r ! 0)]\<rparr>)"
  define s where "s = reconnect_fires True (Fin 0) l"
  have b: "st_ends b = [0]" "st_reconnect b = None" by (simp_all add: b_def stream_defs)
  have e: "st_ends e = [1]" "st_reconnect e \<noteq> None" "\<not> st_active e"
    by (simp_all add: e_def b on_stream_end_def scheduleReconnect_def)
  have r: "st_ends r = [1, 0]" "st_reconnect r = None"
    by (simp_all add: r_def e reconnect_fires_def startSingletonStream_def)
  have l: "st_ends l = [2, 0]" "st_reconnect l \<noteq> None" "\<not> st_active l"
    by (simp_all add: l_def r on_stream_end_def scheduleReconnect_def)
  have s: "st_ends s = [2, 0, 0]" "st_active s"
    by (simp_all add: s_def l reconnect_fires_def startSingletonStream_def)
  have "stream_reachable b" unfolding b_def by (rule stream_reachable.boot)
  moreover have "stream_step b e" unfolding e_def by (rule stream_step.ended) (simp_all add: b)
  moreover have "stream_step e r" unfolding r_def by (rule stream_step.reconnect [OF e(2)])
  moreover have "stream_step r l" unfolding l_def by (rule stream_step.ended) (simp_all add: r)
  moreover have "stream_step l s" unfolding s_def by (rule stream_step.reconnect [OF l(2)])
  ultimately have "stream_reachable s" by (blast intro: stream_reachable.step)
  moreover have "open_of [2, 0, 0] = {1, 2}"
  proof -
    have "open_of [2] = {}" using open_of_update [of 0 "[0]" 2] open_of_append [of "[]"] by simp
    moreover have "open_of [2, 0] = insert 1 (open_of [2])" using open_of_append [of "[2]"] by simp
    moreover have "open_of [2, 0, 0] = insert 2 (open_of [2, 0])" using open_of_append [of "[2, 0]"] by (simp add: numeral_2_eq_2)
    ultimately show ?thesis by (simp only:) blast
  qed
  ultimately show ?thesis using s by (intro exI [of _ s]) simp
qed

section \<open>The relay\<close>

text \<open>\<open>x != null ? a : undefined\<close> and the row's columns; \<open>now\<close> is the text of \<open>new Date().toISOString()\<close>.\<close>

definition base_payload :: "jsval \<Rightarrow> jstr \<Rightarrow> (jstr \<times> jsval) list" where
  "base_payload u now = map (\<lambda>(k, v). (U k, v))
     [(''id'', get u ''order_id''), (''mint'', nvl (get u ''token_mint'') (S '''')), (''status'', get u ''status''),
      (''signature'', get u ''signature''), (''executedAt'', get u ''executed_at''), (''price'', get u ''executed_price''),
      (''amountSol'', if nullish (get u ''executed_amount'') then VUndef
                      else VNum (num_div (to_num (get u ''executed_amount'')) (NumI 1000000000))),
      (''createdAt'', VStr now)]"

definition undef_opt :: "jstr option \<Rightarrow> jsval" where
  "undef_opt x = (case x of None \<Rightarrow> VUndef | Some s \<Rightarrow> VStr s)"

definition enrich_row :: "trade_row \<Rightarrow> (jstr \<times> jsval) list \<Rightarrow> (jstr \<times> jsval) list" where
  "enrich_row row p0 =
     (let p1 = put (U ''side'') (VStr (tr_side row)) p0;
          p2 = put (U ''tokenSymbol'') (undef_opt (tr_tokenSymbol row)) p1;
          p3 = put (U ''tokenName'') (undef_opt (tr_tokenName row)) p2;
          p4 = put (U ''strategy'') (VStr (tr_strategy row)) p3;
          p5 = put (U ''pnlSol'') (js_num_opt (tr_pnlSol row)) p4;
          p6 = put (U ''traceId'') (js_str_opt (tr_traceId row)) p5
      in if nullish (lookup (U ''amountSol'') p6) then put (U ''amountSol'') (VNum (tr_amountSol row)) p6 else p6)"

text \<open>\<open>rows\<close>: the outcome of the lookup of the order in the trades table.\<close>

definition enrichUpdate :: "jsval \<Rightarrow> jstr \<Rightarrow> exn + trade_row list \<Rightarrow> jsval" where
  "enrichUpdate u now rows =
     (case rows of
        Inr (row # _) \<Rightarrow> VObj (enrich_row row (base_payload u now))
      | _ \<Rightarrow> VObj (base_payload u now))"

text \<open>Updates arrive in order; each lookup ends in its own time, and the payload is emitted then.\<close>

datatype relay_event = Arrives jsval jstr | LookupDone nat "exn + trade_row list"

record relay =
  rl_waiting :: "(jsval \<times> jstr) list"
  rl_emitted :: "jsval list"

fun relay_step :: "relay \<Rightarrow> relay_event \<Rightarrow> relay" where
  "relay_step s (Arrives u now) = s\<lparr>rl_waiting := rl_waiting s @ [(u, now)]\<rparr>"
| "relay_step s (LookupDone i rows) =
     (if i < length (rl_waiting s) then
        (let (u, now) = rl_waiting s ! i in
         s\<lparr>rl_waiting := take i (rl_waiting s) @ drop (Suc i) (rl_waiting s),
           rl_emitted := rl_emitted s @ [enrichUpdate u now rows]\<rparr>)
      else s)"

definition relay_run :: "relay_event list \<Rightarrow> relay" where
  "relay_run es = foldl relay_step \<lparr>rl_waiting = [], rl_emitted = []\<rparr> es"

fun arrivals :: "relay_event list \<Rightarrow> jsval list" where
  "arrivals [] = []"
| "arrivals (Arrives u now # es) = u # arrivals es"
| "arrivals (LookupDone _ _ # es) = arrivals es"

lemma arrivals_append [simp]: "arrivals (es @ es') = arrivals es @ arrivals es'"
  by (induction es rule: arrivals.induct) auto

lemma put_other [simp]: "k' \<noteq> k \<Longrightarrow> lookup k (put k' v ps) = lookup k ps"
  by (simp add: lookup_def)

lemma relay_run_snoc: "relay_run (es @ [e]) = relay_step (relay_run es) e"
  by (simp add: relay_run_def)

text \<open>The specification speaks of positions in the sequence of events: \<open>ds\<close> pairs an arrival with the end of the
  lookup that emitted it, \<open>ws\<close> are the arrivals that still wait.\<close>

definition is_arrival :: "relay_event \<Rightarrow> bool" where
  "is_arrival e = (case e of Arrives u now \<Rightarrow> True | LookupDone i rows \<Rightarrow> False)"

definition arrived :: "relay_event \<Rightarrow> jsval \<times> jstr" where
  "arrived e = (case e of Arrives u now \<Rightarrow> (u, now) | LookupDone i rows \<Rightarrow> (VUndef, []))"

definition found_rows :: "relay_event \<Rightarrow> exn + trade_row list" where
  "found_rows e = (case e of LookupDone i rows \<Rightarrow> rows | Arrives u now \<Rightarrow> Inr [])"

definition emission :: "relay_event list \<Rightarrow> nat \<times> nat \<Rightarrow> jsval" where
  "emission es d = (let (u, now) = arrived (es ! fst d) in enrichUpdate u now (found_rows (es ! snd d)))"

definition relay_accounts :: "relay_event list \<Rightarrow> relay \<Rightarrow> (nat \<times> nat) list \<Rightarrow> nat list \<Rightarrow> bool" where
  "relay_accounts es s ds ws \<longleftrightarrow>
     rl_emitted s = map (emission es) ds \<and> rl_waiting s = map (\<lambda>a. arrived (es ! a)) ws \<and>
     distinct (map fst ds @ ws) \<and> set (map fst ds @ ws) = {a. a < length es \<and> is_arrival (es ! a)} \<and>
     sorted_wrt (<) ws \<and> sorted_wrt (<) (map snd ds) \<and>
     list_all (\<lambda>(a, e). a < e \<and> e < length es \<and> \<not> is_arrival (es ! e)) ds"

lemma accounts_longer:
  assumes "relay_accounts es s ds ws"
  shows "map (emission (es @ [e])) ds = map (emission es) ds" "map (\<lambda>a. arrived ((es @ [e]) ! a)) ws = map (\<lambda>a. arrived (es ! a)) ws"
    "{a. a < length (es @ [e]) \<and> is_arrival ((es @ [e]) ! a)} =
      {a. a < length es \<and> is_arrival (es ! a)} \<union> (if is_arrival e then {length es} else {})"
    "list_all (\<lambda>(a, e'). a < e' \<and> e' < length (es @ [e]) \<and> \<not> is_arrival ((es @ [e]) ! e')) ds"
proof -
  have w: "\<forall>a\<in>set (map fst ds @ ws). a < length es" using assms unfolding relay_accounts_def by auto
  have d: "\<forall>(a, e)\<in>set ds. a < e \<and> e < length es \<and> \<not> is_arrival (es ! e)"
    using assms unfolding relay_accounts_def list_all_iff by blast
  show "map (emission (es @ [e])) ds = map (emission es) ds"
    using d by (force simp: emission_def nth_append)
  show "map (\<lambda>a. arrived ((es @ [e]) ! a)) ws = map (\<lambda>a. arrived (es ! a)) ws" using w by (auto simp: nth_append)
  show "{a. a < length (es @ [e]) \<and> is_arrival ((es @ [e]) ! a)} =
      {a. a < length es \<and> is_arrival (es ! a)} \<union> (if is_arrival e then {length es} else {})"
    by (auto simp: nth_append less_Suc_eq)
  show "list_all (\<lambda>(a, e'). a < e' \<and> e' < length (es @ [e]) \<and> \<not> is_arrival ((es @ [e]) ! e')) ds"
    using d unfolding list_all_iff by (force simp: nth_append)
qed

lemma accounts_within:
  assumes "relay_accounts es s ds ws"
  shows "list_all (\<lambda>e. e < length es) (map snd ds)" "list_all (\<lambda>a. a < length es) (map fst ds @ ws)"
proof -
  have "\<forall>(a, e)\<in>set ds. a < e \<and> e < length es \<and> \<not> is_arrival (es ! e)"
    using assms unfolding relay_accounts_def list_all_iff by blast
  then show "list_all (\<lambda>e. e < length es) (map snd ds)" unfolding list_all_iff by force
  have "\<forall>a\<in>set (map fst ds @ ws). a < length es" using assms unfolding relay_accounts_def by auto
  then show "list_all (\<lambda>a. a < length es) (map fst ds @ ws)" by (simp add: list_all_iff)
qed

lemma accounts_arrival:
  assumes acc: "relay_accounts es s ds ws"
  shows "relay_accounts (es @ [Arrives u now]) (relay_step s (Arrives u now)) ds (ws @ [length es])"
proof -
  have ar: "is_arrival (Arrives u now)" "arrived (Arrives u now) = (u, now)" by (simp_all add: is_arrival_def arrived_def)
  note l = accounts_longer [OF acc, of "Arrives u now"] and in_range = accounts_within [OF acc]
  show ?thesis
    unfolding relay_accounts_def l(1,3) using acc l(2,4) in_range unfolding relay_accounts_def
    by (auto simp: ar list_all_iff sorted_wrt_append)
qed

lemma accounts_idle:
  assumes acc: "relay_accounts es s ds ws" and "\<not> i < length (rl_waiting s)"
  shows "relay_accounts (es @ [LookupDone i rows]) (relay_step s (LookupDone i rows)) ds ws"
proof -
  have "\<not> is_arrival (LookupDone i rows)" by (simp add: is_arrival_def)
  then show ?thesis
    unfolding relay_accounts_def accounts_longer(1-3) [OF acc]
    using acc assms(2) accounts_longer(4) [OF acc] unfolding relay_accounts_def by simp
qed

lemma accounts_lookup:
  assumes acc: "relay_accounts es s ds ws" and i: "i < length (rl_waiting s)"
  shows "relay_accounts (es @ [LookupDone i rows]) (relay_step s (LookupDone i rows))
    (ds @ [(ws ! i, length es)]) (take i ws @ drop (Suc i) ws)"
proof -
  let ?e = "LookupDone i rows"
  have no: "\<not> is_arrival ?e" by (simp add: is_arrival_def)
  note l = accounts_longer [OF acc, of ?e] and in_range = accounts_within [OF acc]
  have iw: "i < length ws" and wait: "rl_waiting s = map (\<lambda>a. arrived (es ! a)) ws" and sent: "rl_emitted s = map (emission es) ds"
    using acc i unfolding relay_accounts_def by simp_all
  obtain u now where un: "arrived (es ! (ws ! i)) = (u, now)" by fastforce
  have lt: "ws ! i < length es" using in_range(2) iw unfolding list_all_iff by simp
  have split: "ws = take i ws @ ws ! i # drop (Suc i) ws" by (rule id_take_nth_drop [OF iw])
  have step: "relay_step s ?e = s\<lparr>rl_waiting := map (\<lambda>a. arrived (es ! a)) (take i ws @ drop (Suc i) ws),
      rl_emitted := map (emission es) ds @ [enrichUpdate u now rows]\<rparr>"
    using i iw by (simp add: wait sent un take_map drop_map)
  have em: "emission (es @ [?e]) (ws ! i, length es) = enrichUpdate u now rows"
    using lt un by (simp add: emission_def nth_append found_rows_def)
  have sub: "set (take i ws @ drop (Suc i) ws) \<subseteq> set ws" using set_take_subset [of i ws] set_drop_subset [of "Suc i" ws] by auto
  have perm: "mset (map fst (ds @ [(ws ! i, length es)]) @ take i ws @ drop (Suc i) ws) = mset (map fst ds @ ws)"
    by (subst (4) split) simp
  have same: "distinct (map fst (ds @ [(ws ! i, length es)]) @ take i ws @ drop (Suc i) ws)"
    "set (map fst (ds @ [(ws ! i, length es)]) @ take i ws @ drop (Suc i) ws) = set (map fst ds @ ws)"
    using mset_eq_imp_distinct_iff [OF perm] mset_eq_setD [OF perm] acc unfolding relay_accounts_def by blast+
  have srt: "sorted_wrt (<) (take i ws @ drop (Suc i) ws)"
  proof -
    have "sorted_wrt (<) (take i ws @ ws ! i # drop (Suc i) ws)" using acc split unfolding relay_accounts_def by simp
    then show ?thesis by (simp add: sorted_wrt_append)
  qed
  have w': "map (\<lambda>a. arrived ((es @ [?e]) ! a)) (take i ws @ drop (Suc i) ws) = map (\<lambda>a. arrived (es ! a)) (take i ws @ drop (Suc i) ws)"
    using in_range(2) sub unfolding list_all_iff by (force simp: nth_append)
  have snds: "sorted_wrt (<) (map snd (ds @ [(ws ! i, length es)]))"
    using acc in_range(1) unfolding relay_accounts_def list_all_iff by (simp add: sorted_wrt_append)
  have pairs: "list_all (\<lambda>(a, e'). a < e' \<and> e' < length (es @ [?e]) \<and> \<not> is_arrival ((es @ [?e]) ! e')) (ds @ [(ws ! i, length es)])"
    using l(4) lt no by simp
  show ?thesis
    unfolding relay_accounts_def same(2) l(3) step w'
    using same(1) srt snds pairs em l(1) no acc unfolding relay_accounts_def by simp
qed

lemma relay_run_accounts: "\<exists>ds ws. relay_accounts es (relay_run es) ds ws"
proof (induction es rule: rev_induct)
  case Nil
  have "relay_accounts [] (relay_run []) [] []" by (simp add: relay_accounts_def relay_run_def)
  then show ?case by blast
next
  case (snoc e es)
  then obtain ds ws where acc: "relay_accounts es (relay_run es) ds ws" by blast
  show ?case
  proof (cases e)
    case (Arrives u now)
    then show ?thesis unfolding relay_run_snoc using accounts_arrival [OF acc] by blast
  next
    case (LookupDone i rows)
    then show ?thesis unfolding relay_run_snoc using accounts_lookup [OF acc] accounts_idle [OF acc] by blast
  qed
qed

text \<open>C24: no update is lost, duplicated or altered on the way to the clients. After any interleaving of
  arrivals and finished lookups, each arrival is accounted for exactly once: it still waits, in the order of arrival, or
  there is one later lookup whose end emitted exactly its enrichment with the rows that this lookup found; the
  payloads were emitted in the order in which their lookups ended, and nothing else was.\<close>

theorem relay_keeps_every_update:
  "\<exists>ds ws. rl_emitted (relay_run es) =
      map (\<lambda>(a, e). let (u, now) = arrived (es ! a) in enrichUpdate u now (found_rows (es ! e))) ds \<and>
    rl_waiting (relay_run es) = map (\<lambda>a. arrived (es ! a)) ws \<and>
    distinct (map fst ds @ ws) \<and> set (map fst ds @ ws) = {a. a < length es \<and> is_arrival (es ! a)} \<and>
    sorted_wrt (<) ws \<and> sorted_wrt (<) (map snd ds) \<and>
    list_all (\<lambda>(a, e). a < e \<and> e < length es \<and> \<not> is_arrival (es ! e)) ds"
proof -
  have "emission es = (\<lambda>(a, e). let (u, now) = arrived (es ! a) in enrichUpdate u now (found_rows (es ! e)))"
    by (auto simp: emission_def fun_eq_iff)
  with relay_run_accounts [of es] show ?thesis unfolding relay_accounts_def by simp
qed

text \<open>but the order is not kept: two updates of one order, of which the first has the slower lookup,
  reach the clients in reverse, so a client may end up showing the older status.\<close>

theorem relay_can_reorder:
  "\<exists>es. map (\<lambda>u. get u ''status'') (arrivals es) = [S ''SUBMITTED'', S ''FILLED''] \<and>
     map (\<lambda>p. get p ''status'') (rl_emitted (relay_run es)) = [S ''FILLED'', S ''SUBMITTED'']"
proof -
  let ?u1 = "obj [(''order_id'', S ''o''), (''status'', S ''SUBMITTED'')]"
  let ?u2 = "obj [(''order_id'', S ''o''), (''status'', S ''FILLED'')]"
  let ?es = "[Arrives ?u1 [], Arrives ?u2 [], LookupDone 1 (Inr []), LookupDone 0 (Inr [])]"
  have p: "get (enrichUpdate u [] (Inr [])) ''status'' = get u ''status''" for u
    by (simp add: enrichUpdate_def base_payload_def get_def [of "VObj _"] lookup_def)
  have "map (\<lambda>p. get p ''status'') (rl_emitted (relay_run ?es)) = [S ''FILLED'', S ''SUBMITTED'']"
    by (simp add: relay_run_def p)
  then show ?thesis by (intro exI [of _ ?es]) simp
qed

end
