(* ===== verification/WsHub.thy ===== *)
theory WsHub
  imports Http JsJson
begin

text \<open>
  The WebSocket side of \<open>index.ts\<close>: which upgrades are accepted, and what one connection does with
  orders, messages, pongs, the ping timer and its close. The hub is the list of connections, all of them
  listeners of the order emitter.
\<close>

section \<open>One connection\<close>

record ws_conn =
  ws_filter :: "jsval list" \<comment> \<open>\<open>filterIds\<close>, a set\<close>
  ws_alive :: bool
  ws_open :: bool \<comment> \<open>\<open>ws.readyState === ws.OPEN\<close>\<close>
  ws_attached :: bool \<comment> \<open>the ping timer runs and \<open>onOrder\<close> is a listener\<close>
  ws_sent :: "jsval list"
  ws_pings :: nat

definition ws_connect :: "jstr list \<Rightarrow> ws_conn" where
  "ws_connect subscribedOrderIds =
     \<lparr>ws_filter = remdups (map VStr subscribedOrderIds), ws_alive = True, ws_open = True, ws_attached = True,
      ws_sent = [], ws_pings = 0\<rparr>"

text \<open>\<open>Closed\<close> is the \<open>close\<close> event of the socket, which follows a \<open>terminate\<close> or the client's leaving;
  \<open>Leaving\<close> is the moment the socket stops being open.\<close>

datatype ws_event = Order jsval | Message jstr | Pong | PingTick | Leaving | Closed

definition on_order :: "jsval \<Rightarrow> ws_conn \<Rightarrow> ws_conn" where
  "on_order payload c =
     (if \<not> ws_open c then c
      else if 0 < length (ws_filter c) \<and> get payload ''id'' \<notin> set (ws_filter c) then c
      else c\<lparr>ws_sent := ws_sent c @ [wire payload]\<rparr>)"

definition on_message :: "jstr \<Rightarrow> ws_conn \<Rightarrow> ws_conn" where
  "on_message data c =
     (case json_parse data of
        None \<Rightarrow> c
      | Some msg \<Rightarrow>
          (case get msg ''order_ids'' of VArr ids \<Rightarrow> c\<lparr>ws_filter := remdups ids\<rparr> | _ \<Rightarrow> c))"

definition on_ping_tick :: "ws_conn \<Rightarrow> ws_conn" where
  "on_ping_tick c =
     (if \<not> ws_alive c then c\<lparr>ws_open := False\<rparr> else c\<lparr>ws_alive := False, ws_pings := ws_pings c + 1\<rparr>)"

fun ws_step :: "ws_conn \<Rightarrow> ws_event \<Rightarrow> ws_conn" where
  "ws_step c (Order p) = (if ws_attached c then on_order p c else c)"
| "ws_step c (Message data) = on_message data c"
| "ws_step c Pong = c\<lparr>ws_alive := True\<rparr>"
| "ws_step c PingTick = (if ws_attached c then on_ping_tick c else c)"
| "ws_step c Leaving = c\<lparr>ws_open := False\<rparr>"
| "ws_step c Closed = c\<lparr>ws_open := False, ws_attached := False\<rparr>"

definition ws_run :: "ws_conn \<Rightarrow> ws_event list \<Rightarrow> ws_conn" where
  "ws_run c es = foldl ws_step c es"

section \<open>The hub and the upgrade\<close>

text \<open>\<open>orderEmitter.emit\<close> calls every listener.\<close>

definition hub_emit :: "jsval \<Rightarrow> ws_conn list \<Rightarrow> ws_conn list" where
  "hub_emit p cs = map (\<lambda>c. ws_step c (Order p)) cs"

text \<open>\<open>ids\<close> is \<open>searchParams.getAll("order_id")\<close> of the parsed URL; \<open>None\<close> means the socket is destroyed.\<close>

definition on_upgrade :: "(jstr \<Rightarrow> jstr list) \<Rightarrow> jstr option \<Rightarrow> ws_conn list \<Rightarrow> ws_conn list option" where
  "on_upgrade ids req_url cs =
     (let url = (case req_url of Some u \<Rightarrow> u | None \<Rightarrow> []) in
      if starts_with url (U ''/api/bot/stream'') then Some (cs @ [ws_connect (ids url)]) else None)"

section \<open>Delivery\<close>

text \<open>What a client is owed, said of positions in the sequence of events and not of a state. A message asks for
  identifiers when it is JSON with an array under \<open>order_ids\<close>; the filter in force is that of the last such message,
  or of the upgrade URL; a tick is unanswered while no pong has come after it; and the socket is gone once it was left
  or closed, or once a tick found an earlier one unanswered.\<close>

definition asked_ids :: "ws_event \<Rightarrow> jsval list option" where
  "asked_ids e = (case e of Message m \<Rightarrow>
       (case map_option (\<lambda>v. get v ''order_ids'') (json_parse m) of Some (VArr ids) \<Rightarrow> Some ids | _ \<Rightarrow> None)
     | _ \<Rightarrow> None)"

definition in_force :: "jstr list \<Rightarrow> ws_event list \<Rightarrow> jsval list" where
  "in_force ids before = last (map VStr ids # List.map_filter asked_ids before)"

definition unanswered :: "ws_event list \<Rightarrow> bool" where
  "unanswered before \<longleftrightarrow> (\<exists>a b. before = a @ PingTick # b \<and> Pong \<notin> set b)"

definition gone :: "ws_event list \<Rightarrow> bool" where
  "gone before \<longleftrightarrow> Leaving \<in> set before \<or> Closed \<in> set before \<or>
     (\<exists>a b. before = a @ PingTick # b \<and> unanswered a)"

definition owed_at :: "jstr list \<Rightarrow> ws_event list \<Rightarrow> nat \<Rightarrow> jsval list" where
  "owed_at ids es k =
     (case es ! k of
        Order p \<Rightarrow> if \<not> gone (take k es) \<and>
              (in_force ids (take k es) = [] \<or> get p ''id'' \<in> set (in_force ids (take k es)))
            then [wire p] else []
      | _ \<Rightarrow> [])"

definition owed :: "jstr list \<Rightarrow> ws_event list \<Rightarrow> jsval list" where
  "owed ids es = concat (map (owed_at ids es) [0..<length es])"

lemma owed_Nil [simp]: "owed ids [] = []"
  by (simp add: owed_def)

lemma owed_snoc: "owed ids (es @ [e]) = owed ids es @ owed_at ids (es @ [e]) (length es)"
proof -
  have "owed_at ids (es @ [e]) k = owed_at ids es k" if "k < length es" for k
  proof -
    have "take k (es @ [e]) = take k es" "(es @ [e]) ! k = es ! k" using that by (simp_all add: nth_append)
    then show ?thesis by (simp only: owed_at_def)
  qed
  then have "map (owed_at ids (es @ [e])) [0..<length es] = map (owed_at ids es) [0..<length es]" by simp
  then have "concat (map (owed_at ids (es @ [e])) [0..<length es]) = owed ids es" unfolding owed_def by (rule arg_cong)
  then show ?thesis by (simp add: owed_def [of ids "es @ [e]"])
qed

lemma in_force_snoc: "in_force ids (es @ [e]) = (case asked_ids e of Some f \<Rightarrow> f | None \<Rightarrow> in_force ids es)"
  by (simp add: in_force_def List.map_filter_def split: option.split)

lemma snoc_split: "xs @ [x] = a @ y # b \<longleftrightarrow> (b = [] \<and> y = x \<and> a = xs) \<or> (\<exists>c. b = c @ [x] \<and> xs = a @ y # c)"
  by (cases b rule: rev_cases) auto

lemma unanswered_snoc: "unanswered (es @ [e]) \<longleftrightarrow> e = PingTick \<or> (unanswered es \<and> e \<noteq> Pong)"
proof
  assume "unanswered (es @ [e])"
  then obtain a b where ab: "es @ [e] = a @ PingTick # b" "Pong \<notin> set b" unfolding unanswered_def by blast
  from ab(1) [unfolded snoc_split] show "e = PingTick \<or> (unanswered es \<and> e \<noteq> Pong)"
    using ab(2) unfolding unanswered_def by (elim disjE exE conjE) auto
next
  assume "e = PingTick \<or> (unanswered es \<and> e \<noteq> Pong)"
  then show "unanswered (es @ [e])"
  proof (elim disjE conjE)
    assume "e = PingTick"
    then have "es @ [e] = es @ PingTick # [] \<and> Pong \<notin> set []" by simp
    then show ?thesis unfolding unanswered_def by blast
  next
    assume "unanswered es" "e \<noteq> Pong"
    then obtain a b where "es @ [e] = a @ PingTick # (b @ [e]) \<and> Pong \<notin> set (b @ [e])" unfolding unanswered_def by auto
    then show ?thesis unfolding unanswered_def by blast
  qed
qed

lemma gone_snoc: "gone (es @ [e]) \<longleftrightarrow> gone es \<or> e = Leaving \<or> e = Closed \<or> (e = PingTick \<and> unanswered es)"
proof -
  have "(\<exists>a b. es @ [e] = a @ PingTick # b \<and> unanswered a) \<longleftrightarrow>
      (\<exists>a b. es = a @ PingTick # b \<and> unanswered a) \<or> (e = PingTick \<and> unanswered es)"
    unfolding snoc_split by blast
  then show ?thesis unfolding gone_def by auto
qed

lemma fresh_start [simp]: "\<not> unanswered []" "\<not> gone []" "in_force ids [] = map VStr ids"
  by (simp_all add: unanswered_def gone_def in_force_def List.map_filter_def)

lemma ws_run_snoc: "ws_run c (es @ [e]) = ws_step (ws_run c es) e"
  by (simp add: ws_run_def)

lemma on_message_frame:
  "ws_open (on_message m c) = ws_open c" "ws_sent (on_message m c) = ws_sent c" "ws_alive (on_message m c) = ws_alive c"
  "ws_attached (on_message m c) = ws_attached c"
  by (simp_all add: on_message_def split: option.split jsval.split)

lemma on_message_filter: "ws_filter (on_message m c) = (case asked_ids (Message m) of Some ids \<Rightarrow> remdups ids | None \<Rightarrow> ws_filter c)"
  by (auto simp: on_message_def asked_ids_def split: option.split jsval.split)

lemma asked_only [simp]:
  "asked_ids (Order p) = None" "asked_ids Pong = None" "asked_ids PingTick = None" "asked_ids Leaving = None" "asked_ids Closed = None"
  by (simp_all add: asked_ids_def)

text \<open>How the state of a connection stands to what happened to it.\<close>

definition ws_knows :: "jstr list \<Rightarrow> ws_event list \<Rightarrow> ws_conn \<Rightarrow> bool" where
  "ws_knows ids es c \<longleftrightarrow>
     ws_sent c = owed ids es \<and> ws_filter c = remdups (in_force ids es) \<and> (ws_open c \<longleftrightarrow> \<not> gone es) \<and>
     (ws_open c \<longrightarrow> ws_attached c \<and> (ws_alive c \<longleftrightarrow> \<not> unanswered es))"

lemma not_order: "(case e of Order p \<Rightarrow> False | _ \<Rightarrow> True) \<Longrightarrow> owed ids (es @ [e]) = owed ids es"
  by (cases e) (simp_all add: owed_snoc owed_at_def)

lemma ws_step_knows: "ws_knows ids es c \<Longrightarrow> ws_knows ids (es @ [e]) (ws_step c e)"
proof (cases e)
  case (Order p)
  assume k: "ws_knows ids es c"
  have "owed ids (es @ [e]) = owed ids es @ (if \<not> gone es \<and> (in_force ids es = [] \<or> get p ''id'' \<in> set (in_force ids es)) then [wire p] else [])"
    by (simp add: owed_snoc owed_at_def Order)
  then show ?thesis using k Order
    by (auto simp: ws_knows_def on_order_def in_force_snoc gone_snoc unanswered_snoc)
next
  case (Message m)
  assume k: "ws_knows ids es c"
  show ?thesis using k Message not_order [of e ids es]
    by (auto simp: ws_knows_def on_message_frame on_message_filter in_force_snoc gone_snoc unanswered_snoc split: option.split)
next
  case PingTick
  assume k: "ws_knows ids es c"
  show ?thesis using k PingTick not_order [of e ids es]
    by (auto simp: ws_knows_def on_ping_tick_def in_force_snoc gone_snoc unanswered_snoc)
qed (auto simp: ws_knows_def not_order in_force_snoc gone_snoc unanswered_snoc)

lemma ws_run_knows: "ws_knows ids es (ws_run (ws_connect ids) es)"
proof (induction es rule: rev_induct)
  case Nil
  then show ?case by (simp add: ws_knows_def ws_run_def ws_connect_def)
next
  case (snoc e es)
  then show ?case unfolding ws_run_snoc by (rule ws_step_knows)
qed

section \<open>Properties\<close>

text \<open>C23: a client receives exactly what it is owed. For every sequence of orders, messages, pongs, ping ticks
  and closing events, the payloads sent are, in their order, the orders at those positions where the socket was not yet
  gone (neither left nor closed, nor had a tick come with no pong since an earlier one) and whose identifier is one of
  those the last valid \<open>order_ids\<close> message before it asked for, or of the upgrade URL's if there was none, or where
  these are none at all.\<close>

theorem ws_delivery:
  "ws_sent (ws_run (ws_connect ids) es) =
    concat (map (\<lambda>k. case es ! k of
        Order p \<Rightarrow> if \<not> gone (take k es) \<and>
              (in_force ids (take k es) = [] \<or> get p ''id'' \<in> set (in_force ids (take k es)))
            then [wire p] else []
      | _ \<Rightarrow> []) [0..<length es])"
proof -
  have "owed_at ids es = (\<lambda>k. case es ! k of
        Order p \<Rightarrow> if \<not> gone (take k es) \<and>
              (in_force ids (take k es) = [] \<or> get p ''id'' \<in> set (in_force ids (take k es)))
            then [wire p] else []
      | _ \<Rightarrow> [])" by (auto simp: owed_at_def fun_eq_iff)
  then show ?thesis using ws_run_knows [of ids es] by (simp add: ws_knows_def owed_def)
qed

end
