(* ===== verification/CustomFetch.thy ===== *)
theory CustomFetch
  imports JsJson
begin

text \<open>
  \<open>lib/api-client-react/src/custom-fetch.ts\<close>: the one function through which the generated client talks
  to the server. The module's two variables are a record; the platform (\<open>fetch\<close>, the URL parser, the
  response object with its \<open>text()\<close> and \<open>blob()\<close>) is a parameter. A call yields the requests it
  handed to \<open>fetch\<close> and its outcome. A \<open>Blob\<close> is an opaque number.
\<close>

section \<open>The platform\<close>

type_synonym hdrs = "(jstr \<times> jstr) list" \<comment> \<open>a \<open>Headers\<close> object: lower-case names, one value each\<close>

datatype req_body = BText jstr | BOpaque nat \<comment> \<open>a string, or any other \<open>BodyInit\<close>\<close>

record request_obj =
  ro_url :: jstr
  ro_method :: jstr
  ro_headers :: hdrs
  ro_body :: "req_body option"
  ro_signal :: "nat option" \<comment> \<open>an \<open>AbortSignal\<close>, opaque\<close>

datatype fetch_input = InStr jstr | InUrl jstr | InReq request_obj

record web_response =
  rs_status :: nat
  rs_statusText :: jstr
  rs_url :: jstr
  rs_headers :: hdrs
  rs_null_body :: bool \<comment> \<open>\<open>response.body === null\<close>\<close>
  rs_text :: "exn + jstr" \<comment> \<open>how \<open>text()\<close> settles\<close>
  rs_blob :: "(exn + nat) option" \<comment> \<open>\<open>None\<close>: there is no \<open>blob\<close> function\<close>

definition rs_ok :: "web_response \<Rightarrow> bool" where
  "rs_ok r \<longleftrightarrow> 200 \<le> rs_status r \<and> rs_status r \<le> 299"

record web =
  w_href :: "jstr \<Rightarrow> jstr option" \<comment> \<open>\<open>new URL(s).href\<close>, \<open>None\<close> when it throws\<close>
  w_fetch :: "request_obj \<Rightarrow> exn + web_response"

text \<open>\<open>new Headers(source)\<close>: names are tokens, compared in lower case; a value is stripped of white space at both
  ends and has no NUL, CR, LF or unit above 255; values of one name are joined. Anything else is a
  \<open>TypeError\<close>, here \<open>None\<close>.\<close>

definition token_char :: "nat \<Rightarrow> bool" where
  "token_char c \<longleftrightarrow> (48 \<le> c \<and> c \<le> 57) \<or> (65 \<le> c \<and> c \<le> 90) \<or> (97 \<le> c \<and> c \<le> 122)
     \<or> c \<in> {33, 35, 36, 37, 38, 39, 42, 43, 45, 46, 94, 95, 96, 124, 126}"

definition http_ws :: "nat \<Rightarrow> bool" where
  "http_ws c \<longleftrightarrow> c \<in> {9, 10, 13, 32}"

definition header_value :: "jstr \<Rightarrow> jstr option" where
  "header_value v =
     (let t = rev (dropWhile http_ws (rev (dropWhile http_ws v)))
      in if list_all (\<lambda>c. c \<le> 255 \<and> c \<notin> {0, 10, 13}) t then Some t else None)"

fun new_headers :: "(jstr \<times> jstr) list \<Rightarrow> hdrs \<Rightarrow> hdrs option" where
  "new_headers [] hs = Some hs"
| "new_headers ((k, v) # ps) hs =
     (if k = [] \<or> \<not> list_all token_char k then None
      else (case header_value v of
          None \<Rightarrow> None
        | Some t \<Rightarrow> new_headers ps (put (to_lower k)
            (case map_of hs (to_lower k) of None \<Rightarrow> t | Some u \<Rightarrow> u @ U '', '' @ t) hs)))"

definition has :: "hdrs \<Rightarrow> string \<Rightarrow> bool" where
  "has hs k \<longleftrightarrow> map_of hs (U k) \<noteq> None"

section \<open>Configuration\<close>

text \<open>The token getter is given by how it settles.\<close>

record fetch_config =
  fc_base :: "jstr option"
  fc_token :: "(exn + jstr option) option"

definition strip_slashes :: "jstr \<Rightarrow> jstr" where
  "strip_slashes u = rev (dropWhile (\<lambda>c. c = 47) (rev u))"

definition setBaseUrl :: "jstr option \<Rightarrow> fetch_config \<Rightarrow> fetch_config" where
  "setBaseUrl url c =
     c\<lparr>fc_base := (case url of Some u \<Rightarrow> if u \<noteq> [] then Some (strip_slashes u) else None | None \<Rightarrow> None)\<rparr>"

definition setAuthTokenGetter :: "(exn + jstr option) option \<Rightarrow> fetch_config \<Rightarrow> fetch_config" where
  "setAuthTokenGetter g c = c\<lparr>fc_token := g\<rparr>"

section \<open>The request\<close>

definition resolveMethod :: "fetch_input \<Rightarrow> jstr option \<Rightarrow> jstr" where
  "resolveMethod input explicitMethod =
     (case explicitMethod of
        Some (c # m) \<Rightarrow> to_upper (c # m)
      | _ \<Rightarrow> (case input of InReq r \<Rightarrow> to_upper (ro_method r) | _ \<Rightarrow> U ''GET''))"

fun resolveUrl :: "fetch_input \<Rightarrow> jstr" where
  "resolveUrl (InStr s) = s"
| "resolveUrl (InUrl h) = h"
| "resolveUrl (InReq r) = ro_url r"

text \<open>\<open>None\<close>: the URL or request constructor throws.\<close>

definition applyBaseUrl :: "fetch_config \<Rightarrow> web \<Rightarrow> fetch_input \<Rightarrow> fetch_input option" where
  "applyBaseUrl c w input =
     (case fc_base c of
        Some (b # bs) \<Rightarrow>
          let url = resolveUrl input in
          if \<not> starts_with url (U ''/'') then Some input
          else let absolute = b # bs @ url in
            (case input of
               InStr _ \<Rightarrow> Some (InStr absolute)
             | InUrl _ \<Rightarrow> map_option InUrl (w_href w absolute)
             | InReq r \<Rightarrow> map_option (\<lambda>h. InReq (r\<lparr>ro_url := h\<rparr>)) (w_href w absolute))
      | _ \<Rightarrow> Some input)"

text \<open>\<open>headers.set\<close> of every entry of a source; a repeated source wins over an earlier one.\<close>

fun mergeHeaders :: "(jstr \<times> jstr) list option list \<Rightarrow> hdrs \<Rightarrow> hdrs option" where
  "mergeHeaders [] hs = Some hs"
| "mergeHeaders (None # ss) hs = mergeHeaders ss hs"
| "mergeHeaders (Some s # ss) hs =
     (case new_headers s [] of None \<Rightarrow> None
      | Some h \<Rightarrow> mergeHeaders ss (fold (\<lambda>(k, v). put k v) h hs))"

definition looksLikeJson :: "jstr \<Rightarrow> bool" where
  "looksLikeJson text =
     (let trimmed = trim_start text in starts_with trimmed (U ''{'') \<or> starts_with trimmed (U ''[''))"

section \<open>The response\<close>

definition getMediaType :: "hdrs \<Rightarrow> jstr option" where
  "getMediaType hs =
     (case map_of hs (U ''content-type'') of
        Some (c # v) \<Rightarrow> Some (to_lower (trim (hd (split_on 59 (c # v)))))
      | _ \<Rightarrow> None)"

definition isJsonMediaType :: "jstr option \<Rightarrow> bool" where
  "isJsonMediaType m \<longleftrightarrow> m = Some (U ''application/json'') \<or>
     (case m of Some t \<Rightarrow> ends_with t (U ''+json'') | None \<Rightarrow> False)"

definition isTextMediaType :: "jstr option \<Rightarrow> bool" where
  "isTextMediaType m \<longleftrightarrow>
     (case m of None \<Rightarrow> False
      | Some t \<Rightarrow> t \<noteq> [] \<and> (starts_with t (U ''text/'') \<or> t = U ''application/xml'' \<or> t = U ''text/xml''
          \<or> ends_with t (U ''+xml'') \<or> t = U ''application/x-www-form-urlencoded''))"

definition NO_BODY_STATUS :: "nat set" where
  "NO_BODY_STATUS = {204, 205, 304}"

definition hasNoBody :: "web_response \<Rightarrow> jstr \<Rightarrow> bool" where
  "hasNoBody r method \<longleftrightarrow> method = U ''HEAD'' \<or> rs_status r \<in> NO_BODY_STATUS
     \<or> map_of (rs_headers r) (U ''content-length'') = Some (U ''0'') \<or> rs_null_body r"

definition stripBom :: "jstr \<Rightarrow> jstr" where
  "stripBom text = (case text of c # r \<Rightarrow> if c = 0xFEFF then r else text | [] \<Rightarrow> text)"

text \<open>A value the call returns or an error carries.\<close>

datatype data = DVal jsval | DBlob nat

fun is_object :: "jsval \<Rightarrow> bool" where
  \<comment> \<open>\<open>value && typeof value === "object"\<close>\<close>
  "is_object (VObj _) = True"
| "is_object (VArr _) = True"
| "is_object (VDate _) = True"
| "is_object _ = False"

text \<open>A \<open>Blob\<close> has none of the fields that are asked for.\<close>

definition getStringField :: "data \<Rightarrow> string \<Rightarrow> jstr option" where
  "getStringField value key =
     (case value of
        DVal v \<Rightarrow>
          if \<not> is_object v then None
          else (case get v key of
              VStr s \<Rightarrow> (let trimmed = trim s in if trimmed = [] then None else Some trimmed)
            | _ \<Rightarrow> None)
      | DBlob _ \<Rightarrow> None)"

definition truncate_text :: "jstr \<Rightarrow> jstr" where
  "truncate_text text = (if length text > 300 then take 299 text @ [0x2026] else text)"

definition response_prefix :: "web_response \<Rightarrow> jstr" where
  "response_prefix r = U ''HTTP '' @ dec_nat (rs_status r) @ U '' '' @ rs_statusText r"

definition buildErrorMessage :: "web_response \<Rightarrow> data \<Rightarrow> jstr" where
  "buildErrorMessage response dat =
     (let prefix = response_prefix response in
      case dat of
        DVal (VStr s) \<Rightarrow> (let text = trim s in if text \<noteq> [] then prefix @ U '': '' @ truncate_text text else prefix)
      | _ \<Rightarrow>
        (let title = getStringField dat ''title'';
             detail = getStringField dat ''detail'';
             message = (case getStringField dat ''message'' of Some m \<Rightarrow> Some m
               | None \<Rightarrow> (case getStringField dat ''error_description'' of Some m \<Rightarrow> Some m
               | None \<Rightarrow> getStringField dat ''error''))
         in case (title, detail) of
              (Some t, Some d) \<Rightarrow> prefix @ U '': '' @ t @ [32, 0x2014, 32] @ d
            | (None, Some d) \<Rightarrow> prefix @ U '': '' @ d
            | (_, None) \<Rightarrow>
                (case message of Some m \<Rightarrow> prefix @ U '': '' @ m
                 | None \<Rightarrow> (case title of Some t \<Rightarrow> prefix @ U '': '' @ t | None \<Rightarrow> prefix))))"

record request_info =
  ri_method :: jstr
  ri_url :: jstr

record api_error =
  ae_message :: jstr
  ae_status :: nat
  ae_statusText :: jstr
  ae_data :: data
  ae_headers :: hdrs
  ae_method :: jstr
  ae_url :: jstr

definition new_ApiError :: "web_response \<Rightarrow> data \<Rightarrow> request_info \<Rightarrow> api_error" where
  "new_ApiError response dat info =
     \<lparr>ae_message = buildErrorMessage response dat, ae_status = rs_status response,
      ae_statusText = rs_statusText response, ae_data = dat, ae_headers = rs_headers response,
      ae_method = ri_method info, ae_url = (if rs_url response \<noteq> [] then rs_url response else ri_url info)\<rparr>"

record parse_error =
  pe_message :: jstr
  pe_status :: nat
  pe_statusText :: jstr
  pe_headers :: hdrs
  pe_method :: jstr
  pe_url :: jstr
  pe_rawBody :: jstr

definition new_ResponseParseError :: "web_response \<Rightarrow> jstr \<Rightarrow> request_info \<Rightarrow> parse_error" where
  "new_ResponseParseError response rawBody info =
     (let url = (if rs_url response \<noteq> [] then rs_url response else ri_url info) in
      \<lparr>pe_message = U ''Failed to parse response from '' @ ri_method info @ U '' '' @ url @ U '' ('' @
          dec_nat (rs_status response) @ U '' '' @ rs_statusText response @ U '') as JSON'',
       pe_status = rs_status response, pe_statusText = rs_statusText response, pe_headers = rs_headers response,
       pe_method = ri_method info, pe_url = url, pe_rawBody = rawBody\<rparr>)"

text \<open>What a call rejects with. \<open>Rejected\<close>: an exception of the platform or of the token getter, or a
  \<open>TypeError\<close> of this module; \<open>BadUrl\<close> and \<open>BadHeader\<close>: a \<open>TypeError\<close> of a constructor.\<close>

datatype fetch_exn = Rejected exn | BadUrl | BadHeader | ApiError api_error | ParseError parse_error

definition parseJsonBody :: "web_response \<Rightarrow> request_info \<Rightarrow> fetch_exn + data" where
  "parseJsonBody response info =
     (case rs_text response of Inl e \<Rightarrow> Inl (Rejected e)
      | Inr raw \<Rightarrow>
        (let normalized = stripBom raw in
         if trim normalized = [] then Inr (DVal VNull)
         else (case json_parse normalized of
             Some v \<Rightarrow> Inr (DVal v)
           | None \<Rightarrow> Inl (ParseError (new_ResponseParseError response raw info)))))"

definition parseErrorBody :: "web_response \<Rightarrow> jstr \<Rightarrow> exn + data" where
  "parseErrorBody response method =
     (if hasNoBody response method then Inr (DVal VNull)
      else let mediaType = getMediaType (rs_headers response) in
        if mediaType \<noteq> None \<and> mediaType \<noteq> Some [] \<and> \<not> isJsonMediaType mediaType \<and> \<not> isTextMediaType mediaType
        then (case rs_blob response of
            Some b \<Rightarrow> map_sum id DBlob b
          | None \<Rightarrow> map_sum id (\<lambda>t. DVal (VStr t)) (rs_text response))
        else (case rs_text response of Inl e \<Rightarrow> Inl e
          | Inr raw \<Rightarrow>
            (let normalized = stripBom raw in
             if trim normalized = [] then Inr (DVal VNull)
             else if isJsonMediaType mediaType \<or> looksLikeJson normalized
             then (case json_parse normalized of Some v \<Rightarrow> Inr (DVal v) | None \<Rightarrow> Inr (DVal (VStr raw)))
             else Inr (DVal (VStr raw)))))"

datatype response_type = Json | Text | Blob | Auto

definition inferResponseType :: "web_response \<Rightarrow> response_type" where
  "inferResponseType response =
     (let mediaType = getMediaType (rs_headers response) in
      if isJsonMediaType mediaType then Json
      else if isTextMediaType mediaType \<or> mediaType = None then Text
      else Blob)"

definition no_blob_error :: exn where
  "no_blob_error = TypeErr (U ''Blob responses are not supported in this runtime. Use responseType '' @ [34] @ U ''json''
     @ [34] @ U '' or '' @ [34] @ U ''text'' @ [34] @ U '' instead.'')"

definition parseSuccessBody :: "web_response \<Rightarrow> response_type \<Rightarrow> request_info \<Rightarrow> fetch_exn + data" where
  "parseSuccessBody response responseType info =
     (if hasNoBody response (ri_method info) then Inr (DVal VNull)
      else (case (if responseType = Auto then inferResponseType response else responseType) of
          Json \<Rightarrow> parseJsonBody response info
        | Text \<Rightarrow> (case rs_text response of Inl e \<Rightarrow> Inl (Rejected e)
            | Inr text \<Rightarrow> Inr (DVal (if text = [] then VNull else VStr text)))
        | _ \<Rightarrow> (case rs_blob response of None \<Rightarrow> Inl (Rejected no_blob_error)
            | Some b \<Rightarrow> map_sum Rejected DBlob b)))"

section \<open>\<open>customFetch\<close>\<close>

record fetch_options =
  fo_method :: "jstr option"
  fo_headers :: "(jstr \<times> jstr) list option"
  fo_body :: "req_body option" \<comment> \<open>\<open>None\<close>: absent or \<open>null\<close>\<close>
  fo_responseType :: response_type
  fo_signal :: "nat option"

definition json_text :: "req_body option \<Rightarrow> bool" where
  "json_text b = (case b of Some (BText t) \<Rightarrow> looksLikeJson t | _ \<Rightarrow> False)"

definition add_defaults :: "fetch_options \<Rightarrow> hdrs \<Rightarrow> hdrs" where
  "add_defaults opts headers =
     (let h1 = (if json_text (fo_body opts) \<and> \<not> has headers ''content-type''
                then put (U ''content-type'') (U ''application/json'') headers else headers)
      in if fo_responseType opts = Json \<and> \<not> has h1 ''accept''
         then put (U ''accept'') (U ''application/json, application/problem+json'') h1 else h1)"

definition add_token :: "fetch_config \<Rightarrow> hdrs \<Rightarrow> fetch_exn + hdrs" where
  "add_token c headers =
     (case fc_token c of
        None \<Rightarrow> Inr headers
      | Some getter \<Rightarrow>
          if has headers ''authorization'' then Inr headers
          else (case getter of
              Inl e \<Rightarrow> Inl (Rejected e)
            | Inr (Some (t # ts)) \<Rightarrow>
                (case header_value (U ''Bearer '' @ t # ts) of
                   None \<Rightarrow> Inl BadHeader
                 | Some v \<Rightarrow> Inr (put (U ''authorization'') v headers))
            | Inr _ \<Rightarrow> Inr headers))"

definition build_request :: "fetch_config \<Rightarrow> web \<Rightarrow> fetch_input \<Rightarrow> fetch_options \<Rightarrow> fetch_exn + request_obj" where
  "build_request c w input0 opts =
     (case applyBaseUrl c w input0 of
        None \<Rightarrow> Inl BadUrl
      | Some input \<Rightarrow>
        (let method = resolveMethod input (fo_method opts) in
         if fo_body opts \<noteq> None \<and> (method = U ''GET'' \<or> method = U ''HEAD'')
         then Inl (Rejected (TypeErr (U ''customFetch: '' @ method @ U '' requests cannot have a body.'')))
         else
          (case mergeHeaders [case input of InReq r \<Rightarrow> Some (ro_headers r) | _ \<Rightarrow> None, fo_headers opts] [] of
             None \<Rightarrow> Inl BadHeader
           | Some headers \<Rightarrow>
             and_then (add_token c (add_defaults opts headers)) (\<lambda>hs.
             Inr \<lparr>ro_url = resolveUrl input, ro_method = method, ro_headers = hs,
                  ro_body = (case fo_body opts of Some b \<Rightarrow> Some b
                    | None \<Rightarrow> (case input of InReq r \<Rightarrow> ro_body r | _ \<Rightarrow> None)),
                  ro_signal = (case fo_signal opts of Some sg \<Rightarrow> Some sg
                    | None \<Rightarrow> (case input of InReq r \<Rightarrow> ro_signal r | _ \<Rightarrow> None))\<rparr>))))"

definition customFetch ::
  "fetch_config \<Rightarrow> web \<Rightarrow> fetch_input \<Rightarrow> fetch_options \<Rightarrow> request_obj list \<times> (fetch_exn + data)" where
  "customFetch c w input opts =
     (case build_request c w input opts of
        Inl e \<Rightarrow> ([], Inl e)
      | Inr req \<Rightarrow>
        (let info = \<lparr>ri_method = ro_method req, ri_url = ro_url req\<rparr> in
         ([req],
          case w_fetch w req of
            Inl e \<Rightarrow> Inl (Rejected e)
          | Inr response \<Rightarrow>
              if \<not> rs_ok response
              then (case parseErrorBody response (ro_method req) of
                  Inl e \<Rightarrow> Inl (Rejected e)
                | Inr errorData \<Rightarrow> Inl (ApiError (new_ApiError response errorData info)))
              else parseSuccessBody response (fo_responseType opts) info)))"

section \<open>Lemmas\<close>

lemma new_headers_distinct:
  "new_headers ps hs = Some h \<Longrightarrow> distinct (map fst hs) \<Longrightarrow> distinct (map fst h)"
  by (induction ps hs rule: new_headers.induct) (auto split: if_splits option.splits)

lemma map_of_rev_eq: "distinct (map fst ps) \<Longrightarrow> map_of (rev ps) = map_of ps"
  by (rule map_of_inject_set [THEN iffD2]) (simp_all add: rev_map [symmetric])

lemma map_of_fold_put:
  "map_of (fold (\<lambda>(k, v). put k v) ps hs) = map_of hs ++ map_of (rev ps)"
  by (induction ps arbitrary: hs) (auto simp: fun_eq_iff map_add_def split: option.splits)

lemma merge_one:
  "mergeHeaders [None, src] [] = Some hs \<Longrightarrow>
   \<exists>given. new_headers (case src of None \<Rightarrow> [] | Some h \<Rightarrow> h) [] = Some given \<and> map_of hs = map_of given"
proof (cases src)
  case (Some s)
  assume "mergeHeaders [None, src] [] = Some hs"
  then obtain h where h: "new_headers s [] = Some h" "hs = fold (\<lambda>(k, v). put k v) h []"
    using Some by (auto split: option.splits)
  have "distinct (map fst h)" using new_headers_distinct [OF h(1)] by simp
  then have "map_of (rev h) = map_of h" by (rule map_of_rev_eq)
  then show ?thesis using h Some by (simp add: map_of_fold_put)
qed auto

lemma strip_slashes_end: "strip_slashes u = [] \<or> last (strip_slashes u) \<noteq> 47"
proof (cases "strip_slashes u = []")
  case False
  then have "dropWhile (\<lambda>c. c = 47) (rev u) \<noteq> []" by (simp add: strip_slashes_def)
  then show ?thesis using hd_dropWhile [of "\<lambda>c. c = 47" "rev u"]
    by (simp add: strip_slashes_def last_rev)
qed simp

lemma strip_slashes_prefix: "\<exists>n. u = strip_slashes u @ replicate n 47"
proof -
  have "rev u = takeWhile (\<lambda>c. c = 47) (rev u) @ dropWhile (\<lambda>c. c = 47) (rev u)" by simp
  then have "u = rev (dropWhile (\<lambda>c. c = 47) (rev u)) @ rev (takeWhile (\<lambda>c. c = 47) (rev u))"
    by (metis rev_append rev_rev_ident)
  moreover have "rev (takeWhile (\<lambda>c. c = 47) (rev u)) = replicate (length (takeWhile (\<lambda>c. c = 47) (rev u))) 47"
    by (rule replicate_eqI) (auto dest: set_takeWhileD)
  ultimately show ?thesis unfolding strip_slashes_def by metis
qed

lemma length_truncate: "length (truncate_text t) \<le> 300"
  by (simp add: truncate_text_def)

lemma customFetch_Inr:
  "customFetch c w i opts = (req # reqs, out) \<Longrightarrow> build_request c w i opts = Inr req \<and> reqs = []"
  by (auto simp: customFetch_def Let_def split: sum.splits)

lemma customFetch_Nil:
  "customFetch c w i opts = ([], out) \<Longrightarrow> \<exists>e. build_request c w i opts = Inl e \<and> out = Inl e"
  by (auto simp: customFetch_def Let_def split: sum.splits)

lemma build_request_Inl:
  "build_request c w i opts = Inl e \<Longrightarrow> (\<exists>x. e = Rejected x) \<or> e = BadUrl \<or> e = BadHeader"
  by (auto simp: build_request_def add_token_def and_then_def Let_def
      split: option.splits if_splits sum.splits list.splits)

lemma map_of_add_defaults:
  "map_of (add_defaults opts hs) k = (case map_of hs k of Some v \<Rightarrow> Some v
     | None \<Rightarrow>
         if k = U ''content-type'' \<and> json_text (fo_body opts) then Some (U ''application/json'')
         else if k = U ''accept'' \<and> fo_responseType opts = Json
           then Some (U ''application/json, application/problem+json'')
         else None)"
  by (simp add: add_defaults_def has_def Let_def split: option.split)

definition token_header :: "fetch_config \<Rightarrow> jstr option" where
  "token_header c = (case fc_token c of
     Some (Inr (Some t)) \<Rightarrow> if t = [] then None else header_value (U ''Bearer '' @ t) | _ \<Rightarrow> None)"

lemma map_of_add_token:
  assumes "add_token c hs = Inr h"
  shows "map_of h k = (case map_of hs k of Some v \<Rightarrow> Some v
     | None \<Rightarrow> if k = U ''authorization'' then token_header c else None)"
proof (cases "has hs ''authorization''")
  case True
  then have "h = hs" using assms by (auto simp: add_token_def split: option.splits)
  then show ?thesis using True by (auto simp: has_def split: option.split)
next
  case False
  then show ?thesis using assms
    by (cases "token_header c")
      (auto simp: add_token_def token_header_def has_def split: option.splits sum.splits list.splits if_splits)
qed

text \<open>How the two body parsers may fail.\<close>

lemma parseErrorBody_Inl: "parseErrorBody r m = Inl e \<Longrightarrow> rs_text r = Inl e \<or> rs_blob r = Some (Inl e)"
  by (cases "rs_text r"; cases "rs_blob r")
    (auto simp: parseErrorBody_def Let_def map_sum_def split: if_splits option.splits sum.splits)

lemma parseErrorBody_empty: "hasNoBody r m \<Longrightarrow> parseErrorBody r m = Inr (DVal VNull)"
  by (simp add: parseErrorBody_def)

lemma parseSuccessBody_empty: "hasNoBody r (ri_method i) \<Longrightarrow> parseSuccessBody r t i = Inr (DVal VNull)"
  by (simp add: parseSuccessBody_def)

definition success_failure :: "web_response \<Rightarrow> fetch_exn \<Rightarrow> bool" where
  "success_failure r e =
     (case e of
        Rejected x \<Rightarrow> rs_text r = Inl x \<or> rs_blob r = Some (Inl x) \<or> (rs_blob r = None \<and> x = no_blob_error)
      | ParseError p \<Rightarrow> pe_status p = rs_status r \<and> rs_text r = Inr (pe_rawBody p) \<and>
          json_parse (stripBom (pe_rawBody p)) = None
      | _ \<Rightarrow> False)"

lemma parseJsonBody_Inl: "parseJsonBody r i = Inl e \<Longrightarrow> success_failure r e"
  by (auto simp: parseJsonBody_def success_failure_def new_ResponseParseError_def Let_def
      split: sum.splits if_splits option.splits)

lemma parseSuccessBody_Inl: "parseSuccessBody r t i = Inl e \<Longrightarrow> success_failure r e"
proof -
  assume a: "parseSuccessBody r t i = Inl e"
  define k where "k = (if t = Auto then inferResponseType r else t)"
  consider (j) "k = Json" | (t) "k = Text" | (b) "k = Blob \<or> k = Auto" by (cases k) auto
  then show ?thesis
  proof cases
    case j
    then show ?thesis using a parseJsonBody_Inl
      unfolding parseSuccessBody_def k_def [symmetric] by (auto split: if_splits)
  next
    case t
    then show ?thesis using a unfolding parseSuccessBody_def k_def [symmetric]
      by (auto simp: success_failure_def split: if_splits sum.splits)
  next
    case b
    then show ?thesis using a unfolding parseSuccessBody_def k_def [symmetric]
      by (cases "rs_blob r") (auto simp: success_failure_def map_sum_def split: if_splits sum.splits)
  qed
qed

section \<open>Properties\<close>

text \<open>C25: how a call can end. It sends at most one request. If it sends none, it rejects with a
  \<open>TypeError\<close> or with what the token getter threw. If it sends one, a network failure is passed on; an
  answer that is not \<open>ok\<close> always ends in an \<open>ApiError\<close> with its status, unless its body cannot be read;
  an \<open>ok\<close> answer never ends in one, an \<open>ok\<close> answer without a body is \<open>null\<close> and is not parsed, and one that
  is refused as JSON is kept as it came in the error.\<close>

theorem custom_fetch_outcome:
  "case customFetch c w i opts of
     ([], out) \<Rightarrow> (\<exists>x. out = Inl (Rejected x)) \<or> out = Inl BadUrl \<or> out = Inl BadHeader
   | ([req], out) \<Rightarrow>
      (case w_fetch w req of
         Inl x \<Rightarrow> out = Inl (Rejected x)
       | Inr r \<Rightarrow>
           if rs_ok r
           then if hasNoBody r (ro_method req) then out = Inr (DVal VNull)
                else (case out of Inr d \<Rightarrow> True | Inl e \<Rightarrow> success_failure r e)
           else (case out of
               Inl (ApiError a) \<Rightarrow> ae_status a = rs_status r \<and> ae_method a = ro_method req \<and>
                 (if hasNoBody r (ro_method req) then ae_message a = response_prefix r else True)
             | Inl (Rejected x) \<Rightarrow> rs_text r = Inl x \<or> rs_blob r = Some (Inl x)
             | _ \<Rightarrow> False))
   | _ \<Rightarrow> False"
proof (cases "build_request c w i opts")
  case (Inl e)
  then show ?thesis using build_request_Inl [OF Inl] by (auto simp: customFetch_def)
next
  case (Inr req)
  show ?thesis
  proof (cases "w_fetch w req")
    case (Inl x)
    then show ?thesis by (simp add: customFetch_def Inr Let_def)
  next
    case r: (Inr r)
    let ?i = "\<lparr>ri_method = ro_method req, ri_url = ro_url req\<rparr>"
    show ?thesis
    proof (cases "rs_ok r")
      case True
      then show ?thesis using parseSuccessBody_Inl [of r "fo_responseType opts" ?i]
        by (cases "parseSuccessBody r (fo_responseType opts) ?i")
          (auto simp: customFetch_def Inr r Let_def parseSuccessBody_empty)
    next
      case False
      show ?thesis
      proof (cases "parseErrorBody r (ro_method req)")
        case (Inl x)
        then show ?thesis using False parseErrorBody_Inl [OF Inl] by (simp add: customFetch_def Inr r Let_def)
      next
        case d: (Inr d)
        then show ?thesis using False parseErrorBody_empty [of r "ro_method req"]
          by (auto simp: customFetch_def Inr r Let_def new_ApiError_def buildErrorMessage_def getStringField_def)
      qed
    qed
  qed
qed

text \<open>C26: the request that is sent is the one that was asked for. Under a base URL a path is sent to the
  base without its trailing slashes, followed by the path; any other URL is not touched. The method is
  the given one in upper case, a body never goes with GET or HEAD, and every header given by the caller
  is kept; only a missing content type (for a body that looks like JSON), a missing \<open>accept\<close> (when JSON is
  asked for) and a missing authorization (from the token getter) are added.\<close>

theorem request_as_asked:
  assumes "customFetch (setBaseUrl (Some base) c) w (InStr u) opts = ([req], out)"
  shows "ro_url req = (if starts_with u (U ''/'') then strip_slashes base @ u else u) \<and>
    (\<exists>n. base = strip_slashes base @ replicate n 47) \<and>
    ro_method req = (case fo_method opts of Some (x # m) \<Rightarrow> to_upper (x # m) | _ \<Rightarrow> U ''GET'') \<and>
    ro_body req = fo_body opts \<and>
    (ro_method req \<in> {U ''GET'', U ''HEAD''} \<longrightarrow> ro_body req = None) \<and>
    (\<exists>given. new_headers (case fo_headers opts of None \<Rightarrow> [] | Some h \<Rightarrow> h) [] = Some given \<and>
      (\<forall>k. map_of (ro_headers req) k = (case map_of given k of Some v \<Rightarrow> Some v
        | None \<Rightarrow>
            if k = U ''content-type'' \<and> json_text (fo_body opts) then Some (U ''application/json'')
            else if k = U ''accept'' \<and> fo_responseType opts = Json
              then Some (U ''application/json, application/problem+json'')
            else if k = U ''authorization'' then token_header c
            else None)))"
proof -
  let ?c = "setBaseUrl (Some base) c"
  have b: "build_request ?c w (InStr u) opts = Inr req" using customFetch_Inr [OF assms] by simp
  have tok: "fc_token ?c = fc_token c" by (simp add: setBaseUrl_def)
  define v where "v = (if starts_with u (U ''/'') then strip_slashes base @ u else u)"
  have i: "applyBaseUrl ?c w (InStr u) = Some (InStr v)"
    by (auto simp: applyBaseUrl_def setBaseUrl_def v_def strip_slashes_def Let_def split: list.splits)
  obtain hs where hs: "mergeHeaders [None, fo_headers opts] [] = Some hs"
    using b by (auto simp: build_request_def i Let_def split: if_splits option.splits)
  obtain given where g: "new_headers (case fo_headers opts of None \<Rightarrow> [] | Some h \<Rightarrow> h) [] = Some given"
    "map_of hs = map_of given" using merge_one [OF hs] by blast
  have hs1: "mergeHeaders [fo_headers opts] [] = Some hs" using hs by simp
  have req: "ro_url req = v" "ro_method req = resolveMethod (InStr v) (fo_method opts)" "ro_body req = fo_body opts"
    "add_token ?c (add_defaults opts hs) = Inr (ro_headers req)"
    using b unfolding build_request_def i
    by (auto simp: Let_def hs1 and_then_Inr split: if_splits option.splits)
  have nb: "ro_method req \<in> {U ''GET'', U ''HEAD''} \<longrightarrow> ro_body req = None"
    using b req unfolding build_request_def i by (auto simp: Let_def split: if_splits)
  have m: "ro_method req = (case fo_method opts of Some (x # m) \<Rightarrow> to_upper (x # m) | _ \<Rightarrow> U ''GET'')"
    using req(2) by (simp add: resolveMethod_def split: option.split list.split)
  have h: "map_of (ro_headers req) k = (case map_of given k of Some v \<Rightarrow> Some v
        | None \<Rightarrow>
            if k = U ''content-type'' \<and> json_text (fo_body opts) then Some (U ''application/json'')
            else if k = U ''accept'' \<and> fo_responseType opts = Json
              then Some (U ''application/json, application/problem+json'')
            else if k = U ''authorization'' then token_header c
            else None)" for k
    using map_of_add_token [OF req(4), of k] tok
    by (simp add: map_of_add_defaults g(2) token_header_def split: option.split)
  show ?thesis using req(1,3) nb m h g(1) strip_slashes_prefix [of base] by (auto simp: v_def)
qed

theorem request_as_asked_witness:
  "\<exists>req out. customFetch (setBaseUrl (Some (U ''http://x/'')) \<lparr>fc_base = None, fc_token = Some (Inr (Some (U ''t'')))\<rparr>)
      \<lparr>w_href = Some, w_fetch = (\<lambda>_. Inl NotError)\<rparr> (InStr (U ''/api''))
      \<lparr>fo_method = Some (U ''post''), fo_headers = None, fo_body = Some (BText (U ''{}'')), fo_responseType = Auto,
       fo_signal = None\<rparr>
      = ([req], out) \<and>
    ro_url req = U ''http://x/api'' \<and> map_of (ro_headers req) (U ''authorization'') = Some (U ''Bearer t'')"
proof -
  let ?c = "setBaseUrl (Some (U ''http://x/'')) \<lparr>fc_base = None, fc_token = Some (Inr (Some (U ''t'')))\<rparr>"
  let ?w = "\<lparr>w_href = Some, w_fetch = (\<lambda>_ :: request_obj. Inl NotError)\<rparr> :: web"
  let ?o = "\<lparr>fo_method = Some (U ''post''), fo_headers = None, fo_body = Some (BText (U ''{}'')), fo_responseType = Auto,
       fo_signal = None\<rparr>"
  have hv: "header_value (U ''Bearer t'') = Some (U ''Bearer t'')"
    by (simp add: header_value_def http_ws_def U_def)
  have "\<exists>req. build_request ?c ?w (InStr (U ''/api'')) ?o = Inr req"
    using hv by (simp add: build_request_def applyBaseUrl_def setBaseUrl_def strip_slashes_def starts_with_def
        resolveMethod_def to_upper_def U_def add_defaults_def add_token_def has_def json_text_def looksLikeJson_def
        trim_start_def is_ws_def Let_def)
  then obtain req where "build_request ?c ?w (InStr (U ''/api'')) ?o = Inr req" by blast
  then have e: "customFetch ?c ?w (InStr (U ''/api'')) ?o = ([req], Inl (Rejected NotError))"
    by (simp add: customFetch_def Let_def)
  have "strip_slashes (U ''http://x/'') @ U ''/api'' = U ''http://x/api''" "starts_with (U ''/api'') (U ''/'')"
    by (simp_all add: strip_slashes_def U_def starts_with_def)
  then have "ro_url req = U ''http://x/api''" "map_of (ro_headers req) (U ''authorization'') = header_value (U ''Bearer t'')"
    using request_as_asked [OF e] by (auto simp: U_def token_header_def)
  then show ?thesis using e hv by auto
qed

text \<open>what an \<open>ApiError\<close> says is bounded by its text: when the body of a failed answer is text, the
  message is the status line, or the status line followed by at most 300 characters of the trimmed text.\<close>

theorem error_message_bounded:
  "length (buildErrorMessage r (DVal (VStr s))) \<le> length (response_prefix r) + 302 \<and>
   take (length (response_prefix r)) (buildErrorMessage r (DVal (VStr s))) = response_prefix r \<and>
   (buildErrorMessage r (DVal (VStr s)) = response_prefix r \<longleftrightarrow> trim s = [])"
  using length_truncate [of "trim s"] by (auto simp: buildErrorMessage_def Let_def)

end
