(* ===== verification/JsonText.thy ===== *)
theory JsonText
  imports JsJson
begin

text \<open>
  \<open>JSON.stringify\<close> without replacer and indentation, and the round trip with \<open>JSON.parse\<close>: the text of a value is
  read back as \<open>wire v\<close>. The digits of a number are those of \<open>num_to_string\<close>; \<open>printable\<close> says that the
  search for the shortest digits succeeded (it is decidable, and \<open>printable_int\<close> shows it for every
  integer below \<open>2 ^ 53\<close>).
\<close>

section \<open>Text of a value\<close>

definition hex_digit :: "nat \<Rightarrow> nat" where
  "hex_digit d = (if d < 10 then 48 + d else 87 + d)"

definition unicode_escape :: "nat \<Rightarrow> jstr" where
  "unicode_escape c = [92, 117, hex_digit (c div 4096 mod 16), hex_digit (c div 256 mod 16),
     hex_digit (c div 16 mod 16), hex_digit (c mod 16)]"

definition quote_unit :: "nat \<Rightarrow> jstr" where
  "quote_unit c =
     (if c = 34 \<or> c = 92 then [92, c]
      else if c = 8 then [92, 98] else if c = 9 then [92, 116] else if c = 10 then [92, 110]
      else if c = 12 then [92, 102] else if c = 13 then [92, 114]
      else if c < 32 then unicode_escape c
      else [c])"

text \<open>A surrogate that is not part of a pair is escaped.\<close>

fun quote_units :: "jstr \<Rightarrow> jstr" where
  "quote_units [] = []"
| "quote_units (c # r) =
     (if 0xD800 \<le> c \<and> c \<le> 0xDFFF then
        (case r of
           d # r' \<Rightarrow>
             if c \<le> 0xDBFF \<and> 0xDC00 \<le> d \<and> d \<le> 0xDFFF then c # d # quote_units r'
             else unicode_escape c @ quote_units r
         | [] \<Rightarrow> unicode_escape c)
      else quote_unit c @ quote_units r)"

definition json_quote :: "jstr \<Rightarrow> jstr" where
  "json_quote s = 34 # quote_units s @ [34]"

fun json_text_of :: "jsval \<Rightarrow> jstr" where
  "json_text_of VUndef = U ''null''"
| "json_text_of VNull = U ''null''"
| "json_text_of (VBool b) = U (if b then ''true'' else ''false'')"
| "json_text_of (VNum n) = (case n of Fin q \<Rightarrow> num_to_string (Fin q) | _ \<Rightarrow> U ''null'')"
| "json_text_of (VStr s) = json_quote s"
| "json_text_of (VArr xs) = 91 # join_with [44] (map json_text_of xs) @ [93]"
| "json_text_of (VObj ps) = 123 # join_with [44]
     (map (\<lambda>p. json_quote (fst p) @ 58 # json_text_of (snd p)) (filter (\<lambda>p. snd p \<noteq> VUndef) ps)) @ [125]"
| "json_text_of (VDate t) = json_quote (iso_of_ms t)"

definition json_stringify :: "jsval \<Rightarrow> jstr option" where
  "json_stringify v = (if v = VUndef then None else Some (json_text_of v))"

section \<open>Strings\<close>

lemma hex_digit_in: "d < 16 \<Longrightarrow> digit_in 16 (hex_digit d) = Some d"
  by (auto simp: hex_digit_def digit_in_def is_digit_def)

lemma hex4_escape: "c < 65536 \<Longrightarrow>
   hex4 (hex_digit (c div 4096 mod 16)) (hex_digit (c div 256 mod 16)) (hex_digit (c div 16 mod 16)) (hex_digit (c mod 16))
     = Some c"
proof -
  assume c: "c < 65536"
  have 1: "c div 256 = 16 * (c div 4096) + c div 256 mod 16"
    using div_mult2_eq [of c 256 16] by simp
  have 2: "c div 16 = 16 * (c div 256) + c div 16 mod 16"
    using div_mult2_eq [of c 16 16] by simp
  have 3: "c = 16 * (c div 16) + c mod 16" by simp
  have 4: "c div 4096 < 16" using c by auto
  show ?thesis using 1 2 3 4 by (simp add: hex4_def hex_digit_in)
qed

lemma jstring_escape: "c < 65536 \<Longrightarrow> jstring acc (unicode_escape c @ r) = jstring (c # acc) r"
  unfolding unicode_escape_def using hex4_escape [of c] by simp

lemma jstring_unit: "\<not> (0xD800 \<le> c \<and> c \<le> 0xDFFF) \<Longrightarrow> jstring acc (quote_unit c @ r) = jstring (c # acc) r"
  using jstring_escape [of c acc r] by (auto simp: quote_unit_def simple_escape_def)

lemma jstring_quote: "jstring acc (quote_units s @ 34 # r) = Some (rev acc @ s, r)"
proof (induction s arbitrary: acc rule: quote_units.induct)
  case (2 c s)
  show ?case
  proof (cases "0xD800 \<le> c \<and> c \<le> 0xDFFF")
    case True
    then have c: "c < 65536" by simp
    show ?thesis
    proof (cases s)
      case Nil
      then show ?thesis using True jstring_escape [OF c] by simp
    next
      case (Cons d s')
      then show ?thesis using True 2 jstring_escape [OF c] by auto
    qed
  next
    case False
    then show ?thesis using 2(3) [OF False] jstring_unit [OF False] by auto
  qed
qed simp

section \<open>Numbers\<close>

definition ends_number :: "jstr \<Rightarrow> bool" where
  "ends_number r \<longleftrightarrow> r = [] \<or> (\<not> is_digit (hd r) \<and> hd r \<notin> {46, 101, 69})"

definition printable :: "jsnum \<Rightarrow> bool" where
  "printable n = (case n of
     Fin q \<Rightarrow> q = 0 \<or> (let (s, e) = shortest 20 \<bar>q\<bar> (log10f 700 \<bar>q\<bar> + 1) 1 in fl (of_nat s * pow10 e) = Fin \<bar>q\<bar>)
   | _ \<Rightarrow> True)"

lemma digits_val_Nil [simp]: "digits_val [] = 0"
  by (simp add: digits_val_def)

lemma digits_val_append: "digits_val (a @ b) = digits_val a * 10 ^ length b + digits_val b"
  by (induction b rule: rev_induct)
    (simp_all add: append_assoc [symmetric] digits_val_append1 algebra_simps del: append_assoc)

lemma digits_val_zeros [simp]: "digits_val (replicate m 48) = 0"
proof (induction m)
  case (Suc m)
  have "replicate (Suc m) 48 = replicate m 48 @ [48 :: nat]" by (simp add: replicate_append_same)
  then show ?case using Suc by (simp only: digits_val_append1)
qed (simp add: digits_val_def)

lemma dec_nat_hd: "0 < n \<Longrightarrow> hd (dec_nat n) \<noteq> 48"
proof (induction n rule: dec_nat.induct)
  case (1 n)
  then show ?case by (subst dec_nat.simps) (auto simp: hd_append)
qed

lemma list_all_digits: "list_all is_digit (dec_nat n)"
  by (auto simp: list_all_iff dec_nat_digits)

lemma take_digits:
  "list_all is_digit ds \<Longrightarrow> r = [] \<or> \<not> is_digit (hd r) \<Longrightarrow> takeWhile is_digit (ds @ r) = ds \<and> dropWhile is_digit (ds @ r) = r"
  by (induction ds) (cases r; auto)+

lemma junsigned_text:
  assumes ip: "list_all is_digit ip" "ip \<noteq> []" "hd ip \<noteq> 48 \<or> tl ip = []"
    and fp: "list_all is_digit fp" and r: "ends_number r"
    and ep: "ep = [] \<and> e = 0 \<or> (\<exists>n. ep = 101 # 43 # dec_nat n \<and> e = int n) \<or> (\<exists>n. ep = 101 # 45 # dec_nat n \<and> e = - int n)"
  shows "junsigned (ip @ (if fp = [] then [] else 46 # fp) @ ep @ r) =
     Some (fl (of_nat (digits_val (ip @ fp)) * pow10 (e - int (length fp))), r)"
proof -
  let ?t = "ep @ r"
  have t: "?t = [] \<or> (\<not> is_digit (hd ?t) \<and> hd ?t \<noteq> 46)"
    using ep r by (auto simp: ends_number_def is_digit_def)
  have x: "jexp ?t = Some (e, r)"
    using ep
  proof (elim disjE exE conjE)
    assume "ep = []" "e = 0"
    then show ?thesis using r by (auto simp: jexp_def ends_number_def)
  next
    fix n assume n: "ep = 101 # 43 # dec_nat n" "e = int n"
    have "takeWhile is_digit (dec_nat n @ r) = dec_nat n \<and> dropWhile is_digit (dec_nat n @ r) = r"
      by (rule take_digits) (use r in \<open>auto simp: list_all_digits ends_number_def\<close>)
    then show ?thesis using n by (simp add: jexp_def jsign_def)
  next
    fix n assume n: "ep = 101 # 45 # dec_nat n" "e = - int n"
    have "takeWhile is_digit (dec_nat n @ r) = dec_nat n \<and> dropWhile is_digit (dec_nat n @ r) = r"
      by (rule take_digits) (use r in \<open>auto simp: list_all_digits ends_number_def\<close>)
    then show ?thesis using n by (simp add: jexp_def jsign_def)
  qed
  have f: "jfrac ((if fp = [] then [] else 46 # fp) @ ?t) = Some (fp, ?t)"
  proof (cases "fp = []")
    case False
    have "takeWhile is_digit (fp @ ?t) = fp \<and> dropWhile is_digit (fp @ ?t) = ?t"
      by (rule take_digits [OF fp]) (use t in blast)
    then show ?thesis using False by (simp add: jfrac_def)
  qed (use t in \<open>auto simp: jfrac_def\<close>)
  have "takeWhile is_digit (ip @ (if fp = [] then [] else 46 # fp) @ ?t) = ip \<and>
      dropWhile is_digit (ip @ (if fp = [] then [] else 46 # fp) @ ?t) = (if fp = [] then [] else 46 # fp) @ ?t"
    by (rule take_digits) (use ip t in \<open>auto simp: is_digit_def\<close>)
  then show ?thesis using ip f x by (simp add: junsigned_def Let_def)
qed

lemma strip_zeros_value:
  "strip_zeros f s e = (s', e') \<Longrightarrow> of_nat s' * pow10 e' = (of_nat s * pow10 e :: rat) \<and> (0 < s \<longrightarrow> 0 < s')"
proof (induction f s e rule: strip_zeros.induct)
  case (2 f s e)
  show ?case
  proof (cases "0 < s \<and> s mod 10 = 0")
    case True
    then obtain k where k: "s = 10 * k" "0 < k" by (metis dvd_def gr0I mod_0_imp_dvd mult_0_right)
    have "pow10 (e + 1) = 10 * pow10 e"
    proof (cases "0 \<le> e")
      case True
      then show ?thesis by (simp add: pow10_def nat_add_distrib)
    next
      case False
      then have "nat (- e) = Suc (nat (- e - 1))" by simp
      then show ?thesis using False by (simp add: pow10_def)
    qed
    then show ?thesis using 2 True k by simp
  next
    case False
    then have "strip_zeros (Suc f) s e = (s, e)" by (auto simp del: neq0_conv)
    then show ?thesis using 2(2) by simp
  qed
qed simp

lemma pow10_add_nat: "pow10 (e + int m) = pow10 e * 10 ^ m"
proof (induction m)
  case (Suc m)
  have step: "pow10 (x + 1) = 10 * pow10 x" for x
  proof (cases "0 \<le> x")
    case True
    then show ?thesis by (simp add: pow10_def nat_add_distrib)
  next
    case False
    then have "nat (- x) = Suc (nat (- x - 1))" by simp
    then show ?thesis using False by (simp add: pow10_def)
  qed
  show ?case using Suc step [of "e + int m"] by (simp add: algebra_simps)
qed simp

lemma junsigned_pos:
  assumes q: "0 < q" and p: "printable (Fin q)" and r: "ends_number r"
  shows "junsigned (pos_to_string q @ r) = Some (Fin q, r)"
proof -
  obtain s0 e0 where s0: "shortest 20 q (log10f 700 q + 1) 1 = (s0, e0)" by fastforce
  then have fl0: "fl (of_nat s0 * pow10 e0) = Fin q" using p q by (simp add: printable_def)
  have "0 < s0" using fl0 q by (cases "s0 = 0") auto
  obtain s e where se: "strip_zeros 20 s0 e0 = (s, e)" by fastforce
  have val: "fl (of_nat s * pow10 e) = Fin q" and s: "0 < s"
    using strip_zeros_value [OF se] fl0 \<open>0 < s0\<close> by simp_all
  define ds where "ds = dec_nat s"
  define k where "k = int (length ds)"
  define n where "n = k + e"
  have ds: "list_all is_digit ds" "ds \<noteq> []" "hd ds \<noteq> 48" "digits_val ds = s" "1 \<le> k"
    using s by (auto simp: ds_def k_def list_all_digits dec_nat_hd Suc_le_eq)
  have str: "pos_to_string q =
      (if k \<le> n \<and> n \<le> 21 then ds @ replicate (nat (n - k)) 48
         else if 0 < n \<and> n \<le> 21 then take (nat n) ds @ [46] @ drop (nat n) ds
         else if - 6 < n \<and> n \<le> 0 then [48, 46] @ replicate (nat (- n)) 48 @ ds
         else take 1 ds @ (if k = 1 then [] else 46 # drop 1 ds) @ [101]
           @ (if 0 \<le> n - 1 then [43] else []) @ dec_int (n - 1))"
    unfolding pos_to_string_def s0 Let_def prod.case se ds_def k_def n_def by (rule refl)
  note parse = junsigned_text [OF _ _ _ _ r]
  show ?thesis
  proof (cases "k \<le> n \<and> n \<le> 21")
    case True
    define m where "m = nat (n - k)"
    have e: "e = int m" using True by (simp add: m_def n_def)
    have "of_nat (digits_val (ds @ replicate m 48)) = of_nat s * pow10 e"
      using ds by (simp add: digits_val_append e pow10_def)
    moreover have "list_all is_digit (ds @ replicate m 48)" "hd (ds @ replicate m 48) \<noteq> 48"
      using ds by (auto simp: list_all_iff is_digit_def)
    ultimately show ?thesis
      using parse [of "ds @ replicate m 48" "[]" "[]" 0] True ds val
      by (simp add: str m_def [symmetric] pow10_def)
  next
    case A: False
    show ?thesis
    proof (cases "0 < n \<and> n \<le> 21")
      case True
      then have n: "0 < n" "n < k" using A by auto
      then have ne: "take (nat n) ds \<noteq> []" "drop (nat n) ds \<noteq> []" using ds by (auto simp: k_def)
      have "0 - int (length (drop (nat n) ds)) = e" using n by (auto simp: k_def n_def)
      moreover have "hd (take (nat n) ds) = hd ds" using n ds by (cases ds; cases "nat n") auto
      moreover have "list_all is_digit (take (nat n) ds)" "list_all is_digit (drop (nat n) ds)"
        using ds(1) by (auto simp: list_all_iff dest: in_set_takeD in_set_dropD)
      ultimately show ?thesis
        using parse [of "take (nat n) ds" "drop (nat n) ds" "[]" 0] A True ds ne val by (simp add: str)
    next
      case B: False
      show ?thesis
      proof (cases "- 6 < n \<and> n \<le> 0")
        case True
        let ?fp = "replicate (nat (- n)) 48 @ ds"
        have "0 - int (length ?fp) = e" using True by (auto simp: k_def n_def)
        moreover have "list_all is_digit ?fp" using ds(1) by (auto simp: list_all_iff is_digit_def)
        moreover have "digits_val ([48] @ ?fp) = s"
        proof -
          have "digits_val [48] = 0" by (simp add: digits_val_def)
          then show ?thesis using ds(4) by (simp only: digits_val_append digits_val_zeros)
        qed
        ultimately show ?thesis
          using parse [of "[48]" ?fp "[]" 0] A B True ds val by (simp add: str is_digit_def)
      next
        case C: False
        have sgn: "(if 0 \<le> n - 1 then [43] else []) @ dec_int (n - 1) =
            (if 0 \<le> n - 1 then 43 # dec_nat (nat (n - 1)) else 45 # dec_nat (nat (1 - n)))"
          by (auto simp: dec_int_def)
        have fp: "(if k = 1 then [] else 46 # drop 1 ds) = (if drop 1 ds = [] then [] else 46 # drop 1 ds)"
          using ds by (auto simp: k_def)
        have len: "(n - 1) - int (length (drop 1 ds)) = e" using ds by (auto simp: k_def n_def)
        have dig: "list_all is_digit (take 1 ds)" "list_all is_digit (drop 1 ds)" "take 1 ds \<noteq> []" "tl (take 1 ds) = []"
          using ds(1,2) by (auto simp: list_all_iff dest: in_set_takeD in_set_dropD) (cases ds; simp)
        have "pos_to_string q = take 1 ds @ (if drop 1 ds = [] then [] else 46 # drop 1 ds) @
            (101 # (if 0 \<le> n - 1 then 43 # dec_nat (nat (n - 1)) else 45 # dec_nat (nat (1 - n))))"
          unfolding str if_not_P [OF A] if_not_P [OF B] if_not_P [OF C] fp sgn by simp
        moreover have "junsigned (take 1 ds @ (if drop 1 ds = [] then [] else 46 # drop 1 ds) @
            (101 # (if 0 \<le> n - 1 then 43 # dec_nat (nat (n - 1)) else 45 # dec_nat (nat (1 - n)))) @ r) =
            Some (fl (of_nat (digits_val (take 1 ds @ drop 1 ds)) * pow10 (n - 1 - int (length (drop 1 ds)))), r)"
          by (rule parse) (use dig in auto)
        ultimately show ?thesis using len ds(4) val by simp
      qed
    qed
  qed
qed

lemma jnumber_text:
  assumes "printable (Fin q)" and "ends_number r"
  shows "jnumber (num_to_string (Fin q) @ r) = Some (VNum (Fin q), r)"
proof -
  consider "q = 0" | "0 < q" | "q < 0" by linarith
  then show ?thesis
  proof cases
    case 1
    have "junsigned ([48] @ r) = Some (Fin 0, r)"
      using junsigned_text [of "[48]" "[]" r "[]" 0] assms(2) by (simp add: is_digit_def digits_val_def)
    then show ?thesis using 1 by (simp add: jnumber_def)
  next
    case 2
    then have j: "junsigned (pos_to_string q @ r) = Some (Fin q, r)" using junsigned_pos assms by simp
    have "pos_to_string q @ r \<noteq> [] \<and> hd (pos_to_string q @ r) \<noteq> 45"
    proof (rule ccontr)
      assume "\<not> ?thesis"
      then have "takeWhile is_digit (pos_to_string q @ r) = []"
        by (cases "pos_to_string q @ r") (auto simp: is_digit_def)
      then show False using j by (simp add: junsigned_def)
    qed
    then show ?thesis using 2 j by (simp add: jnumber_def)
  next
    case 3
    then have "junsigned (pos_to_string (- q) @ r) = Some (Fin (- q), r)"
      using junsigned_pos [of "- q" r] assms by (simp add: printable_def)
    then show ?thesis using 3 by (simp add: jnumber_def)
  qed
qed

section \<open>Values\<close>

text \<open>What a text can express: the keys of every object are distinct and every number was printed.\<close>

fun json_ok :: "jsval \<Rightarrow> bool" where
  "json_ok (VNum n) = printable n"
| "json_ok (VArr xs) = list_all json_ok xs"
| "json_ok (VObj ps) = (distinct (map fst ps) \<and> list_all (\<lambda>p. json_ok (snd p)) ps)"
| "json_ok _ = True"

text \<open>The parsers with the fuel they need.\<close>

definition jval :: "jstr \<Rightarrow> (jsval \<times> jstr) option" where
  "jval s = jvalue (2 * length s + 2) s"

definition jels :: "jsval list \<Rightarrow> jstr \<Rightarrow> (jsval \<times> jstr) option" where
  "jels acc s = jelems (2 * length s + 3) acc s"

definition jmems :: "(jstr \<times> jsval) list \<Rightarrow> jstr \<Rightarrow> (jsval \<times> jstr) option" where
  "jmems ps s = jmembers (2 * length s + 2) ps s"

lemma skip_ws_id [simp]: "\<not> json_ws c \<Longrightarrow> skip_ws (c # r) = c # r"
  by (simp add: skip_ws_def)

lemma json_ws_punct [simp]: "\<not> json_ws 44" "\<not> json_ws 93" "\<not> json_ws 125" "\<not> json_ws 58" "\<not> json_ws 34" "\<not> json_ws 91"
  "\<not> json_ws 123"
  by (simp_all add: json_ws_def)

lemma jval_arr: "(case skip_ws r of c # _ \<Rightarrow> c \<noteq> 93 | [] \<Rightarrow> True) \<Longrightarrow> jval (91 # r) = jels [] r"
  using parse_fuel(2) [of r "2 * length r + 3" "2 * length r + 3" "[]"]
  by (auto simp: jval_def jels_def numeral_3_eq_3 split: list.splits)

lemma jval_obj: "(case skip_ws r of c # _ \<Rightarrow> c \<noteq> 125 | [] \<Rightarrow> True) \<Longrightarrow> jval (123 # r) = jmems [] r"
  using parse_fuel(3) [of r "2 * length r + 3" "2 * length r + 2" "[]"]
  by (auto simp: jval_def jmems_def numeral_3_eq_3 split: list.splits)

lemma jels_step:
  assumes "jval s = Some (v, c # r)" and "\<not> json_ws c"
  shows "jels acc s = (if c = 44 then jels (acc @ [v]) r else if c = 93 then Some (VArr (acc @ [v]), r) else None)"
proof -
  have l: "length r + 2 \<le> length s" using parse_length(1) assms(1) unfolding jval_def by fastforce
  have "jels acc s = jelems (Suc (2 * length s + 2)) acc s" by (simp add: jels_def numeral_3_eq_3)
  also have "\<dots> = (if c = 44 then jelems (2 * length s + 2) (acc @ [v]) r
      else if c = 93 then Some (VArr (acc @ [v]), r) else None)"
    using assms unfolding jval_def by simp
  also have "jelems (2 * length s + 2) (acc @ [v]) r = jels (acc @ [v]) r"
    unfolding jels_def by (rule parse_fuel(2)) (use l in auto)
  finally show ?thesis .
qed

lemma jmems_step:
  assumes k: "jstring [] s = Some (k, 58 # r)" and v: "jval r = Some (v, c # t)" and "\<not> json_ws c"
  shows "jmems ps (34 # s) = (if c = 44 then jmems (put k v ps) t else if c = 125 then Some (VObj (put k v ps), t) else None)"
proof -
  have lr: "length r + 2 \<le> length s" using jstring_length [OF k] by simp
  have lt: "length t + 2 \<le> length r" using parse_length(1) v unfolding jval_def by fastforce
  have "jmems ps (34 # s) = jmembers (Suc (2 * length s + 3)) ps (34 # s)" by (simp add: jmems_def numeral_3_eq_3)
  also have "\<dots> = (if c = 44 then jmembers (2 * length s + 3) (put k v ps) t
      else if c = 125 then Some (VObj (put k v ps), t) else None)"
  proof -
    have gen: "jvalue f r = Some (v, c # t) \<Longrightarrow> jmembers (Suc f) ps (34 # s) =
        (if c = 44 then jmembers f (put k v ps) t else if c = 125 then Some (VObj (put k v ps), t) else None)" for f
      using k assms(3) by simp
    have "jvalue (2 * length s + 3) r = Some (v, c # t)"
      using v parse_fuel(1) [of r "2 * length s + 3" "2 * length r + 2"] lr unfolding jval_def by simp
    then show ?thesis by (rule gen)
  qed
  also have "jmembers (2 * length s + 3) (put k v ps) t = jmems (put k v ps) t"
    unfolding jmems_def by (rule parse_fuel(3)) (use lr lt in auto)
  finally show ?thesis .
qed

text \<open>What may follow a value inside a text, and how a value's text begins.\<close>

definition closes :: "jstr \<Rightarrow> bool" where
  "closes r \<longleftrightarrow> r = [] \<or> hd r \<in> {44, 93, 125}"

lemma closes_ends: "closes r \<Longrightarrow> ends_number r"
  by (auto simp: closes_def ends_number_def is_digit_def)

lemma jval_str: "jval (json_quote s @ r) = Some (VStr s, r)"
  using jstring_quote [of "[]" s r] by (simp add: jval_def json_quote_def)

lemma jval_literal:
  "jval (U ''null'' @ r) = Some (VNull, r)" "jval (U ''true'' @ r) = Some (VBool True, r)"
  "jval (U ''false'' @ r) = Some (VBool False, r)"
  by (simp_all add: jval_def U_def json_ws_def is_digit_def jliteral_def starts_with_def)

lemma jval_num:
  assumes "printable (Fin q)" and "closes r"
  shows "jval (num_to_string (Fin q) @ r) = Some (VNum (Fin q), r)"
proof -
  have j: "jnumber (num_to_string (Fin q) @ r) = Some (VNum (Fin q), r)"
    using jnumber_text assms closes_ends by blast
  obtain c t where s: "num_to_string (Fin q) @ r = c # t"
    using jnumber_length [OF j] by (cases "num_to_string (Fin q) @ r") auto
  have "c = 45 \<or> is_digit c"
  proof (rule ccontr)
    assume "\<not> ?thesis"
    then show False using j s by (simp add: jnumber_def junsigned_def split: if_splits)
  qed
  then have "\<not> json_ws c" "c \<noteq> 123" "c \<noteq> 91" "c \<noteq> 34" "c = 45 \<or> is_digit c"
    by (auto simp: json_ws_def is_digit_def)
  then show ?thesis using j s by (simp add: jval_def)
qed

lemma text_start: "json_text_of v @ r = c # t \<Longrightarrow> \<not> json_ws c \<and> c \<noteq> 93" if "json_ok v"
proof -
  assume a: "json_text_of v @ r = c # t"
  have n: "\<not> json_ws c \<and> c \<noteq> 93" if num: "num_to_string (Fin q) @ r' = c # t'" and p: "printable (Fin q)" for q r' t'
  proof -
    have "jnumber (num_to_string (Fin q) @ []) = Some (VNum (Fin q), [])"
      by (rule jnumber_text [OF p]) (simp add: ends_number_def)
    then have j: "jnumber (num_to_string (Fin q)) = Some (VNum (Fin q), [])" by simp
    then obtain t'' where c: "num_to_string (Fin q) = c # t''"
      using num jnumber_length [OF j] by (cases "num_to_string (Fin q)") auto
    have "c = 45 \<or> is_digit c"
    proof (rule ccontr)
      assume "\<not> ?thesis"
      then show False using j c by (simp add: jnumber_def junsigned_def split: if_splits)
    qed
    then show ?thesis by (auto simp: json_ws_def is_digit_def)
  qed
  show ?thesis
  proof (cases v)
    case (VNum x)
    then show ?thesis using a that n by (cases x) (auto simp: U_def json_ws_def simp del: num_to_string.simps)
  qed (use a in \<open>auto simp: U_def json_ws_def json_quote_def split: if_splits\<close>)
qed

lemma join_Cons: "join_with sep (x # xs) = x @ (if xs = [] then [] else sep @ join_with sep xs)"
  by (cases xs) simp_all

lemma jels_text:
  assumes "\<And>x r. x \<in> set xs \<Longrightarrow> closes r \<Longrightarrow> jval (json_text_of x @ r) = Some (wire x, r)" and "xs \<noteq> []"
  shows "jels acc (join_with [44] (map json_text_of xs) @ 93 # r) = Some (VArr (acc @ map wire xs), r)"
  using assms
proof (induction xs arbitrary: acc)
  case (Cons x xs)
  show ?case
  proof (cases "xs = []")
    case True
    have "jval (json_text_of x @ 93 # r) = Some (wire x, 93 # r)"
      by (rule Cons.prems(1)) (simp_all add: closes_def)
    from jels_step [OF this, of acc] show ?thesis using True by simp
  next
    case False
    have "jval (json_text_of x @ 44 # join_with [44] (map json_text_of xs) @ 93 # r)
        = Some (wire x, 44 # join_with [44] (map json_text_of xs) @ 93 # r)"
      by (rule Cons.prems(1)) (simp_all add: closes_def)
    from jels_step [OF this, of acc] show ?thesis
      using False Cons.IH [OF Cons.prems(1) False, of "acc @ [wire x]"] by (simp add: join_Cons)
  qed
qed simp

lemma put_fresh: "k \<notin> fst ` set xs \<Longrightarrow> put k v xs = xs @ [(k, v)]"
  by (induction k v xs rule: put.induct) auto

lemma jmems_text:
  assumes "\<And>p r. p \<in> set ps \<Longrightarrow> closes r \<Longrightarrow> jval (json_text_of (snd p) @ r) = Some (wire (snd p), r)"
    and "ps \<noteq> []" and "distinct (map fst (acc @ ps))"
  shows "jmems acc (join_with [44] (map (\<lambda>p. json_quote (fst p) @ 58 # json_text_of (snd p)) ps) @ 125 # r) =
    Some (VObj (acc @ map (\<lambda>p. (fst p, wire (snd p))) ps), r)"
  using assms
proof (induction ps arbitrary: acc)
  case (Cons p ps)
  let ?t = "\<lambda>p. json_quote (fst p) @ 58 # json_text_of (snd p)"
  let ?w = "\<lambda>p. (fst p, wire (snd p))"
  have put: "put (fst p) (wire (snd p)) acc = acc @ [?w p]"
    using Cons.prems(3) by (intro put_fresh) auto
  have q: "jstring [] (quote_units (fst p) @ 34 # 58 # s) = Some (fst p, 58 # s)" for s
    using jstring_quote [of "[]" "fst p" "58 # s"] by simp
  show ?case
  proof (cases "ps = []")
    case True
    have "jval (json_text_of (snd p) @ 125 # r) = Some (wire (snd p), 125 # r)"
      by (rule Cons.prems(1)) (simp_all add: closes_def)
    from jmems_step [OF q this, of acc] show ?thesis using True put by (simp add: json_quote_def)
  next
    case False
    let ?s = "44 # join_with [44] (map ?t ps) @ 125 # r"
    have "jval (json_text_of (snd p) @ ?s) = Some (wire (snd p), ?s)"
      by (rule Cons.prems(1)) (simp_all add: closes_def)
    note step = jmems_step [OF q this, of acc]
    have "jmems (acc @ [?w p]) (join_with [44] (map ?t ps) @ 125 # r) = Some (VObj ((acc @ [?w p]) @ map ?w ps), r)"
      by (rule Cons.IH) (use Cons.prems False in auto)
    then show ?thesis using step False put by (simp add: join_Cons json_quote_def)
  qed
qed simp

lemma join_ne: "join_with sep (x # xs) = x @ t \<Longrightarrow> t = (if xs = [] then [] else sep @ join_with sep xs)"
  by (simp add: join_Cons)

lemma jval_text: "json_ok v \<Longrightarrow> closes r \<Longrightarrow> jval (json_text_of v @ r) = Some (wire v, r)"
proof (induction v arbitrary: r rule: json_text_of.induct)
  case (4 n)
  then show ?case using jval_num jval_literal(1) by (cases n) (auto simp del: num_to_string.simps)
next
  case (6 xs)
  show ?case
  proof (cases xs)
    case Nil
    then show ?thesis by (simp add: jval_def)
  next
    case (Cons x ys)
    have e: "jels [] (join_with [44] (map json_text_of xs) @ 93 # r) = Some (VArr ([] @ map wire xs), r)"
      by (rule jels_text) (use 6 Cons in \<open>auto simp: list_all_iff\<close>)
    have "case skip_ws (join_with [44] (map json_text_of xs) @ 93 # r) of c # _ \<Rightarrow> c \<noteq> 93 | [] \<Rightarrow> True"
    proof -
      obtain u where u: "join_with [44] (map json_text_of xs) @ 93 # r = json_text_of x @ u"
        using Cons by (simp add: join_Cons)
      show ?thesis
      proof (cases "json_text_of x @ u")
        case (Cons c t)
        have "json_ok x" using 6(2) \<open>xs = x # ys\<close> by simp
        from text_start [OF this Cons] show ?thesis using u Cons by simp
      qed (simp add: u skip_ws_def)
    qed
    from jval_arr [OF this] show ?thesis using e by simp
  qed
next
  case (7 ps)
  let ?qs = "filter (\<lambda>p. snd p \<noteq> VUndef) ps"
  let ?t = "\<lambda>p. json_quote (fst p) @ 58 # json_text_of (snd p)"
  show ?case
  proof (cases "?qs = []")
    case True
    have "jval (json_text_of (VObj ps) @ r) = jval (123 # 125 # r)"
      using True by (simp only: json_text_of.simps) simp
    also have "\<dots> = Some (VObj [], r)" by (simp add: jval_def)
    finally show ?thesis using True by (simp only: wire.simps) simp
  next
    case False
    have d: "distinct (map fst ([] @ ?qs))" using 7(2) by (simp add: distinct_map_filter)
    have e: "jmems [] (join_with [44] (map ?t ?qs) @ 125 # r) = Some (VObj ([] @ map (\<lambda>p. (fst p, wire (snd p))) ?qs), r)"
      by (rule jmems_text [OF _ False d]) (use 7 in \<open>auto simp: list_all_iff\<close>)
    have "case skip_ws (join_with [44] (map ?t ?qs) @ 125 # r) of c # _ \<Rightarrow> c \<noteq> 125 | [] \<Rightarrow> True"
      using False by (cases ?qs) (simp_all add: join_Cons json_quote_def)
    from jval_obj [OF this] show ?thesis using e by simp
  qed
qed (use jval_literal jval_str in \<open>auto\<close>)

lemma parse_stringify:
  assumes "json_ok v" and "v \<noteq> VUndef"
  shows "json_stringify v = Some (json_text_of v)" and "json_parse (json_text_of v) = Some (wire v)"
proof -
  have "jval (json_text_of v @ []) = Some (wire v, [])" by (rule jval_text [OF assms(1)]) (simp add: closes_def)
  then show "json_parse (json_text_of v) = Some (wire v)" by (simp add: json_parse_def jval_def skip_ws_def)
qed (use assms in \<open>simp add: json_stringify_def\<close>)

section \<open>Integers print\<close>

lemma shortest_found:
  "digit_cands q n m \<noteq> [] \<Longrightarrow> k \<le> m \<Longrightarrow> m < k + f \<Longrightarrow>
   case shortest f q n k of (s, e) \<Rightarrow> fl (of_nat s * pow10 e) = Fin q"
proof (induction f q n k rule: shortest.induct)
  case (2 f q n k)
  show ?case
  proof (cases "digit_cands q n k")
    case Nil
    then show ?thesis using 2 by (cases "m = k") auto
  next
    case (Cons c cs)
    then have "c \<in> set (digit_cands q n k)" by simp
    then show ?thesis using Cons by (auto simp: digit_cands_def Let_def)
  qed
qed simp

lemma log10f_bounds: "1 \<le> q \<Longrightarrow> q < 10 ^ Suc j \<Longrightarrow> 0 \<le> log10f f q \<and> log10f f q \<le> int j"
proof (induction f q arbitrary: j rule: log10f.induct)
  case (2 f q)
  show ?case
  proof (cases "10 \<le> q")
    case True
    then obtain i where i: "j = Suc i" using 2(4) by (cases j) auto
    then have "0 \<le> log10f f (q / 10) \<and> log10f f (q / 10) \<le> int i" using 2 True by simp
    then show ?thesis using True i by simp
  qed (use 2(3) in simp)
qed simp

lemma printable_int: "\<bar>i\<bar> < 2 ^ 53 \<Longrightarrow> printable (NumI i)"
proof -
  assume i: "\<bar>i\<bar> < 2 ^ 53"
  show ?thesis
  proof (cases "i = 0")
    case False
    let ?q = "of_int \<bar>i\<bar> :: rat"
    have fl: "fl ?q = Fin ?q" using fl_int [of "\<bar>i\<bar>"] i by simp
    have floor_abs: "\<lfloor>\<bar>rat_of_int i\<bar>\<rfloor> = \<bar>i\<bar>" using floor_of_int [of "\<bar>i\<bar>"] by (simp only: of_int_abs)
    define n where "n = log10f 700 ?q + 1"
    have "1 \<le> ?q" using False by simp
    moreover have "?q < 10 ^ Suc 15"
    proof -
      have "?q < of_int (2 ^ 53)" using i by (simp only: of_int_less_iff)
      then show ?thesis by simp
    qed
    ultimately have b: "1 \<le> n" "n \<le> 16" using log10f_bounds [of ?q 15 700] by (auto simp: n_def)
    have "(nat \<bar>i\<bar>, 0) \<in> set (digit_cands ?q n (nat n))"
      using b fl floor_abs by (auto simp: digit_cands_def pow10_def Let_def)
    then have "digit_cands ?q n (nat n) \<noteq> []" by auto
    then have "case shortest 20 ?q n 1 of (s, e) \<Rightarrow> fl (of_nat s * pow10 e) = Fin ?q"
      by (rule shortest_found) (use b in auto)
    then show ?thesis by (simp add: printable_def n_def)
  qed (simp add: printable_def)
qed

end
