(* ===== verification/ApiClient.thy ===== *)
theory ApiClient
  imports CustomFetch JsonText
begin

text \<open>
  The generated client, \<open>lib/api-client-react/src/generated/api.ts\<close>: for every operation of the API its
  URL, the call of \<open>customFetch\<close>, the cache key and the options and hook for React Query. React Query
  is a parameter: \<open>useQuery\<close> and \<open>useMutation\<close> are functions from options to a result object. An
  options argument of \<open>None\<close> is \<open>undefined\<close>. Options that only pass through are kept in a rest list.
\<close>

section \<open>Shared shapes\<close>

type_synonym fetch_call = "fetch_config \<Rightarrow> web \<Rightarrow> request_obj list \<times> (fetch_exn + data)"

definition no_options :: fetch_options where
  "no_options = \<lparr>fo_method = None, fo_headers = None, fo_body = None, fo_responseType = Auto, fo_signal = None\<rparr>"

definition options_of :: "fetch_options option \<Rightarrow> fetch_options" where
  \<comment> \<open>\<open>{...options}\<close>\<close>
  "options_of o' = (case o' of None \<Rightarrow> no_options | Some x \<Rightarrow> x)"

definition call_method :: "string \<Rightarrow> jstr \<Rightarrow> fetch_options option \<Rightarrow> fetch_call" where
  \<comment> \<open>\<open>customFetch(url, {...options, method})\<close>\<close>
  "call_method m url options c w = customFetch c w (InStr url) (options_of options\<lparr>fo_method := Some (U m)\<rparr>)"

text \<open>\<open>customFetch(url, {...options, method, headers: {"Content-Type": \<dots>, ...options?.headers}, body:
  JSON.stringify(data)})\<close>; the headers of the options are an object of names and values.\<close>

definition call_json :: "string \<Rightarrow> jstr \<Rightarrow> jsval \<Rightarrow> fetch_options option \<Rightarrow> fetch_call" where
  "call_json m url dat options c w =
     customFetch c w (InStr url)
      (options_of options\<lparr>fo_method := Some (U m),
         fo_headers := Some (fold (\<lambda>(k, v). put k v) (case fo_headers (options_of options) of None \<Rightarrow> [] | Some h \<Rightarrow> h)
           [(U ''Content-Type'', U ''application/json'')]),
         fo_body := map_option BText (json_stringify dat)\<rparr>)"

text \<open>Query options as the caller gives them (a property is present or not) and as they are handed to
  \<open>useQuery\<close>.\<close>

type_synonym query_fn = "nat option \<Rightarrow> fetch_call" \<comment> \<open>from the abort signal\<close>

record query_overrides =
  uo_queryKey :: "jsval option"
  uo_queryFn :: "query_fn option"
  uo_enabled :: "bool option"
  uo_rest :: "(jstr \<times> jsval) list"

record query_hook_options =
  ho_query :: "query_overrides option"
  ho_request :: "fetch_options option"

record query_opts =
  qo_queryKey :: jsval
  qo_queryFn :: query_fn
  qo_enabled :: "bool option"
  qo_rest :: "(jstr \<times> jsval) list"

definition hook_query :: "query_hook_options option \<Rightarrow> query_overrides option" where
  "hook_query o' = (case o' of None \<Rightarrow> None | Some h \<Rightarrow> ho_query h)"

definition hook_request :: "query_hook_options option \<Rightarrow> fetch_options option" where
  "hook_request o' = (case o' of None \<Rightarrow> None | Some h \<Rightarrow> ho_request h)"

definition with_signal :: "nat option \<Rightarrow> fetch_options option \<Rightarrow> fetch_options option" where
  \<comment> \<open>\<open>{ signal, ...requestOptions }\<close>\<close>
  "with_signal sg req =
     (let x = options_of req in Some (x\<lparr>fo_signal := (case fo_signal x of None \<Rightarrow> sg | Some s \<Rightarrow> Some s)\<rparr>))"

definition query_options ::
  "jsval \<Rightarrow> query_fn \<Rightarrow> bool option \<Rightarrow> query_overrides option \<Rightarrow> query_opts" where
  \<comment> \<open>\<open>queryKey = queryOptions?.queryKey ?? key; { queryKey, queryFn, enabled, ...queryOptions }\<close>\<close>
  "query_options key fn enabled q =
     (case q of
        None \<Rightarrow> \<lparr>qo_queryKey = key, qo_queryFn = fn, qo_enabled = enabled, qo_rest = []\<rparr>
      | Some u \<Rightarrow>
         \<lparr>qo_queryKey = (case uo_queryKey u of Some k \<Rightarrow> k | None \<Rightarrow> key),
          qo_queryFn = (case uo_queryFn u of Some f \<Rightarrow> f | None \<Rightarrow> fn),
          qo_enabled = (case uo_enabled u of Some e \<Rightarrow> Some e | None \<Rightarrow> enabled), qo_rest = uo_rest u\<rparr>)"

type_synonym use_query = "query_opts \<Rightarrow> (jstr \<times> jsval) list"

definition with_key :: "use_query \<Rightarrow> query_opts \<Rightarrow> (jstr \<times> jsval) list" where
  \<comment> \<open>\<open>{ ...useQuery(options), queryKey: options.queryKey }\<close>\<close>
  "with_key useQuery q = put (U ''queryKey'') (qo_queryKey q) (useQuery q)"

text \<open>Mutations.\<close>

record 'v mutation_overrides =
  mo_mutationKey :: "jsval option"
  mo_mutationFn :: "('v \<Rightarrow> fetch_call) option"
  mo_rest :: "(jstr \<times> jsval) list"

record 'v mutation_hook_options =
  mh_mutation :: "'v mutation_overrides option"
  mh_request :: "fetch_options option"

record 'v mutation_opts =
  mt_mutationKey :: jsval
  mt_mutationFn :: "'v \<Rightarrow> fetch_call"
  mt_rest :: "(jstr \<times> jsval) list"

text \<open>The key of the operation is used unless the caller gives a truthy one.\<close>

definition mutation_options ::
  "string \<Rightarrow> (fetch_options option \<Rightarrow> 'v \<Rightarrow> fetch_call) \<Rightarrow> 'v mutation_hook_options option \<Rightarrow> 'v mutation_opts" where
  "mutation_options name fn options =
     (let key = VArr [S name] in
      case options of
        None \<Rightarrow> \<lparr>mt_mutationKey = key, mt_mutationFn = fn None, mt_rest = []\<rparr>
      | Some h \<Rightarrow>
          (case mh_mutation h of
             None \<Rightarrow> \<lparr>mt_mutationKey = key, mt_mutationFn = fn (mh_request h), mt_rest = []\<rparr>
           | Some m \<Rightarrow>
              \<lparr>mt_mutationKey = (case mo_mutationKey m of Some k \<Rightarrow> if truthy k then k else key | None \<Rightarrow> key),
               mt_mutationFn = (case mo_mutationFn m of Some f \<Rightarrow> f | None \<Rightarrow> fn (mh_request h)),
               mt_rest = mo_rest m\<rparr>))"

section \<open>The operations\<close>

definition getHealthCheckUrl :: jstr where
  "getHealthCheckUrl = U ''/api/healthz''"

definition healthCheck :: "fetch_options option \<Rightarrow> fetch_call" where
  "healthCheck options = call_method ''GET'' getHealthCheckUrl options"

definition getHealthCheckQueryKey :: jsval where
  "getHealthCheckQueryKey = VArr [S ''/api/healthz'']"

definition getHealthCheckQueryOptions :: "query_hook_options option \<Rightarrow> query_opts" where
  "getHealthCheckQueryOptions options =
     query_options getHealthCheckQueryKey (\<lambda>signal. healthCheck (with_signal signal (hook_request options))) None (hook_query options)"

definition useHealthCheck :: "use_query \<Rightarrow> query_hook_options option \<Rightarrow> (jstr \<times> jsval) list" where
  "useHealthCheck useQuery options = with_key useQuery (getHealthCheckQueryOptions options)"

definition getGetPortfolioUrl :: jstr where
  "getGetPortfolioUrl = U ''/api/bot/portfolio''"

definition getPortfolio :: "fetch_options option \<Rightarrow> fetch_call" where
  "getPortfolio options = call_method ''GET'' getGetPortfolioUrl options"

definition getGetPortfolioQueryKey :: jsval where
  "getGetPortfolioQueryKey = VArr [S ''/api/bot/portfolio'']"

definition getGetPortfolioQueryOptions :: "query_hook_options option \<Rightarrow> query_opts" where
  "getGetPortfolioQueryOptions options =
     query_options getGetPortfolioQueryKey (\<lambda>signal. getPortfolio (with_signal signal (hook_request options))) None (hook_query options)"

definition useGetPortfolio :: "use_query \<Rightarrow> query_hook_options option \<Rightarrow> (jstr \<times> jsval) list" where
  "useGetPortfolio useQuery options = with_key useQuery (getGetPortfolioQueryOptions options)"

text \<open>\<open>URLSearchParams.toString\<close>: the UTF-8 bytes of the text, of which letters, digits and \<open>*-._\<close> are kept, a
  space becomes \<open>+\<close> and any other byte \<open>%XX\<close>. A surrogate without its pair is U+FFFD.\<close>

fun code_points :: "jstr \<Rightarrow> nat list" where
  "code_points [] = []"
| "code_points [c] = [if 0xD800 \<le> c \<and> c \<le> 0xDFFF then 0xFFFD else c]"
| "code_points (c # d # r) =
     (if 0xD800 \<le> c \<and> c \<le> 0xDBFF \<and> 0xDC00 \<le> d \<and> d \<le> 0xDFFF
      then (0x10000 + (c - 0xD800) * 0x400 + (d - 0xDC00)) # code_points r
      else (if 0xD800 \<le> c \<and> c \<le> 0xDFFF then 0xFFFD else c) # code_points (d # r))"

definition utf8 :: "nat \<Rightarrow> nat list" where
  "utf8 c = (if c < 0x80 then [c]
     else if c < 0x800 then [0xC0 + c div 64, 0x80 + c mod 64]
     else if c < 0x10000 then [0xE0 + c div 4096, 0x80 + c div 64 mod 64, 0x80 + c mod 64]
     else [0xF0 + c div 262144, 0x80 + c div 4096 mod 64, 0x80 + c div 64 mod 64, 0x80 + c mod 64])"

definition upper_hex :: "nat \<Rightarrow> nat" where
  "upper_hex d = (if d < 10 then 48 + d else 55 + d)"

definition form_byte :: "nat \<Rightarrow> jstr" where
  "form_byte b =
     (if b = 32 then [43]
      else if is_digit b \<or> (65 \<le> b \<and> b \<le> 90) \<or> (97 \<le> b \<and> b \<le> 122) \<or> b \<in> {42, 45, 46, 95} then [b]
      else [37, upper_hex (b div 16), upper_hex (b mod 16)])"

definition form_encode :: "jstr \<Rightarrow> jstr" where
  "form_encode s = concat (map form_byte (concat (map utf8 (code_points s))))"

definition search_params :: "(jstr \<times> jstr) list \<Rightarrow> jstr" where
  "search_params ps = join_with [38] (map (\<lambda>(k, v). form_encode k @ 61 # form_encode v) ps)"

text \<open>The parameters of the trade list are an object, its entries in order.\<close>

definition getListTradesUrl :: "(jstr \<times> jsval) list option \<Rightarrow> jstr" where
  "getListTradesUrl params =
     (let normalizedParams = map (\<lambda>(k, v). (k, if v = VNull then U ''null'' else to_str v))
            (filter (\<lambda>p. snd p \<noteq> VUndef) (case params of None \<Rightarrow> [] | Some ps \<Rightarrow> ps));
          stringifiedParams = search_params normalizedParams
      in if stringifiedParams \<noteq> [] then U ''/api/bot/trades?'' @ stringifiedParams else U ''/api/bot/trades'')"

definition listTrades :: "(jstr \<times> jsval) list option \<Rightarrow> fetch_options option \<Rightarrow> fetch_call" where
  "listTrades params options = call_method ''GET'' (getListTradesUrl params) options"

definition getListTradesQueryKey :: "(jstr \<times> jsval) list option \<Rightarrow> jsval" where
  "getListTradesQueryKey params =
     VArr (S ''/api/bot/trades'' # (case params of None \<Rightarrow> [] | Some ps \<Rightarrow> [VObj ps]))"

definition getListTradesQueryOptions ::
  "(jstr \<times> jsval) list option \<Rightarrow> query_hook_options option \<Rightarrow> query_opts" where
  "getListTradesQueryOptions params options =
     query_options (getListTradesQueryKey params) (\<lambda>signal. listTrades params (with_signal signal (hook_request options)))
       None (hook_query options)"

definition useListTrades ::
  "use_query \<Rightarrow> (jstr \<times> jsval) list option \<Rightarrow> query_hook_options option \<Rightarrow> (jstr \<times> jsval) list" where
  "useListTrades useQuery params options = with_key useQuery (getListTradesQueryOptions params options)"

definition getSubmitOrderUrl :: jstr where
  "getSubmitOrderUrl = U ''/api/bot/orders''"

definition submitOrder_call :: "jsval \<Rightarrow> fetch_options option \<Rightarrow> fetch_call" where
  "submitOrder_call submitOrderBody options = call_json ''POST'' getSubmitOrderUrl submitOrderBody options"

text \<open>The variables of a mutation are an object; a missing member is \<open>undefined\<close>.\<close>

definition getSubmitOrderMutationOptions :: "jsval mutation_hook_options option \<Rightarrow> jsval mutation_opts" where
  "getSubmitOrderMutationOptions options =
     mutation_options ''submitOrder'' (\<lambda>requestOptions props. submitOrder_call (get props ''data'') requestOptions) options"

definition useSubmitOrder ::
  "(jsval mutation_opts \<Rightarrow> 'r) \<Rightarrow> jsval mutation_hook_options option \<Rightarrow> 'r" where
  "useSubmitOrder useMutation options = useMutation (getSubmitOrderMutationOptions options)"

definition getGetOrderUrl :: "jstr \<Rightarrow> jstr" where
  "getGetOrderUrl orderId = U ''/api/bot/orders/'' @ orderId"

definition getOrder :: "jstr \<Rightarrow> fetch_options option \<Rightarrow> fetch_call" where
  "getOrder orderId options = call_method ''GET'' (getGetOrderUrl orderId) options"

definition getGetOrderQueryKey :: "jstr \<Rightarrow> jsval" where
  "getGetOrderQueryKey orderId = VArr [VStr (U ''/api/bot/orders/'' @ orderId)]"

definition getGetOrderQueryOptions :: "jstr \<Rightarrow> query_hook_options option \<Rightarrow> query_opts" where
  "getGetOrderQueryOptions orderId options =
     query_options (getGetOrderQueryKey orderId) (\<lambda>signal. getOrder orderId (with_signal signal (hook_request options)))
       (Some (orderId \<noteq> [])) (hook_query options)"

definition useGetOrder :: "use_query \<Rightarrow> jstr \<Rightarrow> query_hook_options option \<Rightarrow> (jstr \<times> jsval) list" where
  "useGetOrder useQuery orderId options = with_key useQuery (getGetOrderQueryOptions orderId options)"

definition getCancelOrderUrl :: "jstr \<Rightarrow> jstr" where
  "getCancelOrderUrl orderId = U ''/api/bot/orders/'' @ orderId"

definition cancelOrder_call :: "jstr \<Rightarrow> fetch_options option \<Rightarrow> fetch_call" where
  "cancelOrder_call orderId options = call_method ''DELETE'' (getCancelOrderUrl orderId) options"

definition getCancelOrderMutationOptions :: "jsval mutation_hook_options option \<Rightarrow> jsval mutation_opts" where
  "getCancelOrderMutationOptions options =
     mutation_options ''cancelOrder'' (\<lambda>requestOptions props. cancelOrder_call (to_str (get props ''orderId'')) requestOptions) options"

definition useCancelOrder ::
  "(jsval mutation_opts \<Rightarrow> 'r) \<Rightarrow> jsval mutation_hook_options option \<Rightarrow> 'r" where
  "useCancelOrder useMutation options = useMutation (getCancelOrderMutationOptions options)"

definition getListStrategiesUrl :: jstr where
  "getListStrategiesUrl = U ''/api/bot/strategies''"

definition listStrategies :: "fetch_options option \<Rightarrow> fetch_call" where
  "listStrategies options = call_method ''GET'' getListStrategiesUrl options"

definition getListStrategiesQueryKey :: jsval where
  "getListStrategiesQueryKey = VArr [S ''/api/bot/strategies'']"

definition getListStrategiesQueryOptions :: "query_hook_options option \<Rightarrow> query_opts" where
  "getListStrategiesQueryOptions options =
     query_options getListStrategiesQueryKey (\<lambda>signal. listStrategies (with_signal signal (hook_request options))) None (hook_query options)"

definition useListStrategies :: "use_query \<Rightarrow> query_hook_options option \<Rightarrow> (jstr \<times> jsval) list" where
  "useListStrategies useQuery options = with_key useQuery (getListStrategiesQueryOptions options)"

definition getUpdateStrategyUrl :: "jstr \<Rightarrow> jstr" where
  "getUpdateStrategyUrl strategyName = U ''/api/bot/strategies/'' @ strategyName"

definition updateStrategy :: "jstr \<Rightarrow> jsval \<Rightarrow> fetch_options option \<Rightarrow> fetch_call" where
  "updateStrategy strategyName updateStrategyBody options =
     call_json ''PATCH'' (getUpdateStrategyUrl strategyName) updateStrategyBody options"

definition getUpdateStrategyMutationOptions :: "jsval mutation_hook_options option \<Rightarrow> jsval mutation_opts" where
  "getUpdateStrategyMutationOptions options =
     mutation_options ''updateStrategy''
       (\<lambda>requestOptions props. updateStrategy (to_str (get props ''strategyName'')) (get props ''data'') requestOptions) options"

definition useUpdateStrategy ::
  "(jsval mutation_opts \<Rightarrow> 'r) \<Rightarrow> jsval mutation_hook_options option \<Rightarrow> 'r" where
  "useUpdateStrategy useMutation options = useMutation (getUpdateStrategyMutationOptions options)"

definition getListTokensUrl :: jstr where
  "getListTokensUrl = U ''/api/bot/tokens''"

definition listTokens :: "fetch_options option \<Rightarrow> fetch_call" where
  "listTokens options = call_method ''GET'' getListTokensUrl options"

definition getListTokensQueryKey :: jsval where
  "getListTokensQueryKey = VArr [S ''/api/bot/tokens'']"

definition getListTokensQueryOptions :: "query_hook_options option \<Rightarrow> query_opts" where
  "getListTokensQueryOptions options =
     query_options getListTokensQueryKey (\<lambda>signal. listTokens (with_signal signal (hook_request options))) None (hook_query options)"

definition useListTokens :: "use_query \<Rightarrow> query_hook_options option \<Rightarrow> (jstr \<times> jsval) list" where
  "useListTokens useQuery options = with_key useQuery (getListTokensQueryOptions options)"

definition getGetTokenUrl :: "jstr \<Rightarrow> jstr" where
  "getGetTokenUrl mint = U ''/api/bot/tokens/'' @ mint"

definition getToken :: "jstr \<Rightarrow> fetch_options option \<Rightarrow> fetch_call" where
  "getToken mint options = call_method ''GET'' (getGetTokenUrl mint) options"

definition getGetTokenQueryKey :: "jstr \<Rightarrow> jsval" where
  "getGetTokenQueryKey mint = VArr [VStr (U ''/api/bot/tokens/'' @ mint)]"

definition getGetTokenQueryOptions :: "jstr \<Rightarrow> query_hook_options option \<Rightarrow> query_opts" where
  "getGetTokenQueryOptions mint options =
     query_options (getGetTokenQueryKey mint) (\<lambda>signal. getToken mint (with_signal signal (hook_request options)))
       (Some (mint \<noteq> [])) (hook_query options)"

definition useGetToken :: "use_query \<Rightarrow> jstr \<Rightarrow> query_hook_options option \<Rightarrow> (jstr \<times> jsval) list" where
  "useGetToken useQuery mint options = with_key useQuery (getGetTokenQueryOptions mint options)"

definition getGetMetricsUrl :: jstr where
  "getGetMetricsUrl = U ''/api/bot/metrics''"

definition getMetrics :: "fetch_options option \<Rightarrow> fetch_call" where
  "getMetrics options = call_method ''GET'' getGetMetricsUrl options"

definition getGetMetricsQueryKey :: jsval where
  "getGetMetricsQueryKey = VArr [S ''/api/bot/metrics'']"

definition getGetMetricsQueryOptions :: "query_hook_options option \<Rightarrow> query_opts" where
  "getGetMetricsQueryOptions options =
     query_options getGetMetricsQueryKey (\<lambda>signal. getMetrics (with_signal signal (hook_request options))) None (hook_query options)"

definition useGetMetrics :: "use_query \<Rightarrow> query_hook_options option \<Rightarrow> (jstr \<times> jsval) list" where
  "useGetMetrics useQuery options = with_key useQuery (getGetMetricsQueryOptions options)"

definition getGetBotStatusUrl :: jstr where
  "getGetBotStatusUrl = U ''/api/bot/status''"

definition getBotStatus :: "fetch_options option \<Rightarrow> fetch_call" where
  "getBotStatus options = call_method ''GET'' getGetBotStatusUrl options"

definition getGetBotStatusQueryKey :: jsval where
  "getGetBotStatusQueryKey = VArr [S ''/api/bot/status'']"

definition getGetBotStatusQueryOptions :: "query_hook_options option \<Rightarrow> query_opts" where
  "getGetBotStatusQueryOptions options =
     query_options getGetBotStatusQueryKey (\<lambda>signal. getBotStatus (with_signal signal (hook_request options))) None (hook_query options)"

definition useGetBotStatus :: "use_query \<Rightarrow> query_hook_options option \<Rightarrow> (jstr \<times> jsval) list" where
  "useGetBotStatus useQuery options = with_key useQuery (getGetBotStatusQueryOptions options)"

end
