(* ===== verification/Routes.thy ===== *)
theory Routes
  imports ApiClient
begin

text \<open>
  The routing of the server: the registrations of the seven routers, their order in \<open>routes/index.ts\<close>, and the
  application of \<open>app.ts\<close>. How Express matches a path with a pattern and a mount point is a parameter; its
  documented behaviour on plain paths (segments of letters, digits, \<open>-\<close> and \<open>_\<close>) is the law
  \<open>express_law\<close>. The last part connects the generated client with these routes.
\<close>

section \<open>Registrations\<close>

datatype route =
    RHealthz | RReadiness
  | RListTrades | RGetTrade
  | RPortfolio | RPostOrder | RGetOrder | RDeleteOrder | RListStrategies | RPatchStrategy | RListTokens | RGetToken
  | RMetrics | RStatus | RBacktest | RMevStats | RStart | RStop
  | RSettingsStatus | RGetConfig | RPutConfig | RTestRpc
  | RWallets | RWalletConfig | RPutWalletConfig | RPutPreset | RGetPreset | RPause | RResume | RHalt
  | RSystemConfig
  | RPostTokenMetrics | RGetTokenMetrics

type_synonym registration = "string \<times> string \<times> route"

definition health_routes :: "registration list" where
  "health_routes = [(''GET'', ''/healthz'', RHealthz), (''GET'', ''/readiness'', RReadiness)]"

definition trades_routes :: "registration list" where
  "trades_routes = [(''GET'', ''/bot/trades'', RListTrades), (''GET'', ''/bot/trades/:clientOrderId'', RGetTrade)]"

definition bot_routes :: "registration list" where
  "bot_routes =
     [(''GET'', ''/bot/portfolio'', RPortfolio), (''POST'', ''/bot/orders'', RPostOrder),
      (''GET'', ''/bot/orders/:orderId'', RGetOrder), (''DELETE'', ''/bot/orders/:orderId'', RDeleteOrder),
      (''GET'', ''/bot/strategies'', RListStrategies), (''PATCH'', ''/bot/strategies/:strategyName'', RPatchStrategy),
      (''GET'', ''/bot/tokens'', RListTokens), (''GET'', ''/bot/tokens/:mint'', RGetToken),
      (''GET'', ''/bot/metrics'', RMetrics), (''GET'', ''/bot/status'', RStatus), (''POST'', ''/bot/backtest'', RBacktest),
      (''GET'', ''/bot/mev-stats'', RMevStats), (''POST'', ''/bot/start'', RStart), (''POST'', ''/bot/stop'', RStop)]"

definition settings_routes :: "registration list" where
  "settings_routes =
     [(''GET'', ''/settings/status'', RSettingsStatus), (''GET'', ''/settings/config'', RGetConfig),
      (''PUT'', ''/settings/config'', RPutConfig), (''POST'', ''/settings/config/test-rpc'', RTestRpc)]"

definition wallets_routes :: "registration list" where
  "wallets_routes =
     [(''GET'', ''/wallets'', RWallets), (''GET'', ''/wallets/:id/config'', RWalletConfig),
      (''PUT'', ''/wallets/:id/config'', RPutWalletConfig), (''PUT'', ''/strategy/preset'', RPutPreset),
      (''GET'', ''/strategy/preset'', RGetPreset), (''POST'', ''/wallets/:id/pause'', RPause),
      (''POST'', ''/wallets/:id/resume'', RResume), (''POST'', ''/wallets/:id/halt'', RHalt)]"

definition admin_routes :: "registration list" where
  "admin_routes = [(''GET'', ''/admin/system-config'', RSystemConfig)]"

definition tokenMetrics_routes :: "registration list" where
  "tokenMetrics_routes = [(''POST'', ''/token-metrics'', RPostTokenMetrics), (''GET'', ''/token-metrics'', RGetTokenMetrics)]"

definition router :: "registration list" where
  "router = health_routes @ trades_routes @ bot_routes @ settings_routes @ wallets_routes @ admin_routes @ tokenMetrics_routes"

section \<open>Matching\<close>

record express =
  ex_match :: "jstr \<Rightarrow> jstr \<Rightarrow> jstr list option" \<comment> \<open>pattern and path to parameter values\<close>
  ex_mount :: "jstr \<Rightarrow> jstr \<Rightarrow> jstr option" \<comment> \<open>the rest of a path below a mount point\<close>

text \<open>The first registration that matches handles the request; a HEAD request is handled by a GET route.\<close>

fun first_route :: "express \<Rightarrow> registration list \<Rightarrow> jstr \<Rightarrow> jstr \<Rightarrow> (route \<times> jstr list) option" where
  "first_route ex [] method path = None"
| "first_route ex ((m, p, r) # rs) method path =
     (if method = U m \<or> (m = ''GET'' \<and> method = U ''HEAD'')
      then (case ex_match ex (U p) path of Some vs \<Rightarrow> Some (r, vs) | None \<Rightarrow> first_route ex rs method path)
      else first_route ex rs method path)"

datatype target = Preflight | BodyRefused nat | Api route "jstr list" | StaticFile jstr | SpaIndex | RedirectDashboard | NotFound

text \<open>Behind the body parsers. \<open>static\<close>: whether the dashboard build has a file at that path.\<close>

definition server_routes :: "express \<Rightarrow> (jstr \<Rightarrow> bool) \<Rightarrow> jstr \<Rightarrow> jstr \<Rightarrow> target" where
  "server_routes ex static method path =
     (let readable = (method = U ''GET'' \<or> method = U ''HEAD'');
          rest =
            (case ex_mount ex (U ''/dashboard'') path of
               Some p \<Rightarrow> if readable \<and> static p then Some (StaticFile p) else None
             | None \<Rightarrow> None)
      in case (case ex_mount ex (U ''/api'') path of Some p \<Rightarrow> first_route ex router method p | None \<Rightarrow> None) of
           Some (r, vs) \<Rightarrow> Api r vs
         | None \<Rightarrow>
             (case rest of
                Some t \<Rightarrow> t
              | None \<Rightarrow>
                  if readable \<and> (ex_match ex (U ''/dashboard'') path \<noteq> None \<or> ex_match ex (U ''/dashboard/{*path}'') path \<noteq> None)
                  then SpaIndex
                  else if readable \<and> ex_match ex (U ''/'') path \<noteq> None then RedirectDashboard
                  else NotFound))"

text \<open>
  \<open>cors()\<close> answers every OPTIONS request. \<open>refused\<close>: the status with which \<open>express.json()\<close> or
  \<open>express.urlencoded()\<close> refuses the request's body (400 for a text that is no JSON object or array, 413 for a body
  over 100 kB), \<open>None\<close> when both let the request pass.
\<close>

definition app_target :: "express \<Rightarrow> (jstr \<Rightarrow> bool) \<Rightarrow> nat option \<Rightarrow> jstr \<Rightarrow> jstr \<Rightarrow> target" where
  "app_target ex static refused method path =
     (if method = U ''OPTIONS'' then Preflight
      else case refused of Some status \<Rightarrow> BodyRefused status | None \<Rightarrow> server_routes ex static method path)"

text \<open>What Express documents for plain paths: a literal segment is compared without regard to case, a \<open>:name\<close>
  segment takes any non-empty segment as its value.\<close>

fun segs_match :: "jstr list \<Rightarrow> jstr list \<Rightarrow> jstr list option" where
  "segs_match [] [] = Some []"
| "segs_match (p # ps) (s # ss) =
     (if starts_with p [58] then (if s = [] then None else map_option (\<lambda>vs. s # vs) (segs_match ps ss))
      else if to_lower p = to_lower s then segs_match ps ss else None)"
| "segs_match _ _ = None"

definition seg_match :: "jstr \<Rightarrow> jstr \<Rightarrow> jstr list option" where
  "seg_match pattern path = segs_match (split_on 47 pattern) (split_on 47 path)"

definition seg_mount :: "jstr \<Rightarrow> jstr \<Rightarrow> jstr option" where
  "seg_mount base path =
     (if to_lower path = to_lower base then Some [47]
      else if starts_with (to_lower path) (to_lower base @ [47]) then Some (drop (length base) path) else None)"

definition plain_unit :: "nat \<Rightarrow> bool" where
  "plain_unit c \<longleftrightarrow> is_digit c \<or> (65 \<le> c \<and> c \<le> 90) \<or> (97 \<le> c \<and> c \<le> 122) \<or> c = 45 \<or> c = 95"

definition plain_segment :: "jstr \<Rightarrow> bool" where
  "plain_segment s \<longleftrightarrow> s \<noteq> [] \<and> list_all plain_unit s"

definition plain_path :: "jstr \<Rightarrow> bool" where
  "plain_path p \<longleftrightarrow> (case split_on 47 p of r # ss \<Rightarrow> r = [] \<and> list_all plain_segment ss | [] \<Rightarrow> False)"

definition express_law :: "express \<Rightarrow> bool" where
  "express_law ex \<longleftrightarrow>
     (\<forall>m p r path. (m, p, r) \<in> set router \<longrightarrow> plain_path path \<longrightarrow> ex_match ex (U p) path = seg_match (U p) path) \<and>
     (\<forall>path. plain_path path \<longrightarrow> ex_mount ex (U ''/api'') path = seg_mount (U ''/api'') path)"

section \<open>Dispatch on plain paths\<close>

lemma first_route_law:
  "(\<And>m p r. (m, p, r) \<in> set rs \<Longrightarrow> ex_match ex (U p) path = ex_match ex' (U p) path) \<Longrightarrow>
   first_route ex rs method path = first_route ex' rs method path"
proof (induction rs)
  case (Cons x rs)
  obtain m p r where x: "x = (m, p, r)" by (cases x)
  have "ex_match ex (U p) path = ex_match ex' (U p) path" by (rule Cons.prems [of m p r]) (simp add: x)
  moreover have "first_route ex rs method path = first_route ex' rs method path"
    by (rule Cons.IH) (metis Cons.prems list.set_intros(2))
  ultimately show ?case by (cases "ex_match ex' (U p) path") (simp_all add: x)
qed simp

definition plain_express :: express where
  "plain_express = \<lparr>ex_match = seg_match, ex_mount = seg_mount\<rparr>"

lemma plain_express_law: "express_law plain_express"
  by (simp add: express_law_def plain_express_def)

text \<open>A path below \<open>/api\<close>, by its segments.\<close>

definition slash_path :: "jstr list \<Rightarrow> jstr" where
  "slash_path ss = concat (map (\<lambda>s. 47 # s) ss)"

lemma split_slash_path:
  "list_all plain_segment ss \<Longrightarrow> split_on 47 (slash_path ss) = [] # ss"
proof (induction ss)
  case (Cons s ss)
  have n: "47 \<notin> set s" using Cons.prems by (auto simp: plain_segment_def list_all_iff plain_unit_def is_digit_def)
  have i: "split_on 47 (slash_path ss) = [] # ss" using Cons by simp
  show ?case
  proof (cases ss)
    case Nil
    then show ?thesis using split_on_no_sep [OF n] by (simp add: slash_path_def)
  next
    case (Cons t us)
    have "split_on 47 (s @ 47 # (t @ slash_path us)) = s # split_on 47 (t @ slash_path us)"
      by (rule split_on_append [OF n])
    moreover have "split_on 47 (t @ slash_path us) = t # us"
      using i Cons by (simp add: slash_path_def split: list.splits)
    ultimately show ?thesis using Cons by (simp add: slash_path_def)
  qed
qed (simp add: slash_path_def)

lemma plain_slash_path: "list_all plain_segment ss \<Longrightarrow> plain_path (slash_path ss)"
  by (simp add: plain_path_def split_slash_path)

lemma plain_literals [simp]:
  "plain_segment (U ''api'')" "plain_segment (U ''healthz'')" "plain_segment (U ''bot'')" "plain_segment (U ''portfolio'')"
  "plain_segment (U ''trades'')" "plain_segment (U ''orders'')" "plain_segment (U ''strategies'')"
  "plain_segment (U ''tokens'')" "plain_segment (U ''metrics'')" "plain_segment (U ''status'')"
  by (simp_all add: plain_segment_def U_def plain_unit_def is_digit_def)

lemma mount_api: "seg_mount (U ''/api'') (slash_path (U ''api'' # s # ss)) = Some (slash_path (s # ss))"
  by (simp add: seg_mount_def slash_path_def U_def to_lower_def starts_with_def)

text \<open>The segments of the patterns, in order of registration.\<close>

definition route_segs :: "(string \<times> string list \<times> route) list" where
  "route_segs =
    [(''GET'', [''healthz''], RHealthz), (''GET'', [''readiness''], RReadiness),
     (''GET'', [''bot'', ''trades''], RListTrades), (''GET'', [''bot'', ''trades'', '':clientOrderId''], RGetTrade),
     (''GET'', [''bot'', ''portfolio''], RPortfolio), (''POST'', [''bot'', ''orders''], RPostOrder),
     (''GET'', [''bot'', ''orders'', '':orderId''], RGetOrder), (''DELETE'', [''bot'', ''orders'', '':orderId''], RDeleteOrder),
     (''GET'', [''bot'', ''strategies''], RListStrategies), (''PATCH'', [''bot'', ''strategies'', '':strategyName''], RPatchStrategy),
     (''GET'', [''bot'', ''tokens''], RListTokens), (''GET'', [''bot'', ''tokens'', '':mint''], RGetToken),
     (''GET'', [''bot'', ''metrics''], RMetrics), (''GET'', [''bot'', ''status''], RStatus), (''POST'', [''bot'', ''backtest''], RBacktest),
     (''GET'', [''bot'', ''mev-stats''], RMevStats), (''POST'', [''bot'', ''start''], RStart), (''POST'', [''bot'', ''stop''], RStop),
     (''GET'', [''settings'', ''status''], RSettingsStatus), (''GET'', [''settings'', ''config''], RGetConfig),
     (''PUT'', [''settings'', ''config''], RPutConfig), (''POST'', [''settings'', ''config'', ''test-rpc''], RTestRpc),
     (''GET'', [''wallets''], RWallets), (''GET'', [''wallets'', '':id'', ''config''], RWalletConfig),
     (''PUT'', [''wallets'', '':id'', ''config''], RPutWalletConfig), (''PUT'', [''strategy'', ''preset''], RPutPreset),
     (''GET'', [''strategy'', ''preset''], RGetPreset), (''POST'', [''wallets'', '':id'', ''pause''], RPause),
     (''POST'', [''wallets'', '':id'', ''resume''], RResume), (''POST'', [''wallets'', '':id'', ''halt''], RHalt),
     (''GET'', [''admin'', ''system-config''], RSystemConfig),
     (''POST'', [''token-metrics''], RPostTokenMetrics), (''GET'', [''token-metrics''], RGetTokenMetrics)]"

lemma router_segs: "map (\<lambda>(m, p, r). (m, split_on 47 (U p), r)) router = map (\<lambda>(m, ss, r). (m, [] # map U ss, r)) route_segs"
  unfolding router_def health_routes_def trades_routes_def bot_routes_def settings_routes_def wallets_routes_def
    admin_routes_def tokenMetrics_routes_def route_segs_def
  by (simp add: U_def)

fun first_segs :: "(string \<times> string list \<times> route) list \<Rightarrow> jstr \<Rightarrow> jstr list \<Rightarrow> (route \<times> jstr list) option" where
  "first_segs [] method path = None"
| "first_segs ((m, ss, r) # rs) method path =
     (if method = U m \<or> (m = ''GET'' \<and> method = U ''HEAD'')
      then (case segs_match (map U ss) path of Some vs \<Rightarrow> Some (r, vs) | None \<Rightarrow> first_segs rs method path)
      else first_segs rs method path)"

lemma first_route_segs:
  assumes "map (\<lambda>(m, p, r). (m, split_on 47 (U p), r)) rs = map (\<lambda>(m, ss, r). (m, [] # map U ss, r)) qs"
    and "split_on 47 path = [] # ss"
  shows "first_route plain_express rs method path = first_segs qs method ss"
  using assms(1)
proof (induction rs arbitrary: qs)
  case (Cons x rs)
  obtain m p r where x: "x = (m, p, r)" by (cases x)
  then obtain ps qs' where q: "qs = (m, ps, r) # qs'" "split_on 47 (U p) = [] # map U ps"
    "map (\<lambda>(m, p, r). (m, split_on 47 (U p), r)) rs = map (\<lambda>(m, ss, r). (m, [] # map U ss, r)) qs'"
    using Cons.prems by auto
  have "seg_match (U p) path = segs_match (map U ps) ss"
    by (simp add: seg_match_def q assms(2) starts_with_def)
  then have "ex_match plain_express (U p) path = segs_match (map U ps) ss" by (simp add: plain_express_def)
  then show ?case using Cons.IH [OF q(3)] by (cases "segs_match (map U ps) ss") (simp_all add: x q(1))
qed simp

lemma api_dispatch:
  assumes law: "express_law ex" and m: "method \<noteq> U ''OPTIONS''" and p: "list_all plain_segment (s # ss)"
    and r: "first_segs route_segs method (s # ss) = Some (r, vs)"
  shows "app_target ex static None method (slash_path (U ''api'' # s # ss)) = Api r vs"
proof -
  have full: "plain_path (slash_path (U ''api'' # s # ss))" by (rule plain_slash_path) (use p in simp)
  have rest: "plain_path (slash_path (s # ss))" by (rule plain_slash_path [OF p])
  have 1: "ex_mount ex (U ''/api'') (slash_path (U ''api'' # s # ss)) = Some (slash_path (s # ss))"
    using law full unfolding express_law_def by (simp add: mount_api)
  have "first_route ex router method (slash_path (s # ss)) = first_route plain_express router method (slash_path (s # ss))"
    by (rule first_route_law) (use law rest in \<open>auto simp: express_law_def plain_express_def\<close>)
  also have "\<dots> = first_segs route_segs method (s # ss)"
    by (rule first_route_segs [OF router_segs split_slash_path [OF p]])
  finally show ?thesis using 1 m r by (simp add: app_target_def server_routes_def Let_def)
qed

section \<open>The client and the server\<close>

text \<open>The path of a URL without its query. \<open>reaches\<close>: every request a client call sends (same origin) is routed to
  the given route with the given parameters, once the body parsers have let it pass.\<close>

definition path_of :: "jstr \<Rightarrow> jstr" where
  "path_of url = takeWhile (\<lambda>c. c \<noteq> 63) url"

definition reaches :: "express \<Rightarrow> fetch_call \<Rightarrow> route \<Rightarrow> jstr list \<Rightarrow> bool" where
  "reaches ex call r vs \<longleftrightarrow>
     (\<forall>c w req out static. fc_base c = None \<longrightarrow> call c w = ([req], out) \<longrightarrow>
        app_target ex static None (ro_method req) (path_of (ro_url req)) = Api r vs)"

lemma no_query: "list_all plain_segment ss \<Longrightarrow> c \<in> set (slash_path ss) \<Longrightarrow> c \<noteq> 63"
proof -
  have "plain_segment s \<Longrightarrow> c \<in> set s \<Longrightarrow> c \<noteq> 63" for s
    by (auto simp: plain_segment_def list_all_iff plain_unit_def is_digit_def)
  then show "list_all plain_segment ss \<Longrightarrow> c \<in> set (slash_path ss) \<Longrightarrow> c \<noteq> 63"
    by (auto simp: slash_path_def list_all_iff split: if_splits)
qed

lemma path_slash_query: "list_all plain_segment ss \<Longrightarrow> path_of (slash_path ss @ 63 # q) = slash_path ss"
  using no_query [of ss] by (simp add: path_of_def)

lemma path_slash: "list_all plain_segment ss \<Longrightarrow> path_of (slash_path ss) = slash_path ss"
  using no_query [of ss] by (simp add: path_of_def takeWhile_eq_all_conv)

lemma sent_same_origin:
  assumes "customFetch c w (InStr u) opts = ([req], out)" and "fc_base c = None" and "fo_method opts = Some (x # m)"
  shows "ro_url req = u" and "ro_method req = to_upper (x # m)"
proof -
  have "build_request c w (InStr u) opts = Inr req" using customFetch_Inr [OF assms(1)] by simp
  then show "ro_url req = u" "ro_method req = to_upper (x # m)"
    using assms(2,3) by (auto simp: build_request_def applyBaseUrl_def and_then_Inr resolveMethod_def Let_def
        split: if_splits option.splits)
qed

lemma upper_methods [simp]:
  "U ''GET'' = 71 # [69, 84]" "U ''POST'' = 80 # [79, 83, 84]" "U ''PATCH'' = 80 # [65, 84, 67, 72]"
  "U ''DELETE'' = 68 # [69, 76, 69, 84, 69]"
  by (simp_all add: U_def)

lemma reachesI:
  assumes "express_law ex" and "list_all plain_segment (s # ss)"
    and "first_segs route_segs (U m) (s # ss) = Some (r, vs)"
    and "m \<in> {''GET'', ''POST'', ''PATCH'', ''DELETE''}"
    and "path_of u = slash_path (U ''api'' # s # ss)"
    and "\<And>c w. call c w = customFetch c w (InStr u) (opts\<lparr>fo_method := Some (U m)\<rparr>)"
  shows "reaches ex call r vs"
  unfolding reaches_def
proof (intro allI impI)
  fix c w req out static
  assume "fc_base c = None" and "call c w = ([req], out)"
  moreover obtain x y where m: "U m = x # y" "to_upper (x # y) = U m" "U m \<noteq> U ''OPTIONS''"
    using assms(4) by (auto simp: to_upper_def U_def)
  ultimately have "ro_url req = u" "ro_method req = U m"
    using sent_same_origin [of c w u "opts\<lparr>fo_method := Some (U m)\<rparr>" req out x y] assms(6) by auto
  then show "app_target ex static None (ro_method req) (path_of (ro_url req)) = Api r vs"
    using api_dispatch [OF assms(1) m(3) assms(2,3)] assms(5) by simp
qed

lemma plain_not_param: "plain_segment s \<Longrightarrow> s \<noteq> []"
  by (simp add: plain_segment_def)

lemma segs_match_simps [simp]:
  "segs_match [] (s # ss) = None" "segs_match (p # ps) [] = None"
  by simp_all

lemma slash_paths:
  "slash_path [U ''api'', U ''healthz''] = U ''/api/healthz''"
  "slash_path [U ''api'', U ''bot'', U ''portfolio''] = U ''/api/bot/portfolio''"
  "slash_path [U ''api'', U ''bot'', U ''trades''] = U ''/api/bot/trades''"
  "slash_path [U ''api'', U ''bot'', U ''orders''] = U ''/api/bot/orders''"
  "slash_path [U ''api'', U ''bot'', U ''orders'', s] = U ''/api/bot/orders/'' @ s"
  "slash_path [U ''api'', U ''bot'', U ''strategies''] = U ''/api/bot/strategies''"
  "slash_path [U ''api'', U ''bot'', U ''strategies'', s] = U ''/api/bot/strategies/'' @ s"
  "slash_path [U ''api'', U ''bot'', U ''tokens''] = U ''/api/bot/tokens''"
  "slash_path [U ''api'', U ''bot'', U ''tokens'', s] = U ''/api/bot/tokens/'' @ s"
  "slash_path [U ''api'', U ''bot'', U ''metrics''] = U ''/api/bot/metrics''"
  "slash_path [U ''api'', U ''bot'', U ''status''] = U ''/api/bot/status''"
  by (simp_all add: slash_path_def U_def)

lemma dispatch_fixed:
  "first_segs route_segs (U ''GET'') [U ''healthz''] = Some (RHealthz, [])"
  "first_segs route_segs (U ''GET'') [U ''bot'', U ''portfolio''] = Some (RPortfolio, [])"
  "first_segs route_segs (U ''GET'') [U ''bot'', U ''trades''] = Some (RListTrades, [])"
  "first_segs route_segs (U ''POST'') [U ''bot'', U ''orders''] = Some (RPostOrder, [])"
  "first_segs route_segs (U ''GET'') [U ''bot'', U ''strategies''] = Some (RListStrategies, [])"
  "first_segs route_segs (U ''GET'') [U ''bot'', U ''tokens''] = Some (RListTokens, [])"
  "first_segs route_segs (U ''GET'') [U ''bot'', U ''metrics''] = Some (RMetrics, [])"
  "first_segs route_segs (U ''GET'') [U ''bot'', U ''status''] = Some (RStatus, [])"
  by (simp_all add: route_segs_def U_def to_lower_def starts_with_def)

lemma dispatch_param:
  assumes "s \<noteq> []"
  shows "first_segs route_segs (U ''GET'') [U ''bot'', U ''orders'', s] = Some (RGetOrder, [s])"
    and "first_segs route_segs (U ''DELETE'') [U ''bot'', U ''orders'', s] = Some (RDeleteOrder, [s])"
    and "first_segs route_segs (U ''PATCH'') [U ''bot'', U ''strategies'', s] = Some (RPatchStrategy, [s])"
    and "first_segs route_segs (U ''GET'') [U ''bot'', U ''tokens'', s] = Some (RGetToken, [s])"
  using assms by (simp_all add: route_segs_def U_def to_lower_def starts_with_def)

lemma trades_path: "path_of (getListTradesUrl params) = slash_path [U ''api'', U ''bot'', U ''trades'']"
proof -
  have p: "list_all plain_segment [U ''api'', U ''bot'', U ''trades'']" by simp
  have "U ''/api/bot/trades?'' @ q = slash_path [U ''api'', U ''bot'', U ''trades''] @ 63 # q" for q
    by (simp add: slash_path_def U_def)
  then show ?thesis using path_slash_query [OF p] path_slash [OF p]
    by (simp add: getListTradesUrl_def Let_def slash_paths(3))
qed

lemmas client_calls = call_method_def call_json_def healthCheck_def getPortfolio_def listTrades_def submitOrder_call_def
  getOrder_def cancelOrder_call_def listStrategies_def updateStrategy_def listTokens_def getToken_def getMetrics_def
  getBotStatus_def

lemmas client_urls = getHealthCheckUrl_def getGetPortfolioUrl_def getSubmitOrderUrl_def getGetOrderUrl_def
  getCancelOrderUrl_def getListStrategiesUrl_def getUpdateStrategyUrl_def getListTokensUrl_def getGetTokenUrl_def
  getGetMetricsUrl_def getGetBotStatusUrl_def

section \<open>Properties\<close>

lemma reaches_get:
  assumes "express_law ex" and "list_all plain_segment (s # ss)" and "first_segs route_segs (U m) (s # ss) = Some (r, vs)"
    and "m \<in> {''GET'', ''POST'', ''PATCH'', ''DELETE''}" and "path_of u = slash_path (U ''api'' # s # ss)"
  shows "reaches ex (call_method m u options) r vs"
  by (rule reachesI [OF assms, of _ "options_of options"]) (simp add: call_method_def)

lemma reaches_json:
  assumes "express_law ex" and "list_all plain_segment (s # ss)" and "first_segs route_segs (U m) (s # ss) = Some (r, vs)"
    and "m \<in> {''GET'', ''POST'', ''PATCH'', ''DELETE''}" and "path_of u = slash_path (U ''api'' # s # ss)"
  shows "reaches ex (call_json m u dat options) r vs"
proof (rule reachesI [OF assms])
  fix c w
  show "call_json m u dat options c w = customFetch c w (InStr u)
     ((options_of options\<lparr>fo_headers :=
         Some (fold (\<lambda>(k, v). put k v) (case fo_headers (options_of options) of None \<Rightarrow> [] | Some h \<Rightarrow> h)
           [(U ''Content-Type'', U ''application/json'')]), fo_body := map_option BText (json_stringify dat)\<rparr>)
       \<lparr>fo_method := Some (U m)\<rparr>)"
    by (cases "options_of options") (simp add: call_json_def)
qed

text \<open>C3: client and server agree on their interface. Every request that an operation of the generated
  client sends (whatever its options and arguments, with identifiers of letters, digits, \<open>-\<close> and \<open>_\<close>) is
  dispatched by the application, through all routers in their order, to the handler of that operation,
  which gets the identifier as its parameter.\<close>

theorem client_reaches_server:
  assumes "express_law ex" and "plain_segment s"
  shows "reaches ex (healthCheck options) RHealthz [] \<and>
    reaches ex (getPortfolio options) RPortfolio [] \<and>
    reaches ex (listTrades params options) RListTrades [] \<and>
    reaches ex (submitOrder_call body options) RPostOrder [] \<and>
    reaches ex (getOrder s options) RGetOrder [s] \<and>
    reaches ex (cancelOrder_call s options) RDeleteOrder [s] \<and>
    reaches ex (listStrategies options) RListStrategies [] \<and>
    reaches ex (updateStrategy s body options) RPatchStrategy [s] \<and>
    reaches ex (listTokens options) RListTokens [] \<and>
    reaches ex (getToken s options) RGetToken [s] \<and>
    reaches ex (getMetrics options) RMetrics [] \<and>
    reaches ex (getBotStatus options) RStatus []"
proof -
  have ne: "s \<noteq> []" using assms(2) by (rule plain_not_param)
  have path: "path_of (slash_path (U ''api'' # ss)) = slash_path (U ''api'' # ss)" if "list_all plain_segment ss" for ss
    by (rule path_slash) (use that in simp)
  note get = reaches_get [OF assms(1)] and json = reaches_json [OF assms(1)]
  have 1: "reaches ex (healthCheck options) RHealthz []"
    unfolding healthCheck_def by (rule get [OF _ dispatch_fixed(1)]) (simp_all add: client_urls slash_paths [symmetric] path)
  have 2: "reaches ex (getPortfolio options) RPortfolio []"
    unfolding getPortfolio_def by (rule get [OF _ dispatch_fixed(2)]) (simp_all add: client_urls slash_paths [symmetric] path)
  have 3: "reaches ex (listTrades params options) RListTrades []"
    unfolding listTrades_def by (rule get [OF _ dispatch_fixed(3)]) (simp_all add: trades_path)
  have 4: "reaches ex (submitOrder_call body options) RPostOrder []"
    unfolding submitOrder_call_def by (rule json [OF _ dispatch_fixed(4)]) (simp_all add: client_urls slash_paths [symmetric] path)
  have 5: "reaches ex (getOrder s options) RGetOrder [s]"
    unfolding getOrder_def by (rule get [OF _ dispatch_param(1)]) (simp_all add: client_urls slash_paths [symmetric] path ne assms)
  have 6: "reaches ex (cancelOrder_call s options) RDeleteOrder [s]"
    unfolding cancelOrder_call_def
    by (rule get [OF _ dispatch_param(2)]) (simp_all add: client_urls slash_paths [symmetric] path ne assms)
  have 7: "reaches ex (listStrategies options) RListStrategies []"
    unfolding listStrategies_def by (rule get [OF _ dispatch_fixed(5)]) (simp_all add: client_urls slash_paths [symmetric] path)
  have 8: "reaches ex (updateStrategy s body options) RPatchStrategy [s]"
    unfolding updateStrategy_def
    by (rule json [OF _ dispatch_param(3)]) (simp_all add: client_urls slash_paths [symmetric] path ne assms)
  have 9: "reaches ex (listTokens options) RListTokens []"
    unfolding listTokens_def by (rule get [OF _ dispatch_fixed(6)]) (simp_all add: client_urls slash_paths [symmetric] path)
  have 10: "reaches ex (getToken s options) RGetToken [s]"
    unfolding getToken_def by (rule get [OF _ dispatch_param(4)]) (simp_all add: client_urls slash_paths [symmetric] path ne assms)
  have 11: "reaches ex (getMetrics options) RMetrics []"
    unfolding getMetrics_def by (rule get [OF _ dispatch_fixed(7)]) (simp_all add: client_urls slash_paths [symmetric] path)
  have 12: "reaches ex (getBotStatus options) RStatus []"
    unfolding getBotStatus_def by (rule get [OF _ dispatch_fixed(8)]) (simp_all add: client_urls slash_paths [symmetric] path)
  show ?thesis using 1 2 3 4 5 6 7 8 9 10 11 12 by blast
qed

theorem client_reaches_server_witness:
  "reaches plain_express (getOrder (U ''o-1'') None) RGetOrder [U ''o-1''] \<and>
   (\<exists>req out. getOrder (U ''o-1'') None \<lparr>fc_base = None, fc_token = None\<rparr>
      \<lparr>w_href = Some, w_fetch = (\<lambda>_. Inl NotError)\<rparr> = ([req], out))"
proof -
  have "plain_segment (U ''o-1'')" by (simp add: plain_segment_def plain_unit_def is_digit_def U_def)
  from client_reaches_server [OF plain_express_law this]
  have "reaches plain_express (getOrder (U ''o-1'') None) RGetOrder [U ''o-1'']" by blast
  then show ?thesis
    by (simp add: getOrder_def call_method_def customFetch_def build_request_def applyBaseUrl_def resolveMethod_def
        options_of_def no_options_def add_defaults_def add_token_def json_text_def Let_def)
qed

end
