(* ===== verification/Contracts.thy ===== *)
theory Contracts
  imports BotRoutes Trades
begin

text \<open>
  The declared types of the HTTP interface, in the copies that the repository keeps of them: the
  interfaces of the React client (\<open>api.schemas.ts\<close>), the interfaces and the zod schemas of the shared
  library (\<open>lib/api-zod\<close>), and the interfaces that \<open>grpc-client.ts\<close> gives to the engine's messages. A
  declaration is a value of a small type language; \<open>has_type t v\<close> is TypeScript's structural reading of
  it (further members are allowed, an optional member may be missing but not \<open>null\<close>). What zod makes of
  a schema is a parameter with its documented laws. The lemmas relate the copies, and the answers that the
  server's handlers really send.
\<close>

section \<open>Types\<close>

datatype ty =
    TString
  | TNumber
  | TBoolean
  | TLit "string list"
  | TArray ty
  | TRecord
  | TObject "member list"
and member = Req string ty | Opt string ty

fun has_type :: "ty \<Rightarrow> jsval \<Rightarrow> bool"
  and has_members :: "member list \<Rightarrow> jsval \<Rightarrow> bool"
  and has_member :: "member \<Rightarrow> jsval \<Rightarrow> bool" where
  "has_type TString v = (case v of VStr _ \<Rightarrow> True | _ \<Rightarrow> False)"
| "has_type TNumber v = (case v of VNum _ \<Rightarrow> True | _ \<Rightarrow> False)"
| "has_type TBoolean v = (case v of VBool _ \<Rightarrow> True | _ \<Rightarrow> False)"
| "has_type (TLit ls) v = (case v of VStr s \<Rightarrow> s \<in> set (map U ls) | _ \<Rightarrow> False)"
| "has_type (TArray t) v = (case v of VArr xs \<Rightarrow> list_all (has_type t) xs | _ \<Rightarrow> False)"
| "has_type TRecord v = (case v of VObj ps \<Rightarrow> list_all (\<lambda>p. has_type TString (snd p)) ps | _ \<Rightarrow> False)"
| "has_type (TObject ms) v = (case v of VObj ps \<Rightarrow> has_members ms v | _ \<Rightarrow> False)"
| "has_members [] v = True"
| "has_members (m # ms) v = (has_member m v \<and> has_members ms v)"
| "has_member (Req k t) v = has_type t (get v k)"
| "has_member (Opt k t) v = (if get v k = VUndef then True else has_type t (get v k))"

fun members :: "ty \<Rightarrow> member list" where
  "members (TObject ms) = ms"
| "members t = []"

section \<open>The client's interfaces\<close>

definition HealthStatus :: ty where
  "HealthStatus = TObject
    [Req ''status'' TString]"

definition PortfolioSummary :: ty where
  "PortfolioSummary = TObject
    [Req ''totalValueSol'' TNumber, Req ''cashBalanceSol'' TNumber, Req ''positionsValueSol'' TNumber,
     Req ''dailyPnlSol'' TNumber, Req ''totalPnlSol'' TNumber, Req ''openPositionsCount'' TNumber,
     Req ''winRate'' TNumber]"

definition TradeSide :: ty where
  "TradeSide = TLit [''BUY'', ''SELL'']"

definition Trade :: ty where
  "Trade = TObject
    [Req ''id'' TString, Req ''mint'' TString, Opt ''tokenName'' TString, Opt ''tokenSymbol'' TString,
     Req ''side'' TradeSide, Req ''amountSol'' TNumber, Opt ''price'' TNumber, Req ''status'' TString,
     Req ''strategy'' TString, Opt ''signature'' TString, Opt ''pnlSol'' TNumber, Req ''createdAt'' TString,
     Opt ''executedAt'' TString]"

definition Order :: ty where
  "Order = TObject
    [Req ''id'' TString, Req ''mint'' TString, Req ''side'' TString, Req ''amount'' TNumber,
     Req ''status'' TString, Opt ''signature'' TString, Opt ''error'' TString, Req ''createdAt'' TString,
     Opt ''executedAt'' TString]"

definition SubmitOrderBodySide :: ty where
  "SubmitOrderBodySide = TLit [''BUY'', ''SELL'']"

definition SubmitOrderBodyOrderType :: ty where
  "SubmitOrderBodyOrderType = TLit [''MARKET'', ''LIMIT'']"

definition SubmitOrderBody :: ty where
  "SubmitOrderBody = TObject
    [Req ''tokenMint'' TString, Req ''side'' SubmitOrderBodySide, Req ''amountSol'' TNumber,
     Opt ''orderType'' SubmitOrderBodyOrderType, Opt ''slippageBps'' TNumber, Opt ''strategyName'' TString]"

definition OrderResult :: ty where
  "OrderResult = TObject
    [Req ''success'' TBoolean, Req ''orderId'' TString, Req ''message'' TString]"

definition CancelResult :: ty where
  "CancelResult = TObject
    [Req ''success'' TBoolean, Req ''message'' TString]"

definition StrategyStats :: ty where
  "StrategyStats = TObject
    [Req ''name'' TString, Req ''enabled'' TBoolean, Req ''tradesExecuted'' TNumber, Req ''tradesWon'' TNumber,
     Req ''winRate'' TNumber, Req ''totalPnlSol'' TNumber, Opt ''buyAmountSol'' TNumber]"

definition UpdateStrategyBody :: ty where
  "UpdateStrategyBody = TObject
    [Opt ''enabled'' TBoolean, Opt ''buyAmountSol'' TNumber, Opt ''slippageBps'' TNumber,
     Opt ''takeProfitPct'' TNumber, Opt ''stopLossPct'' TNumber, Opt ''trailingStopPct'' TNumber,
     Opt ''minLiquiditySol'' TNumber]"

definition TokenInfo :: ty where
  "TokenInfo = TObject
    [Req ''mint'' TString, Opt ''name'' TString, Opt ''symbol'' TString, Req ''price'' TNumber,
     Req ''liquiditySol'' TNumber, Req ''marketCapSol'' TNumber, Opt ''volume24hSol'' TNumber,
     Opt ''holderCount'' TNumber, Req ''bondingCurveProgress'' TNumber, Opt ''mlScore'' TNumber,
     Opt ''detectedAt'' TString, Opt ''actionTaken'' TString]"

definition BotMetrics :: ty where
  "BotMetrics = TObject
    [Req ''ordersSubmitted'' TNumber, Req ''ordersExecuted'' TNumber, Req ''ordersFailed'' TNumber,
     Req ''ordersPending'' TNumber, Opt ''jitoLanded'' TNumber, Opt ''sandwichAttacks'' TNumber,
     Opt ''avgExecutionMs'' TNumber, Opt ''rpcErrorRate'' TNumber, Opt ''tokensDiscovered'' TNumber,
     Opt ''tokensSniped'' TNumber]"

definition BotStatus :: ty where
  "BotStatus = TObject
    [Req ''running'' TBoolean, Req ''rustEngineConnected'' TBoolean, Req ''pythonEngineRunning'' TBoolean,
     Opt ''walletAddress'' TString, Opt ''solBalance'' TNumber, Opt ''activeStrategies'' (TArray TString),
     Opt ''environment'' TString, Opt ''uptime'' TNumber]"

definition ListTradesParams :: ty where
  "ListTradesParams = TObject
    [Opt ''limit'' TNumber, Opt ''strategy'' TString]"

section \<open>The engine's messages\<close>

definition rust_SubmitOrderRequest :: ty where
  "rust_SubmitOrderRequest = TObject
    [Req ''token_mint'' TString, Req ''order_type'' TString, Req ''side'' TString, Req ''amount'' TNumber,
     Req ''slippage_bps'' TNumber, Req ''strategy_name'' TString, Opt ''max_sol_cost'' TNumber,
     Opt ''min_sol_output'' TNumber, Opt ''metadata'' TRecord, Opt ''client_order_id'' TString,
     Opt ''trace_id'' TString]"

definition rust_SubmitOrderResponse :: ty where
  "rust_SubmitOrderResponse = TObject
    [Req ''order_id'' TString, Req ''success'' TBoolean, Req ''message'' TString]"

definition rust_OrderStatusResponse :: ty where
  "rust_OrderStatusResponse = TObject
    [Req ''order_id'' TString, Req ''status'' TString, Req ''signature'' TString, Req ''error'' TString,
     Opt ''executed_at'' TString]"

definition rust_TokenInfoResponse :: ty where
  "rust_TokenInfoResponse = TObject
    [Req ''mint'' TString, Req ''name'' TString, Req ''symbol'' TString, Req ''price'' TNumber,
     Req ''liquidity_sol'' TNumber, Req ''market_cap_sol'' TNumber, Req ''volume_24h_sol'' TNumber,
     Req ''holder_count'' TNumber, Req ''bonding_curve_progress'' TNumber]"

definition rust_PortfolioSummaryResponse :: ty where
  "rust_PortfolioSummaryResponse = TObject
    [Req ''total_value_sol'' TNumber, Req ''cash_balance_sol'' TNumber, Req ''positions_value_sol'' TNumber,
     Req ''daily_pnl_sol'' TNumber, Req ''total_pnl_sol'' TNumber, Req ''open_positions_count'' TNumber,
     Req ''win_rate'' TNumber]"

definition rust_OrderUpdate :: ty where
  "rust_OrderUpdate = TObject
    [Req ''order_id'' TString, Opt ''token_mint'' TString, Req ''status'' TString, Opt ''signature'' TString,
     Opt ''error'' TString, Opt ''executed_at'' TString, Opt ''executed_price'' TNumber,
     Opt ''executed_amount'' TNumber]"

text \<open>The type that each method of \<open>grpcBot\<close> promises for its answer.\<close>

definition reply_type :: "string \<Rightarrow> ty" where
  "reply_type m =
     (if m = ''SubmitOrder'' then rust_SubmitOrderResponse
      else if m = ''CancelOrder'' then TObject [Req ''success'' TBoolean, Req ''message'' TString]
      else if m = ''GetOrderStatus'' then rust_OrderStatusResponse
      else if m = ''GetTokenInfo'' then rust_TokenInfoResponse
      else if m = ''GetPortfolioSummary'' then rust_PortfolioSummaryResponse
      else TObject [])"

section \<open>The shared library's interfaces\<close>

definition zt_SubmitOrderBodyOrderType :: ty where
  "zt_SubmitOrderBodyOrderType = TLit [''MARKET'', ''LIMIT'']"

definition zt_SubmitOrderBodySide :: ty where
  "zt_SubmitOrderBodySide = TLit [''BUY'', ''SELL'']"

definition zt_TradeSide :: ty where
  "zt_TradeSide = TLit [''BUY'', ''SELL'']"

definition zt_BotMetrics :: ty where
  "zt_BotMetrics = TObject
    [Req ''ordersSubmitted'' TNumber, Req ''ordersExecuted'' TNumber, Req ''ordersFailed'' TNumber,
     Req ''ordersPending'' TNumber, Opt ''jitoLanded'' TNumber, Opt ''sandwichAttacks'' TNumber,
     Opt ''avgExecutionMs'' TNumber, Opt ''rpcErrorRate'' TNumber, Opt ''tokensDiscovered'' TNumber,
     Opt ''tokensSniped'' TNumber]"

definition zt_BotStatus :: ty where
  "zt_BotStatus = TObject
    [Req ''running'' TBoolean, Req ''rustEngineConnected'' TBoolean, Req ''pythonEngineRunning'' TBoolean,
     Opt ''walletAddress'' TString, Opt ''solBalance'' TNumber, Opt ''activeStrategies'' (TArray TString),
     Opt ''environment'' TString, Opt ''uptime'' TNumber]"

definition zt_CancelResult :: ty where
  "zt_CancelResult = TObject
    [Req ''success'' TBoolean, Req ''message'' TString]"

definition zt_HealthStatus :: ty where
  "zt_HealthStatus = TObject
    [Req ''status'' TString]"

definition zt_ListTradesParams :: ty where
  "zt_ListTradesParams = TObject
    [Opt ''limit'' TNumber, Opt ''strategy'' TString]"

definition zt_Order :: ty where
  "zt_Order = TObject
    [Req ''id'' TString, Req ''mint'' TString, Req ''side'' TString, Req ''amount'' TNumber,
     Req ''status'' TString, Opt ''signature'' TString, Opt ''error'' TString, Req ''createdAt'' TString,
     Opt ''executedAt'' TString]"

definition zt_OrderResult :: ty where
  "zt_OrderResult = TObject
    [Req ''success'' TBoolean, Req ''orderId'' TString, Req ''message'' TString]"

definition zt_PortfolioSummary :: ty where
  "zt_PortfolioSummary = TObject
    [Req ''totalValueSol'' TNumber, Req ''cashBalanceSol'' TNumber, Req ''positionsValueSol'' TNumber,
     Req ''dailyPnlSol'' TNumber, Req ''totalPnlSol'' TNumber, Req ''openPositionsCount'' TNumber,
     Req ''winRate'' TNumber]"

definition zt_StrategyStats :: ty where
  "zt_StrategyStats = TObject
    [Req ''name'' TString, Req ''enabled'' TBoolean, Req ''tradesExecuted'' TNumber, Req ''tradesWon'' TNumber,
     Req ''winRate'' TNumber, Req ''totalPnlSol'' TNumber, Opt ''buyAmountSol'' TNumber]"

definition zt_SubmitOrderBody :: ty where
  "zt_SubmitOrderBody = TObject
    [Req ''tokenMint'' TString, Req ''side'' zt_SubmitOrderBodySide, Req ''amountSol'' TNumber,
     Opt ''orderType'' zt_SubmitOrderBodyOrderType, Opt ''slippageBps'' TNumber, Opt ''strategyName'' TString]"

definition zt_TokenInfo :: ty where
  "zt_TokenInfo = TObject
    [Req ''mint'' TString, Opt ''name'' TString, Opt ''symbol'' TString, Req ''price'' TNumber,
     Req ''liquiditySol'' TNumber, Req ''marketCapSol'' TNumber, Opt ''volume24hSol'' TNumber,
     Opt ''holderCount'' TNumber, Req ''bondingCurveProgress'' TNumber]"

definition zt_Trade :: ty where
  "zt_Trade = TObject
    [Req ''id'' TString, Req ''mint'' TString, Opt ''tokenName'' TString, Opt ''tokenSymbol'' TString,
     Req ''side'' zt_TradeSide, Req ''amountSol'' TNumber, Opt ''price'' TNumber, Req ''status'' TString,
     Req ''strategy'' TString, Opt ''signature'' TString, Opt ''pnlSol'' TNumber, Req ''createdAt'' TString,
     Opt ''executedAt'' TString]"

definition zt_UpdateStrategyBody :: ty where
  "zt_UpdateStrategyBody = TObject
    [Opt ''enabled'' TBoolean, Opt ''buyAmountSol'' TNumber, Opt ''slippageBps'' TNumber]"

section \<open>The shared library's zod schemas\<close>

datatype zschema =
    ZString
  | ZNumber
  | ZBoolean
  | ZCoerceNumber
  | ZCoerceString
  | ZEnum "string list"
  | ZArray zschema
  | ZOptional zschema
  | ZDefault zschema jsval
  | ZObject "(string \<times> zschema) list"

definition HealthCheckResponse :: zschema where
  "HealthCheckResponse = ZObject
    [(''status'', ZString)]"

definition GetPortfolioResponse :: zschema where
  "GetPortfolioResponse = ZObject
    [(''totalValueSol'', ZNumber), (''cashBalanceSol'', ZNumber), (''positionsValueSol'', ZNumber),
     (''dailyPnlSol'', ZNumber), (''totalPnlSol'', ZNumber), (''openPositionsCount'', ZNumber),
     (''winRate'', ZNumber)]"

definition listTradesQueryLimitDefault :: jsval where
  "listTradesQueryLimitDefault = VI 50"

definition ListTradesQueryParams :: zschema where
  "ListTradesQueryParams = ZObject
    [(''limit'', ZDefault ZCoerceNumber listTradesQueryLimitDefault), (''strategy'', ZOptional ZCoerceString)]"

definition ListTradesResponseItem :: zschema where
  "ListTradesResponseItem = ZObject
    [(''id'', ZString), (''mint'', ZString), (''tokenName'', ZOptional ZString),
     (''tokenSymbol'', ZOptional ZString), (''side'', ZEnum [''BUY'', ''SELL'']), (''amountSol'', ZNumber),
     (''price'', ZOptional ZNumber), (''status'', ZString), (''strategy'', ZString),
     (''signature'', ZOptional ZString), (''pnlSol'', ZOptional ZNumber), (''createdAt'', ZString),
     (''executedAt'', ZOptional ZString)]"

definition ListTradesResponse :: zschema where
  "ListTradesResponse = ZArray ListTradesResponseItem"

definition submitOrderBodyOrderTypeDefault :: jsval where
  "submitOrderBodyOrderTypeDefault = S ''MARKET''"

definition submitOrderBodySlippageBpsDefault :: jsval where
  "submitOrderBodySlippageBpsDefault = VI 100"

definition submitOrderBodyStrategyNameDefault :: jsval where
  "submitOrderBodyStrategyNameDefault = S ''manual''"

definition SubmitOrderBody_zod :: zschema where
  "SubmitOrderBody_zod = ZObject
    [(''tokenMint'', ZString), (''side'', ZEnum [''BUY'', ''SELL'']), (''amountSol'', ZNumber),
     (''orderType'', ZDefault (ZEnum [''MARKET'', ''LIMIT'']) submitOrderBodyOrderTypeDefault),
     (''slippageBps'', ZDefault ZNumber submitOrderBodySlippageBpsDefault),
     (''strategyName'', ZDefault ZString submitOrderBodyStrategyNameDefault)]"

definition SubmitOrderResponse :: zschema where
  "SubmitOrderResponse = ZObject
    [(''success'', ZBoolean), (''orderId'', ZString), (''message'', ZString)]"

definition GetOrderParams :: zschema where
  "GetOrderParams = ZObject
    [(''orderId'', ZCoerceString)]"

definition GetOrderResponse :: zschema where
  "GetOrderResponse = ZObject
    [(''id'', ZString), (''mint'', ZString), (''side'', ZString), (''amount'', ZNumber), (''status'', ZString),
     (''signature'', ZOptional ZString), (''error'', ZOptional ZString), (''createdAt'', ZString),
     (''executedAt'', ZOptional ZString)]"

definition CancelOrderParams :: zschema where
  "CancelOrderParams = ZObject
    [(''orderId'', ZCoerceString)]"

definition CancelOrderResponse :: zschema where
  "CancelOrderResponse = ZObject
    [(''success'', ZBoolean), (''message'', ZString)]"

definition ListStrategiesResponseItem :: zschema where
  "ListStrategiesResponseItem = ZObject
    [(''name'', ZString), (''enabled'', ZBoolean), (''tradesExecuted'', ZNumber), (''tradesWon'', ZNumber),
     (''winRate'', ZNumber), (''totalPnlSol'', ZNumber), (''buyAmountSol'', ZOptional ZNumber)]"

definition ListStrategiesResponse :: zschema where
  "ListStrategiesResponse = ZArray ListStrategiesResponseItem"

definition UpdateStrategyParams :: zschema where
  "UpdateStrategyParams = ZObject
    [(''strategyName'', ZCoerceString)]"

definition UpdateStrategyBody_zod :: zschema where
  "UpdateStrategyBody_zod = ZObject
    [(''enabled'', ZOptional ZBoolean), (''buyAmountSol'', ZOptional ZNumber),
     (''slippageBps'', ZOptional ZNumber)]"

definition UpdateStrategyResponse :: zschema where
  "UpdateStrategyResponse = ZObject
    [(''name'', ZString), (''enabled'', ZBoolean), (''tradesExecuted'', ZNumber), (''tradesWon'', ZNumber),
     (''winRate'', ZNumber), (''totalPnlSol'', ZNumber), (''buyAmountSol'', ZOptional ZNumber)]"

definition ListTokensResponseItem :: zschema where
  "ListTokensResponseItem = ZObject
    [(''mint'', ZString), (''name'', ZOptional ZString), (''symbol'', ZOptional ZString), (''price'', ZNumber),
     (''liquiditySol'', ZNumber), (''marketCapSol'', ZNumber), (''volume24hSol'', ZOptional ZNumber),
     (''holderCount'', ZOptional ZNumber), (''bondingCurveProgress'', ZNumber)]"

definition ListTokensResponse :: zschema where
  "ListTokensResponse = ZArray ListTokensResponseItem"

definition GetTokenParams :: zschema where
  "GetTokenParams = ZObject
    [(''mint'', ZCoerceString)]"

definition GetTokenResponse :: zschema where
  "GetTokenResponse = ZObject
    [(''mint'', ZString), (''name'', ZOptional ZString), (''symbol'', ZOptional ZString), (''price'', ZNumber),
     (''liquiditySol'', ZNumber), (''marketCapSol'', ZNumber), (''volume24hSol'', ZOptional ZNumber),
     (''holderCount'', ZOptional ZNumber), (''bondingCurveProgress'', ZNumber)]"

definition GetMetricsResponse :: zschema where
  "GetMetricsResponse = ZObject
    [(''ordersSubmitted'', ZNumber), (''ordersExecuted'', ZNumber), (''ordersFailed'', ZNumber),
     (''ordersPending'', ZNumber), (''jitoLanded'', ZOptional ZNumber),
     (''sandwichAttacks'', ZOptional ZNumber), (''avgExecutionMs'', ZOptional ZNumber),
     (''rpcErrorRate'', ZOptional ZNumber), (''tokensDiscovered'', ZOptional ZNumber),
     (''tokensSniped'', ZOptional ZNumber)]"

definition GetBotStatusResponse :: zschema where
  "GetBotStatusResponse = ZObject
    [(''running'', ZBoolean), (''rustEngineConnected'', ZBoolean), (''pythonEngineRunning'', ZBoolean),
     (''walletAddress'', ZOptional ZString), (''solBalance'', ZOptional ZNumber),
     (''activeStrategies'', ZOptional (ZArray ZString)), (''environment'', ZOptional ZString),
     (''uptime'', ZOptional ZNumber)]"

section \<open>Reading types off values\<close>

lemmas client_types = HealthStatus_def PortfolioSummary_def TradeSide_def Trade_def Order_def SubmitOrderBodySide_def
  SubmitOrderBodyOrderType_def SubmitOrderBody_def OrderResult_def CancelResult_def StrategyStats_def
  UpdateStrategyBody_def TokenInfo_def BotMetrics_def BotStatus_def ListTradesParams_def

lemmas library_types = zt_HealthStatus_def zt_PortfolioSummary_def zt_TradeSide_def zt_Trade_def zt_Order_def
  zt_SubmitOrderBodySide_def zt_SubmitOrderBodyOrderType_def zt_SubmitOrderBody_def zt_OrderResult_def
  zt_CancelResult_def zt_StrategyStats_def zt_UpdateStrategyBody_def zt_TokenInfo_def zt_BotMetrics_def
  zt_BotStatus_def zt_ListTradesParams_def

lemmas engine_types = reply_type_def rust_SubmitOrderResponse_def rust_OrderStatusResponse_def
  rust_TokenInfoResponse_def rust_PortfolioSummaryResponse_def

lemma has_type_obj [simp]:
  "has_type (TObject ms) (obj ps) = has_members ms (obj ps)" "has_type (TObject ms) (VObj qs) = has_members ms (VObj qs)"
  by (simp_all add: obj_def)

declare has_type.simps(1-3,5,7) [simp del]

lemma base_types [simp]:
  "has_type TString (VStr s)" "has_type TNumber (VNum n)" "has_type TBoolean (VBool b)"
  "\<not> has_type t VUndef" "\<not> has_type TString VNull" "\<not> has_type TNumber VNull" "\<not> has_type TNumber (VStr s)"
  by (simp_all add: has_type.simps(1-3)) (cases t; simp add: has_type.simps)

lemma type_elims:
  "has_type TString v \<longleftrightarrow> (\<exists>s. v = VStr s)" "has_type TNumber v \<longleftrightarrow> (\<exists>n. v = VNum n)"
  "has_type TBoolean v \<longleftrightarrow> (\<exists>b. v = VBool b)"
  by (cases v; simp add: has_type.simps)+

definition finite_num :: "jsnum \<Rightarrow> bool" where
  "finite_num n \<longleftrightarrow> (case n of Fin _ \<Rightarrow> True | _ \<Rightarrow> False)"

lemma finite_num_iff: "finite_num n \<longleftrightarrow> (\<exists>q. n = Fin q)"
  by (cases n) (simp_all add: finite_num_def)

lemma finite_num_Fin [simp]: "finite_num (Fin q)"
  by (simp add: finite_num_def)

lemma wire_num: "wire (VNum n) = (if finite_num n then VNum n else VNull)"
  by (cases n) (simp_all add: finite_num_def)

lemma wire_opt:
  "wire (js_str_opt s) = (case s of None \<Rightarrow> VNull | Some t \<Rightarrow> VStr t)"
  "wire (js_num_opt n) = (case n of None \<Rightarrow> VNull | Some x \<Rightarrow> if finite_num x then VNum x else VNull)"
  "wire (js_int_opt i) = (case i of None \<Rightarrow> VNull | Some x \<Rightarrow> VI x)"
  "wire (js_date_opt d) = (case d of None \<Rightarrow> VNull | Some t \<Rightarrow> VStr (iso_of_ms t))"
  by (simp_all add: js_str_opt_def js_num_opt_def js_int_opt_def js_date_opt_def of_opt_def wire_num del: wire.simps(4) split: option.split)

lemma opt_defined [simp]:
  "js_str_opt s \<noteq> VUndef" "js_num_opt n \<noteq> VUndef" "js_int_opt i \<noteq> VUndef" "js_date_opt d \<noteq> VUndef"
  by (simp_all add: js_str_opt_def js_num_opt_def js_int_opt_def js_date_opt_def of_opt_def split: option.split)

lemma has_type_S [simp]: "has_type TString (S s)" "\<not> has_type TNumber (S s)"
  by (simp_all add: S_def)

section \<open>The copies agree\<close>

text \<open>What zod documents of the input type of a schema (\<open>z.input\<close>): a member is optional when its schema is
  optional or has a default. Nothing is said of coercing schemas.\<close>

definition zod_member :: "(zschema \<Rightarrow> ty) \<Rightarrow> string \<times> zschema \<Rightarrow> member" where
  "zod_member f p =
     (case snd p of ZOptional z \<Rightarrow> Opt (fst p) (f z) | ZDefault z d \<Rightarrow> Opt (fst p) (f z) | z \<Rightarrow> Req (fst p) (f z))"

definition zod_law :: "(zschema \<Rightarrow> ty) \<Rightarrow> bool" where
  "zod_law f \<longleftrightarrow> f ZString = TString \<and> f ZNumber = TNumber \<and> f ZBoolean = TBoolean \<and>
     (\<forall>ls. f (ZEnum ls) = TLit ls) \<and> (\<forall>z. f (ZArray z) = TArray (f z)) \<and>
     (\<forall>ms. f (ZObject ms) = TObject (map (zod_member f) ms))"

lemmas zod_schemas = HealthCheckResponse_def GetPortfolioResponse_def ListTradesResponseItem_def ListTradesResponse_def
  SubmitOrderBody_zod_def SubmitOrderResponse_def GetOrderResponse_def CancelOrderResponse_def
  ListStrategiesResponseItem_def ListStrategiesResponse_def UpdateStrategyBody_zod_def UpdateStrategyResponse_def
  ListTokensResponseItem_def ListTokensResponse_def GetTokenResponse_def GetMetricsResponse_def GetBotStatusResponse_def

lemma has_members_append [simp]: "has_members (ms @ ns) v \<longleftrightarrow> has_members ms v \<and> has_members ns v"
  by (induction ms) auto

lemma has_type_prefix: "has_type (TObject (ms @ ns)) v \<Longrightarrow> has_type (TObject ms) v"
  by (cases v) (auto simp: has_type.simps(7))

lemma zod_items:
  assumes "zod_law f"
  shows "f ListTradesResponseItem = Trade" "f ListStrategiesResponseItem = StrategyStats"
    "f ListTokensResponseItem = zt_TokenInfo"
  using assms by (simp_all add: zod_law_def zod_member_def zod_schemas client_types zt_TokenInfo_def)

lemma zod_copies:
  assumes "zod_law f"
  shows "[f HealthCheckResponse, f GetPortfolioResponse, f ListTradesResponse, f SubmitOrderBody_zod, f SubmitOrderResponse,
      f GetOrderResponse, f CancelOrderResponse, f ListStrategiesResponse, f UpdateStrategyResponse, f GetMetricsResponse,
      f GetBotStatusResponse, f GetTokenResponse, f ListTokensResponse, f UpdateStrategyBody_zod] =
     [HealthStatus, PortfolioSummary, TArray Trade, SubmitOrderBody, OrderResult, Order, CancelResult,
      TArray StrategyStats, StrategyStats, BotMetrics, BotStatus, zt_TokenInfo, TArray zt_TokenInfo, zt_UpdateStrategyBody]"
  using assms by (simp add: zod_law_def zod_member_def zod_schemas client_types zt_TokenInfo_def zt_UpdateStrategyBody_def)

lemma interface_copies:
  "[zt_HealthStatus, zt_PortfolioSummary, zt_Trade, zt_SubmitOrderBody, zt_OrderResult, zt_Order, zt_CancelResult,
    zt_StrategyStats, zt_BotMetrics, zt_BotStatus, zt_ListTradesParams] =
   [HealthStatus, PortfolioSummary, Trade, SubmitOrderBody, OrderResult, Order, CancelResult,
    StrategyStats, BotMetrics, BotStatus, ListTradesParams]"
  by (simp add: client_types library_types)

lemma interface_differences:
  "TokenInfo = TObject (members zt_TokenInfo @
    [Opt ''mlScore'' TNumber, Opt ''detectedAt'' TString, Opt ''actionTaken'' TString])"
  "UpdateStrategyBody = TObject (members zt_UpdateStrategyBody @
    [Opt ''takeProfitPct'' TNumber, Opt ''stopLossPct'' TNumber, Opt ''trailingStopPct'' TNumber,
     Opt ''minLiquiditySol'' TNumber])"
  "zt_TokenInfo = TObject (members zt_TokenInfo)" "zt_UpdateStrategyBody = TObject (members zt_UpdateStrategyBody)"
  by (simp_all add: client_types library_types)

lemma interface_subtypes:
  "has_type TokenInfo v \<Longrightarrow> has_type zt_TokenInfo v" "has_type UpdateStrategyBody v \<Longrightarrow> has_type zt_UpdateStrategyBody v"
  using has_type_prefix interface_differences by metis+

lemma server_defaults:
  assumes "nullish (get b ''orderType'')" "nullish (get b ''slippageBps'')" "nullish (get b ''strategyName'')"
  shows "map (get (rust_order b c t)) [''order_type'', ''slippage_bps'', ''strategy_name''] =
      [submitOrderBodyOrderTypeDefault, submitOrderBodySlippageBpsDefault, submitOrderBodyStrategyNameDefault]"
  using assms by (simp add: rust_order_def submitOrderBodyOrderTypeDefault_def submitOrderBodySlippageBpsDefault_def
      submitOrderBodyStrategyNameDefault_def)

text \<open>The copies of the interface agree, except for two types. Every zod schema of a body and every
  interface of the shared library describes the same type as the client's interface; but the library's token
  lacks the client's last three members and its strategy update the last four, so a client's value still has the
  library's type, and what it has there in addition is not described.\<close>

theorem contracts_agree:
  assumes "zod_law f"
  shows "[f HealthCheckResponse, f GetPortfolioResponse, f ListTradesResponse, f SubmitOrderBody_zod, f SubmitOrderResponse,
      f GetOrderResponse, f CancelOrderResponse, f ListStrategiesResponse, f UpdateStrategyResponse, f GetMetricsResponse,
      f GetBotStatusResponse, f GetTokenResponse, f ListTokensResponse, f UpdateStrategyBody_zod] =
     [HealthStatus, PortfolioSummary, TArray Trade, SubmitOrderBody, OrderResult, Order, CancelResult,
      TArray StrategyStats, StrategyStats, BotMetrics, BotStatus, zt_TokenInfo, TArray zt_TokenInfo, zt_UpdateStrategyBody] \<and>
     [zt_HealthStatus, zt_PortfolioSummary, zt_Trade, zt_SubmitOrderBody, zt_OrderResult, zt_Order, zt_CancelResult,
      zt_StrategyStats, zt_BotMetrics, zt_BotStatus, zt_ListTradesParams] =
     [HealthStatus, PortfolioSummary, Trade, SubmitOrderBody, OrderResult, Order, CancelResult,
      StrategyStats, BotMetrics, BotStatus, ListTradesParams] \<and>
     TokenInfo = TObject (members zt_TokenInfo @
      [Opt ''mlScore'' TNumber, Opt ''detectedAt'' TString, Opt ''actionTaken'' TString]) \<and>
     UpdateStrategyBody = TObject (members zt_UpdateStrategyBody @
      [Opt ''takeProfitPct'' TNumber, Opt ''stopLossPct'' TNumber, Opt ''trailingStopPct'' TNumber,
       Opt ''minLiquiditySol'' TNumber]) \<and>
     (has_type TokenInfo v \<longrightarrow> has_type zt_TokenInfo v) \<and> (has_type UpdateStrategyBody v \<longrightarrow> has_type zt_UpdateStrategyBody v)"
  by (intro conjI impI zod_copies [OF assms] interface_copies interface_differences interface_subtypes)

text \<open>The input type that zod's documentation gives, as a function.\<close>

fun zod_input :: "zschema \<Rightarrow> ty" where
  "zod_input ZString = TString"
| "zod_input ZNumber = TNumber"
| "zod_input ZBoolean = TBoolean"
| "zod_input (ZEnum ls) = TLit ls"
| "zod_input (ZArray z) = TArray (zod_input z)"
| "zod_input (ZObject ms) = TObject (map (\<lambda>p. case snd p of
      ZOptional z \<Rightarrow> Opt (fst p) (zod_input z) | ZDefault z d \<Rightarrow> Opt (fst p) (zod_input z)
    | _ \<Rightarrow> Req (fst p) (zod_input (snd p))) ms)"
| "zod_input z = TString"

lemma zod_input_law: "zod_law zod_input"
  by (auto simp: zod_law_def zod_member_def split: zschema.split)

theorem contracts_agree_witness:
  "zod_input SubmitOrderBody_zod = SubmitOrderBody \<and> zod_input GetOrderResponse = Order \<and>
   zod_input GetTokenResponse = zt_TokenInfo \<and> zod_input GetTokenResponse \<noteq> TokenInfo \<and>
   has_type zt_UpdateStrategyBody (obj [(''takeProfitPct'', VI 50)])"
proof -
  have "has_type UpdateStrategyBody (obj [(''takeProfitPct'', VI 50)])" by (simp add: UpdateStrategyBody_def)
  with contracts_agree [OF zod_input_law, of "obj [(''takeProfitPct'', VI 50)]"] show ?thesis
    by (auto simp: zt_TokenInfo_def TokenInfo_def)
qed

section \<open>What the server answers\<close>

definition finite_val :: "jsval \<Rightarrow> bool" where
  "finite_val v = (case v of VNum n \<Rightarrow> finite_num n | _ \<Rightarrow> True)"

lemma base_type_wire [simp]:
  "has_type TString v \<Longrightarrow> has_type TString (wire v)" "has_type TBoolean v \<Longrightarrow> has_type TBoolean (wire v)"
  "has_type TNumber v \<Longrightarrow> finite_val v \<Longrightarrow> has_type TNumber (wire v)"
  by (auto simp: type_elims wire_num finite_val_def simp del: wire.simps(4))

lemma typed_defined [simp]: "has_type t v \<Longrightarrow> v \<noteq> VUndef"
  by auto

text \<open>The engine keeps the types that \<open>grpc-client.ts\<close> declares, and its numbers are finite.\<close>

definition rust_typed :: "engines \<Rightarrow> bool" where
  "rust_typed w \<longleftrightarrow> (\<forall>h m r ps. rust w h m r = Inr ps \<longrightarrow>
     has_type (reply_type m) (VObj ps) \<and> (\<forall>k. finite_val (get (VObj ps) k)))"

definition ok_type :: "ty \<Rightarrow> response \<Rightarrow> bool" where
  "ok_type t r \<longleftrightarrow> (if r_status r = 200 then has_type t (wire (r_body r)) else True)"

lemma ok_type_simps [simp]:
  "ok_type t (ok v) = has_type t (wire v)" "s \<noteq> 200 \<Longrightarrow> ok_type t (reply s v)" "s \<noteq> 200 \<Longrightarrow> ok_type t (err_reply s m)"
  by (simp_all add: ok_type_def)

lemma rust_reply_typed:
  assumes "rust_typed w" and "answer (callUnary w m r) h = Inr g"
  shows "has_type (reply_type m) g \<and> (\<forall>k. finite_val (get g k))"
  using assms by (auto simp: answer_callUnary rust_typed_def)

lemma has_members_simps:
  "has_members [] v" "has_members (Req k t # ms) v \<longleftrightarrow> has_type t (get v k) \<and> has_members ms v"
  "has_members (Opt k t # ms) v \<longleftrightarrow> (get v k = VUndef \<or> has_type t (get v k)) \<and> has_members ms v"
  by auto

declare has_members.simps [simp del] has_member.simps [simp del] has_members_simps [simp]

lemma object_members: "has_type t v \<Longrightarrow> has_members (members t) v"
  by (cases t; cases v) (auto simp: has_type.simps)

text \<open>A member as the client reads it.\<close>

definition sent_val :: "jsval \<Rightarrow> jsval" where
  "sent_val v = (if v = VUndef then VUndef else wire v)"

lemma wire_defined [simp]: "wire v \<noteq> VUndef"
  by (cases v) (auto split: jsnum.split)

lemma sent_val_simps [simp]:
  "sent_val VUndef = VUndef" "sent_val (VStr s) = VStr s" "sent_val (VBool b) = VBool b" "sent_val (S l) = S l"
  "finite_num n \<Longrightarrow> sent_val (VNum n) = VNum n" "sent_val v = VUndef \<longleftrightarrow> v = VUndef"
  by (auto simp: sent_val_def wire_num simp del: wire.simps(4))

lemma sent_val_typed [simp]:
  "has_type TString v \<Longrightarrow> has_type TString (sent_val v)" "has_type TBoolean v \<Longrightarrow> has_type TBoolean (sent_val v)"
  "has_type TNumber v \<Longrightarrow> finite_val v \<Longrightarrow> has_type TNumber (sent_val v)"
  by (auto simp: sent_val_def)

lemma sent_val_Nil [simp]: "has_type (TArray t) (sent_val (VArr []))"
  by (simp add: sent_val_def has_type.simps)

lemma get_wire:
  assumes "distinct (map fst ps)"
  shows "get (wire (obj ps)) k = sent_val (get (obj ps) k)"
  using assms
proof (induction ps)
  case Nil
  then show ?case by (simp add: obj_def get_def lookup_def)
next
  case (Cons p ps)
  have "get (obj ps) (fst p) = VUndef" using Cons.prems by (induction ps) auto
  then show ?case using Cons by (cases p) (auto simp: wire_obj sent_val_def)
qed

lemma has_type_wire:
  "distinct (map fst ps) \<Longrightarrow> has_type (TObject ms) (wire (obj ps)) \<longleftrightarrow> has_members ms (wire (obj ps))"
  by (simp add: wire_obj)

lemmas wire_types = has_type_wire get_wire

lemma portfolio_typed:
  assumes "has_type (reply_type ''GetPortfolioSummary'') g" and "\<And>k. finite_val (get g k)"
  shows "has_type PortfolioSummary (wire (portfolio_rust g))"
  using object_members [OF assms(1)] by (simp add: assms(2) PortfolioSummary_def portfolio_rust_def wire_types engine_types)

lemma token_typed:
  assumes "has_type (reply_type ''GetTokenInfo'') g" and "\<And>k. finite_val (get g k)"
  shows "has_type TokenInfo (wire (token_rust g))"
  using object_members [OF assms(1)] by (simp add: assms(2) TokenInfo_def token_rust_def wire_types engine_types)

lemma order_reply_typed:
  assumes "has_type (reply_type ''SubmitOrder'') g"
  shows "has_type OrderResult (wire (obj [(''orderId'', get g ''order_id''), (''success'', get g ''success''),
    (''message'', get g ''message''), (''clientOrderId'', c), (''traceId'', t), (''source'', S ''rust'')]))"
  using object_members [OF assms] by (simp add: OrderResult_def wire_types engine_types)

lemma cancel_reply_typed:
  assumes "has_type (reply_type ''CancelOrder'') g"
  shows "has_type CancelResult (wire (obj [(''success'', get g ''success''), (''message'', get g ''message''),
    (''source'', S ''rust'')]))"
  using object_members [OF assms] by (simp add: CancelResult_def wire_types engine_types)

lemma static_replies_typed:
  "has_type PortfolioSummary (wire portfolio_mock)" "has_type BotMetrics (wire metrics_mock)"
  "finite_num (proc_uptime w) \<Longrightarrow> has_type BotStatus (wire (status_json w r False []))"
  "has_type CancelResult (wire (obj [(''success'', VBool True), (''message'', S m)]))"
  "has_type OrderResult (wire (obj [(''success'', VBool False), (''orderId'', S i), (''message'', S m), (''traceId'', t)]))"
proof -
  have "finite_num (fl (95 / 10))" "finite_num (fl (5 / 10))"
    using fl_between [of 0 "95 / 10" 10] fl_between [of 0 "5 / 10" 1] by auto
  then show "has_type PortfolioSummary (wire portfolio_mock)"
    by (simp add: portfolio_mock_def wire_types PortfolioSummary_def)
qed (simp_all add: metrics_mock_def status_json_def wire_types BotMetrics_def BotStatus_def CancelResult_def OrderResult_def)

lemma patched_typed:
  assumes "has_type UpdateStrategyBody b"
  shows "has_type StrategyStats (wire (obj
     [(''name'', VStr n), (''enabled'', nvl (get b ''enabled'') (VBool True)),
      (''tradesExecuted'', VI 0), (''tradesWon'', VI 0), (''winRate'', VI 0), (''totalPnlSol'', VI 0)]))"
  using object_members [OF assms]
  by (auto simp: UpdateStrategyBody_def wire_types StrategyStats_def type_elims)

text \<open>C27: seven answers have the type that the client declares for them: the portfolio, a token, the metrics, the
  bot's status, a submitted and a cancelled order, and a strategy patched with a body of its declared type, as long as
  the answers of Rust keep the types declared for the engine and hold finite numbers, and Python is down.\<close>

theorem answers_conform:
  assumes "rust_typed w" and "python_down w" and "finite_num (proc_uptime w)"
  shows "ok_type PortfolioSummary (answer (get_portfolio w) h) \<and> ok_type TokenInfo (answer (get_token w mint) h) \<and>
    ok_type BotMetrics (answer (get_metrics w) h) \<and> ok_type BotStatus (answer (get_status w) h) \<and>
    ok_type OrderResult (answer (post_order w b) h) \<and> ok_type CancelResult (answer (delete_order w i) h) \<and>
    (if has_type UpdateStrategyBody u then ok_type StrategyStats (answer (patch_strategy w name u) h) else True)"
proof (intro conjI)
  note rust = rust_reply_typed [OF assms(1)] and down = fetchPython_down [OF assms(2)]
  show "ok_type PortfolioSummary (answer (get_portfolio w) h)"
    using portfolio_typed rust [of "''GetPortfolioSummary''"] static_replies_typed(1)
    by (auto simp: get_portfolio_def answer_bind down getPortfolioSummary_def split: sum.split)
  show "ok_type TokenInfo (answer (get_token w mint) h)"
    using token_typed rust [of "''GetTokenInfo''"]
    by (auto simp: get_token_def answer_bind down getTokenInfo_def split: sum.split)
  show "ok_type BotMetrics (answer (get_metrics w) h)"
    using static_replies_typed(2) by (simp add: get_metrics_def answer_bind down)
  show "ok_type BotStatus (answer (get_status w) h)"
    using static_replies_typed(3) [OF assms(3)] by (simp add: get_status_def answer_bind down)
  show "ok_type OrderResult (answer (post_order w b) h)"
    using order_reply_typed rust [of "''SubmitOrder''"] static_replies_typed(5)
    by (auto simp: post_order_def num_of_def answer_bind down submitOrder_def split: sum.split)
  show "ok_type CancelResult (answer (delete_order w i) h)"
    using cancel_reply_typed rust [of "''CancelOrder''"] static_replies_typed(4)
    by (auto simp: delete_order_def answer_bind down cancelOrder_def split: sum.split)
  show "if has_type UpdateStrategyBody u then ok_type StrategyStats (answer (patch_strategy w name u) h) else True"
    using patched_typed by (auto simp: patch_strategy_def answer_bind down UpdateStrategyBody_def)
qed

text \<open>An engine that answers the portfolio request only.\<close>

definition rust_only :: engines where
  "rust_only = dead_engines\<lparr>grpc_load := \<lambda>_. None, rust := \<lambda>h m r.
     if m = ''GetPortfolioSummary'' then Inr (map (\<lambda>k. (U k, VI 7)) [''total_value_sol'', ''cash_balance_sol'',
       ''positions_value_sol'', ''daily_pnl_sol'', ''total_pnl_sol'', ''open_positions_count'', ''win_rate''])
     else Inl NotError\<rparr>"

lemma get_const [simp]: "get (obj (map (\<lambda>k. (k, x)) ks)) k = (if k \<in> set ks then x else VUndef)"
  by (induction ks) auto

lemma rust_only_typed: "rust_typed rust_only" "python_down rust_only" "finite_num (proc_uptime rust_only)"
proof -
  have v: "VObj (map (\<lambda>k. (U k, x)) ks) = obj (map (\<lambda>k. (k, x)) ks)" for x ks by (simp add: obj_def)
  show "rust_typed rust_only"
    by (auto simp: rust_typed_def rust_only_def v engine_types finite_val_def simp del: list.map(2) split: if_splits)
qed (simp_all add: rust_only_def dead_engines_def python_down_def)

theorem answers_conform_witness:
  "has_type PortfolioSummary (wire (r_body (answer (get_portfolio rust_only) []))) \<and>
   get (r_body (answer (get_portfolio rust_only) [])) ''source'' = S ''rust'' \<and>
   get (r_body (answer (get_portfolio rust_only) [])) ''winRate'' = VI 7"
proof -
  have "run_state (getPortfolioSummary rust_only) [] = (Inr (obj (map (\<lambda>k. (k, VI 7)) [''total_value_sol'', ''cash_balance_sol'',
       ''positions_value_sol'', ''daily_pnl_sol'', ''total_pnl_sol'', ''open_positions_count'', ''win_rate''])),
      [GrpcConnect (GRPC_ADDR Map.empty), RustCall ''GetPortfolioSummary'' (obj [])])"
    by (simp add: getPortfolioSummary_def run_callUnary reachable_rust_def rust_only_def dead_engines_def with_client_def
        getClient_def has_client_def obj_def)
  then have "answer (get_portfolio rust_only) [] = ok (portfolio_rust (obj (map (\<lambda>k. (k, VI 7)) [''total_value_sol'',
       ''cash_balance_sol'', ''positions_value_sol'', ''daily_pnl_sol'', ''total_pnl_sol'', ''open_positions_count'', ''win_rate''])))"
    by (simp add: get_portfolio_def answer_def run_bind State_Monad.return_def)
  then show ?thesis
    using answers_conform [OF rust_only_typed, of "[]" "[]" VNull "[]" VNull] by (simp add: portfolio_rust_def)
qed

text \<open>C28: where the answers leave the declared types. What the Rust engine says of an order never has
  the declared type, whatever the engine answered, since identifier, mint, side, amount and creation time
  are missing. A trade has it exactly when its side is BUY or SELL, its numbers are finite and none of its
  optional columns is empty, so a trade that was just created has it not; and a strategy of the database exactly
  when its amount is set and its numbers are finite.\<close>

theorem contract_broken_exactly:
  "\<not> has_type Order (wire (order_status_rust g)) \<and>
   (has_type Trade (wire (trade_json r)) \<longleftrightarrow>
      tr_side r \<in> {U ''BUY'', U ''SELL''} \<and> finite_num (tr_amountSol r) \<and>
      tr_tokenName r \<noteq> None \<and> tr_tokenSymbol r \<noteq> None \<and> tr_signature r \<noteq> None \<and>
      tr_createdAt r \<noteq> None \<and> tr_executedAt r \<noteq> None \<and>
      (\<exists>p q. tr_price r = Some (Fin p) \<and> tr_pnlSol r = Some (Fin q))) \<and>
   \<not> has_type Trade (wire (trade_json (new_trade i mint side amount now))) \<and>
   (has_type StrategyStats (wire (strategy_db s)) \<longleftrightarrow>
      finite_num (win_rate (sr_tradesWon s) (sr_tradesExecuted s)) \<and> finite_num (sr_totalPnlSol s) \<and>
      (\<exists>q. sr_buyAmountSol s = Some (Fin q)))"
proof -
  have opt: "has_type TString (sent_val (js_str_opt x)) \<longleftrightarrow> x \<noteq> None" "has_type TString (sent_val (js_date_opt d)) \<longleftrightarrow> d \<noteq> None"
    "has_type TNumber (sent_val (js_num_opt n)) \<longleftrightarrow> (\<exists>q. n = Some (Fin q))"
    "has_type TNumber (sent_val (VNum y)) \<longleftrightarrow> finite_num y" for x d n y
    by (auto simp: sent_val_def wire_opt wire_num finite_num_iff simp del: wire.simps(4) split: option.split)
  have lit: "has_type (TLit ls) (VStr s) \<longleftrightarrow> s \<in> set (map U ls)" for ls s by simp
  have "\<not> has_type Order (wire (order_status_rust g))"
    by (simp add: Order_def order_status_rust_def wire_types)
  moreover have "has_type Trade (wire (trade_json r)) \<longleftrightarrow>
      tr_side r \<in> {U ''BUY'', U ''SELL''} \<and> finite_num (tr_amountSol r) \<and>
      tr_tokenName r \<noteq> None \<and> tr_tokenSymbol r \<noteq> None \<and> tr_signature r \<noteq> None \<and>
      tr_createdAt r \<noteq> None \<and> tr_executedAt r \<noteq> None \<and>
      (\<exists>p q. tr_price r = Some (Fin p) \<and> tr_pnlSol r = Some (Fin q))" for r
    by (auto simp: Trade_def TradeSide_def trade_json_def wire_types opt)
  moreover have "has_type StrategyStats (wire (strategy_db s)) \<longleftrightarrow>
      finite_num (win_rate (sr_tradesWon s) (sr_tradesExecuted s)) \<and> finite_num (sr_totalPnlSol s) \<and>
      (\<exists>q. sr_buyAmountSol s = Some (Fin q))"
    by (auto simp: StrategyStats_def strategy_db_def wire_types opt)
  ultimately show ?thesis by (simp add: new_trade_def)
qed

end
