(* ===== verification/AdminKey.thy ===== *)
theory AdminKey
  imports ApiClient
begin

text \<open>
  \<open>hooks/use-admin-key.ts\<close> of the dashboard and the three cards that use it: the preset card of
  \<open>pages/Settings.tsx\<close>, the preset cards of \<open>pages/Strategies.tsx\<close> and the resume cards of \<open>pages/Wallets.tsx\<close>.
  The module variables of the hook are a record, which also holds the local state of every mounted hook
  (its view of the key); an operation gets the time \<open>Date.now()\<close> as an argument. A card is a state machine
  over its prompt, its checkbox and the requests it has sent.
\<close>

section \<open>The key cache\<close>

definition HOUR_MS :: int where "HOUR_MS = 60 * 60 * 1000"

text \<open>\<open>ks_timer\<close> is the time at which the pending expiry timer is due.\<close>

record key_state =
  ks_key :: jstr
  ks_expiry :: int
  ks_timer :: "int option"
  ks_views :: "(nat \<times> jstr) list" \<comment> \<open>the listeners, with the state they last set\<close>

definition key_init :: key_state where
  "key_init = \<lparr>ks_key = [], ks_expiry = 0, ks_timer = None, ks_views = []\<rparr>"

definition readKey :: "int \<Rightarrow> key_state \<Rightarrow> jstr \<times> key_state" where
  "readKey now s =
     (if ks_key s \<noteq> [] \<and> now < ks_expiry s then (ks_key s, s)
      else ([], s\<lparr>ks_key := [], ks_expiry := 0\<rparr>))"

text \<open>Every listener reads the key and sets its hook's state.\<close>

definition broadcast :: "int \<Rightarrow> key_state \<Rightarrow> key_state" where
  "broadcast now s =
     (if ks_views s = [] then s
      else let (k, t) = readKey now s in t\<lparr>ks_views := map (\<lambda>(i, _). (i, k)) (ks_views s)\<rparr>)"

definition scheduleExpiry :: "int \<Rightarrow> int \<Rightarrow> key_state \<Rightarrow> key_state" where
  "scheduleExpiry now ttlMs s = s\<lparr>ks_timer := Some (now + ttlMs)\<rparr>"

definition expiry_fires :: "int \<Rightarrow> key_state \<Rightarrow> key_state" where
  "expiry_fires now s = broadcast now (s\<lparr>ks_key := [], ks_expiry := 0, ks_timer := None\<rparr>)"

definition getValidAdminKey :: "int \<Rightarrow> key_state \<Rightarrow> jstr \<times> key_state" where
  "getValidAdminKey now s = readKey now s"

text \<open>
  A hook mounts in two steps: the first render reads the key into the hook's state, and the effect that React runs
  after it subscribes the hook. \<open>useAdminKey\<close> is the mount with nothing in between, as it is in the runs below; a
  broadcast in between would not reach the hook (\<open>late_subscriber\<close>).
\<close>

definition render_key :: "int \<Rightarrow> key_state \<Rightarrow> jstr \<times> key_state" where
  "render_key now s = readKey now s"

definition subscribe_key :: "nat \<Rightarrow> jstr \<Rightarrow> key_state \<Rightarrow> key_state" where
  "subscribe_key i k s = s\<lparr>ks_views := put i k (ks_views s)\<rparr>"

definition useAdminKey :: "nat \<Rightarrow> int \<Rightarrow> key_state \<Rightarrow> key_state" where
  "useAdminKey i now s = (let (k, t) = render_key now s in subscribe_key i k t)"

definition unmount_key :: "nat \<Rightarrow> key_state \<Rightarrow> key_state" where
  "unmount_key i s = s\<lparr>ks_views := del i (ks_views s)\<rparr>"

definition setAdminKey :: "jstr \<Rightarrow> int \<Rightarrow> key_state \<Rightarrow> key_state" where
  "setAdminKey key now s =
     (let ttl = 5 * 60 * 1000;
          t = s\<lparr>ks_key := key, ks_expiry := (if key \<noteq> [] then now + ttl else 0)\<rparr>
      in broadcast now (if key \<noteq> [] then scheduleExpiry now ttl t else t\<lparr>ks_timer := None\<rparr>))"

definition rememberAdminKey :: "jstr \<Rightarrow> int \<Rightarrow> key_state \<Rightarrow> key_state" where
  "rememberAdminKey key now s =
     broadcast now (scheduleExpiry now HOUR_MS (s\<lparr>ks_key := key, ks_expiry := now + HOUR_MS\<rparr>))"

definition clearAdminKey :: "int \<Rightarrow> key_state \<Rightarrow> key_state" where
  "clearAdminKey now s = broadcast now (s\<lparr>ks_key := [], ks_expiry := 0, ks_timer := None\<rparr>)"

lemmas key_defs = readKey_def broadcast_def scheduleExpiry_def expiry_fires_def getValidAdminKey_def useAdminKey_def
  render_key_def subscribe_key_def unmount_key_def setAdminKey_def rememberAdminKey_def clearAdminKey_def key_init_def HOUR_MS_def

section \<open>Runs\<close>

text \<open>What happens to the cache, at a time. A timer fires at its due time or later.\<close>

datatype key_event = Mount nat | Unmount nat | SetKey jstr | Remember jstr | Clear | Read | Expire

fun key_step :: "int \<times> key_event \<Rightarrow> key_state \<Rightarrow> key_state" where
  "key_step (now, Mount i) s = useAdminKey i now s"
| "key_step (now, Unmount i) s = unmount_key i s"
| "key_step (now, SetKey k) s = setAdminKey k now s"
| "key_step (now, Remember k) s = rememberAdminKey k now s"
| "key_step (now, Clear) s = clearAdminKey now s"
| "key_step (now, Read) s = snd (getValidAdminKey now s)"
| "key_step (now, Expire) s =
     (case ks_timer s of Some due \<Rightarrow> if due \<le> now then expiry_fires now s else s | None \<Rightarrow> s)"

















section \<open>Properties of the cache\<close>

text \<open>A hook whose effect runs after a clear that followed its first render keeps showing the cleared key.\<close>

lemma late_subscriber:
  assumes "ks_key s = k" and "k \<noteq> []" and "now < ks_expiry s" and "render_key now s = (shown_key, t)"
  shows "let u = subscribe_key i shown_key (clearAdminKey now t)
    in map_of (ks_views u) i = Some k \<and> fst (getValidAdminKey now u) = [] \<and> ks_timer u = None"
  using assms by (auto simp: key_defs Let_def)



section \<open>The cards\<close>

text \<open>A card asks for the key only when none is cached. \<open>'p\<close> is what the prompt is for: a preset, or nothing for the
  resume card. \<open>cd_sent\<close> lists the requests of the card with the key each carried, \<open>cd_busy\<close> is
  \<open>isPending\<close>.\<close>

record 'p card =
  cd_pending :: "'p option"
  cd_remember :: bool
  cd_busy :: bool
  cd_sent :: "('p \<times> jstr) list"

definition view_of :: "nat \<Rightarrow> key_state \<Rightarrow> jstr" where
  "view_of i s = (case map_of (ks_views s) i of Some k \<Rightarrow> k | None \<Rightarrow> [])"

definition new_card :: "nat \<Rightarrow> key_state \<Rightarrow> 'p card" where
  \<comment> \<open>\<open>useState(() => adminKey.length > 0)\<close>\<close>
  "new_card i s = \<lparr>cd_pending = None, cd_remember = (view_of i s \<noteq> []), cd_busy = False, cd_sent = []\<rparr>"

definition mutate :: "'p \<Rightarrow> jstr \<Rightarrow> 'p card \<Rightarrow> 'p card" where
  "mutate p key c = c\<lparr>cd_busy := True, cd_sent := cd_sent c @ [(p, key)]\<rparr>"

text \<open>The tile of a preset, with the preset that is active.\<close>

definition select_preset :: "'p \<Rightarrow> 'p \<Rightarrow> int \<Rightarrow> key_state \<times> 'p card \<Rightarrow> key_state \<times> 'p card" where
  "select_preset active p now sc =
     (let (s, c) = sc in
      if cd_busy c \<or> cd_pending c \<noteq> None then (s, c)
      else if p = active then (s, c)
      else let (key, t) = getValidAdminKey now s in
        if key \<noteq> [] then (t, mutate p key c) else (t, c\<lparr>cd_pending := Some p\<rparr>))"

definition type_key :: "jstr \<Rightarrow> int \<Rightarrow> key_state \<times> 'p card \<Rightarrow> key_state \<times> 'p card" where
  "type_key text now sc = (let (s, c) = sc in if cd_pending c = None then (s, c) else (setAdminKey text now s, c))"

definition press_enter :: "nat \<Rightarrow> key_state \<times> 'p card \<Rightarrow> key_state \<times> 'p card" where
  "press_enter i sc =
     (let (s, c) = sc in
      case cd_pending c of
        Some p \<Rightarrow> if view_of i s \<noteq> [] then (s, mutate p (view_of i s) c) else (s, c)
      | None \<Rightarrow> (s, c))"

definition press_apply :: "nat \<Rightarrow> key_state \<times> 'p card \<Rightarrow> key_state \<times> 'p card" where
  "press_apply i sc =
     (let (s, c) = sc in
      case cd_pending c of
        Some p \<Rightarrow> if view_of i s \<noteq> [] \<and> \<not> cd_busy c then (s, mutate p (view_of i s) c) else (s, c)
      | None \<Rightarrow> (s, c))"

definition cancel_prompt :: "int \<Rightarrow> key_state \<times> 'p card \<Rightarrow> key_state \<times> 'p card" where
  "cancel_prompt now sc =
     (let (s, c) = sc in
      if cd_pending c = None then (s, c) else (clearAdminKey now s, c\<lparr>cd_pending := None, cd_remember := False\<rparr>))"

definition tick_remember :: "bool \<Rightarrow> 'p card \<Rightarrow> 'p card" where
  "tick_remember b c = (if cd_pending c = None then c else c\<lparr>cd_remember := b\<rparr>)"

definition save_success :: "jstr \<Rightarrow> int \<Rightarrow> key_state \<times> 'p card \<Rightarrow> key_state \<times> 'p card" where
  "save_success key now sc =
     (let (s, c) = sc;
          t = (if cd_pending c \<noteq> None then (if cd_remember c then rememberAdminKey key now s else clearAdminKey now s) else s)
      in (t, c\<lparr>cd_pending := None, cd_busy := False\<rparr>))"

definition save_error :: "int \<Rightarrow> key_state \<times> 'p card \<Rightarrow> key_state \<times> 'p card" where
  "save_error now sc = (let (s, c) = sc in (clearAdminKey now s, c\<lparr>cd_busy := False, cd_remember := False\<rparr>))"

text \<open>The requests of the three cards: path, method, \<open>X-Admin-Key\<close> and body. \<open>fetch\<close> strips white space from the ends of a
  header's value and throws (\<open>None\<close>: nothing is sent, and the mutation fails) when it has a code unit that a header
  cannot hold.\<close>

record admin_request =
  ar_method :: string
  ar_path :: jstr
  ar_key :: jstr
  ar_body :: jsval

definition admin_fetch :: "string \<Rightarrow> jstr \<Rightarrow> jstr \<Rightarrow> jsval \<Rightarrow> admin_request option" where
  "admin_fetch m path key body =
     map_option (\<lambda>k. \<lparr>ar_method = m, ar_path = path, ar_key = k, ar_body = body\<rparr>) (header_value key)"

definition savePreset :: "jstr \<times> jstr \<Rightarrow> admin_request option" where
  "savePreset v = (let (preset, key) = v in
     admin_fetch ''PUT'' (U ''/api/strategy/preset'') key (obj [(''preset'', VStr preset)]))"

definition changePreset :: "jstr \<Rightarrow> jstr \<times> jstr \<Rightarrow> admin_request option" where
  "changePreset walletId v = (let (preset, key) = v in
     admin_fetch ''PUT'' (U ''/api/strategy/preset'') key
       (obj [(''preset'', VStr preset), (''wallet_id'', VStr walletId)]))"

definition resumeMutation :: "jstr \<Rightarrow> unit \<times> jstr \<Rightarrow> admin_request option" where
  "resumeMutation walletId v =
     admin_fetch ''POST'' (U ''/api/wallets/'' @ walletId @ U ''/resume'') (snd v) (obj [])"

lemma admin_fetch_Some: "admin_fetch m path key body = Some req \<longleftrightarrow>
    ar_method req = m \<and> ar_path req = path \<and> header_value key = Some (ar_key req) \<and> ar_body req = body"
  by (cases req) (auto simp: admin_fetch_def)

text \<open>The resume card of a wallet is shown while its status is paused; its button disappears while a prompt or a
  request is open. Its other handlers are those of the preset card.\<close>

definition press_resume :: "int \<Rightarrow> key_state \<times> unit card \<Rightarrow> key_state \<times> unit card" where
  "press_resume now sc =
     (let (s, c) = sc in
      if cd_pending c \<noteq> None \<or> cd_busy c then (s, c)
      else let (key, t) = getValidAdminKey now s in
        if key \<noteq> [] then (t, mutate () key c) else (t, c\<lparr>cd_pending := Some ()\<rparr>))"

section \<open>A page of cards\<close>

text \<open>All cards of a page share the key cache; card \<open>i\<close> is the hook instance \<open>i\<close>.\<close>

datatype 'p card_event =
    Select 'p | Type jstr | Enter | Apply | Cancel | Tick bool | Succeeded jstr | FailedWith | TimerDue

type_synonym 'p page = "key_state \<times> 'p card list"

fun card_step :: "'p \<Rightarrow> nat \<Rightarrow> int \<Rightarrow> 'p card_event \<Rightarrow> key_state \<times> 'p card \<Rightarrow> key_state \<times> 'p card" where
  "card_step active i now (Select p) sc = select_preset active p now sc"
| "card_step active i now (Type t) sc = type_key t now sc"
| "card_step active i now Enter sc = press_enter i sc"
| "card_step active i now Apply sc = press_apply i sc"
| "card_step active i now Cancel sc = cancel_prompt now sc"
| "card_step active i now (Tick b) sc = (fst sc, tick_remember b (snd sc))"
| "card_step active i now (Succeeded k) sc = save_success k now sc"
| "card_step active i now FailedWith sc = save_error now sc"
| "card_step active i now TimerDue sc = (key_step (now, Expire) (fst sc), snd sc)"

definition page_step :: "'p \<Rightarrow> nat \<times> int \<times> 'p card_event \<Rightarrow> 'p page \<Rightarrow> 'p page" where
  "page_step active ev pg =
     (let (i, now, e) = ev; (s, cs) = pg in
      if i < length cs then (let (t, c) = card_step active i now e (s, cs ! i) in (t, cs[i := c])) else (s, cs))"

definition page_run :: "'p \<Rightarrow> (nat \<times> int \<times> 'p card_event) list \<Rightarrow> 'p page \<Rightarrow> 'p page" where
  "page_run active es pg = fold (page_step active) es pg"

definition open_page :: "nat \<Rightarrow> int \<Rightarrow> 'p page" where
  "open_page n now = (let s = fold (\<lambda>i. useAdminKey i now) [0..<n] key_init in (s, map (\<lambda>i. new_card i s) [0..<n]))"

lemma card_step_sent:
  "card_step active i now e (s, c) = (t, d) \<Longrightarrow>
   \<exists>new. cd_sent d = cd_sent c @ new \<and> length new \<le> 1 \<and> (\<forall>(p, k)\<in>set new. k \<noteq> [] \<and>
     (k = view_of i s \<and> cd_pending c = Some p \<or> k = fst (getValidAdminKey now s) \<and> e = Select p \<and> p \<noteq> active))"
  by (cases e) (auto simp: select_preset_def type_key_def press_enter_def press_apply_def cancel_prompt_def tick_remember_def
      save_success_def save_error_def mutate_def Let_def split: if_splits option.splits prod.splits)

definition keyed :: "'p page \<Rightarrow> bool" where
  "keyed pg \<longleftrightarrow> (\<forall>c\<in>set (snd pg). \<forall>(p, k)\<in>set (cd_sent c). k \<noteq> [])"

lemma page_step_keyed: "keyed pg \<Longrightarrow> keyed (page_step active ev pg)"
proof -
  assume k: "keyed pg"
  obtain i now e s cs where ev: "ev = (i, now, e)" "pg = (s, cs)" by (metis prod_cases3 surj_pair)
  show ?thesis
  proof (cases "i < length cs")
    case True
    obtain t d where st: "card_step active i now e (s, cs ! i) = (t, d)" by fastforce
    obtain new where n: "cd_sent d = cd_sent (cs ! i) @ new" "\<forall>(p, k)\<in>set new. k \<noteq> []"
      using card_step_sent [OF st] by fastforce
    have "\<forall>(p, k)\<in>set (cd_sent (cs ! i)). k \<noteq> []" using k ev nth_mem [OF True] unfolding keyed_def by auto
    then have "\<forall>(p, k)\<in>set (cd_sent d). k \<noteq> []" using n by auto
    moreover have "snd (page_step active ev pg) = cs[i := d]" using True ev st by (simp add: page_step_def)
    moreover have "c = d \<or> c \<in> set cs" if "c \<in> set (cs[i := d])" for c
      using that set_update_subset_insert [of cs i d] by blast
    ultimately show ?thesis using k ev(2) unfolding keyed_def by (metis snd_conv)
  next
    case False
    then show ?thesis using k ev by (simp add: page_step_def)
  qed
qed

lemma page_run_keyed: "keyed pg \<Longrightarrow> keyed (page_run active es pg)"
  unfolding page_run_def by (induction es arbitrary: pg) (simp_all add: page_step_keyed)

lemma view_broadcast_empty: "ks_key s = [] \<Longrightarrow> view_of i (broadcast now s) = []"
proof -
  have "map_of (map (\<lambda>(i, _). (i, [])) vs) i = Some k \<Longrightarrow> k = []" for vs :: "(nat \<times> jstr) list" and k :: jstr
    by (auto dest!: map_of_SomeD)
  then show "ks_key s = [] \<Longrightarrow> view_of i (broadcast now s) = []"
    by (auto simp: view_of_def broadcast_def readKey_def split: option.split)
qed

lemma cleared: "view_of i (clearAdminKey now s) = []" "fst (getValidAdminKey t (clearAdminKey now s)) = []"
  by (simp_all add: clearAdminKey_def view_broadcast_empty, simp add: broadcast_def readKey_def getValidAdminKey_def)

lemma remembered: "key \<noteq> [] \<Longrightarrow>
   fst (getValidAdminKey t (rememberAdminKey key now s)) = (if t < now + 3600000 then key else [])"
  by (simp add: rememberAdminKey_def broadcast_def scheduleExpiry_def readKey_def getValidAdminKey_def HOUR_MS_def)

section \<open>Properties of the cards\<close>

text \<open>No card ever sends a privileged request without a key, whatever is selected, typed, confirmed,
  cancelled or answered in whatever order on a page of any number of cards; and what an answer does to the key
  is what the checkbox says: after a failure no key is left anywhere, after a success that a prompt confirmed
  the key is gone, or good for exactly an hour if it was to be remembered, and a success without a prompt
  leaves the cache as it was.\<close>

theorem requests_carry_key:
  "list_all (\<lambda>c. list_all (\<lambda>(p, k). k \<noteq> []) (cd_sent c)) (snd (page_run active es (open_page n t0))) \<and>
   (let (s', c') = save_error now (s, c) in
      view_of i s' = [] \<and> fst (getValidAdminKey t s') = [] \<and> \<not> cd_remember c' \<and> cd_pending c' = cd_pending c) \<and>
   (let (s', c') = save_success (k # ks) now (s, c) in
      cd_pending c' = None \<and>
      (if cd_pending c = None then s' = s
       else if cd_remember c then fst (getValidAdminKey t s') = (if t < now + 3600000 then k # ks else [])
       else view_of i s' = [] \<and> fst (getValidAdminKey t s') = []))"
proof -
  have "keyed (open_page n t0)" by (simp add: keyed_def open_page_def new_card_def Let_def)
  from page_run_keyed [OF this, of active es]
  have "list_all (\<lambda>c. list_all (\<lambda>(p, k). k \<noteq> []) (cd_sent c)) (snd (page_run active es (open_page n t0)))"
    by (simp add: keyed_def list_all_iff)
  moreover have "let (s', c') = save_error now (s, c) in
      view_of i s' = [] \<and> fst (getValidAdminKey t s') = [] \<and> \<not> cd_remember c' \<and> cd_pending c' = cd_pending c"
    by (simp add: save_error_def cleared)
  moreover have "let (s', c') = save_success (k # ks) now (s, c) in
      cd_pending c' = None \<and>
      (if cd_pending c = None then s' = s
       else if cd_remember c then fst (getValidAdminKey t s') = (if t < now + 3600000 then k # ks else [])
       else view_of i s' = [] \<and> fst (getValidAdminKey t s') = [])"
    using remembered [of "k # ks" t now s] by (simp add: save_success_def cleared Let_def)
  ultimately show ?thesis by blast
qed

text \<open>the key that is being typed into one card's prompt is at once the cached key of every card:
  selecting a preset on another card while the first prompt holds one letter sends a request with that
  letter as its key, without a prompt; its refusal then clears what was typed.\<close>

theorem half_typed_key_is_sent:
  "\<exists>es. let pg = page_run (U ''balanced'') es (open_page 2 0) in
     map cd_sent (snd pg) = [[], [(U ''aggressive'', U ''s'')]] \<and>
     map cd_pending (snd pg) = [Some (U ''conservative''), None] \<and>
     view_of 0 (fst (page_run (U ''balanced'') (es @ [(1, 3, FailedWith)]) (open_page 2 0))) = []"
proof -
  let ?es = "[(0, 1, Select (U ''conservative'')), (0, 2, Type (U ''s'')), (1, 3, Select (U ''aggressive''))]"
  have "let pg = page_run (U ''balanced'') ?es (open_page 2 0) in
     map cd_sent (snd pg) = [[], [(U ''aggressive'', U ''s'')]] \<and>
     map cd_pending (snd pg) = [Some (U ''conservative''), None] \<and>
     view_of 0 (fst (page_run (U ''balanced'') (?es @ [(1, 3, FailedWith)]) (open_page 2 0))) = []"
    by (simp add: page_run_def page_step_def open_page_def new_card_def view_of_def select_preset_def type_key_def mutate_def
        save_error_def key_defs upt_rec Let_def)
  then show ?thesis by blast
qed

end
