(* ===== verification/LiveTrades.thy ===== *)
theory LiveTrades
  imports JsJson
begin

text \<open>
  \<open>hooks/use-live-trades.ts\<close>, \<open>components/OfflineBanner.tsx\<close>: the dashboard's two WebSocket clients. A component is a
  record of its React state and refs, with the sockets it has opened in order; a callback is a step, the
  browser chooses the order. A socket is alive until its close event. Updates of the state by
  \<open>setTrades(prev \<Rightarrow> \<dots>)\<close> are applied in the order they are made.
\<close>

section \<open>The list of live trades\<close>

definition MAX_LIVE_TRADES :: nat where "MAX_LIVE_TRADES = 100"

text \<open>\<open>a === b\<close>: objects are compared by identity, and two parsed ones are never the same.\<close>

fun strict_eq :: "jsval \<Rightarrow> jsval \<Rightarrow> bool" where
  "strict_eq (VObj _) _ = False"
| "strict_eq (VArr _) _ = False"
| "strict_eq (VDate _) _ = False"
| "strict_eq v w = (v = w)"

text \<open>\<open>now\<close> is the text of \<open>new Date().toISOString()\<close>.\<close>

definition live_trade :: "jsval \<Rightarrow> jstr \<Rightarrow> jsval" where
  "live_trade update now = obj
     [(''id'', get update ''id''), (''mint'', nvl (get update ''mint'') (S '''')),
      (''tokenName'', get update ''tokenName''), (''tokenSymbol'', get update ''tokenSymbol''),
      (''side'', nvl (get update ''side'') (S ''BUY'')), (''amountSol'', nvl (get update ''amountSol'') (VI 0)),
      (''price'', get update ''price''), (''status'', nvl (get update ''status'') (S ''Pending'')),
      (''strategy'', get update ''strategy''), (''signature'', get update ''signature''),
      (''pnlSol'', get update ''pnlSol''), (''createdAt'', nvl (get update ''createdAt'') (VStr now)),
      (''executedAt'', get update ''executedAt'')]"

definition set_trades :: "jsval \<Rightarrow> jsval list \<Rightarrow> jsval list" where
  "set_trades trade prev =
     (case find_index (\<lambda>t. strict_eq (get t ''id'') (get trade ''id'')) prev of
        Some idx \<Rightarrow> prev[idx := trade]
      | None \<Rightarrow> take MAX_LIVE_TRADES (trade # prev))"

text \<open>The update of a message, if it is one: JSON with a truthy \<open>id\<close>; anything else is ignored.\<close>

definition update_of :: "jstr \<Rightarrow> jsval option" where
  "update_of dat =
     (case json_parse dat of
        None \<Rightarrow> None
      | Some u \<Rightarrow> if nullish u then None else if truthy (get u ''id'') then Some u else None)"

section \<open>The hook\<close>

record live_state =
  lt_trades :: "jsval list"
  lt_connected :: bool
  lt_error :: "jstr option"
  lt_mounted :: bool
  lt_timer :: "nat option" \<comment> \<open>the delay of the pending reconnect\<close>
  lt_socks :: "bool list" \<comment> \<open>alive or closed\<close>

definition live_init :: live_state where
  "live_init = \<lparr>lt_trades = [], lt_connected = False, lt_error = None, lt_mounted = True, lt_timer = None, lt_socks = []\<rparr>"

text \<open>\<open>refused\<close>: the message if the constructor of the socket throws.\<close>

definition live_connect :: "jstr option \<Rightarrow> live_state \<Rightarrow> live_state" where
  "live_connect refused s =
     (if \<not> lt_mounted s then s
      else (case refused of
          None \<Rightarrow> s\<lparr>lt_socks := lt_socks s @ [True]\<rparr>
        | Some m \<Rightarrow> s\<lparr>lt_error := Some m, lt_timer := Some 5000\<rparr>))"

definition live_open :: "live_state \<Rightarrow> live_state" where
  "live_open s = (if \<not> lt_mounted s then s else s\<lparr>lt_connected := True, lt_error := None\<rparr>)"

definition live_message :: "jstr \<Rightarrow> jstr \<Rightarrow> live_state \<Rightarrow> live_state" where
  "live_message dat now s =
     (if \<not> lt_mounted s then s
      else (case update_of dat of
          None \<Rightarrow> s
        | Some u \<Rightarrow> s\<lparr>lt_trades := set_trades (live_trade u now) (lt_trades s)\<rparr>))"

definition live_error :: "live_state \<Rightarrow> live_state" where
  "live_error s = (if \<not> lt_mounted s then s else s\<lparr>lt_connected := False, lt_error := Some (U ''WebSocket error'')\<rparr>)"

definition live_close :: "live_state \<Rightarrow> live_state" where
  "live_close s = (if \<not> lt_mounted s then s else s\<lparr>lt_connected := False, lt_timer := Some 3000\<rparr>)"

definition live_timer :: "jstr option \<Rightarrow> live_state \<Rightarrow> live_state" where
  "live_timer refused s = (let t = s\<lparr>lt_timer := None\<rparr> in if lt_mounted t then live_connect refused t else t)"

definition live_unmount :: "live_state \<Rightarrow> live_state" where
  "live_unmount s = s\<lparr>lt_mounted := False, lt_timer := None\<rparr>"

datatype live_event = Opened nat | Message nat jstr jstr | SockError nat | SockClosed nat | ReconnectDue "jstr option" | Unmounted

definition alive :: "nat \<Rightarrow> live_state \<Rightarrow> bool" where
  "alive i s \<longleftrightarrow> i < length (lt_socks s) \<and> lt_socks s ! i"

fun live_step :: "live_event \<Rightarrow> live_state \<Rightarrow> live_state" where
  "live_step (Opened i) s = (if alive i s then live_open s else s)"
| "live_step (Message i dat now) s = (if alive i s then live_message dat now s else s)"
| "live_step (SockError i) s = (if alive i s then live_error s else s)"
| "live_step (SockClosed i) s = (if alive i s then live_close (s\<lparr>lt_socks := (lt_socks s)[i := False]\<rparr>) else s)"
| "live_step (ReconnectDue r) s = (if lt_timer s \<noteq> None then live_timer r s else s)"
| "live_step Unmounted s = live_unmount s"

definition live_run :: "jstr option \<Rightarrow> live_event list \<Rightarrow> live_state" where
  "live_run refused es = fold live_step es (live_connect refused live_init)"

lemmas live_defs = live_connect_def live_open_def live_message_def live_error_def live_close_def live_timer_def live_unmount_def
  live_init_def

section \<open>The offline banner\<close>

datatype conn_state = Connecting | Online | Offline

record banner =
  ob_state :: conn_state
  ob_dismissed :: bool
  ob_timer :: bool \<comment> \<open>\<open>timerRef.current\<close> is a pending timer\<close>
  ob_stray :: nat \<comment> \<open>pending timers the ref no longer refers to\<close>
  ob_socks :: "bool list"

definition clearTimer :: "banner \<Rightarrow> banner" where
  "clearTimer s = s\<lparr>ob_timer := False\<rparr>"

text \<open>\<open>close()\<close> on the old socket only starts to close it; its close event comes later.\<close>

definition banner_connect :: "banner \<Rightarrow> banner" where
  "banner_connect s = s\<lparr>ob_socks := ob_socks s @ [True]\<rparr>"

definition banner_open :: "banner \<Rightarrow> banner" where
  "banner_open s = s\<lparr>ob_state := Online, ob_dismissed := False\<rparr>"

definition banner_error :: "banner \<Rightarrow> banner" where
  "banner_error s = s\<lparr>ob_state := Offline\<rparr>"

text \<open>A new timer overwrites the reference to a pending one, which then can no longer be cleared.\<close>

definition banner_close :: "banner \<Rightarrow> banner" where
  "banner_close s =
     s\<lparr>ob_state := Offline, ob_stray := (if ob_timer s then ob_stray s + 1 else ob_stray s), ob_timer := True\<rparr>"

definition banner_retry :: "banner \<Rightarrow> banner" where
  "banner_retry s = banner_connect (clearTimer s)"

definition banner_dismiss :: "banner \<Rightarrow> banner" where
  "banner_dismiss s = s\<lparr>ob_dismissed := True\<rparr>"

definition showBanner :: "banner \<Rightarrow> bool" where
  "showBanner s \<longleftrightarrow> ob_state s = Offline \<and> \<not> ob_dismissed s"

datatype banner_event = BOpened nat | BError nat | BClosed nat | BTimer | BStray | BRetry | BDismiss | BUnmount

definition balive :: "nat \<Rightarrow> banner \<Rightarrow> bool" where
  "balive i s \<longleftrightarrow> i < length (ob_socks s) \<and> ob_socks s ! i"

text \<open>The buttons exist only while the banner is shown. A timer that fires leaves its number in the ref.\<close>

fun banner_step :: "banner_event \<Rightarrow> banner \<Rightarrow> banner" where
  "banner_step (BOpened i) s = (if balive i s then banner_open s else s)"
| "banner_step (BError i) s = (if balive i s then banner_error s else s)"
| "banner_step (BClosed i) s = (if balive i s then banner_close (s\<lparr>ob_socks := (ob_socks s)[i := False]\<rparr>) else s)"
| "banner_step BTimer s = (if ob_timer s then banner_connect (s\<lparr>ob_timer := False\<rparr>) else s)"
| "banner_step BStray s = (if 0 < ob_stray s then banner_connect (s\<lparr>ob_stray := ob_stray s - 1\<rparr>) else s)"
| "banner_step BRetry s = (if showBanner s then banner_retry s else s)"
| "banner_step BDismiss s = (if showBanner s then banner_dismiss s else s)"
| "banner_step BUnmount s = clearTimer s"

definition banner_init :: banner where
  "banner_init = banner_connect \<lparr>ob_state = Connecting, ob_dismissed = False, ob_timer = False, ob_stray = 0, ob_socks = []\<rparr>"

definition banner_run :: "banner_event list \<Rightarrow> banner" where
  "banner_run es = fold banner_step es banner_init"

lemmas banner_defs = banner_connect_def banner_open_def banner_error_def banner_close_def banner_retry_def banner_dismiss_def
  clearTimer_def banner_init_def showBanner_def balive_def

section \<open>The list invariant\<close>

text \<open>The updates a run has taken in, each with the time of its arrival.\<close>

fun taken :: "live_event list \<Rightarrow> live_state \<Rightarrow> (jsval \<times> jstr) list" where
  "taken [] s = []"
| "taken (e # es) s =
     (case e of
        Message i dat now \<Rightarrow>
          (if alive i s \<and> lt_mounted s
           then (case update_of dat of Some u \<Rightarrow> [(u, now)] | None \<Rightarrow> []) else [])
      | _ \<Rightarrow> []) @ taken es (live_step e s)"

text \<open>The trade that the last update with an identifier describes.\<close>

definition latest :: "jsval \<Rightarrow> (jsval \<times> jstr) list \<Rightarrow> jsval option" where
  "latest k us =
     (let same = filter (\<lambda>x. get (fst x) ''id'' = k) us in
      if same = [] then None else Some (live_trade (fst (last same)) (snd (last same))))"

lemma latest_snoc: "latest k (us @ [(u, now)]) = (if get u ''id'' = k then Some (live_trade u now) else latest k us)"
  by (simp add: latest_def Let_def)

definition fresh_ids :: "jsval list \<Rightarrow> bool" where
  "fresh_ids ts \<longleftrightarrow> (\<forall>i j. i < j \<longrightarrow> j < length ts \<longrightarrow> \<not> strict_eq (get (ts ! i) ''id'') (get (ts ! j) ''id''))"

definition primitive :: "jsval \<Rightarrow> bool" where
  "primitive v \<longleftrightarrow> (case v of VObj _ \<Rightarrow> False | VArr _ \<Rightarrow> False | VDate _ \<Rightarrow> False | _ \<Rightarrow> True)"

definition live_inv :: "jsval list \<Rightarrow> (jsval \<times> jstr) list \<Rightarrow> bool" where
  "live_inv ts us \<longleftrightarrow> length ts \<le> MAX_LIVE_TRADES \<and> fresh_ids ts \<and>
     (\<forall>t \<in> set ts. primitive (get t ''id'') \<longrightarrow> latest (get t ''id'') us = Some t)"

lemma strict_eq_iff: "strict_eq v w \<longleftrightarrow> primitive v \<and> v = w"
  by (cases v) (auto simp: primitive_def)

lemma live_trade_id [simp]: "get (live_trade u now) ''id'' = get u ''id''"
  by (simp add: live_trade_def)

lemma fresh_ids_Cons:
  "fresh_ids (t # ts) \<longleftrightarrow> (\<forall>x\<in>set ts. \<not> strict_eq (get t ''id'') (get x ''id'')) \<and> fresh_ids ts"
proof
  assume f: "fresh_ids (t # ts)"
  have "\<not> strict_eq (get t ''id'') (get (ts ! j) ''id'')" if "j < length ts" for j
    using f [unfolded fresh_ids_def, rule_format, of 0 "Suc j"] that by simp
  moreover have "fresh_ids ts"
    unfolding fresh_ids_def
  proof (intro allI impI)
    fix i j assume "i < j" "j < length ts"
    then show "\<not> strict_eq (get (ts ! i) ''id'') (get (ts ! j) ''id'')"
      using f [unfolded fresh_ids_def, rule_format, of "Suc i" "Suc j"] by simp
  qed
  ultimately show "(\<forall>x\<in>set ts. \<not> strict_eq (get t ''id'') (get x ''id'')) \<and> fresh_ids ts"
    by (auto simp: in_set_conv_nth)
next
  assume a: "(\<forall>x\<in>set ts. \<not> strict_eq (get t ''id'') (get x ''id'')) \<and> fresh_ids ts"
  show "fresh_ids (t # ts)"
    unfolding fresh_ids_def
  proof (intro allI impI)
    fix i j assume ij: "i < j" "j < length (t # ts)"
    then obtain j' where j: "j = Suc j'" "j' < length ts" by (cases j) auto
    show "\<not> strict_eq (get ((t # ts) ! i) ''id'') (get ((t # ts) ! j) ''id'')"
      using a ij j by (cases i) (auto simp: fresh_ids_def)
  qed
qed

lemma fresh_ids_take: "fresh_ids ts \<Longrightarrow> fresh_ids (take n ts)"
  by (simp add: fresh_ids_def)

lemma set_trades_inv:
  assumes inv: "live_inv ts us"
  shows "live_inv (set_trades (live_trade u now) ts) (us @ [(u, now)])"
proof (cases "find_index (\<lambda>t. strict_eq (get t ''id'') (get (live_trade u now) ''id'')) ts")
  case None
  then have no: "\<not> strict_eq (get x ''id'') (get u ''id'')" if "x \<in> set ts" for x
    using that by (auto simp: find_index_None)
  have out: "set_trades (live_trade u now) ts = take MAX_LIVE_TRADES (live_trade u now # ts)"
    using None by (simp add: set_trades_def del: take_Suc_Cons)
  have "\<forall>x\<in>set ts. \<not> strict_eq (get (live_trade u now) ''id'') (get x ''id'')"
    using no by (metis strict_eq_iff live_trade_id)
  then have "fresh_ids (live_trade u now # ts)" using inv unfolding fresh_ids_Cons live_inv_def by blast
  moreover have "latest (get t ''id'') (us @ [(u, now)]) = Some t"
    if "t \<in> set (live_trade u now # ts)" "primitive (get t ''id'')" for t
    using that inv no [of t] by (auto simp: latest_snoc live_inv_def strict_eq_iff)
  ultimately show ?thesis
    unfolding live_inv_def out by (auto simp: fresh_ids_take dest: in_set_takeD simp del: take_Suc_Cons)
next
  case (Some i)
  note i = find_index_Some [OF Some]
  have id: "get (ts ! i) ''id'' = get u ''id''" "primitive (get u ''id'')" using i by (auto simp: strict_eq_iff)
  have out: "set_trades (live_trade u now) ts = ts[i := live_trade u now]" using Some by (simp add: set_trades_def)
  have ids: "get (ts[i := live_trade u now] ! j) ''id'' = get (ts ! j) ''id''" if "j < length ts" for j
    using that id by (cases "j = i") simp_all
  have fresh: "fresh_ids ts" using inv by (simp add: live_inv_def)
  then have "fresh_ids (ts[i := live_trade u now])" using ids by (auto simp: fresh_ids_def)
  moreover have "latest (get t ''id'') (us @ [(u, now)]) = Some t"
    if t: "t \<in> set (ts[i := live_trade u now])" "primitive (get t ''id'')" for t
  proof -
    obtain j where j: "j < length ts" "t = ts[i := live_trade u now] ! j" using t(1) by (auto simp: in_set_conv_nth)
    show ?thesis
    proof (cases "j = i")
      case True
      then show ?thesis using j i by (simp add: latest_snoc)
    next
      case False
      then have tj: "t = ts ! j" "t \<in> set ts" using j by auto
      have "get (ts ! j) ''id'' \<noteq> get (ts ! i) ''id''"
        using fresh False j(1) i id(2) unfolding fresh_ids_def strict_eq_iff by (metis linorder_neqE_nat id(1))
      then show ?thesis using inv t(2) tj id by (auto simp: latest_snoc live_inv_def)
    qed
  qed
  ultimately show ?thesis using inv by (simp add: live_inv_def out)
qed

lemma live_step_trades:
  "lt_trades (live_step e s) = (case taken [e] s of [] \<Rightarrow> lt_trades s | (u, now) # _ \<Rightarrow> set_trades (live_trade u now) (lt_trades s))"
  by (cases e) (auto simp: live_defs Let_def split: option.split)

lemma live_fold_inv:
  "live_inv (lt_trades s) us \<Longrightarrow> live_inv (lt_trades (fold live_step es s)) (us @ taken es s)"
proof (induction es arbitrary: s us)
  case (Cons e es)
  have "taken [e] s = [] \<or> (\<exists>u now. taken [e] s = [(u, now)])"
    by (cases e) (auto split: option.split)
  then have "live_inv (lt_trades (live_step e s)) (us @ taken [e] s)"
    using Cons.prems set_trades_inv by (auto simp: live_step_trades simp del: taken.simps)
  from Cons.IH [OF this] show ?case by simp
qed simp

section \<open>The connection invariant\<close>

definition alive_count :: "bool list \<Rightarrow> nat" where
  "alive_count bs = length (filter id bs)"

lemma alive_count_simps [simp]: "alive_count [] = 0" "alive_count (bs @ [True]) = Suc (alive_count bs)"
  "alive_count [True] = 1"
  by (simp_all add: alive_count_def)

lemma alive_count_close: "i < length bs \<Longrightarrow> bs ! i \<Longrightarrow> Suc (alive_count (bs[i := False])) = alive_count bs"
proof (induction bs arbitrary: i)
  case (Cons b bs)
  show ?case
  proof (cases i)
    case (Suc j)
    then show ?thesis using Cons by (simp add: alive_count_def)
  qed (use Cons in \<open>simp add: alive_count_def\<close>)
qed simp

lemma alive_pos: "alive i s \<Longrightarrow> 0 < alive_count (lt_socks s)"
  using alive_count_close [of i "lt_socks s"] by (simp add: alive_def)

definition live_conn :: "live_state \<Rightarrow> bool" where
  "live_conn s \<longleftrightarrow>
     (if lt_mounted s then (if lt_timer s = None then alive_count (lt_socks s) = 1 else alive_count (lt_socks s) = 0)
      else lt_timer s = None) \<and>
     (lt_connected s \<longrightarrow> lt_mounted s \<longrightarrow> lt_timer s = None)"

lemma live_step_conn: "live_conn s \<Longrightarrow> live_conn (live_step e s)"
proof (cases e)
  case (Opened i)
  assume "live_conn s"
  then show ?thesis using Opened alive_pos [of i s] by (auto simp: live_conn_def live_open_def split: if_splits)
next
  case (SockClosed i)
  assume c: "live_conn s"
  show ?thesis
  proof (cases "alive i s")
    case True
    then have "Suc (alive_count ((lt_socks s)[i := False])) = alive_count (lt_socks s)"
      using alive_count_close [of i "lt_socks s"] by (simp add: alive_def)
    then show ?thesis using c True SockClosed by (simp add: live_conn_def live_close_def split: if_splits)
  qed (use c SockClosed in simp)
next
  case (ReconnectDue r)
  assume "live_conn s"
  then show ?thesis using ReconnectDue
    by (cases r; cases "lt_timer s") (auto simp: live_conn_def live_timer_def live_connect_def Let_def)
next
  case (Message i dat now)
  assume "live_conn s"
  then show ?thesis using Message by (simp add: live_conn_def live_message_def split: option.split)
qed (simp_all add: live_conn_def live_error_def live_unmount_def)

lemma live_run_snoc: "live_run r (es @ [e]) = live_step e (live_run r es)"
  by (simp add: live_run_def)

lemma live_run_conn: "live_conn (live_run r es)"
proof (induction es rule: rev_induct)
  case Nil
  then show ?case by (cases r) (simp_all add: live_run_def live_conn_def live_connect_def live_init_def)
next
  case (snoc e es)
  then show ?case by (simp only: live_run_snoc live_step_conn)
qed

section \<open>Properties\<close>

text \<open>C30: what the live feed shows. After any sequence of socket events, messages (well formed or not),
  reconnects and an unmount, the list holds at most 100 trades, no two with the same identifier, and every
  trade in it (with a string, number or boolean identifier) is what the last update with its identifier says.\<close>

theorem live_trades_current:
  "let s = live_run r es; us = taken es (live_connect r live_init) in
     length (lt_trades s) \<le> 100 \<and> fresh_ids (lt_trades s) \<and>
     list_all (\<lambda>t. if primitive (get t ''id'') then latest (get t ''id'') us = Some t else True) (lt_trades s)"
proof -
  have "live_inv (lt_trades (live_connect r live_init)) []"
    by (auto simp: live_inv_def live_defs fresh_ids_def split: option.split)
  from live_fold_inv [OF this, of es] show ?thesis
    by (simp add: live_run_def live_inv_def MAX_LIVE_TRADES_def list_all_iff Let_def)
qed

text \<open>The live feed always comes back and never doubles. While the component is mounted there is
  exactly one of a socket that is alive or connecting and a pending reconnect, so a lost or refused
  connection is retried after 3 or 5 seconds; it shows itself connected only while no reconnect is pending;
  after the unmount no reconnect is pending, and no socket is opened any more.\<close>

theorem live_feed_reconnects:
  "let s = live_run r es in
     (if lt_mounted s then (if lt_timer s = None then alive_count (lt_socks s) = 1 else alive_count (lt_socks s) = 0)
      else lt_timer s = None \<and> length (lt_socks (live_step e s)) = length (lt_socks s)) \<and>
     (if lt_connected s \<and> lt_mounted s then lt_timer s = None else True) \<and>
     (case lt_timer s of None \<Rightarrow> True | Some d \<Rightarrow> d = 3000 \<or> d = 5000)"
proof -
  have conn: "live_conn (live_run r es)" by (rule live_run_conn)
  have "case lt_timer (live_step e' s) of None \<Rightarrow> True | Some d \<Rightarrow> d = 3000 \<or> d = 5000"
    if "case lt_timer s of None \<Rightarrow> True | Some d \<Rightarrow> d = 3000 \<or> d = 5000" for e' s
    using that by (cases e'; cases "lt_timer s") (auto simp: live_defs Let_def split: option.split)
  then have d: "case lt_timer (live_run r es) of None \<Rightarrow> True | Some d \<Rightarrow> d = 3000 \<or> d = 5000"
  proof (induction es rule: rev_induct)
    case Nil
    then show ?case by (cases r) (simp_all add: live_run_def live_connect_def live_init_def)
  next
    case (snoc e es)
    then show ?case by (simp only: live_run_snoc)
  qed
  have "length (lt_socks (live_step e (live_run r es))) = length (lt_socks (live_run r es))"
    if "\<not> lt_mounted (live_run r es)"
    using that by (cases e) (simp_all add: live_defs Let_def split: option.split)
  then show ?thesis using conn d unfolding live_conn_def Let_def by (auto split: if_splits)
qed

section \<open>The banner\<close>

definition banner_inv :: "banner \<Rightarrow> bool" where
  "banner_inv s \<longleftrightarrow> ob_stray s = 0 \<and> (if ob_timer s then alive_count (ob_socks s) = 0 \<and> ob_state s = Offline
     else alive_count (ob_socks s) = 1)"

lemma balive_pos: "balive i s \<Longrightarrow> Suc (alive_count ((ob_socks s)[i := False])) = alive_count (ob_socks s)"
  using alive_count_close [of i "ob_socks s"] by (simp add: balive_def)

lemma banner_step_inv: "banner_inv s \<Longrightarrow> e \<noteq> BRetry \<Longrightarrow> e \<noteq> BUnmount \<Longrightarrow> banner_inv (banner_step e s)"
  using balive_pos [of _ s]
  by (cases e) (auto simp: banner_inv_def banner_open_def banner_error_def banner_close_def banner_connect_def
      banner_dismiss_def split: if_splits)

text \<open>One round of the loop: the timer opens socket \<open>k\<close> and closes socket \<open>k - 1\<close>; socket \<open>k\<close> opens; the close event
  of socket \<open>k - 1\<close> arrives.\<close>

definition banner_round :: "nat \<Rightarrow> banner_event list" where
  "banner_round k = [BTimer, BOpened k, BClosed (k - 1)]"

definition flapping :: "nat \<Rightarrow> banner \<Rightarrow> bool" where
  "flapping k s \<longleftrightarrow> ob_state s = Offline \<and> ob_timer s \<and> length (ob_socks s) = k \<and> 0 < k \<and> ob_socks s ! (k - 1)"

lemma banner_round_flapping: "flapping k s \<Longrightarrow> flapping (Suc k) (fold banner_step (banner_round k) s)"
  by (cases k) (auto simp: flapping_def banner_round_def balive_def banner_connect_def banner_open_def banner_close_def nth_append
      nth_list_update)

lemma banner_rounds: "flapping k s \<Longrightarrow> flapping (k + n) (fold banner_step (concat (map banner_round [k..<k + n])) s)"
proof (induction n)
  case (Suc n)
  have "concat (map banner_round [k..<k + Suc n]) = concat (map banner_round [k..<k + n]) @ banner_round (k + n)" by simp
  then show ?case using banner_round_flapping [OF Suc.IH [OF Suc.prems]] by (simp only: fold_append comp_apply add_Suc_right)
qed simp

text \<open>Without the Retry button the banner's probe recovers: there is always exactly one of a socket that
  is alive and a pending reconnect, and only a pending reconnect shows as offline for good. But Retry breaks this.
  After one lost connection and two clicks the new working connection is closed by the program itself,
  every five seconds and for ever: its own close event counts as a loss and schedules the next connect,
  which closes the connection that replaced it, although the network never fails again.\<close>

theorem banner_retry_flaps:
  "banner_inv (banner_run (filter (\<lambda>e. e \<noteq> BRetry \<and> e \<noteq> BUnmount) es)) \<and>
   (let s = banner_run ([BClosed 0, BRetry, BRetry, BOpened 2, BClosed 1] @ concat (map banner_round [3..<3 + n])) in
      ob_state s = Offline \<and> ob_timer s \<and> length (ob_socks s) = 3 + n \<and> ob_socks s ! (2 + n))"
proof
  show "banner_inv (banner_run (filter (\<lambda>e. e \<noteq> BRetry \<and> e \<noteq> BUnmount) es))"
  proof (induction es rule: rev_induct)
    case Nil
    then show ?case by (simp add: banner_run_def banner_inv_def banner_init_def banner_connect_def)
  next
    case (snoc e es)
    then show ?case using banner_step_inv [OF snoc, of e] by (simp add: banner_run_def)
  qed
next
  have "flapping 3 (banner_run [BClosed 0, BRetry, BRetry, BOpened 2, BClosed 1])"
    by (simp add: flapping_def banner_run_def banner_defs numeral_3_eq_3)
  from banner_rounds [OF this, of n]
  show "let s = banner_run ([BClosed 0, BRetry, BRetry, BOpened 2, BClosed 1] @ concat (map banner_round [3..<3 + n])) in
      ob_state s = Offline \<and> ob_timer s \<and> length (ob_socks s) = 3 + n \<and> ob_socks s ! (2 + n)"
    by (simp add: banner_run_def flapping_def Let_def numeral_3_eq_3)
qed

end
