(* ===== verification/Toasts.thy ===== *)
theory Toasts
  imports JsVal
begin

text \<open>
  \<open>hooks/use-toast.ts\<close> of the dashboard and of the mockup sandbox, two copies of one file: the toast list as a
  reducer with a side effect, the removal timers, the identifier counter and the listeners. A toast's
  callbacks are not data and are left out; what they do is a step. The second copy is modelled from its own
  file, and the two are shown to behave alike.
\<close>

section \<open>Data\<close>

record toaster_toast =
  to_id :: jstr
  to_open :: bool
  to_props :: "(jstr \<times> jsval) list"

text \<open>A partial toast; \<open>merge_toast t p\<close> is \<open>{...t, ...p}\<close>.\<close>

record toast_patch =
  pa_open :: "bool option"
  pa_props :: "(jstr \<times> jsval) list"

definition merge_toast :: "toaster_toast \<Rightarrow> toast_patch \<Rightarrow> toaster_toast" where
  "merge_toast t p = t\<lparr>to_open := (case pa_open p of Some b \<Rightarrow> b | None \<Rightarrow> to_open t),
     to_props := fold (\<lambda>(k, v). put k v) (pa_props p) (to_props t)\<rparr>"

datatype toast_action =
    ADD_TOAST toaster_toast
  | UPDATE_TOAST jstr toast_patch
  | DISMISS_TOAST "jstr option"
  | REMOVE_TOAST "jstr option"

record toast_state =
  tt_count :: nat
  tt_toasts :: "toaster_toast list"
  tt_timers :: "(jstr \<times> int) list" \<comment> \<open>\<open>toastTimeouts\<close>, with the times they are due\<close>
  tt_listeners :: "(nat \<times> toaster_toast list) list"

definition toast_init :: toast_state where
  "toast_init = \<lparr>tt_count = 0, tt_toasts = [], tt_timers = [], tt_listeners = []\<rparr>"

datatype toast_event =
    Show "(jstr \<times> jsval) list" | Update jstr toast_patch | Dismiss jstr | DismissAny "jstr option" | Timer jstr
  | Join nat | Leave nat

section \<open>The dashboard\<close>

definition TOAST_LIMIT :: nat where "TOAST_LIMIT = 1"
definition TOAST_REMOVE_DELAY :: int where "TOAST_REMOVE_DELAY = 1000000"

definition genId :: "toast_state \<Rightarrow> jstr \<times> toast_state" where
  "genId s = (let count = (tt_count s + 1) mod (2 ^ 53 - 1) in (dec_nat count, s\<lparr>tt_count := count\<rparr>))"

definition addToRemoveQueue :: "int \<Rightarrow> jstr \<Rightarrow> toast_state \<Rightarrow> toast_state" where
  "addToRemoveQueue now toastId s =
     (if map_of (tt_timers s) toastId \<noteq> None then s
      else s\<lparr>tt_timers := put toastId (now + TOAST_REMOVE_DELAY) (tt_timers s)\<rparr>)"

fun reducer :: "int \<Rightarrow> toast_action \<Rightarrow> toast_state \<Rightarrow> toast_state" where
  "reducer now (ADD_TOAST t) s = s\<lparr>tt_toasts := take TOAST_LIMIT (t # tt_toasts s)\<rparr>"
| "reducer now (UPDATE_TOAST i p) s =
     s\<lparr>tt_toasts := map (\<lambda>t. if to_id t = i then merge_toast t p else t) (tt_toasts s)\<rparr>"
| "reducer now (DISMISS_TOAST toastId) s =
     (let q = (case toastId of
            Some (c # cs) \<Rightarrow> addToRemoveQueue now (c # cs) s
          | _ \<Rightarrow> fold (\<lambda>t. addToRemoveQueue now (to_id t)) (tt_toasts s) s)
      in q\<lparr>tt_toasts := map (\<lambda>t. if Some (to_id t) = toastId \<or> toastId = None then t\<lparr>to_open := False\<rparr> else t) (tt_toasts s)\<rparr>)"
| "reducer now (REMOVE_TOAST toastId) s =
     (case toastId of
        None \<Rightarrow> s\<lparr>tt_toasts := []\<rparr>
      | Some i \<Rightarrow> s\<lparr>tt_toasts := filter (\<lambda>t. to_id t \<noteq> i) (tt_toasts s)\<rparr>)"

text \<open>Every listener is set to the new memory state.\<close>

definition dispatch :: "int \<Rightarrow> toast_action \<Rightarrow> toast_state \<Rightarrow> toast_state" where
  "dispatch now a s = (let t = reducer now a s in t\<lparr>tt_listeners := map (\<lambda>(i, _). (i, tt_toasts t)) (tt_listeners t)\<rparr>)"

definition timer_fires :: "int \<Rightarrow> jstr \<Rightarrow> toast_state \<Rightarrow> toast_state" where
  "timer_fires now toastId s =
     (case map_of (tt_timers s) toastId of
        Some due \<Rightarrow>
          if due \<le> now then dispatch now (REMOVE_TOAST (Some toastId)) (s\<lparr>tt_timers := del toastId (tt_timers s)\<rparr>) else s
      | None \<Rightarrow> s)"

definition toast :: "int \<Rightarrow> (jstr \<times> jsval) list \<Rightarrow> toast_state \<Rightarrow> jstr \<times> toast_state" where
  "toast now props s =
     (let (i, t) = genId s in (i, dispatch now (ADD_TOAST \<lparr>to_id = i, to_open = True, to_props = props\<rparr>) t))"

definition update_toast :: "int \<Rightarrow> jstr \<Rightarrow> toast_patch \<Rightarrow> toast_state \<Rightarrow> toast_state" where
  "update_toast now i p s = dispatch now (UPDATE_TOAST i p) s"

definition dismiss_toast :: "int \<Rightarrow> jstr \<Rightarrow> toast_state \<Rightarrow> toast_state" where
  "dismiss_toast now i s = dispatch now (DISMISS_TOAST (Some i)) s"

definition useToast :: "nat \<Rightarrow> toast_state \<Rightarrow> toast_state" where
  "useToast i s = s\<lparr>tt_listeners := put i (tt_toasts s) (tt_listeners s)\<rparr>"

definition leave_toast :: "nat \<Rightarrow> toast_state \<Rightarrow> toast_state" where
  "leave_toast i s = s\<lparr>tt_listeners := del i (tt_listeners s)\<rparr>"

definition dismiss_any :: "int \<Rightarrow> jstr option \<Rightarrow> toast_state \<Rightarrow> toast_state" where
  "dismiss_any now i s = dispatch now (DISMISS_TOAST i) s"

text \<open>A call of the module, or a timer, at a time.\<close>

fun toast_step :: "int \<times> toast_event \<Rightarrow> toast_state \<Rightarrow> toast_state" where
  "toast_step (now, Show props) s = snd (toast now props s)"
| "toast_step (now, Update i p) s = update_toast now i p s"
| "toast_step (now, Dismiss i) s = dismiss_toast now i s"
| "toast_step (now, DismissAny i) s = dismiss_any now i s"
| "toast_step (now, Timer i) s = timer_fires now i s"
| "toast_step (now, Join i) s = useToast i s"
| "toast_step (now, Leave i) s = leave_toast i s"

definition toast_run :: "(int \<times> toast_event) list \<Rightarrow> toast_state" where
  "toast_run es = fold toast_step es toast_init"

section \<open>The mockup sandbox\<close>

definition sb_TOAST_LIMIT :: nat where "sb_TOAST_LIMIT = 1"
definition sb_TOAST_REMOVE_DELAY :: int where "sb_TOAST_REMOVE_DELAY = 1000000"

definition sb_genId :: "toast_state \<Rightarrow> jstr \<times> toast_state" where
  "sb_genId s = (let count = (tt_count s + 1) mod (2 ^ 53 - 1) in (dec_nat count, s\<lparr>tt_count := count\<rparr>))"

definition sb_addToRemoveQueue :: "int \<Rightarrow> jstr \<Rightarrow> toast_state \<Rightarrow> toast_state" where
  "sb_addToRemoveQueue now toastId s =
     (if map_of (tt_timers s) toastId \<noteq> None then s
      else s\<lparr>tt_timers := put toastId (now + sb_TOAST_REMOVE_DELAY) (tt_timers s)\<rparr>)"

fun sb_reducer :: "int \<Rightarrow> toast_action \<Rightarrow> toast_state \<Rightarrow> toast_state" where
  "sb_reducer now (ADD_TOAST t) s = s\<lparr>tt_toasts := take sb_TOAST_LIMIT (t # tt_toasts s)\<rparr>"
| "sb_reducer now (UPDATE_TOAST i p) s =
     s\<lparr>tt_toasts := map (\<lambda>t. if to_id t = i then merge_toast t p else t) (tt_toasts s)\<rparr>"
| "sb_reducer now (DISMISS_TOAST toastId) s =
     (let q = (case toastId of
            Some (c # cs) \<Rightarrow> sb_addToRemoveQueue now (c # cs) s
          | _ \<Rightarrow> fold (\<lambda>t. sb_addToRemoveQueue now (to_id t)) (tt_toasts s) s)
      in q\<lparr>tt_toasts := map (\<lambda>t. if Some (to_id t) = toastId \<or> toastId = None then t\<lparr>to_open := False\<rparr> else t) (tt_toasts s)\<rparr>)"
| "sb_reducer now (REMOVE_TOAST toastId) s =
     (case toastId of
        None \<Rightarrow> s\<lparr>tt_toasts := []\<rparr>
      | Some i \<Rightarrow> s\<lparr>tt_toasts := filter (\<lambda>t. to_id t \<noteq> i) (tt_toasts s)\<rparr>)"

text \<open>Every listener is set to the new memory state.\<close>

definition sb_dispatch :: "int \<Rightarrow> toast_action \<Rightarrow> toast_state \<Rightarrow> toast_state" where
  "sb_dispatch now a s = (let t = sb_reducer now a s in t\<lparr>tt_listeners := map (\<lambda>(i, _). (i, tt_toasts t)) (tt_listeners t)\<rparr>)"

definition sb_timer_fires :: "int \<Rightarrow> jstr \<Rightarrow> toast_state \<Rightarrow> toast_state" where
  "sb_timer_fires now toastId s =
     (case map_of (tt_timers s) toastId of
        Some due \<Rightarrow>
          if due \<le> now then sb_dispatch now (REMOVE_TOAST (Some toastId)) (s\<lparr>tt_timers := del toastId (tt_timers s)\<rparr>) else s
      | None \<Rightarrow> s)"

definition sb_toast :: "int \<Rightarrow> (jstr \<times> jsval) list \<Rightarrow> toast_state \<Rightarrow> jstr \<times> toast_state" where
  "sb_toast now props s =
     (let (i, t) = sb_genId s in (i, sb_dispatch now (ADD_TOAST \<lparr>to_id = i, to_open = True, to_props = props\<rparr>) t))"

definition sb_update_toast :: "int \<Rightarrow> jstr \<Rightarrow> toast_patch \<Rightarrow> toast_state \<Rightarrow> toast_state" where
  "sb_update_toast now i p s = sb_dispatch now (UPDATE_TOAST i p) s"

definition sb_dismiss_toast :: "int \<Rightarrow> jstr \<Rightarrow> toast_state \<Rightarrow> toast_state" where
  "sb_dismiss_toast now i s = sb_dispatch now (DISMISS_TOAST (Some i)) s"

definition sb_useToast :: "nat \<Rightarrow> toast_state \<Rightarrow> toast_state" where
  "sb_useToast i s = s\<lparr>tt_listeners := put i (tt_toasts s) (tt_listeners s)\<rparr>"

definition sb_leave_toast :: "nat \<Rightarrow> toast_state \<Rightarrow> toast_state" where
  "sb_leave_toast i s = s\<lparr>tt_listeners := del i (tt_listeners s)\<rparr>"

definition sb_dismiss_any :: "int \<Rightarrow> jstr option \<Rightarrow> toast_state \<Rightarrow> toast_state" where
  "sb_dismiss_any now i s = sb_dispatch now (DISMISS_TOAST i) s"

text \<open>A call of the module, or a timer, at a time.\<close>

fun sb_toast_step :: "int \<times> toast_event \<Rightarrow> toast_state \<Rightarrow> toast_state" where
  "sb_toast_step (now, Show props) s = snd (sb_toast now props s)"
| "sb_toast_step (now, Update i p) s = sb_update_toast now i p s"
| "sb_toast_step (now, Dismiss i) s = sb_dismiss_toast now i s"
| "sb_toast_step (now, DismissAny i) s = sb_dismiss_any now i s"
| "sb_toast_step (now, Timer i) s = sb_timer_fires now i s"
| "sb_toast_step (now, Join i) s = sb_useToast i s"
| "sb_toast_step (now, Leave i) s = sb_leave_toast i s"

definition sb_toast_run :: "(int \<times> toast_event) list \<Rightarrow> toast_state" where
  "sb_toast_run es = fold sb_toast_step es toast_init"

section \<open>Lemmas\<close>


lemma queue_simps [simp]:
  "tt_toasts (addToRemoveQueue now i s) = tt_toasts s" "tt_listeners (addToRemoveQueue now i s) = tt_listeners s"
  "distinct (map fst (tt_timers s)) \<Longrightarrow> distinct (map fst (tt_timers (addToRemoveQueue now i s)))"
  by (simp_all add: addToRemoveQueue_def)

lemma queue_all [simp]:
  "tt_toasts (fold (\<lambda>t. addToRemoveQueue now (to_id t)) ts s) = tt_toasts s"
  "tt_listeners (fold (\<lambda>t. addToRemoveQueue now (to_id t)) ts s) = tt_listeners s"
  by (induction ts arbitrary: s) simp_all

lemma queue_all_distinct [simp]:
  "distinct (map fst (tt_timers s)) \<Longrightarrow> distinct (map fst (tt_timers (fold (\<lambda>t. addToRemoveQueue now (to_id t)) ts s)))"
  by (induction ts arbitrary: s) simp_all






section \<open>Properties\<close>


lemma sb_reducer_same: "sb_reducer now a s = reducer now a s"
proof -
  have q: "sb_addToRemoveQueue = addToRemoveQueue"
    by (intro ext) (simp add: sb_addToRemoveQueue_def addToRemoveQueue_def sb_TOAST_REMOVE_DELAY_def TOAST_REMOVE_DELAY_def)
  show ?thesis
    by (cases a; hypsubst; unfold sb_reducer.simps reducer.simps q sb_TOAST_LIMIT_def TOAST_LIMIT_def; rule refl)
qed

lemma sb_dispatch_same: "sb_dispatch = dispatch"
  by (intro ext) (simp add: sb_dispatch_def dispatch_def sb_reducer_same)

lemma sb_toast_step_same: "sb_toast_step e s = toast_step e s"
proof -
  obtain now ev where e: "e = (now, ev)" by (cases e)
  have d: "sb_dispatch n a t = dispatch n a t" for n a t by (simp add: sb_dispatch_same)
  show ?thesis
    unfolding e by (cases ev) (simp_all add: d sb_toast_def toast_def sb_genId_def genId_def sb_update_toast_def
        update_toast_def sb_dismiss_toast_def dismiss_toast_def sb_dismiss_any_def dismiss_any_def sb_timer_fires_def
        timer_fires_def sb_useToast_def useToast_def sb_leave_toast_def leave_toast_def split: option.split)
qed

text \<open>the two copies of the hook behave alike: the sandbox's copy goes through the same states as the
  dashboard's, whatever is called and whichever timers fire.\<close>

theorem toast_copies_agree: "sb_toast_run es = toast_run es"
proof -
  have "fold sb_toast_step es s = fold toast_step es s" for s
    by (induction es arbitrary: s) (simp_all add: sb_toast_step_same)
  then show ?thesis by (simp add: sb_toast_run_def toast_run_def)
qed

end
