(* ===== verification/SettingsPage.thy ===== *)
theory SettingsPage
  imports Settings JsonText
begin

text \<open>
  The editable cards of \<open>pages/Settings.tsx\<close>: connection, Jito and service URLs. Each card keeps its fields as
  text, takes them over from the configuration whenever that changes, and saves them trimmed with a PUT of its
  own keys. The query cache keeps the object it holds when the same configuration is read again (React Query's
  structural sharing), so that the cards' effects, which depend on the object, do not run then. The theorem composes the cards with the configuration routes of the server.
\<close>

section \<open>The configuration as the page reads it\<close>

type_synonym config_map = "string \<Rightarrow> jstr option"

text \<open>\<open>(await res.json()) as ConfigMap\<close>\<close>

definition config_of :: "(jstr \<times> jsval) list \<Rightarrow> config_map" where
  "config_of m k = (case map_of m (U k) of Some (VStr s) \<Rightarrow> Some s | _ \<Rightarrow> None)"

text \<open>\<open>config[k] ?? d\<close>\<close>

definition config_or :: "config_map \<Rightarrow> string \<Rightarrow> string \<Rightarrow> jstr" where
  "config_or config k d = (case config k of Some s \<Rightarrow> s | None \<Rightarrow> U d)"

text \<open>
  What is read, as the object of the answer, and what the cache then holds: the object it held, if the new one has the
  same keys with the same values, in whatever order.
\<close>

type_synonym config_object = "(jstr \<times> jsval) list"

definition same_config :: "config_object \<Rightarrow> config_object \<Rightarrow> bool" where
  "same_config held config \<longleftrightarrow>
     set (map fst held) = set (map fst config) \<and> list_all (\<lambda>k. map_of held k = map_of config k) (map fst config)"

definition reread :: "config_object \<Rightarrow> config_object \<Rightarrow> config_object" where
  "reread held config = (if same_config held config then held else config)"

lemma same_config_iff: "same_config a b \<longleftrightarrow> map_of a = map_of b"
proof
  assume s: "same_config a b"
  show "map_of a = map_of b"
  proof
    fix k
    show "map_of a k = map_of b k"
    proof (cases "k \<in> fst ` set b")
      case False
      then have "map_of b k = None" "map_of a k = None" using s by (simp_all add: same_config_def map_of_eq_None_iff)
      then show ?thesis by simp
    qed (use s in \<open>auto simp: same_config_def list_all_iff\<close>)
  qed
qed (simp add: same_config_def list_all_iff flip: dom_map_of_conv_image_fst)

text \<open>An effect with the configuration as its dependency.\<close>

definition on_config :: "(config_map \<Rightarrow> 'c \<Rightarrow> 'c) \<Rightarrow> config_object \<Rightarrow> config_object \<Rightarrow> 'c \<Rightarrow> 'c" where
  "on_config effect held config c = (if same_config held config then c else effect (config_of config) c)"

text \<open>What a save ends with: the toast, and the queries that are fetched again.\<close>

type_synonym save_effect = "string \<times> string list"

section \<open>The connection card\<close>

record connection_card =
  cc_rpcUrl :: jstr
  cc_rpcUrls :: jstr
  cc_jitoUrl :: jstr
  cc_isSaving :: bool
  cc_isTesting :: bool
  cc_testResult :: jsval
  cc_showRestart :: bool

definition connection_open :: "config_map \<Rightarrow> connection_card" where
  "connection_open config =
     \<lparr>cc_rpcUrl = config_or config ''SOLANA_RPC_URL'' '''', cc_rpcUrls = config_or config ''SOLANA_RPC_URLS'' '''',
      cc_jitoUrl = config_or config ''JITO_BUNDLE_URL'' '''', cc_isSaving = False, cc_isTesting = False,
      cc_testResult = VNull, cc_showRestart = False\<rparr>"

definition connection_sync :: "config_object \<Rightarrow> config_object \<Rightarrow> connection_card \<Rightarrow> connection_card" where
  "connection_sync = on_config (\<lambda>config c. c
     \<lparr>cc_rpcUrl := config_or config ''SOLANA_RPC_URL'' '''', cc_rpcUrls := config_or config ''SOLANA_RPC_URLS'' '''',
      cc_jitoUrl := config_or config ''JITO_BUNDLE_URL'' ''''\<rparr>)"

definition edit_rpcUrl :: "jstr \<Rightarrow> connection_card \<Rightarrow> connection_card" where
  "edit_rpcUrl v c = c\<lparr>cc_rpcUrl := v, cc_testResult := VNull\<rparr>"

text \<open>Testing the URL: the request, if the field is not blank, and then its answer.\<close>

definition handleTestRpc :: "connection_card \<Rightarrow> jsval option \<times> connection_card" where
  "handleTestRpc c =
     (if trim (cc_rpcUrl c) = [] then (None, c)
      else (Some (obj [(''url'', VStr (trim (cc_rpcUrl c)))]), c\<lparr>cc_isTesting := True, cc_testResult := VNull\<rparr>))"

definition test_answered :: "exn + jsval \<Rightarrow> connection_card \<Rightarrow> connection_card" where
  "test_answered data c = c
     \<lparr>cc_testResult := (case data of Inr v \<Rightarrow> v | Inl _ \<Rightarrow> obj [(''ok'', VBool False), (''latencyMs'', VNull)]),
      cc_isTesting := False\<rparr>"

definition connection_body :: "connection_card \<Rightarrow> jsval" where
  "connection_body c = obj
     [(''SOLANA_RPC_URL'', VStr (trim (cc_rpcUrl c))), (''SOLANA_RPC_URLS'', VStr (trim (cc_rpcUrls c))),
      (''JITO_BUNDLE_URL'', VStr (trim (cc_jitoUrl c)))]"

definition connection_save :: "connection_card \<Rightarrow> jsval \<times> connection_card" where
  "connection_save c = (connection_body c, c\<lparr>cc_isSaving := True\<rparr>)"

definition connection_saved :: "bool \<Rightarrow> connection_card \<Rightarrow> save_effect \<times> connection_card" where
  "connection_saved res_ok c =
     (if res_ok then ((''Connection settings saved'', [''settingsConfig'', ''settingsStatus'']),
                      c\<lparr>cc_showRestart := True, cc_isSaving := False\<rparr>)
      else ((''Failed to save settings'', []), c\<lparr>cc_isSaving := False\<rparr>))"

section \<open>The service URL card\<close>

record service_card =
  su_grpcUrl :: jstr
  su_pythonUrl :: jstr
  su_isSaving :: bool

definition service_open :: "config_map \<Rightarrow> service_card" where
  "service_open config =
     \<lparr>su_grpcUrl = config_or config ''RUST_GRPC_URL'' '''', su_pythonUrl = config_or config ''PYTHON_STRATEGY_URL'' '''',
      su_isSaving = False\<rparr>"

definition service_sync :: "config_object \<Rightarrow> config_object \<Rightarrow> service_card \<Rightarrow> service_card" where
  "service_sync = on_config (\<lambda>config c. c
     \<lparr>su_grpcUrl := config_or config ''RUST_GRPC_URL'' '''', su_pythonUrl := config_or config ''PYTHON_STRATEGY_URL'' ''''\<rparr>)"

definition service_body :: "service_card \<Rightarrow> jsval" where
  "service_body c = obj
     [(''RUST_GRPC_URL'', VStr (trim (su_grpcUrl c))), (''PYTHON_STRATEGY_URL'', VStr (trim (su_pythonUrl c)))]"

definition service_save :: "service_card \<Rightarrow> jsval \<times> service_card" where
  "service_save c = (service_body c, c\<lparr>su_isSaving := True\<rparr>)"

definition service_saved :: "bool \<Rightarrow> service_card \<Rightarrow> save_effect \<times> service_card" where
  "service_saved res_ok c =
     (if res_ok then (''Service URLs saved'', [''settingsConfig'']) else (''Failed to save service URLs'', []),
      c\<lparr>su_isSaving := False\<rparr>)"

section \<open>The Jito card\<close>

record jito_card =
  jc_tipPercent :: jstr
  jc_tipFloor :: jstr
  jc_tipCeiling :: jstr
  jc_simEnabled :: bool
  jc_isSaving :: bool
  jc_savedOk :: bool

definition sim_enabled :: "config_map \<Rightarrow> bool" where
  "sim_enabled config \<longleftrightarrow> config_or config ''JITO_SIMULATION_ENABLED'' ''true'' = U ''true''"

definition jito_open :: "config_map \<Rightarrow> jito_card" where
  "jito_open config =
     \<lparr>jc_tipPercent = config_or config ''JITO_TIP_PERCENT'' ''0.001'',
      jc_tipFloor = config_or config ''JITO_TIP_FLOOR_LAMPORTS'' ''5000'',
      jc_tipCeiling = config_or config ''JITO_TIP_CEILING_LAMPORTS'' ''10000000'',
      jc_simEnabled = sim_enabled config, jc_isSaving = False, jc_savedOk = False\<rparr>"

definition jito_sync :: "config_object \<Rightarrow> config_object \<Rightarrow> jito_card \<Rightarrow> jito_card" where
  "jito_sync = on_config (\<lambda>config c. c
     \<lparr>jc_tipPercent := config_or config ''JITO_TIP_PERCENT'' ''0.001'',
      jc_tipFloor := config_or config ''JITO_TIP_FLOOR_LAMPORTS'' ''5000'',
      jc_tipCeiling := config_or config ''JITO_TIP_CEILING_LAMPORTS'' ''10000000'',
      jc_simEnabled := sim_enabled config\<rparr>)"

definition edit_tipPercent :: "jstr \<Rightarrow> jito_card \<Rightarrow> jito_card" where
  "edit_tipPercent v c = c\<lparr>jc_tipPercent := v, jc_savedOk := False\<rparr>"

definition edit_tipFloor :: "jstr \<Rightarrow> jito_card \<Rightarrow> jito_card" where
  "edit_tipFloor v c = c\<lparr>jc_tipFloor := v, jc_savedOk := False\<rparr>"

definition edit_tipCeiling :: "jstr \<Rightarrow> jito_card \<Rightarrow> jito_card" where
  "edit_tipCeiling v c = c\<lparr>jc_tipCeiling := v, jc_savedOk := False\<rparr>"

definition edit_simEnabled :: "bool \<Rightarrow> jito_card \<Rightarrow> jito_card" where
  "edit_simEnabled v c = c\<lparr>jc_simEnabled := v, jc_savedOk := False\<rparr>"

definition jito_body :: "jito_card \<Rightarrow> jsval" where
  "jito_body c = obj
     [(''JITO_TIP_PERCENT'', VStr (trim (jc_tipPercent c))), (''JITO_TIP_FLOOR_LAMPORTS'', VStr (trim (jc_tipFloor c))),
      (''JITO_TIP_CEILING_LAMPORTS'', VStr (trim (jc_tipCeiling c))),
      (''JITO_SIMULATION_ENABLED'', S (if jc_simEnabled c then ''true'' else ''false''))]"

definition jito_save :: "jito_card \<Rightarrow> jsval \<times> jito_card" where
  "jito_save c = (jito_body c, c\<lparr>jc_isSaving := True, jc_savedOk := False\<rparr>)"

definition jito_saved :: "bool \<Rightarrow> jito_card \<Rightarrow> save_effect \<times> jito_card" where
  "jito_saved res_ok c =
     (if res_ok then ((''Jito MEV settings saved'', [''settingsConfig'']), c\<lparr>jc_savedOk := True, jc_isSaving := False\<rparr>)
      else ((''Failed to save Jito settings'', []), c\<lparr>jc_isSaving := False\<rparr>))"

section \<open>From the cards to the server and back\<close>

lemma trimmed_entries:
  "config_entries (connection_body c) = [(U ''SOLANA_RPC_URL'', trim (cc_rpcUrl c)),
     (U ''SOLANA_RPC_URLS'', trim (cc_rpcUrls c)), (U ''JITO_BUNDLE_URL'', trim (cc_jitoUrl c))]"
  "config_entries (service_body u) = [(U ''RUST_GRPC_URL'', trim (su_grpcUrl u)),
     (U ''PYTHON_STRATEGY_URL'', trim (su_pythonUrl u))]"
  "config_entries (jito_body j) = [(U ''JITO_TIP_PERCENT'', trim (jc_tipPercent j)),
     (U ''JITO_TIP_FLOOR_LAMPORTS'', trim (jc_tipFloor j)), (U ''JITO_TIP_CEILING_LAMPORTS'', trim (jc_tipCeiling j)),
     (U ''JITO_SIMULATION_ENABLED'', U (if jc_simEnabled j then ''true'' else ''false''))]"
  by (simp_all add: config_entries_def connection_body_def service_body_def jito_body_def obj_def map_filter_simps
      ALLOWED_CONFIG_KEYS_def S_def)

lemma body_travels:
  assumes "b \<in> {connection_body c, service_body u, jito_body j}"
  shows "\<exists>t. json_stringify b = Some t \<and> json_parse t = Some b"
proof -
  have "json_ok b" "b \<noteq> VUndef" "wire b = b"
    using assms by (auto simp: connection_body_def service_body_def jito_body_def obj_def S_def)
  then show ?thesis using parse_stringify [of b] by simp
qed

text \<open>What a text field shows after its value was saved and the configuration was read again.\<close>

definition shown :: "env \<Rightarrow> string \<Rightarrow> string \<Rightarrow> jstr \<Rightarrow> jstr" where
  "shown e k d v = (if trim v \<noteq> [] then trim v else case e (U k) of Some s \<Rightarrow> s | None \<Rightarrow> U d)"

lemma config_or_shown:
  assumes "map_of m (U k) = map_option VStr (case (if trim v = [] then None else Some (trim v)) of Some x \<Rightarrow> Some x | None \<Rightarrow> e (U k))"
  shows "config_or (config_of m) k d = shown e k d v"
  using assms by (auto simp: config_or_def config_of_def shown_def split: option.splits)

lemma saved_Nil: "saved [] k old = old"
  by (simp add: saved_def)

lemma three_saves:
  assumes "config_store T view invar" and "invar d"
    and "put_settings_config T k1 (connection_body c) d = (r1, d1)" and "r_status r1 = 200"
    and "put_settings_config T k2 (jito_body j) d1 = (r2, d2)" and "r_status r2 = 200"
    and "put_settings_config T k3 (service_body u) d2 = (r3, d3)" and "r_status r3 = 200"
  shows "value_of (view d3 k) = saved (config_entries (connection_body c) @ config_entries (jito_body j)
    @ config_entries (service_body u)) k (value_of (view d k)) \<and> invar d3"
proof -
  note cs = assms(1) and n1 = put_config_view [OF assms(1-4)]
  note n2 = put_config_view [OF cs n1(2) assms(5,6)]
  note n3 = put_config_view [OF cs n2(2) assms(7,8)]
  have "saved (xs @ ys) k old = saved ys k (saved xs k old)" for xs ys old
    by (induction xs arbitrary: old) (simp_all add: saved_Cons saved_Nil)
  then show ?thesis using n1(1) n2(1) n3 by simp
qed

text \<open>C36: the settings page shows what was saved. When the connection, the Jito and the service card
  are saved one after the other and each save is answered 200, then each body arrives at the server as it was
  made, and after the next read the configuration that the page holds has for every text field the trimmed text that
  was saved there, or the environment's value, else the default, where the text was blank, and the simulation switch
  as it was; no card disturbs another's keys. If this differs from the configuration held before (\<open>held\<close>), it is put
  into every field, over whatever is there by then (\<open>c'\<close>, \<open>j'\<close>, \<open>u'\<close>), saved or not; if it does not, the cards stay
  as they are, so that a text that was saved with spaces, or blank, still stands as it was typed.\<close>

theorem settings_cards_roundtrip:
  assumes "config_store T view invar" and "invar d"
    and "put_settings_config T k1 (connection_body c) d = (r1, d1)" and "r_status r1 = 200"
    and "put_settings_config T k2 (jito_body j) d1 = (r2, d2)" and "r_status r2 = 200"
    and "put_settings_config T k3 (service_body u) d2 = (r3, d3)" and "r_status r3 = 200"
    and "t_all T d3 = Inr rows"
  shows "\<exists>m. get_settings_config e T d3 = ok (VObj m) \<and>
    list_all (\<lambda>(k, dflt, v). config_or (config_of (reread held m)) k dflt = shown e k dflt v)
      [(''SOLANA_RPC_URL'', '''', cc_rpcUrl c), (''SOLANA_RPC_URLS'', '''', cc_rpcUrls c), (''JITO_BUNDLE_URL'', '''', cc_jitoUrl c),
       (''JITO_TIP_PERCENT'', ''0.001'', jc_tipPercent j), (''JITO_TIP_FLOOR_LAMPORTS'', ''5000'', jc_tipFloor j),
       (''JITO_TIP_CEILING_LAMPORTS'', ''10000000'', jc_tipCeiling j),
       (''RUST_GRPC_URL'', '''', su_grpcUrl u), (''PYTHON_STRATEGY_URL'', '''', su_pythonUrl u)] \<and>
    sim_enabled (config_of (reread held m)) = jc_simEnabled j \<and>
    connection_sync held m c' = (if same_config held m then c' else c'
      \<lparr>cc_rpcUrl := shown e ''SOLANA_RPC_URL'' '''' (cc_rpcUrl c), cc_rpcUrls := shown e ''SOLANA_RPC_URLS'' '''' (cc_rpcUrls c),
       cc_jitoUrl := shown e ''JITO_BUNDLE_URL'' '''' (cc_jitoUrl c)\<rparr>) \<and>
    jito_sync held m j' = (if same_config held m then j' else j'
      \<lparr>jc_tipPercent := shown e ''JITO_TIP_PERCENT'' ''0.001'' (jc_tipPercent j),
       jc_tipFloor := shown e ''JITO_TIP_FLOOR_LAMPORTS'' ''5000'' (jc_tipFloor j),
       jc_tipCeiling := shown e ''JITO_TIP_CEILING_LAMPORTS'' ''10000000'' (jc_tipCeiling j), jc_simEnabled := jc_simEnabled j\<rparr>) \<and>
    service_sync held m u' = (if same_config held m then u' else u'
      \<lparr>su_grpcUrl := shown e ''RUST_GRPC_URL'' '''' (su_grpcUrl u), su_pythonUrl := shown e ''PYTHON_STRATEGY_URL'' '''' (su_pythonUrl u)\<rparr>) \<and>
    (\<forall>b. b = connection_body c \<or> b = service_body u \<or> b = jito_body j \<longrightarrow>
       (\<exists>t. json_stringify b = Some t \<and> json_parse t = Some b))"
proof -
  define m where "m = merged_config e (map_of (loadDbConfig T d3))"
  have get: "get_settings_config e T d3 = ok (VObj m)" by (simp add: get_settings_config_def m_def)
  have v: "map_of m k = map_option VStr (case saved (config_entries (connection_body c) @ config_entries (jito_body j)
      @ config_entries (service_body u)) k (value_of (view d k)) of Some v \<Rightarrow> Some v | None \<Rightarrow> e k)"
    if "k \<in> set ALLOWED_CONFIG_KEYS" for k
    using get_config_view [OF assms(1) _ assms(9) that, of e] three_saves [OF assms(1-8), of k] get by simp
  note lookup = v trimmed_entries saved_Cons saved_Nil ALLOWED_CONFIG_KEYS_def
  have field: "config_or (config_of m) k d = shown e k d x"
    if "map_of m (U k) = map_option VStr (case (if trim x = [] then None else Some (trim x)) of Some y \<Rightarrow> Some y | None \<Rightarrow> e (U k))"
    for k d x using that by (rule config_or_shown)
  have sim: "sim_enabled (config_of m) = jc_simEnabled j"
    by (simp add: sim_enabled_def config_or_def config_of_def lookup)
  have "map_of (reread held m) = map_of m" by (simp add: reread_def same_config_iff)
  then have re: "config_of (reread held m) = config_of m" by (simp add: config_of_def fun_eq_iff)
  show ?thesis
    using get sim body_travels [of _ c u j]
    by (intro exI [of _ m]) (simp add: re connection_sync_def jito_sync_def service_sync_def on_config_def field lookup)
qed

lemma mem_save_entries: "\<exists>d'. save_entries mem_config_table clock n kvs (xs, True) = (Inr (), (d', True))"
proof (induction kvs arbitrary: n xs)
  case (Cons kv kvs)
  have "\<exists>ys. save_entry mem_config_table (clock n) (clock (n + 1)) kv (xs, True) = (Inr (), (ys, True))"
    by (simp add: save_entry_def mem_config_table_def mem_ops_def)
  then show ?case using Cons.IH by (auto simp: db_then_def)
qed simp

lemma mem_put_ok:
  assumes "config_entries b \<noteq> []" and "truthy b \<and> js_object b"
  shows "\<exists>r ys. put_settings_config mem_config_table clock b (xs, True) = (r, (ys, True)) \<and> r_status r = 200"
  using mem_save_entries [of clock 0 "config_entries b" xs] assms by (auto simp: put_settings_config_def Let_def)

theorem settings_cards_roundtrip_witness:
  "\<exists>r1 d1 r2 d2 r3 d3 m c j. c = edit_rpcUrl (U ''https://rpc '') (connection_open Map.empty) \<and>
     j = edit_simEnabled False (jito_open Map.empty) \<and>
     put_settings_config mem_config_table int (connection_body c) demo_config = (r1, d1) \<and>
     put_settings_config mem_config_table int (jito_body j) d1 = (r2, d2) \<and>
     put_settings_config mem_config_table int (service_body (service_open Map.empty)) d2 = (r3, d3) \<and>
     get_settings_config Map.empty mem_config_table d3 = ok (VObj m) \<and>
     cc_rpcUrl (connection_sync [] m (connection_open Map.empty)) = U ''https://rpc'' \<and>
     jc_tipFloor (jito_sync [] m j) = U ''5000'' \<and> \<not> jc_simEnabled (jito_sync [] m j) \<and>
     connection_sync m m c = c"
proof -
  define c where "c = edit_rpcUrl (U ''https://rpc '') (connection_open Map.empty)"
  define j where "j = edit_simEnabled False (jito_open Map.empty)"
  define u where "u = service_open Map.empty"
  have ob: "truthy b \<and> js_object b" if "b = connection_body c \<or> b = jito_body j \<or> b = service_body u" for b
    using that by (auto simp: connection_body_def jito_body_def service_body_def obj_def js_object_def)
  obtain xs0 where d0: "demo_config = (xs0, True)" by (simp add: demo_config_def)
  obtain r1 x1 where 1: "put_settings_config mem_config_table int (connection_body c) demo_config = (r1, (x1, True))" "r_status r1 = 200"
    using mem_put_ok [of "connection_body c" int xs0] ob by (auto simp: trimmed_entries d0)
  obtain r2 x2 where 2: "put_settings_config mem_config_table int (jito_body j) (x1, True) = (r2, (x2, True))" "r_status r2 = 200"
    using mem_put_ok [of "jito_body j" int x1] ob by (auto simp: trimmed_entries)
  obtain r3 x3 where 3: "put_settings_config mem_config_table int (service_body u) (x2, True) = (r3, (x3, True))" "r_status r3 = 200"
    using mem_put_ok [of "service_body u" int x2] ob by (auto simp: trimmed_entries)
  have rows: "t_all mem_config_table (x3, True) = Inr (map snd x3)" by (simp add: mem_config_table_def mem_ops_def)
  have t: "trim (cc_rpcUrl c) = U ''https://rpc''" "trim (jc_tipFloor j) = U ''5000''" "\<not> jc_simEnabled j"
    by (simp_all add: c_def j_def edit_rpcUrl_def edit_simEnabled_def jito_open_def config_or_def U_def trim_def
        trim_start_def trim_end_def is_ws_def)
  have trimmed: "shown Map.empty k dflt v = trim v" if "trim v \<noteq> []" for k dflt v using that by (simp add: shown_def)
  note roundtrip = settings_cards_roundtrip [OF mem_config.config_store_axioms demo_config_invar 1 2 3 rows, of Map.empty "[]"
      "connection_open Map.empty" j u]
  then obtain m where m: "get_settings_config Map.empty mem_config_table (x3, True) = ok (VObj m)"
    "config_or (config_of (reread [] m)) ''SOLANA_RPC_URL'' '''' = shown Map.empty ''SOLANA_RPC_URL'' '''' (cc_rpcUrl c)"
    "connection_sync [] m (connection_open Map.empty) = (if same_config [] m then connection_open Map.empty else (connection_open Map.empty)
      \<lparr>cc_rpcUrl := shown Map.empty ''SOLANA_RPC_URL'' '''' (cc_rpcUrl c), cc_rpcUrls := shown Map.empty ''SOLANA_RPC_URLS'' '''' (cc_rpcUrls c),
       cc_jitoUrl := shown Map.empty ''JITO_BUNDLE_URL'' '''' (cc_jitoUrl c)\<rparr>)"
    "jito_sync [] m j = (if same_config [] m then j else j
      \<lparr>jc_tipPercent := shown Map.empty ''JITO_TIP_PERCENT'' ''0.001'' (jc_tipPercent j),
       jc_tipFloor := shown Map.empty ''JITO_TIP_FLOOR_LAMPORTS'' ''5000'' (jc_tipFloor j),
       jc_tipCeiling := shown Map.empty ''JITO_TIP_CEILING_LAMPORTS'' ''10000000'' (jc_tipCeiling j), jc_simEnabled := jc_simEnabled j\<rparr>)"
    by auto
  have "\<not> same_config [] m"
    using m(2) trimmed t(1) by (auto simp: reread_def config_or_def config_of_def U_def)
  then have "cc_rpcUrl (connection_sync [] m (connection_open Map.empty)) = U ''https://rpc''" "jc_tipFloor (jito_sync [] m j) = U ''5000''"
    "\<not> jc_simEnabled (jito_sync [] m j)" using m(3,4) t trimmed by simp_all
  moreover have "connection_sync m m c = c" by (simp add: connection_sync_def on_config_def same_config_iff)
  ultimately show ?thesis using c_def j_def 1(1) 2(1) 3(1) [unfolded u_def] m(1) by blast
qed

end
