(* ===== verification/Decimal.thy ===== *)
theory Decimal
  imports JsonText
begin

text \<open>
  Decimal notation and doubles. Every finite double prints as a decimal that reads back as the same double
  (\<open>printable_double\<close>), so JSON carries the numbers of the program unchanged. Then the conversions the dashboard
  displays numbers with: \<open>parseFloat\<close>, \<open>toFixed\<close> and \<open>toExponential\<close> of the language, with their error bounds.
\<close>

section \<open>The decimal exponent\<close>

lemma pow10_succ: "pow10 (e + 1) = 10 * pow10 e"
proof (cases "0 \<le> e")
  case True
  then show ?thesis by (simp add: pow10_def nat_add_distrib)
next
  case False
  then have "nat (- e) = Suc (nat (- (e + 1)))" by simp
  with False show ?thesis by (auto simp: pow10_def)
qed

lemma pow10_pos [simp]: "0 < pow10 e"
  by (simp add: pow10_def)

lemma pow10_neq0 [simp]: "pow10 e \<noteq> 0"
  using pow10_pos [of e] by linarith

lemma log10f_correct:
  "1 / 10 ^ f \<le> q \<Longrightarrow> q < 10 ^ (f + 1) \<Longrightarrow> pow10 (log10f f q) \<le> q \<and> q < pow10 (log10f f q + 1)"
proof (induction f arbitrary: q)
  case 0
  then show ?case by (simp add: pow10_def)
next
  case (Suc f)
  consider "10 \<le> q" | "q < 1" | "1 \<le> q" "q < 10" by linarith
  then show ?case
  proof cases
    case a: 1
    have "1 / 10 ^ f \<le> (1 :: rat)" by simp
    then have "1 / 10 ^ f \<le> q / 10" using a by linarith
    moreover have "q / 10 < 10 ^ (f + 1)" using Suc.prems(2) by simp
    ultimately have "pow10 (log10f f (q / 10)) \<le> q / 10 \<and> q / 10 < pow10 (log10f f (q / 10) + 1)" by (rule Suc.IH)
    moreover have "log10f (Suc f) q = log10f f (q / 10) + 1" using a by simp
    ultimately show ?thesis by (simp only: pow10_succ) linarith
  next
    case b: 2
    have "(10 :: rat) \<le> 10 ^ (f + 1)" by simp
    then have "q * 10 < 10 ^ (f + 1)" using b by linarith
    moreover have "1 / 10 ^ f \<le> q * 10" using Suc.prems(1) by (simp add: field_simps)
    ultimately have ih: "pow10 (log10f f (q * 10)) \<le> q * 10 \<and> q * 10 < pow10 (log10f f (q * 10) + 1)" by (intro Suc.IH)
    have "pow10 (log10f f (q * 10)) = 10 * pow10 (log10f f (q * 10) - 1)"
      using pow10_succ [of "log10f f (q * 10) - 1"] by simp
    then show ?thesis using b ih by (simp add: pow10_succ)
  next
    case 3
    then show ?thesis by (simp add: pow10_def)
  qed
qed

section \<open>The neighbourhood of a double\<close>

lemma round_even_near: "\<bar>x - of_int m\<bar> < 1 / 2 \<Longrightarrow> round_even x = m"
proof -
  assume a: "\<bar>x - of_int m\<bar> < 1 / 2"
  have "\<bar>of_int (round_even x) - x\<bar> \<le> 1 / 2" by (rule round_even_err)
  with a have "\<bar>rat_of_int (round_even x) - of_int m\<bar> < 1" by linarith
  then have "\<bar>round_even x - m\<bar> < 1" by (simp only: of_int_diff [symmetric] of_int_abs [symmetric] of_int_less_1_iff)
  then show ?thesis by simp
qed

lemma ulp_above: "0 < q \<Longrightarrow> q < pow2 (ulp_exp q + 53)"
proof -
  assume q: "0 < q"
  have "flog2 q + 1 \<le> ulp_exp q + 53" using q by (simp add: ulp_exp_def)
  then have "pow2 (flog2 q + 1) \<le> pow2 (ulp_exp q + 53)" by (rule pow2_mono)
  then show ?thesis using flog2_bounds [OF q] by linarith
qed

lemma ulp_below: "0 < q \<Longrightarrow> - 1074 < ulp_exp q \<Longrightarrow> pow2 (ulp_exp q + 52) \<le> q"
  using flog2_bounds [of q] by (auto simp: ulp_exp_def max_def split: if_splits)

lemma ulp_at_least: "- 1074 \<le> ulp_exp q"
  by (auto simp: ulp_exp_def)

lemma scaled_dist:
  fixes p :: rat
  assumes "0 < p" and "q = of_int k * p"
  shows "\<bar>d / p - of_int k\<bar> = \<bar>d - q\<bar> / p"
proof -
  have "d / p - of_int k = (d - q) / p" using assms by (simp add: diff_divide_distrib)
  then show ?thesis using assms(1) by (simp add: abs_divide)
qed

lemma near_double:
  assumes q: "0 < q" "round_to q = q" and d: "0 < d" "\<bar>d - q\<bar> < q / 2 ^ 54"
  shows "round_to d = q"
proof -
  let ?u = "ulp_exp q" and ?v = "ulp_exp d"
  define m where "m = round_even (q / pow2 ?u)"
  have m: "q = of_int m * pow2 ?u" using q(2) by (simp add: round_to_def m_def)
  have p53: "pow2 (?u + 53) = 2 ^ 53 * pow2 ?u" using pow2_add_nat [of ?u 53] by simp
  have half: "q / 2 ^ 54 < pow2 ?u / 2" using ulp_above [OF q(1)] p53 by simp
  have near: "\<bar>d - q\<bar> < pow2 ?u / 2" using d(2) half by linarith
  have grid: "pow2 ?u \<le> \<bar>q - of_int k * pow2 ?u\<bar>" if "q \<noteq> of_int k * pow2 ?u" for k
  proof -
    have "m \<noteq> k" using that m by auto
    then have "1 \<le> \<bar>rat_of_int (m - k)\<bar>" by (simp only: of_int_abs [symmetric] of_int_1_le_iff)
    then have "1 * pow2 ?u \<le> \<bar>rat_of_int (m - k)\<bar> * pow2 ?u" by (intro mult_right_mono) (simp_all add: less_imp_le)
    moreover have "q - of_int k * pow2 ?u = of_int (m - k) * pow2 ?u" using m by (simp add: left_diff_distrib)
    ultimately show ?thesis by (simp add: abs_mult abs_of_pos)
  qed
  consider "?v = ?u" | "?u < ?v" | "?v < ?u" by linarith
  then show ?thesis
  proof cases
    case 1
    have "\<bar>d / pow2 ?u - of_int m\<bar> = \<bar>d - q\<bar> / pow2 ?u"
      using pow2_pos m by (rule scaled_dist)
    also have "\<dots> < 1 / 2" using near by (simp add: field_simps)
    finally show ?thesis using 1 m by (simp add: round_to_def round_even_near)
  next
    case 2
    then have "pow2 (?v + 52) \<le> d" using ulp_at_least [of q] d(1) by (intro ulp_below) auto
    moreover have "pow2 (?u + 53) \<le> pow2 (?v + 52)" using 2 by (intro pow2_mono) simp
    ultimately have "of_int (2 ^ 53) * pow2 ?u \<le> d" using p53 by simp
    moreover have lt: "q < of_int (2 ^ 53) * pow2 ?u" using ulp_above [OF q(1)] p53 by simp
    moreover have "pow2 ?u \<le> \<bar>q - of_int (2 ^ 53) * pow2 ?u\<bar>" using lt by (intro grid) auto
    ultimately show ?thesis using near pow2_pos [of ?u] by (auto simp: abs_if split: if_splits)
  next
    case 3
    have u: "- 1074 < ?u" using 3 ulp_at_least [of d] by linarith
    have p52: "pow2 (?u + 52) = of_int (2 ^ 52) * pow2 ?u" using pow2_add_nat [of ?u 52] by simp
    have ge: "of_int (2 ^ 52) * pow2 ?u \<le> q" using ulp_below [OF q(1) u] p52 by simp
    have "pow2 (?v + 53) \<le> pow2 (?u + 52)" using 3 by (intro pow2_mono) simp
    then have lt: "d < of_int (2 ^ 52) * pow2 ?u" using ulp_above [OF d(1)] p52 by simp
    have eq: "q = of_int (2 ^ 52) * pow2 ?u"
    proof (rule ccontr)
      assume "q \<noteq> of_int (2 ^ 52) * pow2 ?u"
      from grid [OF this] show False using ge lt near pow2_pos [of ?u] by (auto simp: abs_if split: if_splits)
    qed
    have pu: "pow2 ?u = 2 * pow2 (?u - 1)" using pow2_succ [of "?u - 1"] by simp
    have "pow2 (?u + 51) < d" using eq near pu lt
      by (simp add: pow2_add_nat [of ?u 51, simplified] abs_if split: if_splits)
    then have "pow2 (?u + 51) < pow2 (?v + 53)" using ulp_above [OF d(1)] by linarith
    then have v: "?v = ?u - 1" using 3 pow2_less_imp by fastforce
    have q2: "q = of_int (2 ^ 53) * pow2 ?v" using eq pu v by simp
    have "\<bar>d / pow2 ?v - of_int (2 ^ 53)\<bar> = \<bar>d - q\<bar> / pow2 ?v"
      using pow2_pos q2 by (rule scaled_dist)
    also have "\<dots> < 1 / 2" using d(2) q2 by (simp add: field_simps)
    finally have "round_even (d / pow2 ?v) = 2 ^ 53" by (rule round_even_near)
    then show ?thesis using q2 by (simp add: round_to_def)
  qed
qed

section \<open>Every double prints\<close>

lemma fl_Fin: "fl x = Fin q \<Longrightarrow> q = round_to x \<and> \<bar>q\<bar> < 2 ^ 1024"
  by (auto simp: fl_def Let_def abs_if split: if_splits)

lemma round_to_idem_pos: "0 < x \<Longrightarrow> round_to (round_to x) = round_to x"
proof -
  assume x: "0 < x"
  define u where "u = ulp_exp x"
  define n where "n = round_even (x / pow2 u)"
  have r: "round_to x = of_int n * pow2 u" by (simp add: round_to_def n_def u_def)
  have "x / pow2 u \<le> of_int (2 ^ 53)"
    using ulp_above [OF x] pow2_add_nat [of u 53] by (simp add: u_def field_simps)
  from round_even_mono [OF this] have n53: "n \<le> 2 ^ 53" by (simp only: n_def round_even_int)
  have "of_int 0 \<le> x / pow2 u" using x by (simp add: less_imp_le)
  from round_even_mono [OF this] have n0: "0 \<le> n" by (simp only: n_def round_even_int)
  have ulp: "ulp_exp (of_int k * pow2 v) \<le> v" if "0 \<le> k" "k < 2 ^ 53" "- 1074 \<le> v" for k v
  proof (cases "k = 0")
    case False
    have "of_int k * pow2 v < of_int (2 ^ 53) * pow2 v" using that by (intro mult_strict_right_mono) (simp_all only: of_int_less_iff pow2_pos)
    then have "of_int k * pow2 v < pow2 (v + 53)" using pow2_add_nat [of v 53] by simp
    then have "flog2 (of_int k * pow2 v) < v + 53" using False that by (intro flog2_less) simp_all
    then show ?thesis using False that by (simp add: ulp_exp_def abs_mult abs_of_pos)
  qed (use that in \<open>simp add: ulp_exp_def\<close>)
  have u0: "- 1074 \<le> u" by (simp add: u_def ulp_at_least)
  show ?thesis
  proof (cases "n = 2 ^ 53")
    case True
    then have e: "round_to x = of_int (2 ^ 52) * pow2 (u + 1)" using r by (simp add: pow2_succ)
    have "ulp_exp (round_to x) \<le> u + 1" unfolding e using u0 by (intro ulp) simp_all
    then show ?thesis using e by (intro round_to_exact)
  next
    case False
    then have "ulp_exp (round_to x) \<le> u" unfolding r using u0 n53 n0 by (intro ulp) simp_all
    then show ?thesis using r by (intro round_to_exact)
  qed
qed

lemma round_to_idem: "round_to (round_to x) = round_to x"
proof -
  consider "0 < x" | "x = 0" | "0 < - x" by linarith
  then show ?thesis
  proof cases
    case 3
    from round_to_idem_pos [OF this] show ?thesis by (simp add: round_to_minus)
  qed (auto intro: round_to_idem_pos)
qed

lemma tiny: "0 < q \<Longrightarrow> round_to q = q \<Longrightarrow> pow2 (- 1074) \<le> q"
proof -
  assume q: "0 < q" "round_to q = q"
  define n where "n = round_even (q / pow2 (ulp_exp q))"
  have r: "q = of_int n * pow2 (ulp_exp q)" using q(2) by (simp add: round_to_def n_def)
  then have "0 < rat_of_int n" using q(1) by (metis zero_less_mult_pos2 pow2_pos)
  then have "1 \<le> rat_of_int n" by (simp only: of_int_0_less_iff of_int_1_le_iff)
  then have "1 * pow2 (ulp_exp q) \<le> of_int n * pow2 (ulp_exp q)" by (intro mult_right_mono) (simp_all add: less_imp_le)
  moreover have "pow2 (- 1074) \<le> pow2 (ulp_exp q)" by (intro pow2_mono ulp_at_least)
  ultimately show ?thesis using r by simp
qed

text \<open>Seventeen digits suffice: the nearest decimal of that length is closer than \<open>q / 2^54\<close>.\<close>

lemma cands_17:
  assumes q: "0 < q" "fl q = Fin q" and n: "pow10 (n - 1) \<le> q"
  shows "digit_cands q n 17 \<noteq> []"
proof -
  define p where "p = pow10 (n - int 17)"
  have p0: "0 < p" by (simp add: p_def)
  have p16: "pow10 (n - 1) = p * 10 ^ 16" using pow10_add_nat [of "n - int 17" 16] by (simp add: p_def)
  define x where "x = q / p"
  have x: "10 ^ 16 \<le> x" using n p0 by (simp add: x_def p16 field_simps)
  define lo where "lo = nat \<lfloor>x\<rfloor>"
  have fl_lo: "\<lfloor>x\<rfloor> = int lo" using x by (simp add: lo_def)
  have lo: "of_nat lo \<le> x" "x < of_nat lo + 1" using floor_correct [of x] by (simp_all add: fl_lo)
  define s where "s = (if x - of_nat lo \<le> 1 / 2 then lo else lo + 1)"
  have sx: "\<bar>of_nat s - x\<bar> \<le> 1 / 2" using lo by (auto simp: s_def abs_if)
  have "of_nat s * p - q = (of_nat s - x) * p" using p0 by (simp add: x_def field_simps)
  then have "\<bar>of_nat s * p - q\<bar> = \<bar>of_nat s - x\<bar> * p" using p0 by (simp add: abs_mult)
  also have "\<dots> \<le> 1 / 2 * p" using sx p0 by (intro mult_right_mono) auto
  also have "\<dots> < q / 2 ^ 54" using n p0 by (simp add: p16)
  finally have close: "\<bar>of_nat s * p - q\<bar> < q / 2 ^ 54" .
  have "0 < of_nat s * p" using close q(1) by (simp add: abs_if split: if_splits)
  then have "round_to (of_nat s * p) = q" using near_double [of q "of_nat s * p"] q close fl_Fin [OF q(2)] by simp
  then have "fl (of_nat s * p) = Fin q" using q(2) by (simp add: fl_def Let_def split: if_splits)
  moreover have "s \<in> {lo, lo + 1}" by (simp add: s_def)
  ultimately show ?thesis
    unfolding digit_cands_def Let_def p_def [symmetric] x_def [symmetric] lo_def [symmetric]
    by (auto simp: filter_empty_conv simp del: of_nat_Suc)
qed

lemma power_pow: "m * n = k \<Longrightarrow> ((x :: rat) ^ m) ^ n = x ^ k"
  by (simp add: power_mult [symmetric])

lemma two_ten: "((2 :: rat) ^ 4) ^ n \<le> (10 ^ 2) ^ n"
  by (intro power_mono) simp_all

lemma less_10: "(2 :: rat) ^ 1024 < 10 ^ (700 + 1)"
proof -
  have "(2 :: rat) ^ 1024 \<le> 10 ^ 512"
    using two_ten [of 256] power_pow [of 4 256 1024 2] power_pow [of 2 256 512 10] by (simp only:)
  also have "(10 :: rat) ^ 512 < 10 ^ (700 + 1)" by (intro power_strict_increasing) simp_all
  finally show ?thesis .
qed

lemma least_10: "1 / 10 ^ 700 \<le> pow2 (- 1074)"
proof -
  have "(2 :: rat) ^ 1074 \<le> 2 ^ 1076" by (intro power_increasing) simp_all
  also have "(2 :: rat) ^ 1076 \<le> 10 ^ 538"
    using two_ten [of 269] power_pow [of 4 269 1076 2] power_pow [of 2 269 538 10] by (simp only:)
  also have "(10 :: rat) ^ 538 \<le> 10 ^ 700" by (intro power_increasing) simp_all
  finally have "(2 :: rat) ^ 1074 \<le> 10 ^ 700" .
  then have "1 / (10 :: rat) ^ 700 \<le> 1 / 2 ^ 1074" by (rule divide_left_mono) (intro mult_pos_pos zero_less_power zero_less_numeral zero_le_one)+
  moreover have "pow2 (- 1074) = 1 / 2 ^ 1074" unfolding pow2_def by (simp only: if_False minus_minus nat_numeral neg_0_le_iff_le not_numeral_le_zero)
  ultimately show ?thesis by (simp only:)
qed

lemma printable_double:
  assumes "fl x = Fin q"
  shows "printable (Fin q)"
proof (cases "q = 0")
  case False
  define a where "a = \<bar>q\<bar>"
  have a0: "0 < a" using False by (simp add: a_def)
  note q = fl_Fin [OF assms, THEN conjunct1] fl_Fin [OF assms, THEN conjunct2]
  have ra: "round_to a = a" using q(1) round_to_idem [of x] by (simp add: a_def abs_if round_to_minus)
  have "a < 2 ^ 1024" using q(2) by (simp only: a_def)
  then have fa: "fl a = Fin a" using a0 by (simp add: fl_def Let_def ra)
  from least_10 tiny [OF a0 ra] have "1 / 10 ^ 700 \<le> a" by (rule order_trans)
  moreover from q(2) less_10 have "a < 10 ^ (700 + 1)" unfolding a_def by (rule less_trans)
  ultimately have l: "pow10 (log10f 700 a) \<le> a" using log10f_correct by blast
  then have "digit_cands a (log10f 700 a + 1) 17 \<noteq> []" using a0 fa by (intro cands_17) simp_all
  then have "case shortest 20 a (log10f 700 a + 1) 1 of (s, e) \<Rightarrow> fl (of_nat s * pow10 e) = Fin a"
    by (rule shortest_found) simp_all
  then show ?thesis by (simp add: printable_def a_def)
qed (simp add: printable_def)

section \<open>Reading and displaying numbers\<close>

text \<open>\<open>parseFloat\<close>: the longest prefix that is a decimal literal, after white space.\<close>

definition exp_prefix :: "jstr \<Rightarrow> int" where
  "exp_prefix s = (case s of
      c # r \<Rightarrow>
        (if c = 101 \<or> c = 69 then
           let (neg, ds) = (case r of x # xs \<Rightarrow> if x = 45 then (True, xs) else if x = 43 then (False, xs) else (False, r)
                                    | [] \<Rightarrow> (False, []));
               e = int (digits_val (takeWhile is_digit ds))
           in if neg then - e else e
         else 0)
    | [] \<Rightarrow> 0)"

definition float_prefix :: "jstr \<Rightarrow> jsnum" where
  "float_prefix s =
     (if starts_with s (U ''Infinity'') then PInf
      else let ip = takeWhile is_digit s; r = dropWhile is_digit s;
               (fp, r2) = (if r \<noteq> [] \<and> hd r = 46 then (takeWhile is_digit (tl r), dropWhile is_digit (tl r)) else ([], r))
           in if ip = [] \<and> fp = [] then NaN
              else fl (of_nat (digits_val (ip @ fp)) * pow10 (exp_prefix r2 - int (length fp))))"

definition parse_float :: "jstr \<Rightarrow> jsnum" where
  "parse_float s0 =
     (let s = trim_start s0 in
      case s of
        c # r \<Rightarrow> if c = 45 then num_neg (float_prefix r) else if c = 43 then float_prefix r else float_prefix s
      | [] \<Rightarrow> NaN)"

text \<open>\<open>toFixed(d)\<close>: the nearest multiple of \<open>10^-d\<close>, the greater of two; from \<open>1e21\<close> on it is the number's own text.\<close>

definition fixed_text :: "nat \<Rightarrow> nat \<Rightarrow> jstr" where
  "fixed_text d n =
     (let m = pad_left (d + 1) n in
      if d = 0 then m else take (length m - d) m @ [46] @ drop (length m - d) m)"

fun to_fixed :: "nat \<Rightarrow> jsnum \<Rightarrow> jstr" where
  "to_fixed d (Fin q) =
     (if 10 ^ 21 \<le> \<bar>q\<bar> then num_to_string (Fin q)
      else (if q < 0 then [45] else []) @ fixed_text d (nat \<lfloor>\<bar>q\<bar> * 10 ^ d + 1 / 2\<rfloor>))"
| "to_fixed d x = num_to_string x"

text \<open>\<open>toExponential(d)\<close>: \<open>d + 1\<close> significant digits.\<close>

definition expo_split :: "nat \<Rightarrow> rat \<Rightarrow> nat \<times> int" where
  "expo_split d q =
     (let e = log10f 700 q; n = nat \<lfloor>q / pow10 (e - int d) + 1 / 2\<rfloor>
      in if n = 10 ^ (d + 1) then (10 ^ d, e + 1) else (n, e))"

definition expo_text :: "nat \<Rightarrow> nat \<times> int \<Rightarrow> jstr" where
  "expo_text d ne =
     (let (n, e) = ne; m = pad_left (d + 1) n
      in take 1 m @ (if d = 0 then [] else 46 # drop 1 m) @ [101, if 0 \<le> e then 43 else 45] @ dec_nat (nat \<bar>e\<bar>))"

fun to_exponential :: "nat \<Rightarrow> jsnum \<Rightarrow> jstr" where
  "to_exponential d (Fin q) =
     (if q < 0 then [45] else []) @ expo_text d (if q = 0 then (0, 0) else expo_split d \<bar>q\<bar>)"
| "to_exponential d x = num_to_string x"

text \<open>The exact value of a decimal literal.\<close>

definition text_abs :: "jstr \<Rightarrow> rat" where
  "text_abs r =
     (let ip = takeWhile is_digit r; r1 = dropWhile is_digit r;
          (fp, r2) = (if r1 \<noteq> [] \<and> hd r1 = 46 then (takeWhile is_digit (tl r1), dropWhile is_digit (tl r1)) else ([], r1))
      in of_nat (digits_val (ip @ fp)) * pow10 ((case exp_part r2 of Some e \<Rightarrow> e | None \<Rightarrow> 0) - int (length fp)))"

definition text_value :: "jstr \<Rightarrow> rat" where
  "text_value s = (if s \<noteq> [] \<and> hd s = 45 then - text_abs (tl s) else text_abs s)"

lemma pow10_minus: "pow10 (- int k) = 1 / 10 ^ k"
  by (simp add: pow10_def)

lemma pad_left_digits: "c \<in> set (pad_left w n) \<Longrightarrow> is_digit c"
  by (auto simp: pad_left_def Let_def is_digit_def dest: dec_nat_digits)

lemma pad_left_value [simp]: "digits_val (pad_left w n) = n"
  by (simp add: pad_left_def Let_def digits_val_append)

lemma pad_left_length: "w \<le> length (pad_left w n)"
  by (simp add: pad_left_def Let_def)

lemma digits_prefix:
  assumes "\<And>c. c \<in> set a \<Longrightarrow> is_digit c" and "r = [] \<or> \<not> is_digit (hd r)"
  shows "takeWhile is_digit (a @ r) = a" and "dropWhile is_digit (a @ r) = r"
  using assms by (cases r; simp add: takeWhile_append dropWhile_append)+

lemma text_abs_parts:
  assumes "\<And>c. c \<in> set a \<Longrightarrow> is_digit c" and "\<And>c. c \<in> set b \<Longrightarrow> is_digit c"
    and "r = [] \<or> \<not> is_digit (hd r)"
  shows "text_abs (a @ 46 # b @ r) =
    of_nat (digits_val (a @ b)) * pow10 ((case exp_part r of Some e \<Rightarrow> e | None \<Rightarrow> 0) - int (length b))"
proof -
  have "\<not> is_digit 46" by (simp add: is_digit_def)
  then have "takeWhile is_digit (a @ 46 # b @ r) = a" "dropWhile is_digit (a @ 46 # b @ r) = 46 # b @ r"
    using digits_prefix [of a "46 # b @ r"] assms(1) by simp_all
  then show ?thesis using digits_prefix [of b r] assms(2,3) by (simp add: text_abs_def)
qed

lemma text_abs_plain:
  assumes "\<And>c. c \<in> set a \<Longrightarrow> is_digit c"
  shows "text_abs a = of_nat (digits_val a)"
proof -
  have w: "takeWhile is_digit a = a" "dropWhile is_digit a = []" using digits_prefix [of a "[]"] assms by simp_all
  have "exp_part [] = Some 0" by (simp add: exp_part_def)
  then show ?thesis by (simp add: text_abs_def pow10_def Let_def w)
qed

lemma fixed_text_eq:
  "0 < d \<Longrightarrow> m = pad_left (d + 1) n \<Longrightarrow> fixed_text d n = take (length m - d) m @ 46 # drop (length m - d) m"
  by (simp add: fixed_text_def Let_def)

lemma fixed_value: "text_abs (fixed_text d n) = of_nat n / 10 ^ d"
proof (cases "d = 0")
  case True
  then show ?thesis using text_abs_plain [of "pad_left 1 n"] pad_left_digits by (simp add: fixed_text_def)
next
  case False
  define m where "m = pad_left (d + 1) n"
  have l: "d \<le> length m" using pad_left_length [of "d + 1" n] by (simp add: m_def)
  have dig: "is_digit c" if "c \<in> set m" for c using that pad_left_digits by (auto simp: m_def)
  have "text_abs (take (length m - d) m @ 46 # drop (length m - d) m @ []) =
      of_nat (digits_val (take (length m - d) m @ drop (length m - d) m)) * pow10 (- int (length (drop (length m - d) m)))"
    by (subst text_abs_parts) (auto simp: exp_part_def intro: dig dest: in_set_takeD in_set_dropD)
  then have "text_abs (take (length m - d) m @ 46 # drop (length m - d) m) = of_nat (digits_val m) / 10 ^ d"
    using l by (simp add: pow10_minus)
  then show ?thesis using fixed_text_eq [OF _ m_def] False by (simp add: m_def)
qed

lemma fixed_text_hd: "fixed_text d n \<noteq> [] \<and> is_digit (hd (fixed_text d n))"
proof -
  define m where "m = pad_left (d + 1) n"
  have l: "d < length m" using pad_left_length [of "d + 1" n] by (simp add: m_def)
  then have "m \<noteq> []" by auto
  then have h: "is_digit (hd m)" using pad_left_digits [of "hd m" "d + 1" n] by (simp add: m_def)
  show ?thesis
  proof (cases "d = 0")
    case True
    then show ?thesis using h \<open>m \<noteq> []\<close> by (simp add: fixed_text_def m_def)
  next
    case False
    then show ?thesis using fixed_text_eq [OF _ m_def] h l by (cases m) (auto simp: take_Cons' Suc_diff_le)
  qed
qed

lemma text_value_sign:
  "is_digit (hd t) \<Longrightarrow> text_value ((if neg then [45] else []) @ t) = (if neg then - text_abs t else text_abs t)"
  by (auto simp: text_value_def is_digit_def)

lemma nat_round_err: "0 \<le> (x :: rat) \<Longrightarrow> \<bar>of_nat (nat \<lfloor>x + 1 / 2\<rfloor>) - x\<bar> \<le> 1 / 2"
proof -
  assume "0 \<le> x"
  then have "0 \<le> \<lfloor>x + 1 / 2\<rfloor>" by simp
  then have "rat_of_nat (nat \<lfloor>x + 1 / 2\<rfloor>) = of_int \<lfloor>x + 1 / 2\<rfloor>" by simp
  then show ?thesis using floor_correct [of "x + 1 / 2"] unfolding abs_le_iff by linarith
qed

lemma to_fixed_error:
  assumes "\<bar>q\<bar> < 10 ^ 21"
  shows "\<bar>text_value (to_fixed d (Fin q)) - q\<bar> \<le> 1 / (2 * 10 ^ d)"
proof -
  define n where "n = nat \<lfloor>\<bar>q\<bar> * 10 ^ d + 1 / 2\<rfloor>"
  have "\<bar>of_nat n - \<bar>q\<bar> * 10 ^ d\<bar> \<le> 1 / 2" unfolding n_def by (rule nat_round_err) simp
  then have "\<bar>of_nat n - \<bar>q\<bar> * 10 ^ d\<bar> / 10 ^ d \<le> 1 / 2 / 10 ^ d" by (rule divide_right_mono) simp
  moreover have "\<bar>of_nat n - \<bar>q\<bar> * 10 ^ d\<bar> / 10 ^ d = \<bar>(of_nat n - \<bar>q\<bar> * 10 ^ d) / 10 ^ d\<bar>" by (simp only: abs_divide) simp
  moreover have "(of_nat n - \<bar>q\<bar> * 10 ^ d) / 10 ^ d = of_nat n / 10 ^ d - \<bar>q\<bar>" by (simp add: diff_divide_distrib)
  ultimately have "\<bar>of_nat n / 10 ^ d - \<bar>q\<bar>\<bar> \<le> 1 / (2 * 10 ^ d)" by simp
  moreover have "text_value (to_fixed d (Fin q)) = (if q < 0 then - (of_nat n / 10 ^ d) else of_nat n / 10 ^ d)"
    using assms fixed_text_hd [of d n] text_value_sign [of "fixed_text d n" "q < 0"] fixed_value [of d n]
    by (simp add: n_def [symmetric])
  ultimately show ?thesis by (auto simp: abs_if split: if_splits)
qed

lemma dec_nat_length: "n < 10 ^ k \<Longrightarrow> 0 < k \<Longrightarrow> length (dec_nat n) \<le> k"
proof (induction n arbitrary: k rule: dec_nat.induct)
  case (1 n)
  show ?case
  proof (cases "n < 10")
    case True
    then show ?thesis using 1(3) by (subst dec_nat.simps) simp
  next
    case False
    then obtain j where j: "k = Suc j" "0 < j" using 1(2,3) by (cases k; cases "k - 1") auto
    then have "length (dec_nat (n div 10)) \<le> j" using False 1 by (intro 1(1)) auto
    then show ?thesis using False j by (subst dec_nat.simps) simp
  qed
qed

lemma pad_left_exact: "n < 10 ^ w \<Longrightarrow> 0 < w \<Longrightarrow> length (pad_left w n) = w"
  using dec_nat_length [of n w] by (simp add: pad_left_def Let_def)

lemma exp_part_sign:
  "exp_part (101 # (if 0 \<le> e then 43 else 45) # dec_nat (nat \<bar>e\<bar>)) = Some e"
  using dec_nat_digits by (auto simp: exp_part_def list_all_iff)

lemma expo_value:
  assumes "n < 10 ^ (d + 1)" and "0 < d"
  shows "text_abs (expo_text d (n, e)) = of_nat n * pow10 (e - int d)"
proof -
  define m where "m = pad_left (d + 1) n"
  have l: "length m = d + 1" using assms(1) pad_left_exact [of n "d + 1"] by (simp add: m_def)
  have dig: "is_digit c" if "c \<in> set m" for c using that pad_left_digits by (auto simp: m_def)
  define r where "r = 101 # (if 0 \<le> e then 43 else 45) # dec_nat (nat \<bar>e\<bar>)"
  have "text_abs (take 1 m @ 46 # drop 1 m @ r) = of_nat (digits_val (take 1 m @ drop 1 m))
      * pow10 ((case exp_part r of Some e \<Rightarrow> e | None \<Rightarrow> 0) - int (length (drop 1 m)))"
    by (rule text_abs_parts) (auto simp: r_def is_digit_def [of 101] intro: dig dest: in_set_takeD in_set_dropD)
  moreover have "exp_part r = Some e" unfolding r_def by (rule exp_part_sign)
  moreover have "digits_val (take 1 m @ drop 1 m) = n" unfolding append_take_drop_id by (simp add: m_def)
  moreover have "expo_text d (n, e) = take 1 m @ 46 # drop 1 m @ r"
    using assms(2) by (simp add: expo_text_def m_def r_def Let_def)
  ultimately show ?thesis using l by simp
qed

lemma expo_text_hd: "is_digit (hd (expo_text d ne))"
proof -
  obtain n e where ne: "ne = (n, e)" by fastforce
  define m where "m = pad_left (d + 1) n"
  have "m \<noteq> []" using pad_left_length [of "d + 1" n] by (auto simp: m_def)
  moreover have "expo_text d (n, e) = take 1 m @ (if d = 0 then [] else 46 # drop 1 m) @ [101, if 0 \<le> e then 43 else 45]
      @ dec_nat (nat \<bar>e\<bar>)" by (simp add: expo_text_def m_def Let_def)
  ultimately have "hd (expo_text d (n, e)) = hd m" "hd m \<in> set m" by (cases m; simp)+
  then show ?thesis using pad_left_digits [of "hd m" "d + 1" n] by (simp add: ne m_def)
qed

lemma double_log10:
  assumes "0 < q" and "fl x = Fin q"
  shows "pow10 (log10f 700 q) \<le> q \<and> q < pow10 (log10f 700 q + 1)"
proof -
  note f = fl_Fin [OF assms(2), THEN conjunct1] fl_Fin [OF assms(2), THEN conjunct2]
  have "round_to q = q" using f(1) round_to_idem [of x] by simp
  then have "pow2 (- 1074) \<le> q" using assms(1) by (intro tiny)
  with least_10 have "1 / 10 ^ 700 \<le> q" by (rule order_trans)
  moreover have "\<bar>q\<bar> < 10 ^ (700 + 1)" using f(2) less_10 by (rule less_trans)
  then have "q < 10 ^ (700 + 1)" using abs_ge_self [of q] by (rule le_less_trans [rotated])
  ultimately show ?thesis by (rule log10f_correct)
qed

lemma expo_split_value:
  assumes "0 < q" and "fl x = Fin q" and "expo_split d q = (n, e)"
  shows "n < 10 ^ (d + 1)" and "\<bar>of_nat n * pow10 (e - int d) - q\<bar> \<le> q / (2 * 10 ^ d)"
proof -
  define e0 where "e0 = log10f 700 q"
  define p where "p = pow10 (e0 - int d)"
  have p0: "0 < p" by (simp add: p_def)
  have pd: "pow10 e0 = p * 10 ^ d" using pow10_add_nat [of "e0 - int d" d] by (simp add: p_def)
  have b: "p * 10 ^ d \<le> q" "q < 10 * (p * 10 ^ d)"
    using double_log10 [OF assms(1,2)] by (simp_all add: e0_def [symmetric] pow10_succ pd)
  define n0 where "n0 = nat \<lfloor>q / p + 1 / 2\<rfloor>"
  have err: "\<bar>of_nat n0 - q / p\<bar> \<le> 1 / 2" unfolding n0_def using assms(1) p0 by (intro nat_round_err) simp
  have "q / p < of_nat (10 ^ (d + 1))" using b(2) p0 by (simp add: field_simps)
  then have "of_nat n0 < rat_of_nat (10 ^ (d + 1)) + 1" using err by (simp only: abs_le_iff) linarith
  then have n0: "n0 \<le> 10 ^ (d + 1)" by (metis of_nat_1 of_nat_add of_nat_less_iff less_Suc_eq_le Suc_eq_plus1)
  have "of_nat n0 * p - q = (of_nat n0 - q / p) * p" using p0 by (simp add: field_simps)
  then have "\<bar>of_nat n0 * p - q\<bar> = \<bar>of_nat n0 - q / p\<bar> * p" using p0 by (simp add: abs_mult)
  also have "\<dots> \<le> 1 / 2 * p" using err p0 by (intro mult_right_mono) auto
  also have "\<dots> \<le> q / (2 * 10 ^ d)" using b(1) by (simp add: field_simps)
  finally have close: "\<bar>of_nat n0 * p - q\<bar> \<le> q / (2 * 10 ^ d)" .
  have s: "expo_split d q = (if n0 = 10 ^ (d + 1) then (10 ^ d, e0 + 1) else (n0, e0))"
    by (simp add: expo_split_def e0_def n0_def p_def Let_def)
  have p1: "pow10 (e0 + 1 - int d) = 10 * p" using pow10_succ [of "e0 - int d"] by (simp add: p_def algebra_simps)
  show "n < 10 ^ (d + 1)" using s assms(3) n0 by (auto split: if_splits)
  show "\<bar>of_nat n * pow10 (e - int d) - q\<bar> \<le> q / (2 * 10 ^ d)"
    using s assms(3) close p1 by (auto simp: p_def [symmetric] split: if_splits)
qed

lemma to_exponential_error:
  assumes "q \<noteq> 0" and "fl x = Fin q" and "0 < d"
  shows "\<bar>text_value (to_exponential d (Fin q)) - q\<bar> \<le> \<bar>q\<bar> / (2 * 10 ^ d)"
proof -
  obtain n e where ne: "expo_split d \<bar>q\<bar> = (n, e)" by fastforce
  have "fl (if q < 0 then - x else x) = Fin \<bar>q\<bar>" using assms(2)
    by (auto simp: fl_def Let_def round_to_minus split: if_splits)
  note v = expo_split_value [OF _ this ne]
  have t: "text_value (to_exponential d (Fin q)) = (if q < 0 then - text_abs (expo_text d (n, e)) else text_abs (expo_text d (n, e)))"
    using assms(1) text_value_sign [OF expo_text_hd, of "q < 0" d "(n, e)"] by (simp add: ne)
  show ?thesis
    unfolding t using expo_value [OF v(1) assms(3), of e] v(2) assms(1) by (auto simp: abs_if split: if_splits)
qed

end
