(* ===== verification/Charts.thy ===== *)
theory Charts
  imports Decimal
begin

text \<open>
  The computations of the dashboard's pages: the profit chart of \<open>pages/Dashboard.tsx\<close> and, in
  \<open>pages/Strategies.tsx\<close>, the draw-down of a back-test and the request that starts one. Numbers are doubles,
  and every sum is taken in the order of the code. The browser's date parser, its local hour and its local
  day label are parameters.
\<close>

section \<open>The profit chart\<close>

text \<open>The two members of a trade that the chart reads; an absent or empty creation time is \<open>[]\<close>.\<close>

record chart_trade =
  ct_createdAt :: jstr
  ct_pnlSol :: "jsnum option"

text \<open>\<open>dt_parse\<close>: \<open>new Date(s).getTime()\<close>, if valid; \<open>dt_hour\<close>: \<open>getHours\<close>; \<open>dt_day\<close>: \<open>toLocaleDateString\<close>.\<close>

record dates =
  dt_parse :: "jstr \<Rightarrow> int option"
  dt_hour :: "int \<Rightarrow> int"
  dt_day :: "int \<Rightarrow> jstr"

type_synonym chart_point = "jstr \<times> jsnum"

definition msPerHour :: int where
  "msPerHour = 60 * 60 * 1000"

definition epochHourOf :: "int \<Rightarrow> int" where
  "epochHourOf ms = ms div msPerHour"

text \<open>\<open>m[k] = (m[k] ?? 0) + (t.pnlSol ?? 0)\<close>\<close>

definition add_pnl :: "('k \<rightharpoonup> jsnum) \<Rightarrow> 'k \<Rightarrow> chart_trade \<Rightarrow> ('k \<rightharpoonup> jsnum)" where
  "add_pnl m k t = m(k \<mapsto> num_add (case m k of Some x \<Rightarrow> x | None \<Rightarrow> Fin 0)
                              (case ct_pnlSol t of Some x \<Rightarrow> x | None \<Rightarrow> Fin 0))"

text \<open>An invalid date is not before the cutoff, and lands under the key \<open>NaN\<close>, which is never read (here \<open>None\<close>).\<close>

definition hour_step :: "dates \<Rightarrow> int \<Rightarrow> (int option \<rightharpoonup> jsnum) \<Rightarrow> chart_trade \<Rightarrow> (int option \<rightharpoonup> jsnum)" where
  "hour_step D cutoff m t =
     (if ct_createdAt t = [] then m
      else case dt_parse D (ct_createdAt t) of
          None \<Rightarrow> add_pnl m None t
        | Some ts \<Rightarrow> if ts < cutoff then m else add_pnl m (Some (epochHourOf ts)) t)"

text \<open>The running sum over the labelled buckets.\<close>

fun cumulate :: "jsnum \<Rightarrow> (jstr \<times> jsnum option) list \<Rightarrow> chart_point list" where
  "cumulate cumulative [] = []"
| "cumulate cumulative ((label, x) # bs) =
     (let c = num_add cumulative (case x of Some v \<Rightarrow> v | None \<Rightarrow> Fin 0) in (label, c) # cumulate c bs)"

definition hour_label :: "dates \<Rightarrow> int \<Rightarrow> jstr" where
  "hour_label D bucket = pad_left 2 (nat (dt_hour D (bucket * msPerHour))) @ U '':00''"

definition chart_24h :: "dates \<Rightarrow> int \<Rightarrow> chart_trade list \<Rightarrow> chart_point list" where
  "chart_24h D now trades =
     (let cutoff = now - 24 * msPerHour;
          currentEpochHour = epochHourOf now;
          hourMap = foldl (hour_step D cutoff) Map.empty trades
      in cumulate (Fin 0)
           (map (\<lambda>i. let bucket = currentEpochHour - 23 + int i in (hour_label D bucket, hourMap (Some bucket))) [0..<24]))"

definition msPerDay :: int where
  "msPerDay = 24 * 60 * 60 * 1000"

text \<open>An invalid date has the label \<open>Invalid Date\<close>.\<close>

definition day_step :: "dates \<Rightarrow> int \<Rightarrow> (jstr \<rightharpoonup> jsnum) \<Rightarrow> chart_trade \<Rightarrow> (jstr \<rightharpoonup> jsnum)" where
  "day_step D cutoff m t =
     (if ct_createdAt t = [] then m
      else case dt_parse D (ct_createdAt t) of
          None \<Rightarrow> add_pnl m (U ''Invalid Date'') t
        | Some ts \<Rightarrow> if ts < cutoff then m else add_pnl m (dt_day D ts) t)"

definition chart_days :: "dates \<Rightarrow> int \<Rightarrow> jstr list" where
  "chart_days D now = map (\<lambda>i. dt_day D (now - int i * msPerDay)) (rev [0..<7])"

definition chart_7d :: "dates \<Rightarrow> int \<Rightarrow> chart_trade list \<Rightarrow> chart_point list" where
  "chart_7d D now trades =
     (let dayMap = foldl (day_step D (now - 7 * msPerDay)) Map.empty trades
      in cumulate (Fin 0) (map (\<lambda>day. (day, dayMap day)) (chart_days D now)))"

section \<open>Draw-down\<close>

fun drawdown_loop :: "jsnum \<Rightarrow> jsnum \<Rightarrow> jsnum list \<Rightarrow> jsnum" where
  "drawdown_loop peak maxDD [] = maxDD"
| "drawdown_loop peak maxDD (v # vs) =
     (let peak' = (if num_lt peak v then v else peak);
          dd = num_sub peak' v
      in drawdown_loop peak' (if num_lt maxDD dd then dd else maxDD) vs)"

definition peakToTroughDrawdownSol :: "jsnum list \<Rightarrow> jsnum" where
  "peakToTroughDrawdownSol curve = drawdown_loop NInf (Fin 0) curve"

section \<open>The back-test request\<close>

definition positive_override :: "string \<Rightarrow> jstr \<Rightarrow> (string \<times> jsval) list" where
  "positive_override k s = (let x = parse_float s in if x \<noteq> NaN \<and> num_lt (Fin 0) x then [(k, VNum x)] else [])"

definition backtest_body :: "jstr \<Rightarrow> jstr \<Rightarrow> jstr \<Rightarrow> jstr \<Rightarrow> jstr \<Rightarrow> jsval" where
  "backtest_body selectedStrategy days overrideBuy overrideStop overrideTake = obj
     ([(''strategy_name'', VStr selectedStrategy), (''days'', or_else (VNum (to_num (VStr days))) (VI 7)), (''initial_sol'', VI 1)]
      @ positive_override ''buy_amount_sol'' overrideBuy @ positive_override ''stop_loss_pct'' overrideStop
      @ positive_override ''take_profit_pct'' overrideTake)"

section \<open>What the chart shows\<close>

definition pnl_of :: "chart_trade \<Rightarrow> jsnum" where
  "pnl_of t = (case ct_pnlSol t of Some x \<Rightarrow> x | None \<Rightarrow> Fin 0)"

text \<open>The sum of the trades of one bucket, in the order of the list; no trade, no sum.\<close>

definition bucket_sum :: "jsnum option \<Rightarrow> chart_trade list \<Rightarrow> jsnum option" where
  "bucket_sum x ts =
     (if ts = [] then x else Some (foldl num_add (case x of Some v \<Rightarrow> v | None \<Rightarrow> Fin 0) (map pnl_of ts)))"

definition bucket_step :: "(chart_trade \<Rightarrow> 'k option) \<Rightarrow> ('k \<rightharpoonup> jsnum) \<Rightarrow> chart_trade \<Rightarrow> ('k \<rightharpoonup> jsnum)" where
  "bucket_step key m t = (case key t of Some k \<Rightarrow> add_pnl m k t | None \<Rightarrow> m)"

definition created :: "dates \<Rightarrow> chart_trade \<Rightarrow> int option option" where
  "created D t = (if ct_createdAt t = [] then None else Some (dt_parse D (ct_createdAt t)))"

definition hour_key :: "dates \<Rightarrow> int \<Rightarrow> chart_trade \<Rightarrow> int option option" where
  "hour_key D cutoff t = (case created D t of
      Some None \<Rightarrow> Some None
    | Some (Some ts) \<Rightarrow> if ts < cutoff then None else Some (Some (epochHourOf ts))
    | None \<Rightarrow> None)"

definition day_key :: "dates \<Rightarrow> int \<Rightarrow> chart_trade \<Rightarrow> jstr option" where
  "day_key D cutoff t = (case created D t of
      Some None \<Rightarrow> Some (U ''Invalid Date'')
    | Some (Some ts) \<Rightarrow> if ts < cutoff then None else Some (dt_day D ts)
    | None \<Rightarrow> None)"

lemma steps_bucket:
  "hour_step D c = bucket_step (hour_key D c)" "day_step D c = bucket_step (day_key D c)"
  by (auto simp: fun_eq_iff hour_step_def day_step_def bucket_step_def hour_key_def day_key_def created_def
      split: option.split)

lemma foldl_bucket: "foldl (bucket_step key) m ts k = bucket_sum (m k) (filter (\<lambda>t. key t = Some k) ts)"
  by (induction ts arbitrary: m) (auto simp: bucket_step_def bucket_sum_def add_pnl_def pnl_of_def split: option.split)

definition in_hour :: "dates \<Rightarrow> int \<Rightarrow> chart_trade \<Rightarrow> bool" where
  "in_hour D b t \<longleftrightarrow> (case created D t of Some (Some ts) \<Rightarrow> epochHourOf ts = b | _ \<Rightarrow> False)"

lemma hour_key_in_hour: "c \<le> b * msPerHour \<Longrightarrow> hour_key D c t = Some (Some b) \<longleftrightarrow> in_hour D b t"
proof -
  assume c: "c \<le> b * msPerHour"
  have ge: "c \<le> ts" if "epochHourOf ts = b" for ts
  proof -
    have "b * msPerHour \<le> ts" using that pos_mod_bound [of msPerHour ts] div_mult_mod_eq [of ts msPerHour]
      by (auto simp: epochHourOf_def msPerHour_def)
    then show ?thesis using c by simp
  qed
  show "hour_key D c t = Some (Some b) \<longleftrightarrow> in_hour D b t"
  proof (cases "\<exists>ts. created D t = Some (Some ts)")
    case True
    then obtain ts where "created D t = Some (Some ts)" by blast
    then show ?thesis using ge [of ts] by (simp add: hour_key_def in_hour_def) linarith
  qed (auto simp: hour_key_def in_hour_def split: option.split)
qed

lemma window_start: "now - 24 * msPerHour \<le> (epochHourOf now - 23 + int i) * msPerHour"
proof -
  have "now < epochHourOf now * msPerHour + msPerHour"
    using pos_mod_bound [of msPerHour now] div_mult_mod_eq [of now msPerHour]
    by (simp add: epochHourOf_def msPerHour_def)
  then show ?thesis by (simp add: msPerHour_def)
qed

lemma chart_24h_sums:
  "chart_24h D now trades = cumulate (Fin 0)
     (map (\<lambda>i. let b = epochHourOf now - 23 + int i in (hour_label D b, bucket_sum None (filter (in_hour D b) trades))) [0..<24])"
  by (simp add: chart_24h_def steps_bucket foldl_bucket hour_key_in_hour [OF window_start] Let_def del: upt_rec_numeral)

text \<open>C37: what the profit chart shows. In the window of 24 hours each of the 24 points adds to its
  predecessor the profits of the trades created in its hour, in the order of the list, and nothing else: the current
  hour and the 23 before it count in full, and the trades of the hour before these, although some of them are less
  than 24 hours old, do not count at all. In the window of seven days each point adds the trades of its day label
  that are at most seven days old.\<close>

theorem pnl_chart_sums:
  "chart_24h D now trades = cumulate (Fin 0)
     (map (\<lambda>i. let b = epochHourOf now - 23 + int i in (hour_label D b, bucket_sum None (filter (in_hour D b) trades))) [0..<24]) \<and>
   chart_24h D now trades = chart_24h D now (filter (\<lambda>t. \<not> in_hour D (epochHourOf now - 24) t) trades) \<and>
   chart_7d D now trades = cumulate (Fin 0)
     (map (\<lambda>l. (l, bucket_sum None (filter (\<lambda>t. day_key D (now - 7 * msPerDay) t = Some l) trades))) (chart_days D now))"
proof (intro conjI)
  show "chart_24h D now trades = chart_24h D now (filter (\<lambda>t. \<not> in_hour D (epochHourOf now - 24) t) trades)"
  proof -
    have "filter (in_hour D b) (filter (\<lambda>t. \<not> in_hour D (epochHourOf now - 24) t) trades) = filter (in_hour D b) trades"
      if "b = epochHourOf now - 23 + int i" for b i
      unfolding filter_filter by (rule filter_cong) (auto simp: in_hour_def that split: option.splits)
    then show ?thesis unfolding chart_24h_sums by (simp add: Let_def del: upt_rec_numeral)
  qed
  show "chart_7d D now trades = cumulate (Fin 0)
     (map (\<lambda>l. (l, bucket_sum None (filter (\<lambda>t. day_key D (now - 7 * msPerDay) t = Some l) trades))) (chart_days D now))"
    by (simp add: chart_7d_def steps_bucket foldl_bucket)
qed (rule chart_24h_sums)

section \<open>What the draw-down is\<close>

lemma num_le_refl [simp]: "x \<noteq> NaN \<Longrightarrow> num_le x x"
  by (simp add: num_le_def num_eq_def)

lemma num_lt_le: "num_lt x y \<Longrightarrow> num_le x y"
  by (simp add: num_le_def)

lemma num_le_trans [trans]: "num_le x y \<Longrightarrow> num_le y z \<Longrightarrow> num_le x z"
  by (cases x; cases y; cases z) (auto simp: num_le_def num_eq_def)

lemma fl_not_NaN [simp]: "fl q \<noteq> NaN"
  by (simp add: fl_def Let_def)

lemma fl_mono: "p \<le> q \<Longrightarrow> num_le (fl p) (fl q)"
  using round_to_mono [of p q] by (auto simp: fl_def Let_def num_le_def num_eq_def)

lemma num_lt_not_le: "x \<noteq> NaN \<Longrightarrow> y \<noteq> NaN \<Longrightarrow> \<not> num_lt x y \<Longrightarrow> num_le y x"
  by (cases x; cases y) (auto simp: num_le_def num_eq_def)

lemma drawdown_loop_max:
  assumes "m \<noteq> NaN"
  shows "let r = drawdown_loop (Fin p) m (map Fin qs) in num_le m r \<and>
    (\<forall>j<length qs. num_le (fl (p - qs ! j)) r \<and> (\<forall>i\<le>j. num_le (fl (qs ! i - qs ! j)) r)) \<and>
    (r = m \<or> (\<exists>j<length qs. r = fl (p - qs ! j) \<or> (\<exists>i\<le>j. r = fl (qs ! i - qs ! j))))"
  using assms
proof (induction qs arbitrary: p m)
  case (Cons v qs)
  define p' where "p' = max p v"
  define m' where "m' = (if num_lt m (fl (p' - v)) then fl (p' - v) else m)"
  define r where "r = drawdown_loop (Fin p') m' (map Fin qs)"
  have step: "drawdown_loop (Fin p) m (map Fin (v # qs)) = r"
    by (simp add: r_def m'_def p'_def num_sub_def max_def Let_def)
  have m': "m' \<noteq> NaN" "num_le m m'" "num_le (fl (p' - v)) m'" "m' = m \<or> m' = fl (p - v) \<or> m' = fl (v - v)"
    using Cons.prems num_lt_not_le [of m "fl (p' - v)"] by (auto simp: m'_def p'_def max_def dest: num_lt_le)
  note ih = Cons.IH [OF m'(1), of p', unfolded Let_def, folded r_def]
  have le: "num_le (fl (x - y)) r" if "x \<le> p'" "num_le (fl (p' - y)) r" for x y
    using num_le_trans [OF fl_mono that(2)] that(1) by simp
  have pv: "num_le (fl (p' - v)) r" using num_le_trans m'(3) ih by blast
  have "num_le (fl (p - (v # qs) ! j)) r \<and> (\<forall>i\<le>j. num_le (fl ((v # qs) ! i - (v # qs) ! j)) r)" if "j < length (v # qs)" for j
  proof (cases j)
    case 0
    then show ?thesis using le [of p v] le [of v v] pv by (simp add: p'_def)
  next
    case (Suc k)
    then have "num_le (fl (p' - qs ! k)) r" "\<forall>i\<le>k. num_le (fl (qs ! i - qs ! k)) r" using ih that by auto
    then show ?thesis using le [of p "qs ! k"] le [of v "qs ! k"] by (auto simp: Suc p'_def nth_Cons split: nat.split)
  qed
  moreover have "r = m \<or> (\<exists>j<length (v # qs). r = fl (p - (v # qs) ! j) \<or> (\<exists>i\<le>j. r = fl ((v # qs) ! i - (v # qs) ! j)))"
  proof -
    consider "r = m'" | j where "j < length qs" "r = fl (p' - qs ! j)" | j i where "j < length qs" "i \<le> j" "r = fl (qs ! i - qs ! j)"
      using ih by blast
    then show ?thesis
    proof cases
      case 1
      then show ?thesis using m'(4) by force
    next
      case 2
      then show ?thesis by (intro disjI2 exI [of _ "Suc j"]) (auto simp: p'_def max_def intro: exI [of _ 0])
    next
      case 3
      then show ?thesis by (intro disjI2 exI [of _ "Suc j"]) (auto intro: exI [of _ "Suc i"])
    qed
  qed
  moreover have "num_le m r" using num_le_trans m'(2) ih by blast
  ultimately show ?case unfolding step Let_def by blast
qed simp

text \<open>C38: the draw-down of an equity curve of finite numbers is the largest fall, in rounded subtraction,
  from any of its points to itself or a later one: no such fall exceeds it, and it is one of them (zero for an
  empty curve). The one pass with a running peak agrees with this specification over all pairs.\<close>

theorem drawdown_is_max:
  "let r = peakToTroughDrawdownSol (map Fin qs);
       falls = concat (map (\<lambda>j. map (\<lambda>i. num_sub (Fin (qs ! i)) (Fin (qs ! j))) [0..<Suc j]) [0..<length qs])
   in list_all (\<lambda>x. num_le x r) falls \<and> (if qs = [] then r = Fin 0 else r \<in> set falls)"
proof (cases qs)
  case Nil
  then show ?thesis by (simp add: peakToTroughDrawdownSol_def)
next
  case (Cons v vs)
  define r where "r = peakToTroughDrawdownSol (map Fin qs)"
  have r: "r = drawdown_loop (Fin v) (Fin 0) (map Fin vs)"
    by (simp add: r_def Cons peakToTroughDrawdownSol_def num_sub_def)
  note max = drawdown_loop_max [of "Fin 0" v vs, simplified Let_def, folded r, simplified]
  have all: "num_le (fl (qs ! i - qs ! j)) r" if "i \<le> j" "j < length qs" for i j
    using that max by (cases j; cases i) (auto simp: Cons)
  have "\<exists>j<length qs. \<exists>i\<le>j. r = fl (qs ! i - qs ! j)"
  proof -
    consider "r = Fin 0" | j where "j < length vs" "r = fl (v - vs ! j)" | j i where "j < length vs" "i \<le> j" "r = fl (vs ! i - vs ! j)"
      using max by blast
    then show ?thesis
    proof cases
      case 1
      then show ?thesis by (intro exI [of _ 0]) (simp add: Cons)
    next
      case 2
      then show ?thesis by (intro exI [of _ "Suc j"]) (auto simp: Cons intro: exI [of _ 0])
    next
      case 3
      then show ?thesis by (intro exI [of _ "Suc j"]) (auto simp: Cons intro: exI [of _ "Suc i"])
    qed
  qed
  then show ?thesis
    using all unfolding r_def [symmetric] Let_def
    by (fastforce simp: list_all_iff num_sub_def Cons simp del: upt_Suc)
qed

end
