(* ===== verification/Format.thy ===== *)
theory Format
  imports Decimal
begin

text \<open>
  How the dashboard shows amounts, percentages, addresses and ages: \<open>lib/utils.ts\<close>, the two conversions inside
  the Jito card of \<open>pages/Settings.tsx\<close>, and the age of a token in \<open>pages/Tokens.tsx\<close>. The browser's date parser
  and its local time of day are parameters. The dash is the code unit \<open>0x2014\<close>.
\<close>

section \<open>Amounts\<close>

definition DASH :: jstr where
  "DASH = [0x2014]"

definition formatSol :: "jsnum \<Rightarrow> nat \<Rightarrow> jstr" where
  "formatSol amount decimals =
     (if num_lt (num_abs amount) (fl (1 / 10000)) \<and> amount \<noteq> Fin 0 then to_exponential 2 amount @ U '' SOL''
      else to_fixed decimals amount @ U '' SOL'')"

definition formatPnl :: "jsnum \<Rightarrow> jstr" where
  "formatPnl amount = (if num_le (Fin 0) amount then U ''+'' else []) @ formatSol amount 4"

definition formatPercent :: "jsnum \<Rightarrow> nat \<Rightarrow> jstr" where
  "formatPercent v decimals = to_fixed decimals v @ U ''%''"

definition shortenAddress :: "jstr \<Rightarrow> nat \<Rightarrow> jstr" where
  "shortenAddress addr chars =
     (if addr = [] \<or> length addr < chars * 2 + 3 then addr
      else take chars addr @ U ''...'' @ slice_last chars addr)"

section \<open>Dates\<close>

definition formatDate :: "(jstr \<Rightarrow> int option) \<Rightarrow> (int \<Rightarrow> jstr) \<Rightarrow> jstr \<Rightarrow> jstr" where
  "formatDate parse local_time dateStr =
     (if dateStr = [] then DASH
      else case parse dateStr of Some ms \<Rightarrow> local_time ms | None \<Rightarrow> U ''Invalid Date'')"

text \<open>\<open>Date.now() - new Date(s).getTime()\<close>\<close>

definition age_ms :: "(jstr \<Rightarrow> int option) \<Rightarrow> int \<Rightarrow> jstr \<Rightarrow> jsnum" where
  "age_ms parse now s = (case parse s of Some ms \<Rightarrow> num_sub (NumI now) (NumI ms) | None \<Rightarrow> NaN)"

definition formatAge :: "(jstr \<Rightarrow> int option) \<Rightarrow> int \<Rightarrow> jstr \<Rightarrow> jstr" where
  "formatAge parse now dateStr =
     (if dateStr = [] then DASH
      else let diff = age_ms parse now dateStr;
               secs = math_floor (num_div diff (NumI 1000));
               mins = math_floor (num_div secs (NumI 60));
               hours = math_floor (num_div mins (NumI 60))
           in if num_lt secs (NumI 60) then num_to_string secs @ U ''s ago''
              else if num_lt mins (NumI 60) then num_to_string mins @ U ''m ago''
              else num_to_string hours @ U ''h ago'')"

definition token_age :: "(jstr \<Rightarrow> int option) \<Rightarrow> int \<Rightarrow> jstr \<Rightarrow> jstr" where
  "token_age parse now detectedAt =
     (if detectedAt = [] then DASH
      else let ms = age_ms parse now detectedAt
           in if num_lt ms (NumI 60000) then num_to_string (math_floor (num_div ms (NumI 1000))) @ U ''s ago''
              else if num_lt ms (NumI 3600000) then num_to_string (math_floor (num_div ms (NumI 60000))) @ U ''m ago''
              else num_to_string (math_floor (num_div ms (NumI 3600000))) @ U ''h ago'')"

section \<open>The Jito card's conversions\<close>

text \<open>\<open>s.replace(/\.?0+$/, "")\<close>\<close>

definition strip_trailing :: "jstr \<Rightarrow> jstr" where
  "strip_trailing s =
     (let k = length (takeWhile (\<lambda>c. c = 48) (rev s)); r = take (length s - k) s
      in if k = 0 then s else if r \<noteq> [] \<and> last r = 46 then butlast r else r)"

definition lamportsToSol :: "jstr \<Rightarrow> jstr" where
  "lamportsToSol lamports =
     (let n = parse_float lamports; sol = num_div n (NumI 1000000000)
      in if n = NaN \<or> num_lt n (Fin 0) then DASH
         else if sol = Fin 0 then U ''0 SOL''
         else if num_lt sol (fl (1 / 1000000)) then to_exponential 2 sol @ U '' SOL''
         else strip_trailing (to_fixed 9 sol) @ U '' SOL'')"

definition tipPercentDisplay :: "jstr \<Rightarrow> jstr" where
  "tipPercentDisplay val =
     (let n = parse_float val; pct = num_mul n (NumI 100)
      in if n = NaN \<or> num_lt n (Fin 0) then DASH
         else (if num_lt pct (fl (1 / 1000)) then to_exponential 2 pct else strip_trailing (to_fixed 4 pct)) @ U ''%'')"

section \<open>Amounts are shown to their last digit\<close>

text \<open>What the dashboard shows for an amount is close to it. For a finite double below \<open>1e21\<close> in size,
  \<open>formatSol\<close> writes a decimal literal and \<open> SOL\<close>: an amount of at least a tenth of a thousandth (the double
  nearest to it), or zero, is shown within half a unit of the last of the \<open>d\<close> decimals; a smaller one is shown
  with three significant digits, within half a percent of itself.\<close>

theorem amounts_shown:
  assumes "fl x = Fin a" and "\<bar>a\<bar> < 10 ^ 21"
  shows "\<exists>t. formatSol (Fin a) d = t @ U '' SOL'' \<and>
    (if num_lt (Fin \<bar>a\<bar>) (fl (1 / 10000)) \<and> a \<noteq> 0 then \<bar>text_value t - a\<bar> \<le> \<bar>a\<bar> / 200
     else \<bar>text_value t - a\<bar> \<le> 1 / (2 * 10 ^ d))"
  using to_exponential_error [OF _ assms(1), of 2] to_fixed_error [OF assms(2), of d]
  unfolding formatSol_def by auto

theorem amounts_shown_witness:
  "\<exists>t. formatSol (Fin (5 / 4)) 4 = t @ U '' SOL'' \<and> \<bar>text_value t - 5 / 4\<bar> \<le> 1 / 20000"
proof -
  have f: "fl (5 / 4) = Fin (5 / 4)" by (simp add: fl_eval)
  have "\<not> num_lt (Fin \<bar>5 / 4\<bar>) (fl (1 / 10000))"
    using fl_between [of 0 "1 / 10000" 1] by auto
  then show ?thesis using amounts_shown [OF f, of 4] by auto
qed

section \<open>Lamports are shown exactly\<close>

lemma digit_text_stripped:
  assumes a: "\<And>c. c \<in> set a \<Longrightarrow> is_digit c" and b: "\<And>c. c \<in> set b \<Longrightarrow> is_digit c"
  shows "text_abs (strip_trailing (a @ 46 # b)) = text_abs (a @ 46 # b)" and "\<exists>t. strip_trailing (a @ 46 # b) = a @ t"
proof -
  define c where "c = rev (dropWhile (\<lambda>x. x = 48) (rev b))"
  define k where "k = length (takeWhile (\<lambda>x. x = 48) (rev b))"
  have z: "takeWhile (\<lambda>x. x = 48) (rev b) = replicate k 48"
    using takeWhile_eq_take [of "\<lambda>x. x = 48" "rev b"] set_takeWhileD [of _ "\<lambda>x. x = 48" "rev b"]
    by (intro replicate_eqI) (auto simp: k_def)
  have "rev b = replicate k 48 @ rev c" using takeWhile_dropWhile_id [of "\<lambda>x. x = 48" "rev b"] by (simp add: z c_def)
  then have bc: "b = c @ replicate k 48" by (metis rev_append rev_replicate rev_rev_ident)
  have c0: "rev c = [] \<or> hd (rev c) \<noteq> 48" using hd_dropWhile [of "\<lambda>x. x = 48" "rev b"] by (auto simp: c_def)
  have cd: "is_digit x" if "x \<in> set c" for x using b that by (simp add: bc)
  have "takeWhile (\<lambda>x. x = 48) (rev (a @ 46 # b)) = replicate k 48"
    using c0 by (cases "rev c") (simp_all add: bc takeWhile_append)
  moreover have "last c \<noteq> 46" if "c \<noteq> []" using cd [of "last c"] that by (auto simp: is_digit_def)
  ultimately have s: "strip_trailing (a @ 46 # b) = (if k = 0 then a @ 46 # b else if c = [] then a else a @ 46 # c)"
    by (auto simp: strip_trailing_def Let_def bc butlast_append)
  have e: "exp_part [] = Some 0" by (simp add: exp_part_def)
  have full: "text_abs (a @ 46 # b) = of_nat (digits_val (a @ b)) * pow10 (- int (length b))"
    using text_abs_parts [of a b "[]"] a b e by simp
  have dv: "digits_val (a @ b) = digits_val (a @ c) * 10 ^ k" by (simp add: bc digits_val_append algebra_simps power_add)
  have "text_abs (a @ 46 # c) = of_nat (digits_val (a @ c)) * pow10 (- int (length c))"
    using text_abs_parts [of a c "[]"] a cd e by simp
  moreover have "pow10 (- int (length c)) = 10 ^ k * pow10 (- int (length b))"
    by (simp only: pow10_minus bc length_append length_replicate power_add) simp
  ultimately have part: "text_abs (a @ 46 # c) = text_abs (a @ 46 # b)" by (simp add: full dv)
  show "\<exists>t. strip_trailing (a @ 46 # b) = a @ t" using s by auto
  show "text_abs (strip_trailing (a @ 46 # b)) = text_abs (a @ 46 # b)"
  proof (cases "c = []")
    case True
    then have "text_abs a = text_abs (a @ 46 # c)" using text_abs_plain [of a] text_abs_parts [of a "[]" "[]"] a e by (simp add: pow10_def)
    then show ?thesis using s part True by simp
  qed (use s part in simp)
qed

lemma pow10_mono: "a \<le> b \<Longrightarrow> pow10 a \<le> pow10 b"
proof -
  assume "a \<le> b"
  then obtain k where k: "b = a + int k" using zle_iff_zadd by blast
  have "1 \<le> (10 :: rat) ^ k" by simp
  then have "pow10 a * 1 \<le> pow10 a * 10 ^ k" by (intro mult_left_mono) (auto intro: less_imp_le)
  then show ?thesis by (simp add: k pow10_add_nat)
qed

lemma pow10_less_imp: "pow10 a < pow10 b \<Longrightarrow> a < b"
  using pow10_mono [of b a] by (meson not_le)

lemma nat_round_near: "\<bar>x - of_nat n\<bar> < 1 / 2 \<Longrightarrow> nat \<lfloor>x + 1 / 2\<rfloor> = n" for x :: rat
proof -
  assume "\<bar>x - of_nat n\<bar> < 1 / 2"
  then have "\<lfloor>x + 1 / 2\<rfloor> = int n" unfolding abs_less_iff by (intro floor_unique) auto
  then show ?thesis by simp
qed

lemma ten_powers: "(100 :: rat) = 10 ^ 2" "(1000 :: rat) = 10 ^ 3"
  by simp_all

lemma expo_split_near:
  assumes "0 < q" and "fl x = Fin q" and s: "100 \<le> s" "s < 1000"
    and close: "\<bar>q - of_nat s * pow10 (e - 2)\<bar> \<le> of_nat s * pow10 (e - 2) / 2 ^ 53"
  shows "expo_split 2 q = (s, e)"
proof -
  define p where "p = pow10 (e - 2)"
  define e0 where "e0 = log10f 700 q"
  have p0: "0 < p" by (simp add: p_def)
  have "e + 1 = e - 2 + int 3" "e = e - 2 + int 2" "e - 1 = e - 2 + int 1" "e - 2 = e - 3 + int 1" by simp_all
  then have pw: "pow10 e = 100 * p" "pow10 (e + 1) = 1000 * p" "pow10 (e - 1) = 10 * p" "10 * pow10 (e - 3) = p"
    unfolding p_def by (metis pow10_add_nat mult.commute power_one_right ten_powers)+
  have s': "(100 :: rat) \<le> of_nat s" "of_nat s \<le> (999 :: rat)" using s by simp_all
  then have "of_nat s * p / 2 ^ 53 \<le> p / 1000" using p0 by (simp add: field_simps)
  then have c: "\<bar>q - of_nat s * p\<bar> \<le> p / 1000" using close unfolding p_def by linarith
  have sp: "100 * p \<le> of_nat s * p" "of_nat s * p \<le> 999 * p" using s' p0 by (simp_all add: mult_right_mono)
  have b: "pow10 e0 \<le> q" "q < pow10 (e0 + 1)" using double_log10 [OF assms(1,2)] by (simp_all add: e0_def)
  have "pow10 e0 < pow10 (e + 1)" using b(1) c sp p0 unfolding pw abs_le_iff by linarith
  moreover have "pow10 (e - 1) < pow10 (e0 + 1)" using b(2) c sp p0 unfolding pw abs_le_iff by linarith
  ultimately have "e0 < e + 1" "e - 1 < e0 + 1" by (auto dest: pow10_less_imp)
  then consider "e0 = e" | "e0 = e - 1" by linarith
  then show ?thesis
  proof cases
    case 1
    have "\<bar>q / p - of_nat s\<bar> = \<bar>q - of_nat s * p\<bar> / p" using scaled_dist [OF p0, of "of_nat s * p" "int s" q] by simp
    also have "\<dots> < 1 / 2" using c p0 by (simp add: field_simps)
    finally have "nat \<lfloor>q / p + 1 / 2\<rfloor> = s" by (rule nat_round_near)
    then show ?thesis using 1 s by (simp add: expo_split_def e0_def [symmetric] p_def Let_def)
  next
    case 2
    define r where "r = pow10 (e - 3)"
    have r: "0 < r" "p = 10 * r" using pw(4) by (simp_all add: r_def)
    have "q < 100 * p" using b(2) 2 pw(1) by simp
    then have "of_nat s * p < 101 * p" using c p0 unfolding abs_le_iff by linarith
    then have "rat_of_nat s < 101" using p0 by simp
    then have s100: "s = 100" using s by simp
    have "\<bar>q / r - of_nat 1000\<bar> = \<bar>q - of_nat 1000 * r\<bar> / r" using scaled_dist [OF r(1), of "of_nat 1000 * r" "int 1000" q] by simp
    also have "\<dots> < 1 / 2" using c r by (simp add: s100 field_simps)
    finally have "nat \<lfloor>q / r + 1 / 2\<rfloor> = 1000" by (rule nat_round_near)
    then show ?thesis using 2 s100 by (simp add: expo_split_def e0_def [symmetric] r_def Let_def)
  qed
qed

lemma parse_float_digits:
  assumes a: "\<And>c. c \<in> set a \<Longrightarrow> is_digit c" and "a \<noteq> []" and b: "\<And>c. c \<in> set b \<Longrightarrow> is_digit c"
  shows "parse_float a = fl (text_abs a)" and "parse_float (a @ 46 # b) = fl (text_abs (a @ 46 # b))"
proof -
  obtain c r where cr: "a = c # r" using assms(2) by (cases a) auto
  have c: "is_digit c" using a cr by simp
  then have nws: "\<not> is_ws c" "c \<noteq> 45" "c \<noteq> 43" "c \<noteq> 73" by (auto simp: is_digit_def is_ws_def)
  have inf: "\<not> starts_with (c # t) (U ''Infinity'')" for t using nws by (simp add: starts_with_def U_def)
  have pf: "parse_float (c # t) = float_prefix (c # t)" for t
    using nws by (simp add: parse_float_def trim_start_def)
  have e: "exp_prefix [] = 0" "exp_part [] = Some 0" by (simp_all add: exp_prefix_def exp_part_def)
  have w: "takeWhile is_digit a = a" "dropWhile is_digit a = []" using digits_prefix [of a "[]"] a by simp_all
  have w2: "takeWhile is_digit (a @ 46 # b) = a" "dropWhile is_digit (a @ 46 # b) = 46 # b"
    using digits_prefix [of a "46 # b"] a by (simp_all add: is_digit_def [of 46])
  have w3: "takeWhile is_digit b = b" "dropWhile is_digit b = []" using digits_prefix [of b "[]"] b by simp_all
  have "float_prefix a = fl (text_abs a)"
    unfolding float_prefix_def text_abs_def Let_def w using inf [of r] assms(2) cr e by simp
  then show "parse_float a = fl (text_abs a)" using pf [of r] cr by simp
  have "float_prefix (a @ 46 # b) = fl (text_abs (a @ 46 # b))"
    unfolding float_prefix_def text_abs_def Let_def w2 using inf [of "r @ 46 # b"] assms(2) cr e by (simp add: w3)
  then show "parse_float (a @ 46 # b) = fl (text_abs (a @ 46 # b))" using pf [of "r @ 46 # b"] cr by simp
qed

lemma sol_double:
  assumes "1 \<le> k" and "k \<le> 2 ^ 50"
  shows "\<exists>q. fl (of_nat k / 10 ^ 9) = Fin q \<and> 0 < q \<and> q < 10 ^ 21
    \<and> \<bar>q - of_nat k / 10 ^ 9\<bar> \<le> of_nat k / 10 ^ 9 / 2 ^ 53"
proof -
  define K :: rat where "K = of_nat k"
  have "rat_of_nat k \<le> of_nat (2 ^ 50)" using assms(2) by (simp only: of_nat_le_iff)
  then have K: "1 \<le> K" "K \<le> 2 ^ 50" using assms(1) by (simp_all add: K_def)
  define x where "x = K / 10 ^ 9"
  have x: "1 / 10 ^ 9 \<le> x" "x \<le> of_int (2 ^ 50)" using K by (auto simp: x_def field_simps)
  have small: "pow2 (- 1022) \<le> 1 / 10 ^ 9" by (simp add: pow2_def)
  obtain q where q: "fl x = Fin q" "q = round_to x" "q \<le> of_int (2 ^ 50)"
    using fl_between [of 0 x "2 ^ 50"] x by fastforce
  have e: "\<bar>q - x\<bar> \<le> x / 2 ^ 53" using round_to_rel [of x] small x q by linarith
  have "x / 2 ^ 53 < x" using x(1) by simp
  then have "0 < q" using e by linarith
  then show ?thesis using q e by (auto simp: x_def K_def)
qed

lemma exact_fixed:
  assumes "1 \<le> k" and "k \<le> 2 ^ 50" and "fl (of_nat k / 10 ^ 9) = Fin q"
  shows "to_fixed 9 (Fin q) = fixed_text 9 k"
proof -
  have q: "0 < q" "q < 10 ^ 21" "\<bar>q - of_nat k / 10 ^ 9\<bar> \<le> of_nat k / 10 ^ 9 / 2 ^ 53"
    using sol_double [OF assms(1,2)] assms(3) by auto
  have "rat_of_nat k \<le> of_nat (2 ^ 50)" using assms(2) by (simp only: of_nat_le_iff)
  then have k: "rat_of_nat k \<le> 2 ^ 50" by simp
  have "\<bar>q * 10 ^ 9 - of_nat k\<bar> = \<bar>(q - of_nat k / 10 ^ 9) * 10 ^ 9\<bar>" by (simp add: left_diff_distrib)
  also have "\<dots> = \<bar>q - of_nat k / 10 ^ 9\<bar> * 10 ^ 9" by (simp only: abs_mult) simp
  also have "\<dots> \<le> of_nat k / 10 ^ 9 / 2 ^ 53 * 10 ^ 9" using q(3) by (intro mult_right_mono) simp_all
  also have "\<dots> < 1 / 2" using k by simp
  finally have "nat \<lfloor>q * 10 ^ 9 + 1 / 2\<rfloor> = k" by (rule nat_round_near)
  then show ?thesis using q(1,2) by simp
qed

lemma fixed_stripped: "0 < d \<Longrightarrow> text_value (strip_trailing (fixed_text d n)) = of_nat n / 10 ^ d"
proof -
  assume d: "0 < d"
  define m where "m = pad_left (d + 1) n"
  define a b where "a = take (length m - d) m" and "b = drop (length m - d) m"
  have dig: "is_digit c" if "c \<in> set m" for c using that pad_left_digits by (auto simp: m_def)
  have f: "fixed_text d n = a @ 46 # b" using fixed_text_eq [OF d m_def] by (simp add: a_def b_def)
  have "a \<noteq> []" using pad_left_length [of "d + 1" n] d by (auto simp: a_def m_def)
  have ab: "\<And>c. c \<in> set a \<Longrightarrow> is_digit c" "\<And>c. c \<in> set b \<Longrightarrow> is_digit c"
    using dig by (auto simp: a_def b_def dest: in_set_takeD in_set_dropD)
  obtain t where t: "strip_trailing (a @ 46 # b) = a @ t" using digit_text_stripped(2) [OF ab] by blast
  have "text_abs (strip_trailing (a @ 46 # b)) = text_abs (a @ 46 # b)" using ab by (rule digit_text_stripped)
  then have "text_abs (a @ t) = of_nat n / 10 ^ d" using fixed_value [of d n] by (simp add: f t)
  moreover have "is_digit (hd (a @ t))" using ab(1) [of "hd a"] \<open>a \<noteq> []\<close> by simp
  ultimately show ?thesis using text_value_sign [of "a @ t" False] by (simp add: f t)
qed

lemma small_lamports:
  assumes "1 \<le> k" and "k < 1000"
  shows "\<exists>s e. 100 \<le> s \<and> s < 1000 \<and> of_nat k / 10 ^ 9 = of_nat s * pow10 (e - 2)"
proof -
  have p: "pow10 (- 11) = 1 / 10 ^ 11" "pow10 (- 10) = 1 / 10 ^ 10" "pow10 (- 9) = 1 / 10 ^ 9"
    by (simp_all add: pow10_def)
  consider "k < 10" | "10 \<le> k" "k < 100" | "100 \<le> k" by linarith
  then show ?thesis
  proof cases
    case 1
    then show ?thesis using assms p by (intro exI [of _ "100 * k"] exI [of _ "- 9"]) simp
  next
    case 2
    then show ?thesis using assms p by (intro exI [of _ "10 * k"] exI [of _ "- 8"]) simp
  next
    case 3
    then show ?thesis using assms p by (intro exI [of _ k] exI [of _ "- 7"]) simp
  qed
qed

lemma exact_expo:
  assumes "1 \<le> k" and "k < 1000" and "fl (of_nat k / 10 ^ 9) = Fin q"
  shows "text_value (to_exponential 2 (Fin q)) = of_nat k / 10 ^ 9"
proof -
  obtain s e where se: "100 \<le> s" "s < 1000" "of_nat k / 10 ^ 9 = of_nat s * pow10 (e - 2)"
    using small_lamports [OF assms(1,2)] by blast
  have q: "0 < q" "\<bar>q - of_nat k / 10 ^ 9\<bar> \<le> of_nat k / 10 ^ 9 / 2 ^ 53"
    using sol_double [of k] assms by auto
  have "expo_split 2 q = (s, e)" using q se by (intro expo_split_near [OF _ assms(3)]) simp_all
  then have "to_exponential 2 (Fin q) = expo_text 2 (s, e)" using q(1) by simp
  then show ?thesis using expo_value [of s 2 e] text_value_sign [OF expo_text_hd, of False 2 "(s, e)"] se by simp
qed

text \<open>C17: the Jito card shows a tip bound exactly. For every whole number of lamports up to \<open>2^50\<close> written
  in decimal digits, the text beside the field is a decimal literal of exactly that many billionths, and
  \<open> SOL\<close>, although the amount passes through two roundings to doubles and the formatting.\<close>

theorem lamports_shown:
  assumes "k \<le> 2 ^ 50"
  shows "\<exists>t. lamportsToSol (dec_nat k) = t @ U '' SOL'' \<and> text_value t = of_nat k / 10 ^ 9"
proof -
  have "text_abs (dec_nat k) = of_nat k" using text_abs_plain [of "dec_nat k"] dec_nat_digits by simp
  then have "parse_float (dec_nat k) = fl (of_nat k)" using parse_float_digits(1) [of "dec_nat k" "[]"] dec_nat_digits by auto
  then have pf: "parse_float (dec_nat k) = Fin (of_nat k)" using fl_int [of "int k"] assms by simp
  show ?thesis
  proof (cases "k = 0")
    case True
    have "text_value (U ''0'') = 0" using text_abs_plain [of "[48]"] by (simp add: text_value_def U_def is_digit_def digits_val_def)
    then show ?thesis using True pf by (auto simp: lamportsToSol_def U_def intro: exI [of _ "[48]"])
  next
    case False
    then obtain q where q: "fl (of_nat k / 10 ^ 9) = Fin q" "0 < q" using sol_double [of k] assms by auto
    then have s: "num_div (Fin (of_nat k)) (NumI 1000000000) = Fin q" by simp
    have ex: "text_value (to_exponential 2 (Fin q)) = of_nat k / 10 ^ 9" if "num_lt (Fin q) (fl (1 / 1000000))"
    proof (cases "k < 1000")
      case False
      then have "1 / 1000000 \<le> rat_of_nat k / 10 ^ 9" by simp
      from round_to_mono [OF this] have "num_le (fl (1 / 1000000)) (Fin q)"
        using fl_Fin [OF q(1)] fl_between [of 0 "1 / 1000000" 1] by auto
      then show ?thesis using that fl_between [of 0 "1 / 1000000" 1] by auto
    qed (use exact_expo q(1) \<open>k \<noteq> 0\<close> in auto)
    have fx: "text_value (strip_trailing (to_fixed 9 (Fin q))) = of_nat k / 10 ^ 9"
      using exact_fixed [of k q] fixed_stripped [of 9 k] False assms q(1) by simp
    show ?thesis using ex fx q(2) pf s by (auto simp: lamportsToSol_def Let_def)
  qed
qed

theorem lamports_shown_witness:
  "\<exists>t. lamportsToSol (dec_nat 5000) = t @ U '' SOL'' \<and> text_value t = 5 / 1000000"
  using lamports_shown [of 5000] by simp

section \<open>Ages\<close>

text \<open>The floor of a rounded quotient of a non-negative whole number is the whole quotient.\<close>

lemma quotient_le: "0 \<le> a \<Longrightarrow> 0 < b \<Longrightarrow> a div b \<le> (a :: int)"
  using zdiv_mono2 [of a 1 b] by simp

lemma floor_quotient:
  assumes "0 \<le> a" and "a < 2 ^ 52" and "0 < b" and "b < 2 ^ 22"
  shows "math_floor (num_div (NumI a) (NumI b)) = NumI (a div b)"
proof -
  define A B :: rat where "A = of_int a" and "B = of_int b"
  have "rat_of_int b \<le> of_int (2 ^ 22)" "rat_of_int 1 \<le> of_int b" "rat_of_int 0 \<le> of_int a" "rat_of_int a \<le> of_int (2 ^ 52)"
    using assms unfolding of_int_le_iff by simp_all
  then have r: "1 \<le> B" "B \<le> 2 ^ 22" "0 \<le> A" "A \<le> 2 ^ 52" by (simp_all add: A_def B_def)
  define n where "n = a div b"
  have n: "n * b \<le> a" "a + 1 \<le> (n + 1) * b"
    using assms(3) div_mult_mod_eq [of a b] pos_mod_bound [of b a] pos_mod_sign [of b a] unfolding n_def distrib_right by linarith+
  then have "rat_of_int (n * b) \<le> of_int a" "rat_of_int (a + 1) \<le> of_int ((n + 1) * b)" by (simp_all only: of_int_le_iff)
  then have nA: "of_int n * B \<le> A" "A + 1 \<le> (of_int n + 1) * B" by (simp_all add: A_def B_def)
  show ?thesis
  proof (cases "a = 0")
    case False
    have "1 \<le> a" using False assms(1) by simp
    then have A1: "1 \<le> A" by (simp only: A_def of_int_1_le_iff)
    define x where "x = A / B"
    have nx: "of_int n \<le> x" "x + 1 / B \<le> of_int n + 1" using nA r(1) by (simp_all add: x_def field_simps)
    have "pow2 (- 1022) \<le> 1 / 2 ^ 22" by (simp add: pow2_def)
    also have "\<dots> \<le> x" using A1 r(1,2) by (simp add: x_def field_simps)
    finally have "\<bar>round_to x - x\<bar> \<le> x / 2 ^ 53" by (rule round_to_rel)
    moreover have "x / 2 ^ 53 < 1 / B" using r by (simp add: x_def field_simps)
    ultimately have up: "round_to x < of_int n + 1" using nx(2) by linarith
    have n0: "0 \<le> n" "n \<le> a" using assms by (simp_all add: n_def pos_imp_zdiv_nonneg_iff quotient_le)
    have "of_int n + 1 \<le> A + 1" "x \<le> A" using n0 r A1 by (simp_all add: A_def x_def divide_le_eq)
    then obtain q where q: "fl x = Fin q" "q = round_to x" "of_int n \<le> q"
      using fl_between [of n x a] nx(1) n0 assms(2) by (auto simp: A_def)
    then have "\<lfloor>q\<rfloor> = n" using up by (intro floor_unique) auto
    then show ?thesis using q(1) assms(3) by (simp add: x_def A_def B_def n_def)
  qed (use assms(3) in simp)
qed

text \<open>The two age formatters agree. The dashboard's \<open>formatAge\<close>, which divides step by step, and the one
  of the tokens page, which compares milliseconds, give the same text for every date, valid or not, past or
  future, less than \<open>2^52\<close> milliseconds from now.\<close>

theorem ages_agree:
  assumes "\<And>ms. parse s = Some ms \<Longrightarrow> \<bar>now - ms\<bar> < 2 ^ 52"
  shows "formatAge parse now s = token_age parse now s"
proof (cases "parse s")
  case None
  then show ?thesis by (simp add: formatAge_def token_age_def age_ms_def Let_def)
next
  case (Some ms)
  define a where "a = now - ms"
  have a: "\<bar>a\<bar> < 2 ^ 52" using assms Some by (simp add: a_def)
  have "num_sub (NumI now) (NumI ms) = fl (of_int a)" by (simp add: num_sub_def a_def)
  then have age: "age_ms parse now s = NumI a" using a Some fl_int [of a] by (simp add: age_ms_def)
  show ?thesis
  proof (cases "a < 0")
    case True
    have "rat_of_int a / 1000 \<le> of_int 0" "of_int a \<le> rat_of_int a / 1000" using True by (simp_all add: field_simps)
    then obtain q where "fl (rat_of_int a / 1000) = Fin q" "q \<le> 0" using fl_between [of a "of_int a / 1000" 0] a by auto
    then have "\<lfloor>q\<rfloor> < 60" "fl (rat_of_int a / 1000) = Fin q" using floor_mono [of q 0] by simp_all
    moreover have "num_lt (NumI a) (NumI 60000)" using True by simp
    ultimately show ?thesis by (simp add: formatAge_def token_age_def age Let_def)
  next
    case False
    have b: "0 \<le> a" "a < 2 ^ 52" using a False by simp_all
    have d: "0 \<le> a div k" "a div k < 2 ^ 52" if "0 < k" for k
      using b that quotient_le [OF b(1), of k] by (simp_all add: pos_imp_zdiv_nonneg_iff)
    have dd: "a div 1000 div 60 = a div 60000" "a div 60000 div 60 = a div 3600000" by (simp_all add: zdiv_zmult2_eq [symmetric])
    have q: "math_floor (num_div (NumI a) (NumI 1000)) = NumI (a div 1000)"
      "math_floor (num_div (NumI (a div 1000)) (NumI 60)) = NumI (a div 60000)"
      "math_floor (num_div (NumI (a div 60000)) (NumI 60)) = NumI (a div 3600000)"
      "math_floor (num_div (NumI a) (NumI 60000)) = NumI (a div 60000)"
      "math_floor (num_div (NumI a) (NumI 3600000)) = NumI (a div 3600000)"
      using floor_quotient [of a 1000] floor_quotient [of "a div 1000" 60] floor_quotient [of "a div 60000" 60]
        floor_quotient [of a 60000] floor_quotient [of a 3600000] b d [of 1000] d [of 60000] by (simp_all only: dd) simp_all
    have c: "a div 1000 < 60 \<longleftrightarrow> a < 60000" "a div 60000 < 60 \<longleftrightarrow> a < 3600000" by linarith+
    have n: "num_lt (NumI x) (NumI y) \<longleftrightarrow> x < y" for x y by simp
    show ?thesis unfolding formatAge_def token_age_def age Let_def q n c ..
  qed
qed

theorem ages_agree_witness:
  "formatAge (\<lambda>_. Some 0) 90061000 (U ''x'') = token_age (\<lambda>_. Some 0) 90061000 (U ''x'')"
  by (rule ages_agree) simp

end
