(* ===== verification/View.thy ===== *)
theory View
  imports Format
begin

text \<open>
  What a component renders, as a tree: text, elements with their attributes, event handlers and children, and
  \<open>Throw\<close> where an expression of the JSX throws (React then shows nothing of the page). Handlers map the event's
  value (\<open>e.target.value\<close>, \<open>e.key\<close>, the new state of a check box) to an action of the component. Class names,
  styles and icons are left out; a component of \<open>components/ui\<close> is an element of that name. Fragments and
  conditional children are lists of trees.
\<close>

datatype 'a view =
    Txt jstr
  | El string "(string \<times> jsval) list" "(string \<times> (jsval \<Rightarrow> 'a)) list" "'a view list"
  | Throw exn

abbreviation el :: "string \<Rightarrow> 'a view list \<Rightarrow> 'a view" where
  "el tag kids \<equiv> El tag [] [] kids"

abbreviation T :: "string \<Rightarrow> 'a view" where
  "T s \<equiv> Txt (U s)"

section \<open>Values as children\<close>

text \<open>\<open>{v}\<close>: strings and numbers are text, \<open>undefined\<close>, \<open>null\<close> and booleans nothing, an object throws.\<close>

fun child :: "jsval \<Rightarrow> 'a view list" where
  "child (VStr s) = [Txt s]"
| "child (VNum n) = [Txt (num_to_string n)]"
| "child (VArr vs) = concat (map child vs)"
| "child (VObj ps) = [Throw (Err (U ''Objects are not valid as a React child''))]"
| "child (VDate t) = [Throw (Err (U ''Objects are not valid as a React child''))]"
| "child v = []"

text \<open>\<open>{v && view}\<close>: a falsy value is itself the child.\<close>

definition and_view :: "jsval \<Rightarrow> 'a view list \<Rightarrow> 'a view list" where
  "and_view v vs = (if truthy v then vs else child v)"

text \<open>\<open>{e}\<close> for an expression that may throw.\<close>

definition text_of :: "exn + jstr \<Rightarrow> 'a view list" where
  "text_of r = (case r of Inl e \<Rightarrow> [Throw e] | Inr s \<Rightarrow> [Txt s])"

text \<open>\<open>v.m(\<dots>)\<close> for a method \<open>m\<close> of numbers, and of strings.\<close>

definition on_num :: "string \<Rightarrow> (jsnum \<Rightarrow> jstr) \<Rightarrow> jsval \<Rightarrow> exn + jstr" where
  "on_num m f v = (case v of VNum n \<Rightarrow> Inr (f n)
     | _ \<Rightarrow> Inl (if nullish v then read_err v m else TypeErr (U m @ U '' is not a function'')))"

definition on_str :: "string \<Rightarrow> (jstr \<Rightarrow> jstr) \<Rightarrow> jsval \<Rightarrow> exn + jstr" where
  "on_str m f v = (case v of VStr s \<Rightarrow> Inr (f s)
     | _ \<Rightarrow> Inl (if nullish v then read_err v m else TypeErr (U m @ U '' is not a function'')))"

definition fixed :: "nat \<Rightarrow> jsval \<Rightarrow> exn + jstr" where
  "fixed d v = on_num ''toFixed'' (to_fixed d) v"

text \<open>\<open>formatSol\<close> and \<open>shortenAddress\<close> on whatever they are given: \<open>Math.abs(null)\<close> is 0 and \<open>Math.abs(undefined)\<close>
  is \<open>NaN\<close>; an empty or absent address is the empty text.\<close>

definition sol_text :: "nat \<Rightarrow> jsval \<Rightarrow> exn + jstr" where
  "sol_text d v = on_num (if v = VNull then ''toExponential'' else ''toFixed'') (\<lambda>n. formatSol n d) v"

definition short_addr :: "nat \<Rightarrow> jsval \<Rightarrow> exn + jstr" where
  "short_addr k v = (if truthy v then on_str ''slice'' (\<lambda>s. shortenAddress s k) v else Inr [])"

text \<open>\<open>formatAge\<close> on an optional date.\<close>

definition age_text :: "(jstr \<Rightarrow> int option) \<Rightarrow> int \<Rightarrow> jsval \<Rightarrow> jstr" where
  "age_text parse now v = (if truthy v then formatAge parse now (to_str v) else DASH)"

text \<open>The value of an input event.\<close>

definition event_text :: "jsval \<Rightarrow> jstr" where
  "event_text v = (case v of VStr s \<Rightarrow> s | _ \<Rightarrow> [])"

text \<open>\<open>xs.length\<close> as a child.\<close>

definition count_text :: "'b list \<Rightarrow> 'a view" where
  "count_text xs = Txt (num_to_string (NumI (int (length xs))))"

section \<open>Reading a tree\<close>

fun texts :: "'a view \<Rightarrow> jstr list" where
  "texts (Txt s) = [s]"
| "texts (El tag as hs kids) = concat (map texts kids)"
| "texts (Throw e) = []"

fun crashes :: "'a view \<Rightarrow> bool" where
  "crashes (Txt s) \<longleftrightarrow> False"
| "crashes (El tag as hs kids) \<longleftrightarrow> list_ex crashes kids"
| "crashes (Throw e) \<longleftrightarrow> True"

definition shown_texts :: "'a view list \<Rightarrow> jstr list" where
  "shown_texts vs = concat (map texts vs)"

definition renders :: "'a view list \<Rightarrow> bool" where
  "renders vs \<longleftrightarrow> \<not> list_ex crashes vs"

definition attr :: "string \<Rightarrow> (string \<times> jsval) list \<Rightarrow> jsval" where
  "attr k as = (case map_of as k of Some v \<Rightarrow> v | None \<Rightarrow> VUndef)"

text \<open>The actions that an event of a kind can cause, with the event's value still open; a disabled element
  has none.\<close>

fun offers :: "string \<Rightarrow> 'a view \<Rightarrow> (jsval \<Rightarrow> 'a) list" where
  "offers ev (Txt s) = []"
| "offers ev (El tag as hs kids) =
     (if truthy (attr ''disabled'' as) then [] else map snd (filter (\<lambda>h. fst h = ev) hs)) @ concat (map (offers ev) kids)"
| "offers ev (Throw e) = []"

definition clicks :: "'a view list \<Rightarrow> 'a list" where
  "clicks vs = map (\<lambda>f. f VUndef) (concat (map (offers ''onClick'') vs))"

text \<open>The elements of a tree with their attributes, in document order.\<close>

fun elements :: "'a view \<Rightarrow> (string \<times> (string \<times> jsval) list) list" where
  "elements (Txt s) = []"
| "elements (El tag as hs kids) = (tag, as) # concat (map elements kids)"
| "elements (Throw e) = []"

definition elements_of :: "'a view list \<Rightarrow> (string \<times> (string \<times> jsval) list) list" where
  "elements_of vs = concat (map elements vs)"

definition count_tag :: "string \<Rightarrow> 'a view list \<Rightarrow> nat" where
  "count_tag tag vs = length (filter (\<lambda>e. fst e = tag) (elements_of vs))"

lemma texts_lists [simp]:
  "shown_texts [] = []" "shown_texts (v # vs) = texts v @ shown_texts vs" "shown_texts (vs @ ws) = shown_texts vs @ shown_texts ws"
  by (simp_all add: shown_texts_def)

lemma renders_lists [simp]:
  "renders []" "renders (v # vs) \<longleftrightarrow> \<not> crashes v \<and> renders vs" "renders (vs @ ws) \<longleftrightarrow> renders vs \<and> renders ws"
  by (simp_all add: renders_def)

lemma crashes_El [simp]: "crashes (El tag as hs kids) \<longleftrightarrow> \<not> renders kids"
  by (simp add: renders_def)

lemma texts_El [simp]: "texts (El tag as hs kids) = shown_texts kids"
  by (simp add: shown_texts_def)

lemma elements_El [simp]: "elements (El tag as hs kids) = (tag, as) # elements_of kids"
  by (simp add: elements_of_def)

lemma elements_lists [simp]:
  "elements_of [] = []" "elements_of (v # vs) = elements v @ elements_of vs" "elements_of (vs @ ws) = elements_of vs @ elements_of ws"
  by (simp_all add: elements_of_def)

lemma elements_child [simp]: "elements_of (child v) = []"
proof (induction v rule: child.induct)
  case (3 vs)
  then show ?case by (simp add: elements_of_def)
qed simp_all

lemma elements_text_of [simp]: "elements_of (text_of r) = []"
  by (simp add: text_of_def split: sum.splits)

lemma count_tag_lists [simp]:
  "count_tag t [] = 0" "count_tag t (v # vs) = length (filter (\<lambda>e. fst e = t) (elements v)) + count_tag t vs"
  "count_tag t (vs @ ws) = count_tag t vs + count_tag t ws"
  by (simp_all add: count_tag_def)

lemma count_tag_fold [simp]: "length (filter (\<lambda>e. fst e = t) (elements_of vs)) = count_tag t vs"
  by (simp add: count_tag_def)

text \<open>A component that another one embeds: its actions are the embedding page's.\<close>

lemma map_view_reads [simp]:
  "texts (map_view f v) = texts v" "crashes (map_view f v) = crashes v" "elements (map_view f v) = elements v"
proof (induction v)
  case (El tag as hs kids)
  { case 1 show ?case using El(1) by (simp add: shown_texts_def o_def cong: map_cong) }
  { case 2 show ?case using El(2) by (simp add: renders_def list_ex_iff) }
  { case 3 show ?case using El(3) by (simp add: elements_of_def o_def cong: map_cong) }
qed simp_all

declare elements.simps(2) [simp del] crashes.simps(2) [simp del] texts.simps(2) [simp del]

lemma renders_concat [simp]: "renders (concat vss) \<longleftrightarrow> list_all renders vss"
  by (induction vss) simp_all

lemma clicks_lists [simp]:
  "clicks [] = []" "clicks (v # vs) = map (\<lambda>f. f VUndef) (offers ''onClick'' v) @ clicks vs"
  "clicks (vs @ ws) = clicks vs @ clicks ws"
  by (simp_all add: clicks_def)

lemma renders_text_of [simp]: "renders (text_of r) \<longleftrightarrow> \<not> isl r"
  by (simp add: text_of_def split: sum.splits)

lemma on_num_ok [simp]: "isl (on_num m f v) \<longleftrightarrow> (\<forall>n. v \<noteq> VNum n)"
  by (cases v) (simp_all add: on_num_def)

lemma fixed_ok [simp]: "isl (fixed d v) \<longleftrightarrow> (\<forall>n. v \<noteq> VNum n)"
  by (simp add: fixed_def)

lemma sol_text_ok [simp]: "isl (sol_text d v) \<longleftrightarrow> (\<forall>n. v \<noteq> VNum n)"
  by (simp add: sol_text_def)

text \<open>A value that React can show as a child.\<close>

fun showable :: "jsval \<Rightarrow> bool" where
  "showable (VObj ps) = False"
| "showable (VDate t) = False"
| "showable (VArr vs) = list_all showable vs"
| "showable v = True"

lemma renders_child [simp]: "renders (child v) \<longleftrightarrow> showable v"
  by (induction v rule: showable.induct) (auto simp: list_all_iff)

lemma renders_and_view [simp]: "renders (and_view v vs) \<longleftrightarrow> (if truthy v then renders vs else showable v)"
  by (simp add: and_view_def)

lemma count_child [simp]: "count_tag t (child v) = 0"
  by (simp add: count_tag_def del: count_tag_fold)

lemma elements_and_view [simp]: "elements_of (and_view v vs) = (if truthy v then elements_of vs else [])"
  by (simp add: and_view_def)

lemma count_and_view [simp]: "count_tag t (and_view v vs) = (if truthy v then count_tag t vs else 0)"
  by (simp add: and_view_def)

section \<open>What a password field hides\<close>

text \<open>Two pages look the same up to what has been typed into password fields: the same texts, and the same
  elements with the same attributes, except those of such fields.\<close>

definition hides :: "'a view list \<Rightarrow> 'b view list \<Rightarrow> bool" where
  "hides vs ws \<longleftrightarrow> shown_texts vs = shown_texts ws \<and>
     list_all2 (\<lambda>e e'. e = e' \<or> attr ''type'' (snd e) = S ''password'' \<and> attr ''type'' (snd e') = S ''password'' \<and> fst e = fst e')
       (elements_of vs) (elements_of ws)"

lemma hides_refl: "hides vs vs"
  by (simp add: hides_def list_all2_refl)

lemma hides_append: "hides a b \<Longrightarrow> hides c d \<Longrightarrow> hides (a @ c) (b @ d)"
  by (simp add: hides_def list_all2_appendI)

lemma hides_Cons: "hides [v] [w] \<Longrightarrow> hides (v' # vs) (w' # ws) \<Longrightarrow> hides (v # v' # vs) (w # w' # ws)"
  using hides_append [of "[v]" "[w]" "v' # vs" "w' # ws"] by simp

lemma hides_El: "hides ks ks' \<Longrightarrow> hides [El t as hs ks] [El t as hs' ks']"
  by (simp add: hides_def)

lemma hides_field: "hides [El t ((''type'', S ''password'') # as) hs []] [El t ((''type'', S ''password'') # as') hs' []]"
  by (simp add: hides_def attr_def)

lemma hides_if: "(b \<Longrightarrow> hides vs ws) \<Longrightarrow> (\<not> b \<Longrightarrow> hides vs' ws') \<Longrightarrow> hides (if b then vs else vs') (if b then ws else ws')"
  by simp

lemmas hides_intros = hides_refl hides_field hides_El hides_Cons hides_append hides_if

end
