(* ===== verification/TradesPage.thy ===== *)
theory TradesPage
  imports View Trades
begin

text \<open>
  \<open>pages/Trades.tsx\<close>: the manual order form, the strategy filter and the table of trades. The state of the page
  is a record, each handler a step on it; sending the order and its answer are two steps. The list of trades is
  the answer of the client's query, \<open>None\<close> until there is one.
\<close>

section \<open>State and handlers\<close>

record order_form =
  of_tokenMint :: jstr
  of_side :: jstr
  of_amountSol :: jstr
  of_orderType :: jstr
  of_slippageBps :: jsnum

record trades_state =
  ts_strategy :: jstr
  ts_form :: order_form
  ts_showForm :: bool
  ts_formMsg :: "jstr option"
  ts_isPending :: bool \<comment> \<open>\<open>submitOrder.isPending\<close>\<close>

definition empty_form :: order_form where
  "empty_form = \<lparr>of_tokenMint = [], of_side = U ''BUY'', of_amountSol = [], of_orderType = U ''MARKET'',
     of_slippageBps = NumI 100\<rparr>"

definition trades_open :: trades_state where
  "trades_open = \<lparr>ts_strategy = [], ts_form = empty_form, ts_showForm = False, ts_formMsg = None, ts_isPending = False\<rparr>"

text \<open>\<open>parseInt(s)\<close> without a radix: hexadecimal after \<open>0x\<close>.\<close>

definition parse_int :: "jstr \<Rightarrow> jsnum" where
  "parse_int s0 =
     (let s = trim_start s0;
          (neg, r) = (case s of [] \<Rightarrow> (False, []) | c # cs \<Rightarrow> if c = 45 then (True, cs) else if c = 43 then (False, cs) else (False, s))
      in if starts_with r (U ''0x'') \<or> starts_with r (U ''0X'') then
           (let n = radix_num 16 (takeWhile (\<lambda>c. digit_in 16 c \<noteq> None) (drop 2 r)) in if neg then num_neg n else n)
         else parse_int10 s0)"

text \<open>The body of the order, and the state while it is sent.\<close>

definition order_body :: "order_form \<Rightarrow> jsval" where
  "order_body f = obj
     [(''tokenMint'', VStr (of_tokenMint f)), (''side'', VStr (of_side f)), (''amountSol'', VNum (parse_float (of_amountSol f))),
      (''orderType'', VStr (of_orderType f)), (''slippageBps'', VNum (of_slippageBps f)), (''strategyName'', S ''manual'')]"

definition handleSubmit :: "trades_state \<Rightarrow> jsval \<times> trades_state" where
  "handleSubmit p = (order_body (ts_form p), p\<lparr>ts_formMsg := None, ts_isPending := True\<rparr>)"

text \<open>The answer: the keys of the queries that are fetched again, and the new state.\<close>

definition order_failed :: "exn \<Rightarrow> trades_state \<Rightarrow> trades_state" where
  "order_failed e p = p\<lparr>ts_formMsg := Some (U ''Error: '' @ exn_msg (U ''unknown'') e), ts_isPending := False\<rparr>"

definition order_answered :: "exn + jsval \<Rightarrow> trades_state \<Rightarrow> string list list \<times> trades_state" where
  "order_answered result p =
     (case and_then result (\<lambda>r. and_then (read_prop r ''success'') (\<lambda>success. Inr (r, success))) of
        Inl e \<Rightarrow> ([], order_failed e p)
      | Inr (r, success) \<Rightarrow>
          if truthy success then
            ([[''listTrades'']], p\<lparr>ts_formMsg := Some (U ''Order submitted: '' @ to_str (get r ''orderId'')),
               ts_form := empty_form, ts_isPending := False\<rparr>)
          else ([], p\<lparr>ts_formMsg := Some (U ''Error: '' @ to_str (get r ''message'')), ts_isPending := False\<rparr>))"

datatype trades_action =
    ToggleForm | Submit | ChooseStrategy jstr
  | EditMint jstr | EditSide jstr | EditAmount jstr | EditOrderType jstr | EditSlippage jstr

fun trades_act :: "trades_action \<Rightarrow> trades_state \<Rightarrow> jsval option \<times> trades_state" where
  "trades_act ToggleForm p = (None, p\<lparr>ts_showForm := \<not> ts_showForm p\<rparr>)"
| "trades_act Submit p = (let (b, q) = handleSubmit p in (Some b, q))"
| "trades_act (ChooseStrategy s) p = (None, p\<lparr>ts_strategy := s\<rparr>)"
| "trades_act (EditMint s) p = (None, p\<lparr>ts_form := (ts_form p)\<lparr>of_tokenMint := s\<rparr>\<rparr>)"
| "trades_act (EditSide s) p = (None, p\<lparr>ts_form := (ts_form p)\<lparr>of_side := s\<rparr>\<rparr>)"
| "trades_act (EditAmount s) p = (None, p\<lparr>ts_form := (ts_form p)\<lparr>of_amountSol := s\<rparr>\<rparr>)"
| "trades_act (EditOrderType s) p = (None, p\<lparr>ts_form := (ts_form p)\<lparr>of_orderType := s\<rparr>\<rparr>)"
| "trades_act (EditSlippage s) p = (None, p\<lparr>ts_form := (ts_form p)\<lparr>of_slippageBps := parse_int s\<rparr>\<rparr>)"

definition filteredTrades :: "jstr \<Rightarrow> jsval list option \<Rightarrow> jsval list" where
  "filteredTrades strategy trades =
     (let ts = (case trades of Some ts \<Rightarrow> ts | None \<Rightarrow> [])
      in if strategy \<noteq> [] then filter (\<lambda>t. get t ''strategy'' = VStr strategy) ts else ts)"

section \<open>The page\<close>

definition StatusChip :: "jsval \<Rightarrow> 'a view" where
  "StatusChip status = el ''span'' (child status)"

text \<open>The browser's date parser and the time now.\<close>

record clock =
  ck_parse :: "jstr \<Rightarrow> int option"
  ck_now :: int

definition trades_row :: "clock \<Rightarrow> jsval \<Rightarrow> 'a view" where
  "trades_row C t = el ''tr''
     [el ''td'' [el ''span'' (if truthy (get t ''tokenSymbol'') then child (get t ''tokenSymbol'') else text_of (short_addr 4 (get t ''mint'')))],
      el ''td'' [el ''span'' (child (get t ''side''))],
      el ''td'' (text_of (sol_text 4 (get t ''amountSol''))),
      el ''td'' (if \<not> nullish (get t ''pnlSol'')
         then [el ''span'' ((if num_le (Fin 0) (to_num (get t ''pnlSol'')) then [T ''+''] else []) @ text_of (fixed 4 (get t ''pnlSol'')))]
         else [Txt DASH]),
      el ''td'' [el ''span'' (child (get t ''strategy''))],
      el ''td'' [StatusChip (get t ''status'')],
      el ''td'' (if truthy (get t ''signature'')
         then [El ''a'' [(''href'', VStr (U ''https://solscan.io/tx/'' @ to_str (get t ''signature''))), (''target'', S ''_blank''),
                  (''rel'', S ''noopener noreferrer'')] []
                 (text_of (on_str ''slice'' (take 8) (get t ''signature'')) @ [T ''...''])]
         else [Txt DASH]),
      el ''td'' [Txt (age_text (ck_parse C) (ck_now C) (get t ''createdAt''))]]"

definition trades_table :: "clock \<Rightarrow> bool \<Rightarrow> jsval list \<Rightarrow> 'a view" where
  "trades_table C isLoading filtered = el ''div''
     [el ''table''
       [el ''thead'' [el ''tr'' [el ''th'' [T ''Token''], el ''th'' [T ''Side''], el ''th'' [T ''Amount''], el ''th'' [T ''PnL''],
          el ''th'' [T ''Strategy''], el ''th'' [T ''Status''], el ''th'' [T ''Signature''], el ''th'' [T ''Time'']]],
        el ''tbody''
          (if isLoading then [el ''tr'' [El ''td'' [(''colSpan'', VI 8)] [] [T ''Loading...'']]]
           else if filtered \<noteq> [] then map (trades_row C) filtered
           else [el ''tr'' [El ''td'' [(''colSpan'', VI 8)] [] [T ''No trades found'']]])]]"

definition order_form_view :: "trades_state \<Rightarrow> trades_action view" where
  "order_form_view p = (let form = ts_form p in
     El ''form'' [] [(''onSubmit'', \<lambda>_. Submit)]
      [el ''h2'' [T ''Submit Manual Order''],
       el ''div''
         [el ''div'' [el ''label'' [T ''Token Mint Address''],
            El ''input'' [(''type'', S ''text''), (''required'', VBool True),
               (''placeholder'', S ''e.g. 7xKXtg2CW87d97TXJSDpbD5jBkheTqA83TZRuJosgAsU''), (''value'', VStr (of_tokenMint form))]
              [(''onChange'', \<lambda>e. EditMint (event_text e))] []],
          el ''div'' [el ''label'' [T ''Side''],
            El ''select'' [(''value'', VStr (of_side form))] [(''onChange'', \<lambda>e. EditSide (event_text e))]
              [El ''option'' [(''value'', S ''BUY'')] [] [T ''BUY''], El ''option'' [(''value'', S ''SELL'')] [] [T ''SELL'']]],
          el ''div'' [el ''label'' [T ''Amount (SOL)''],
            El ''input'' [(''type'', S ''number''), (''required'', VBool True), (''step'', S ''0.001''), (''min'', S ''0.001''),
               (''placeholder'', S ''0.05''), (''value'', VStr (of_amountSol form))]
              [(''onChange'', \<lambda>e. EditAmount (event_text e))] []],
          el ''div'' [el ''label'' [T ''Order Type''],
            El ''select'' [(''value'', VStr (of_orderType form))] [(''onChange'', \<lambda>e. EditOrderType (event_text e))]
              [El ''option'' [(''value'', S ''MARKET'')] [] [T ''MARKET''], El ''option'' [(''value'', S ''LIMIT'')] [] [T ''LIMIT'']]],
          el ''div'' [el ''label'' [T ''Slippage (bps)''],
            El ''input'' [(''type'', S ''number''), (''min'', S ''1''), (''max'', S ''1000''), (''value'', VNum (of_slippageBps form))]
              [(''onChange'', \<lambda>e. EditSlippage (event_text e))] []]],
       el ''div''
         ([El ''button'' [(''type'', S ''submit''), (''disabled'', VBool (ts_isPending p))] []
             [T (if ts_isPending p then ''Submitting...'' else ''Submit Order'')]]
          @ (case ts_formMsg p of Some m \<Rightarrow> if m \<noteq> [] then [el ''span'' [Txt m]] else [] | None \<Rightarrow> []))])"

definition strategy_filter :: "trades_state \<Rightarrow> jsval list \<Rightarrow> trades_action view" where
  "strategy_filter p filtered = el ''div''
     [El ''select'' [(''value'', VStr (ts_strategy p))] [(''onChange'', \<lambda>e. ChooseStrategy (event_text e))]
        [El ''option'' [(''value'', S '''')] [] [T ''All Strategies''], El ''option'' [(''value'', S ''sniper'')] [] [T ''Sniper''],
         El ''option'' [(''value'', S ''momentum'')] [] [T ''Momentum''], El ''option'' [(''value'', S ''manual'')] [] [T ''Manual'']],
      el ''span'' [count_text filtered, T '' records'']]"

definition trades_page :: "clock \<Rightarrow> trades_state \<Rightarrow> jsval list option \<Rightarrow> bool \<Rightarrow> trades_action view list" where
  "trades_page C p trades isLoading =
     (let filtered = filteredTrades (ts_strategy p) trades in
      [el ''div''
        ([el ''div''
           [el ''div'' [el ''h1'' [T ''Trade History''], el ''p'' [T ''All orders executed by the bot.'']],
            El ''button'' [] [(''onClick'', \<lambda>_. ToggleForm)] [T ''Manual Order'']]]
         @ (if ts_showForm p then [order_form_view p] else [])
         @ [strategy_filter p filtered, trades_table C isLoading filtered])])"

section \<open>The page shows whatever the server sends\<close>

text \<open>A trade as the client reads it from the list the server sends.\<close>

definition trade_wire :: "trade_row \<Rightarrow> jsval" where
  "trade_wire r = wire (trade_json r)"

lemma trade_wire_eq: "trade_wire r = obj
   [(''id'', VStr (tr_id r)), (''walletId'', js_str_opt (tr_walletId r)), (''mint'', VStr (tr_mint r)),
    (''tokenName'', js_str_opt (tr_tokenName r)), (''tokenSymbol'', js_str_opt (tr_tokenSymbol r)),
    (''side'', VStr (tr_side r)), (''amountSol'', wire (VNum (tr_amountSol r))), (''price'', wire (js_num_opt (tr_price r))),
    (''status'', VStr (tr_status r)), (''strategy'', VStr (tr_strategy r)),
    (''signature'', js_str_opt (tr_signature r)), (''pnlSol'', wire (js_num_opt (tr_pnlSol r))),
    (''slippageBps'', wire (js_int_opt (tr_slippageBps r))), (''createdAt'', wire (js_date_opt (tr_createdAt r))),
    (''executedAt'', wire (js_date_opt (tr_executedAt r))), (''clientOrderId'', js_str_opt (tr_clientOrderId r)),
    (''traceId'', js_str_opt (tr_traceId r))]"
  unfolding trade_wire_def trade_json_def wire_obj by (simp add: opt_json)

lemma trade_row_renders: "\<not> crashes (trades_row C (trade_wire r)) \<longleftrightarrow> (\<exists>q. tr_amountSol r = Fin q)"
proof -
  have pnl: "nullish (wire (js_num_opt x)) \<or> (\<exists>n. wire (js_num_opt x) = VNum n)" for x
    by (cases x) (auto simp: js_num_opt_def of_opt_def split: jsnum.splits)
  have sym: "showable (js_str_opt x)" "truthy (js_str_opt x) \<Longrightarrow> \<exists>s. js_str_opt x = VStr s" for x
    by (cases x; simp add: js_str_opt_def of_opt_def)+
  have am: "(\<exists>n. wire (VNum x) = VNum n) \<longleftrightarrow> (\<exists>q. x = Fin q)" for x by (cases x) simp_all
  have str: "isl (on_str m f v) \<longleftrightarrow> (\<forall>s. v \<noteq> VStr s)" for m f v by (cases v) (simp_all add: on_str_def)
  show ?thesis
    using pnl [of "tr_pnlSol r"] sym [of "tr_tokenSymbol r"] sym [of "tr_signature r"] am [of "tr_amountSol r"]
    by (auto simp: trades_row_def trade_wire_eq StatusChip_def short_addr_def str)
qed

lemma filtered_wire:
  "filteredTrades s (Some (map trade_wire rows)) = map trade_wire (filter (\<lambda>r. s = [] \<or> tr_strategy r = s) rows)"
  by (simp add: filteredTrades_def Let_def filter_map o_def trade_wire_eq)

lemma renders_map: "renders (map f xs) \<longleftrightarrow> list_all (\<lambda>x. \<not> crashes (f x)) xs"
  by (simp add: renders_def list_ex_iff list_all_iff)

text \<open>The trades page shows every list of trades the database can hold, and no more is needed of it.
  While the list is loading the page appears; with the list that \<open>GET /bot/trades\<close> answers, whatever columns
  are empty, the page appears exactly when the amount of each trade of the chosen strategy is a number (a \<open>NaN\<close>
  column arrives as \<open>null\<close>, on which \<open>formatSol\<close> throws and React drops the page); it has then one row for each
  of them and says how many there are.\<close>

theorem trades_page_shows:
  "(let chosen = filter (\<lambda>r. ts_strategy p = [] \<or> tr_strategy r = ts_strategy p) rows;
        page = trades_page C p (Some (map trade_wire rows))
    in renders (page True) \<and>
       (renders (page False) \<longleftrightarrow> list_all (\<lambda>r. \<exists>q. tr_amountSol r = Fin q) chosen) \<and>
       count_tag ''tr'' (page False) = 1 + max 1 (length chosen) \<and>
       num_to_string (NumI (int (length chosen))) \<in> set (shown_texts (page False)))"
proof -
  define chosen where "chosen = filter (\<lambda>r. ts_strategy p = [] \<or> tr_strategy r = ts_strategy p) rows"
  have f: "filteredTrades (ts_strategy p) (Some (map trade_wire rows)) = map trade_wire chosen"
    by (simp add: filtered_wire chosen_def)
  have form: "renders [order_form_view p]" "count_tag ''tr'' [order_form_view p] = 0"
    by (simp_all add: order_form_view_def Let_def split: option.split)
  have filt: "renders [strategy_filter p fs]" "count_tag ''tr'' [strategy_filter p fs] = 0" for fs
    by (simp_all add: strategy_filter_def count_text_def)
  have cnt: "num_to_string (NumI (int (length fs))) \<in> set (texts (strategy_filter p fs))" for fs
    by (simp add: strategy_filter_def count_text_def)
  have rows: "renders (map (trades_row C) (map trade_wire chosen)) \<longleftrightarrow> list_all (\<lambda>r. \<exists>q. tr_amountSol r = Fin q) chosen"
    by (simp add: renders_map trade_row_renders)
  have one: "length (filter (\<lambda>e. fst e = ''tr'') (elements (trades_row C t))) = 1" for t
    by (simp add: trades_row_def StatusChip_def)
  have n: "count_tag ''tr'' (map (trades_row C) ts) = length ts" for ts
    by (induction ts) (simp_all add: one)
  have ld: "renders [trades_table C True ts]" for ts by (simp add: trades_table_def)
  have tab: "renders [trades_table C False (map trade_wire chosen)] \<longleftrightarrow> list_all (\<lambda>r. \<exists>q. tr_amountSol r = Fin q) chosen"
    using rows by (cases chosen) (auto simp: trades_table_def)
  have cr: "count_tag ''tr'' [trades_table C False ts] = 1 + max 1 (length ts)" for ts
    using n [of ts] by (cases ts) (auto simp: trades_table_def)
  show ?thesis
    unfolding chosen_def [symmetric] trades_page_def f Let_def
    using form filt [of "map trade_wire chosen"] ld tab cr [of "map trade_wire chosen"] cnt [of "map trade_wire chosen"]
    by (auto simp: o_def)
qed

section \<open>The order form\<close>

text \<open>The form is emptied exactly by an answer that reports success; every answer ends the submission with a message.\<close>

lemma order_answer_outcome:
  "ts_form (snd (order_answered result p)) =
     (case result of Inr r \<Rightarrow> if \<not> nullish r \<and> truthy (get r ''success'') then empty_form else ts_form p | Inl _ \<Rightarrow> ts_form p)"
  "\<not> ts_isPending (snd (order_answered result p))"
  "ts_formMsg (snd (order_answered result p)) \<noteq> None"
  by (auto simp: order_answered_def order_failed_def read_prop_def split: sum.splits)

end
