(* ===== verification/TokensPage.thy ===== *)
theory TokensPage
  imports View Contracts
begin

text \<open>
  \<open>pages/Tokens.tsx\<close>: the table of tracked tokens, as a function of the answer of the client's query (\<open>None\<close>
  until there is one), and the proof that a list of the declared type never makes it throw.
\<close>

definition BondingCurveBar :: "jsval \<Rightarrow> 'a view" where
  "BondingCurveBar progress = el ''div''
     [el ''div'' [el ''div'' []], el ''span'' (text_of (fixed 0 progress) @ [T ''%''])]"

definition ActionBadge :: "jsval \<Rightarrow> 'a view" where
  "ActionBadge action = el ''span'' (if truthy action then child action else [Txt DASH])"

text \<open>The age of a token; the date is absent or a string.\<close>

definition token_age_text :: "(jstr \<Rightarrow> int option) \<Rightarrow> int \<Rightarrow> jsval \<Rightarrow> jstr" where
  "token_age_text parse now v = (if truthy v then token_age parse now (to_str v) else DASH)"

definition price_text :: "jsval \<Rightarrow> exn + jstr" where
  "price_text price =
     (if num_lt (to_num price) (fl (1 / 1000000)) then on_num ''toExponential'' (to_exponential 2) price else fixed 8 price)"

definition token_row :: "(jstr \<Rightarrow> int option) \<Rightarrow> int \<Rightarrow> jsval \<Rightarrow> 'a view" where
  "token_row parse now token = el ''tr''
     [el ''td'' [el ''div''
        [el ''span'' (if nullish (get token ''symbol'') then [Txt DASH] else child (get token ''symbol'')),
         el ''span'' ((if nullish (get token ''mint'') then [] else text_of (on_str ''slice'' (take 8) (get token ''mint'')))
           @ [T ''...''])]],
      el ''td'' [Txt (token_age_text parse now (get token ''detectedAt''))],
      el ''td'' (text_of (price_text (get token ''price''))),
      el ''td'' (text_of (sol_text 1 (get token ''marketCapSol''))),
      el ''td'' (text_of (sol_text 2 (get token ''liquiditySol''))),
      el ''td'' (text_of (sol_text 1 (nvl (get token ''volume24hSol'') (VI 0)))),
      el ''td'' (if nullish (get token ''holderCount'') then [Txt DASH] else child (get token ''holderCount'')),
      el ''td'' (if \<not> nullish (get token ''mlScore'')
         then [el ''span'' [Txt (to_fixed 0 (num_mul (to_num (get token ''mlScore'')) (NumI 100))), T ''%'']]
         else [Txt DASH]),
      el ''td'' [ActionBadge (get token ''actionTaken'')],
      el ''td'' [BondingCurveBar (get token ''bondingCurveProgress'')]]"

definition tokens_page :: "(jstr \<Rightarrow> int option) \<Rightarrow> int \<Rightarrow> jsval list option \<Rightarrow> bool \<Rightarrow> 'a view list" where
  "tokens_page parse now tokens isLoading =
     (let tokenList = (case tokens of Some ts \<Rightarrow> ts | None \<Rightarrow> []) in
      if isLoading then [el ''div'' [T ''Loading tokens...'']]
      else [el ''div''
        [el ''div'' [el ''h1'' [T ''Token Monitor''],
           el ''div'' [el ''span'' [], el ''span'' [count_text tokenList, T '' tracked'']]],
         if tokenList = [] then
           el ''div'' [el ''p'' [T ''No tokens currently tracked.''],
             el ''p'' [T ''Tokens appear here as the bot discovers new launches.'']]
         else
           el ''div'' [el ''table''
             [el ''thead'' [el ''tr'' [el ''th'' [T ''Token''], el ''th'' [T ''Detected''], el ''th'' [T ''Price (SOL)''],
                el ''th'' [T ''Mkt Cap''], el ''th'' [T ''Liquidity''], el ''th'' [T ''24h Vol''], el ''th'' [T ''Holders''],
                el ''th'' [T ''ML''], el ''th'' [T ''Action''], el ''th'' [T ''BC%'']]],
              el ''tbody'' (map (token_row parse now) tokenList)]]]])"

section \<open>Tokens of the declared type are shown\<close>

lemma typed_reads:
  "has_member (Req k TNumber) v \<Longrightarrow> \<exists>n. get v k = VNum n"
  "has_member (Req k TString) v \<Longrightarrow> \<exists>s. get v k = VStr s"
  "has_member (Opt k TNumber) v \<Longrightarrow> get v k = VUndef \<or> (\<exists>n. get v k = VNum n)"
  "has_member (Opt k TString) v \<Longrightarrow> get v k = VUndef \<or> (\<exists>s. get v k = VStr s)"
  by (cases "get v k"; simp add: has_type.simps has_members.simps has_member.simps)+

lemma typed_members: "has_type (TObject ms) v \<Longrightarrow> m \<in> set ms \<Longrightarrow> has_member m v"
proof -
  have "has_members ms v \<Longrightarrow> m \<in> set ms \<Longrightarrow> has_member m v"
    by (induction ms) (auto simp: has_members.simps)
  then show "has_type (TObject ms) v \<Longrightarrow> m \<in> set ms \<Longrightarrow> has_member m v"
    by (auto simp: has_type.simps split: jsval.splits)
qed

lemma isl_on_str [simp]: "isl (on_str m f v) \<longleftrightarrow> (\<forall>s. v \<noteq> VStr s)"
  by (cases v) (simp_all add: on_str_def)

lemma token_row_renders:
  assumes "has_type TokenInfo token"
  shows "\<not> crashes (token_row parse now token)"
proof -
  have m: "has_member x token" if "x \<in> set (members TokenInfo)" for x
    using that assms typed_members [of "members TokenInfo" token x] by (simp only: TokenInfo_def members.simps)
  have nums: "\<exists>n. get token k = VNum n" if "Req k TNumber \<in> set (members TokenInfo)" for k
    by (rule typed_reads(1) [OF m [OF that]])
  have optn: "showable (get token k)" if "Opt k TNumber \<in> set (members TokenInfo)" for k
    using typed_reads(3) [OF m [OF that]] by auto
  have opts: "showable (get token k)" if "Opt k TString \<in> set (members TokenInfo)" for k
    using typed_reads(4) [OF m [OF that]] by auto
  obtain p where p: "get token ''price'' = VNum p" using nums [of "''price''"] by (auto simp: TokenInfo_def)
  obtain c where c: "get token ''marketCapSol'' = VNum c" using nums [of "''marketCapSol''"] by (auto simp: TokenInfo_def)
  obtain l where l: "get token ''liquiditySol'' = VNum l" using nums [of "''liquiditySol''"] by (auto simp: TokenInfo_def)
  obtain b where b: "get token ''bondingCurveProgress'' = VNum b" using nums [of "''bondingCurveProgress''"] by (auto simp: TokenInfo_def)
  obtain a where a: "get token ''mint'' = VStr a" using m [of "Req ''mint'' TString"] typed_reads(2) [of "''mint''" token] by (auto simp: TokenInfo_def)
  have "has_member (Opt ''volume24hSol'' TNumber) token" by (rule m) (simp add: TokenInfo_def)
  from typed_reads(3) [OF this] obtain v where v: "nvl (get token ''volume24hSol'') (VNum (Fin 0)) = VNum v" by auto
  show ?thesis
    using opts [of "''symbol''"] opts [of "''actionTaken''"] optn [of "''holderCount''"]
    by (simp add: TokenInfo_def token_row_def BondingCurveBar_def ActionBadge_def price_text_def p c l b a v)
qed

text \<open>The tokens page shows every list of the declared type. Whatever optional members are missing,
  and for every price, size and date, no expression of the page throws, so React does not drop it, and the
  table has a row for each token.\<close>

theorem tokens_page_renders:
  assumes "list_all (has_type TokenInfo) ts"
  shows "renders (tokens_page parse now (Some ts) isLoading :: 'a view list) \<and>
    count_tag ''tr'' (tokens_page parse now (Some ts) isLoading :: 'a view list) = (if isLoading \<or> ts = [] then 0 else 1 + length ts)"
proof -
  have r: "renders (map (token_row parse now) ts :: 'a view list)" using assms
    by (induction ts) (simp_all add: token_row_renders)
  have one: "length (filter (\<lambda>e. fst e = ''tr'') (elements (token_row parse now t :: 'a view))) = 1" for t
    by (simp add: token_row_def BondingCurveBar_def ActionBadge_def)
  have n: "count_tag ''tr'' (map (token_row parse now) ts :: 'a view list) = length ts" by (induction ts) (simp_all add: one)
  show ?thesis using r n by (simp add: tokens_page_def Let_def count_text_def)
qed

definition demo_token :: jsval where
  "demo_token = obj [(''mint'', S ''So11111111111''), (''price'', VI 0), (''liquiditySol'', VI 0), (''marketCapSol'', VI 0),
     (''bondingCurveProgress'', VI 0)]"

theorem tokens_page_renders_witness:
  "renders (tokens_page (\<lambda>_. None) 0 (Some [demo_token]) False :: unit view list)"
proof -
  have "list_all (has_type TokenInfo) [demo_token]"
    by (simp add: demo_token_def TokenInfo_def has_type.simps has_members.simps has_member.simps S_def obj_def get_def lookup_def)
  from tokens_page_renders [OF this] show ?thesis by blast
qed

end
