(* ===== verification/EnginePanels.thy ===== *)
theory EnginePanels
  imports TradesPage Stream LiveTrades BotRoutes
begin

text \<open>
  The panels of the dashboard that show the engines: \<open>components/MevStatsPanel.tsx\<close>,
  \<open>components/LiveTradesFeed.tsx\<close> and the banner of \<open>components/OfflineBanner.tsx\<close>. The theorems compose them with
  what the server sends: the answer of the statistics route, and the updates that the relay emits and the hook of
  the feed collects.
\<close>

section \<open>Statistics\<close>

text \<open>\<open>v.toLocaleString()\<close>: the browser's text of a value; on \<open>undefined\<close> and \<open>null\<close> it throws.\<close>

definition locale_text :: "(jsval \<Rightarrow> jstr) \<Rightarrow> jsval \<Rightarrow> exn + jstr" where
  "locale_text loc v = (if nullish v then Inl (read_err v ''toLocaleString'') else Inr (loc v))"

definition with_suffix :: "exn + jstr \<Rightarrow> string \<Rightarrow> exn + jstr" where
  "with_suffix r s = and_then r (\<lambda>t. Inr (t @ U s))"

definition fetchMevStats :: "bool \<Rightarrow> exn + jsval \<Rightarrow> exn + jsval" where
  "fetchMevStats res_ok json = (if res_ok then json else Inl (Err (U ''Failed to fetch MEV stats'')))"

text \<open>A value whose expression throws takes the item's place.\<close>

definition StatItem :: "string \<Rightarrow> exn + jstr \<Rightarrow> (exn + jstr) option \<Rightarrow> 'a view" where
  "StatItem label value sub = el ''div'' [el ''div'' [],
     el ''div'' ([el ''div'' [T label], el ''div'' (text_of value)]
       @ (case sub of None \<Rightarrow> [] | Some s \<Rightarrow> if s = Inr [] then [] else [el ''div'' (text_of s)]))]"

definition MevStatsPanel :: "(jsval \<Rightarrow> jstr) \<Rightarrow> jsval \<Rightarrow> bool \<Rightarrow> bool \<Rightarrow> 'a view" where
  "MevStatsPanel loc dat isLoading isError = el ''div''
     ([el ''div'' ([el ''div'' [el ''h2'' [T ''Jito MEV Protection'']]]
         @ (if truthy dat then [el ''span'' [T (if truthy (get dat ''jitoEnabled'') then ''Jito Enabled'' else ''Direct RPC'')]] else []))]
      @ (if isLoading then [el ''div'' (map (\<lambda>i. el ''div'' []) [1 :: nat, 2, 3, 4])] else [])
      @ (if isError \<and> \<not> isLoading then [el ''p'' [Txt (U ''MEV stats unavailable '' @ DASH @ U '' engine offline'')]] else [])
      @ (if truthy dat \<and> \<not> isLoading then
           [el ''div''
             [StatItem ''Bundles Submitted'' (locale_text loc (get dat ''bundlesSubmitted'')) None,
              StatItem ''Bundles Landed'' (locale_text loc (get dat ''bundlesLanded''))
                (Some (with_suffix (fixed 1 (get dat ''landedRate'')) ''% success'')),
              StatItem ''MEV Saved'' (with_suffix (fixed 4 (get dat ''mevSavedSol'')) '' SOL'') None,
              StatItem ''Sandwich Protection'' (Inr (U (if truthy (get dat ''jitoEnabled'') then ''Active'' else ''Inactive''))) None]]
         else []))"

section \<open>The live feed\<close>

definition feed_status_chip :: "jsval \<Rightarrow> 'a view" where
  "feed_status_chip status = el ''span'' (child status)"

definition TradeRow :: "clock \<Rightarrow> jsval \<Rightarrow> 'a view" where
  "TradeRow C trade = el ''tr''
     [el ''td'' [el ''div'' [el ''span'' (child (get trade ''side''))]],
      el ''td'' [el ''div''
        [el ''span'' (if truthy (get trade ''tokenSymbol'') then child (get trade ''tokenSymbol'') else [Txt DASH]),
         el ''span'' (text_of (short_addr 4 (get trade ''mint'')))]],
      el ''td'' (text_of (sol_text 4 (get trade ''amountSol''))),
      el ''td'' [feed_status_chip (get trade ''status'')],
      el ''td'' (if nullish (get trade ''strategy'') then [Txt DASH] else child (get trade ''strategy'')),
      el ''td'' (if \<not> nullish (get trade ''pnlSol'')
         then [el ''span'' ((if num_le (Fin 0) (to_num (get trade ''pnlSol'')) then [T ''+''] else [])
                 @ text_of (fixed 4 (get trade ''pnlSol'')) @ [T '' SOL''])]
         else [Txt DASH]),
      el ''td'' [Txt (age_text (ck_parse C) (ck_now C) (get trade ''createdAt''))]]"

definition LiveTradesFeed :: "clock \<Rightarrow> live_state \<Rightarrow> 'a view" where
  "LiveTradesFeed C s = el ''div''
     [el ''div''
       [el ''h2'' [T ''Live Trade Feed''],
        el ''div''
          ((if lt_connected s then [el ''span'' [], el ''span'' [T ''Live'']]
            else [el ''span'' [T (if (case lt_error s of Some e \<Rightarrow> e \<noteq> [] | None \<Rightarrow> False) then ''Error'' else ''Connecting...'')]])
           @ [el ''span'' [T ''('', count_text (lt_trades s), T '')'']])],
      if lt_trades s = [] then
        el ''div'' [T (if lt_connected s then ''Waiting for trades...'' else ''Connecting to live feed...'')]
      else
        el ''div'' [el ''table''
          [el ''thead'' [el ''tr'' [el ''th'' [T ''Side''], el ''th'' [T ''Token''], el ''th'' [T ''Amount''], el ''th'' [T ''Status''],
             el ''th'' [T ''Strategy''], el ''th'' [T ''PnL''], el ''th'' [T ''Time'']]],
           el ''tbody'' (map (TradeRow C) (lt_trades s))]]]"

section \<open>The banner\<close>

datatype banner_action = Retry | Dismiss

definition banner_view :: "banner \<Rightarrow> banner_action view list" where
  "banner_view s =
     (if \<not> showBanner s then []
      else [el ''div''
        [el ''div'' [el ''span'' [Txt (U ''API server offline '' @ DASH @ U '' live data paused. Reconnecting'' @ [0x2026])]],
         el ''div''
           [El ''button'' [(''aria-label'', S ''Reconnect now'')] [(''onClick'', \<lambda>_. Retry)] [T ''Retry''],
            El ''button'' [(''aria-label'', S ''Dismiss'')] [(''onClick'', \<lambda>_. Dismiss)] [Txt [0x2715]]]]])"

section \<open>What the panels show of what the server sends\<close>

lemma wire_lookup:
  assumes "distinct (map fst ps)"
  shows "get (wire (VObj ps)) k = (if lookup (U k) ps = VUndef then VUndef else wire (lookup (U k) ps))"
  using assms
proof (induction ps)
  case (Cons p ps)
  have "lookup (U k) ps = VUndef" if "fst p = U k"
    using Cons.prems that by (auto simp: lookup_def map_of_eq_None_iff image_iff split: option.splits)
  then show ?case using Cons by (cases p) (auto simp: get_def lookup_def)
qed (simp add: get_def lookup_def)

text \<open>
  An update as the interface \<open>OrderUpdate\<close> declares it, as far as the feed depends on it: the status is a text, the
  mint a text if there is one; every other field, present or not, may hold anything. And what the browser reads of
  the payload that the relay makes of an update.
\<close>

definition order_update :: "jsval \<Rightarrow> bool" where
  "order_update u \<longleftrightarrow>
     (\<exists>s. get u ''status'' = VStr s) \<and> (nullish (get u ''token_mint'') \<or> (\<exists>s. get u ''token_mint'' = VStr s))"

definition relayed :: "jsval \<Rightarrow> bool" where
  "relayed v \<longleftrightarrow> (\<exists>u now rows. order_update u \<and> v = wire (enrichUpdate u now rows))"

definition relayed_only :: "live_event list \<Rightarrow> bool" where
  "relayed_only es \<longleftrightarrow> list_all (\<lambda>e. case e of
     Message i dat now \<Rightarrow> (case update_of dat of Some u \<Rightarrow> relayed u | None \<Rightarrow> True) | _ \<Rightarrow> True) es"

lemma enrich_distinct: "\<exists>ps. enrichUpdate u now rows = VObj ps \<and> distinct (map fst ps)"
  by (auto simp: enrichUpdate_def enrich_row_def base_payload_def Let_def split: sum.split list.split)

lemma lookup_put: "lookup k (put k' v ps) = (if k = k' then v else lookup k ps)"
  by (simp add: lookup_def)

lemma base_lookup:
  "lookup (U ''mint'') (base_payload u now) = nvl (get u ''token_mint'') (S '''')"
  "lookup (U ''status'') (base_payload u now) = get u ''status''"
  "lookup (U ''side'') (base_payload u now) = VUndef" "lookup (U ''tokenSymbol'') (base_payload u now) = VUndef"
  "lookup (U ''strategy'') (base_payload u now) = VUndef" "lookup (U ''pnlSol'') (base_payload u now) = VUndef"
  "lookup (U ''amountSol'') (base_payload u now) \<in> {VUndef} \<union> range VNum"
  by (simp_all add: base_payload_def lookup_def)

lemma enrich_lookup:
  "get (enrichUpdate u now rows) ''mint'' = nvl (get u ''token_mint'') (S '''')"
  "get (enrichUpdate u now rows) ''status'' = get u ''status''"
  "get (enrichUpdate u now rows) ''side'' \<in> {VUndef} \<union> range VStr"
  "get (enrichUpdate u now rows) ''tokenSymbol'' \<in> {VUndef} \<union> range VStr"
  "get (enrichUpdate u now rows) ''strategy'' \<in> {VUndef} \<union> range VStr"
  "get (enrichUpdate u now rows) ''pnlSol'' \<in> {VUndef, VNull} \<union> range VNum"
  "get (enrichUpdate u now rows) ''amountSol'' \<in> {VUndef} \<union> range VNum"
proof -
  have g: "get (VObj ps) k = lookup (U k) ps" for ps k by (simp add: get_def)
  have opt: "undef_opt x \<in> {VUndef} \<union> range VStr" "js_num_opt y \<in> {VUndef, VNull} \<union> range VNum" for x y
    by (cases x; cases y; simp add: undef_opt_def js_num_opt_def of_opt_def)+
  consider "enrichUpdate u now rows = VObj (base_payload u now)"
    | row where "enrichUpdate u now rows = VObj (enrich_row row (base_payload u now))"
    by (cases rows; cases "projr rows") (auto simp: enrichUpdate_def)
  note c = this
  have "lookup (U k) (enrich_row row ps) = lookup (U k) ps" if "k \<in> {''mint'', ''status''}" for k row ps
    using that by (auto simp: enrich_row_def Let_def lookup_put)
  then show "get (enrichUpdate u now rows) ''mint'' = nvl (get u ''token_mint'') (S '''')"
    "get (enrichUpdate u now rows) ''status'' = get u ''status''"
    by (cases rule: c; simp add: g base_lookup)+
  have "lookup (U k) (enrich_row row ps) \<in> {VUndef} \<union> range VStr" if "k \<in> {''side'', ''tokenSymbol'', ''strategy''}" for k row ps
    using that opt(1) by (auto simp: enrich_row_def Let_def lookup_put)
  then show "get (enrichUpdate u now rows) ''side'' \<in> {VUndef} \<union> range VStr"
    "get (enrichUpdate u now rows) ''tokenSymbol'' \<in> {VUndef} \<union> range VStr"
    "get (enrichUpdate u now rows) ''strategy'' \<in> {VUndef} \<union> range VStr"
    by (cases rule: c; simp add: g base_lookup)+
  have "lookup (U ''pnlSol'') (enrich_row row ps) \<in> {VUndef, VNull} \<union> range VNum" for row ps
    using opt(2) by (simp add: enrich_row_def Let_def lookup_put)
  then show "get (enrichUpdate u now rows) ''pnlSol'' \<in> {VUndef, VNull} \<union> range VNum"
    by (cases rule: c) (simp_all add: g base_lookup)
  have "lookup (U ''amountSol'') (enrich_row row (base_payload u now)) \<in> {VUndef} \<union> range VNum" for row
    using base_lookup(7) [of u now] by (auto simp: enrich_row_def Let_def lookup_put)
  then show "get (enrichUpdate u now rows) ''amountSol'' \<in> {VUndef} \<union> range VNum"
    using base_lookup(7) [of u now] by (cases rule: c) (auto simp: g)
qed

lemma relayed_row_renders:
  assumes "relayed u"
  shows "\<not> crashes (TradeRow C (live_trade u now))"
proof -
  obtain v n rows where v: "order_update v" and u: "u = wire (enrichUpdate v n rows)"
    using assms by (auto simp: relayed_def)
  define e where "e = enrichUpdate v n rows"
  obtain ps where ps: "e = VObj ps" "distinct (map fst ps)" using enrich_distinct e_def by metis
  have g: "get u k = (if get e k = VUndef then VUndef else wire (get e k))" for k
    using wire_lookup [OF ps(2), of k] by (simp add: u e_def [symmetric] ps(1) get_def [of "VObj _"])
  note l = enrich_lookup [of v n rows, folded e_def]
  have mint: "\<exists>s. nvl (get u ''mint'') (S '''') = VStr s" using g [of "''mint''"] l(1) v
    by (auto simp: order_update_def S_def)
  have status: "\<exists>s. get u ''status'' = VStr s" using g [of "''status''"] l(2) v by (auto simp: order_update_def)
  have str: "get u k \<in> {VUndef} \<union> range VStr" if "get e k \<in> {VUndef} \<union> range VStr" for k
    using g [of k] that by auto
  have num: "get u k \<in> {VUndef, VNull} \<union> range VNum" if "get e k \<in> {VUndef, VNull} \<union> range VNum" for k
    using g [of k] that by (auto split: jsnum.split)
  have amount: "\<exists>x. nvl (get u ''amountSol'') (VI 0) = VNum x"
    using num [of "''amountSol''"] l(7) by auto
  have side: "showable (nvl (get u ''side'') (S ''BUY''))" using str [OF l(3)] by (auto simp: S_def)
  have sym: "showable (get u ''tokenSymbol'')" "showable (get u ''strategy'')" using str [OF l(4)] str [OF l(5)] by auto
  have pnl: "nullish (get u ''pnlSol'') \<or> (\<exists>x. get u ''pnlSol'' = VNum x)" using num [OF l(6)] by auto
  have isl: "isl (on_str m f v) \<longleftrightarrow> (\<forall>s. v \<noteq> VStr s)" for m f v by (cases v) (simp_all add: on_str_def)
  show ?thesis
    using mint status amount side sym pnl
    by (auto simp: TradeRow_def live_trade_def feed_status_chip_def short_addr_def isl)
qed

lemma set_trades_all: "list_all P ts \<Longrightarrow> P t \<Longrightarrow> list_all P (set_trades t ts)"
proof -
  assume a: "list_all P ts" "P t"
  then have "list_all P (take n (t # ts))" for n
    using set_take_subset [of n "t # ts"] by (auto simp: list_all_iff)
  moreover have "list_all P (ts[i := t])" for i
    using a set_update_subset_insert [of ts i t] by (auto simp: list_all_iff)
  ultimately show ?thesis by (simp add: set_trades_def split: option.split)
qed

lemma live_step_rows:
  assumes "relayed_only [e]" and "list_all (\<lambda>t. \<not> crashes (TradeRow C t :: 'a view)) (lt_trades s)"
  shows "list_all (\<lambda>t. \<not> crashes (TradeRow C t :: 'a view)) (lt_trades (live_step e s))"
proof (cases e)
  case (Message i dat now)
  then show ?thesis using assms
    by (auto simp: relayed_only_def live_message_def intro!: set_trades_all relayed_row_renders split: option.split)
qed (use assms in \<open>auto simp: live_defs Let_def split: option.split\<close>)

text \<open>C31: the live feed shows every update the server relays. However the socket opens, fails and
  reconnects, as long as the messages with an update are payloads that the relay made of the engine's updates
  (any status, any mint or none, with or without signature, error, and executed time, price and amount, whatever
  these hold, and whatever the lookup of the order found or failed with, including \<open>NaN\<close> amounts), no expression of
  the feed throws, and it has a row for each listed trade.\<close>

theorem live_feed_shows:
  assumes "relayed_only es"
  shows "(let s = live_run refused es in
    renders [LiveTradesFeed C s :: 'a view] \<and>
    count_tag ''tr'' [LiveTradesFeed C s :: 'a view] = (if lt_trades s = [] then 0 else 1 + length (lt_trades s)))"
proof -
  have "list_all (\<lambda>t. \<not> crashes (TradeRow C t :: 'a view)) (lt_trades (fold live_step es s))"
    if "list_all (\<lambda>t. \<not> crashes (TradeRow C t :: 'a view)) (lt_trades s)" for s
    using assms that
  proof (induction es arbitrary: s)
    case (Cons e es)
    have "list_all (\<lambda>t. \<not> crashes (TradeRow C t :: 'a view)) (lt_trades (live_step e s))"
      using Cons.prems by (intro live_step_rows) (simp_all add: relayed_only_def)
    then show ?case using Cons by (simp add: relayed_only_def)
  qed simp
  moreover have "lt_trades (live_connect refused live_init) = []" by (simp add: live_defs split: option.split)
  ultimately have r: "list_all (\<lambda>t. \<not> crashes (TradeRow C t :: 'a view)) (lt_trades (live_run refused es))"
    by (simp add: live_run_def)
  have one: "length (filter (\<lambda>e. fst e = ''tr'') (elements (TradeRow C t :: 'a view))) = 1" for t
    by (simp add: TradeRow_def feed_status_chip_def)
  have n: "count_tag ''tr'' (map (TradeRow C) ts :: 'a view list) = length ts" for ts by (induction ts) (simp_all add: one)
  show ?thesis using r n by (simp add: Let_def LiveTradesFeed_def count_text_def renders_map)
qed

text \<open>A payload as it travels: printed by the server, read by the hook.\<close>

definition demo_update :: jsval where
  "demo_update = obj
     [(''order_id'', S ''o1''), (''status'', S ''Executed''), (''signature'', S ''5sig''), (''executed_at'', S ''t0''),
      (''executed_price'', VI 2), (''executed_amount'', VI 1000000000), (''token_mint'', S ''So11111111111'')]"

definition demo_payload :: jsval where
  "demo_payload = enrichUpdate demo_update (U ''now'') (Inl NotError)"

lemma demo_message: "update_of (json_text_of demo_payload) = Some (wire demo_payload)"
proof -
  have f: "fl 1 = Fin 1" using fl_int [of 1] by simp
  have d: "demo_payload = VObj [(U ''id'', S ''o1''), (U ''mint'', S ''So11111111111''), (U ''status'', S ''Executed''),
     (U ''signature'', S ''5sig''), (U ''executedAt'', S ''t0''), (U ''price'', VI 2), (U ''amountSol'', VNum (Fin 1)),
     (U ''createdAt'', S ''now'')]"
    using f by (simp add: demo_payload_def demo_update_def enrichUpdate_def base_payload_def S_def)
  have "json_ok demo_payload" using printable_int [of 1] printable_int [of 2] by (simp add: d S_def)
  then have "json_parse (json_text_of demo_payload) = Some (wire demo_payload)" by (rule parse_stringify) (simp add: d)
  moreover have "get (wire demo_payload) ''id'' = S ''o1''" by (simp add: d get_def lookup_def S_def)
  moreover have "\<not> nullish (wire demo_payload)" by (simp add: d)
  ultimately show ?thesis by (simp add: update_of_def)
qed

theorem live_feed_shows_witness:
  "let s = live_run None [Opened 0, Message 0 (json_text_of demo_payload) (U ''t''), SockClosed 0] in
   length (lt_trades s) = 1 \<and> renders [LiveTradesFeed \<lparr>ck_parse = (\<lambda>_. None), ck_now = 0\<rparr> s :: unit view]"
proof -
  let ?es = "[Opened 0, Message 0 (json_text_of demo_payload) (U ''t''), SockClosed 0]"
  have "order_update demo_update" by (simp add: order_update_def demo_update_def S_def)
  then have "relayed (wire demo_payload)" unfolding relayed_def demo_payload_def by blast
  then have "relayed_only ?es" by (simp add: relayed_only_def demo_message)
  from live_feed_shows [where 'a = unit, OF this, of None "\<lparr>ck_parse = (\<lambda>_. None), ck_now = 0\<rparr>"] have "renders [LiveTradesFeed \<lparr>ck_parse = (\<lambda>_. None), ck_now = 0\<rparr> (live_run None ?es) :: unit view]" by (simp only: Let_def)
  moreover have "length (lt_trades (live_run None ?es)) = 1"
    by (simp add: live_run_def live_defs alive_def demo_message set_trades_def MAX_LIVE_TRADES_def)
  ultimately show ?thesis by (simp only: Let_def)
qed

lemma mev_get:
  "get (wire (mev_from_metrics j m)) k = (if get (mev_from_metrics j m) k = VUndef then VUndef else wire (get (mev_from_metrics j m) k))"
proof -
  obtain a b c d e where m: "mev_from_metrics j m = obj [(''bundlesSubmitted'', a), (''bundlesLanded'', b), (''landedRate'', c),
      (''mevSavedSol'', d), (''jitoEnabled'', e)]" by (auto simp: mev_from_metrics_def Let_def)
  have "get (wire (VObj ps)) k = (if get (VObj ps) k = VUndef then VUndef else wire (get (VObj ps) k))"
    if "distinct (map fst ps)" for ps using wire_lookup [OF that, of k] by (simp add: get_def [of "VObj ps"])
  from this [of "map (\<lambda>(k, v). (U k, v)) [(''bundlesSubmitted'', a), (''bundlesLanded'', b), (''landedRate'', c),
      (''mevSavedSol'', d), (''jitoEnabled'', e)]"] show ?thesis unfolding m obj_def by simp
qed

text \<open>When the statistics panel shows. Given what \<open>GET /bot/mev-stats\<close> makes of the Python engine's
  metrics, the panel renders while loading, and afterwards exactly when the four numbers are finite: one metric
  that is not a number arrives as \<open>null\<close>, on which the panel's formatting throws.\<close>

theorem mev_panel_shows:
  "renders [MevStatsPanel loc (wire (mev_from_metrics jito m)) isLoading isError :: 'a view] \<longleftrightarrow>
   isLoading \<or> list_all (\<lambda>k. \<exists>q. get (mev_from_metrics jito m) k = VNum (Fin q))
     [''bundlesSubmitted'', ''bundlesLanded'', ''landedRate'', ''mevSavedSol'']"
proof -
  let ?m = "mev_from_metrics jito m"
  have tr: "truthy (wire ?m)" by (simp add: mev_from_metrics_def obj_def Let_def)
  have n: "\<exists>n. get ?m k = VNum n" if "k \<in> {''bundlesSubmitted'', ''bundlesLanded'', ''landedRate'', ''mevSavedSol''}" for k
    using that by (auto simp: mev_from_metrics_def Let_def)
  have w: "nullish (get (wire ?m) k) \<longleftrightarrow> (\<forall>q. get ?m k \<noteq> VNum (Fin q))"
      "(\<exists>n. get (wire ?m) k = VNum n) \<longleftrightarrow> (\<exists>q. get ?m k = VNum (Fin q))"
    if k: "k \<in> {''bundlesSubmitted'', ''bundlesLanded'', ''landedRate'', ''mevSavedSol''}" for k
  proof -
    obtain x where x: "get ?m k = VNum x" using n [OF k] by blast
    have "get (wire ?m) k = wire (VNum x)" by (subst mev_get) (simp add: x)
    then show "nullish (get (wire ?m) k) \<longleftrightarrow> (\<forall>q. get ?m k \<noteq> VNum (Fin q))"
      "(\<exists>n. get (wire ?m) k = VNum n) \<longleftrightarrow> (\<exists>q. get ?m k = VNum (Fin q))"
      unfolding x by (cases x; simp)+
  qed
  have sfx: "isl (with_suffix r s) \<longleftrightarrow> isl r" for r s by (cases r) (simp_all add: with_suffix_def)
  have loc: "isl (locale_text loc v) \<longleftrightarrow> nullish v" for v by (simp add: locale_text_def)
  have item: "\<not> crashes (StatItem l v s :: 'a view) \<longleftrightarrow> \<not> isl v \<and> (case s of Some x \<Rightarrow> \<not> isl x | None \<Rightarrow> True)" for l v s
    by (auto simp: StatItem_def split: option.split)
  have "renders [MevStatsPanel loc (wire ?m) isLoading isError :: 'a view] \<longleftrightarrow>
     isLoading \<or> (\<not> nullish (get (wire ?m) ''bundlesSubmitted'') \<and> \<not> nullish (get (wire ?m) ''bundlesLanded'')
       \<and> (\<exists>n. get (wire ?m) ''landedRate'' = VNum n) \<and> (\<exists>n. get (wire ?m) ''mevSavedSol'' = VNum n))"
    by (simp add: MevStatsPanel_def tr item sfx loc o_def renders_map)
  then show ?thesis by (simp add: w)
qed

end
