(* ===== verification/DashboardPage.thy ===== *)
theory DashboardPage
  imports EnginePanels Charts TokensPage
begin

text \<open>
  \<open>pages/Dashboard.tsx\<close>: the status bar with the button that starts and stops the bot, the portfolio, the profit
  chart (whose points are computed in \<open>Charts\<close>), the engine's and the strategies' metrics, and the two panels of
  \<open>EnginePanels\<close>. The answers of the queries are \<open>undefined\<close> until there are any. The theorems follow a press of
  the button through the server to the notification, and show that answers of the declared types are displayed.
\<close>

section \<open>The answers\<close>

text \<open>\<open>o?.k ?? d\<close>\<close>

definition opt_get :: "jsval \<Rightarrow> string \<Rightarrow> jsval \<Rightarrow> jsval" where
  "opt_get v k d = nvl (get v k) d"

definition fetch_py_metrics :: "bool \<Rightarrow> exn + jsval \<Rightarrow> exn + jsval" where
  "fetch_py_metrics res_ok json = (if res_ok then json else Inr (obj []))"

definition isRunning :: "jsval \<Rightarrow> bool" where
  "isRunning status = truthy (opt_get status ''running'' (VBool False))"

definition engineOffline :: "jsval \<Rightarrow> bool" where
  "engineOffline status \<longleftrightarrow> \<not> isRunning status \<and> \<not> truthy (opt_get status ''pythonEngineRunning'' (VBool False))"

section \<open>Starting and stopping the bot\<close>

datatype bot_action = Start | Stop

record notice =
  nt_title :: jstr
  nt_description :: jstr
  nt_destructive :: bool
  nt_invalidates :: "string list" \<comment> \<open>the first parts of the query keys that are fetched again\<close>

text \<open>The path of the request and what the mutation makes of the answer of \<open>fetch\<close>.\<close>

fun bot_path :: "bot_action \<Rightarrow> jstr" where
  "bot_path Start = U ''/api/bot/start''"
| "bot_path Stop = U ''/api/bot/stop''"

definition botControl :: "bot_action \<Rightarrow> exn + (bool \<times> (exn + jsval)) \<Rightarrow> exn + jsval" where
  "botControl a res = and_then res (\<lambda>(ok, json). if \<not> ok
     then Inl (Err (U (case a of Start \<Rightarrow> ''Failed to start bot'' | Stop \<Rightarrow> ''Failed to stop bot''))) else json)"

text \<open>\<open>onSuccess\<close> and \<open>onError\<close> of the two mutations; React Query gives what an \<open>onSuccess\<close> throws to \<open>onError\<close>.\<close>

definition control_notice :: "bot_action \<Rightarrow> exn + jsval \<Rightarrow> notice" where
  "control_notice a r =
     (case and_then r (\<lambda>dat. and_then (read_prop dat ''success'') (\<lambda>success. Inr (dat, success))) of
        Inr (dat, success) \<Rightarrow>
          if truthy success then
            \<lparr>nt_title = U (case a of Start \<Rightarrow> ''Bot started'' | Stop \<Rightarrow> ''Bot stopped''), nt_description = to_str (get dat ''message''),
             nt_destructive = False, nt_invalidates = [''/api/bot/status'']\<rparr>
          else
            \<lparr>nt_title = U (case a of Start \<Rightarrow> ''Could not start bot'' | Stop \<Rightarrow> ''Could not stop bot''),
             nt_description = to_str (get dat ''message''), nt_destructive = True, nt_invalidates = []\<rparr>
      | Inl e \<Rightarrow>
            \<lparr>nt_title = U (case a of Start \<Rightarrow> ''Start failed'' | Stop \<Rightarrow> ''Stop failed''), nt_description = exn_msg [] e,
             nt_destructive = True, nt_invalidates = []\<rparr>)"

section \<open>The view\<close>

datatype dash_action = ToggleBot bot_action | ChartWindow string

definition MetricCard :: "string \<Rightarrow> exn + jstr \<Rightarrow> jstr option \<Rightarrow> 'a view" where
  "MetricCard label value sub = el ''div''
     ([el ''div'' [el ''span'' [T label]], el ''div'' [el ''span'' (text_of value)]]
      @ (case sub of Some s \<Rightarrow> if s \<noteq> [] then [el ''span'' [Txt s]] else [] | None \<Rightarrow> []))"

text \<open>The badge says by its colour alone whether the part is connected; the colour is its \<open>tone\<close> here.\<close>

definition dash_badge :: "bool \<Rightarrow> string \<Rightarrow> 'a view" where
  "dash_badge isOn label = el ''div''
     [El ''span'' [(''tone'', S (if isOn then ''green'' else ''red''))] [] [], el ''span'' [T label]]"

definition status_bar :: "jsval \<Rightarrow> 'a view" where
  "status_bar status = el ''div''
     ((if engineOffline status then [el ''div'' [el ''span'' [], el ''span'' [T ''Engine offline'']]]
       else [dash_badge (isRunning status) ''Bot Running''])
      @ [dash_badge (truthy (opt_get status ''rustEngineConnected'' (VBool False))) ''Rust Engine'',
         dash_badge (truthy (opt_get status ''pythonEngineRunning'' (VBool False))) ''Python ML'']
      @ (if truthy (get status ''walletAddress'')
         then [el ''div'' [el ''span'' (text_of (short_addr 4 (get status ''walletAddress'')))]] else [])
      @ (if truthy (get status ''environment'') then [el ''div'' [el ''span'' (child (get status ''environment''))]] else [])
      @ (case opt_get status ''activeStrategies'' (VArr []) of
           VArr ss \<Rightarrow> if ss \<noteq> [] then [el ''div'' (el ''span'' [T ''Active:''] # map (\<lambda>s. el ''span'' (child s)) ss)] else []
         | VStr s \<Rightarrow> if s \<noteq> [] then [Throw (TypeErr (U ''activeStrategies.map is not a function''))] else []
         | _ \<Rightarrow> []))"

definition control_button :: "jsval \<Rightarrow> bool \<Rightarrow> dash_action view" where
  "control_button status ctrlPending =
     El ''button'' [(''disabled'', VBool ctrlPending)]
       [(''onClick'', \<lambda>_. ToggleBot (if isRunning status then Stop else Start))]
       [T (if isRunning status then ''Stop Bot'' else ''Start Bot'')]"

definition pnl_text :: "jsval \<Rightarrow> exn + jstr" where
  "pnl_text v = on_num ''toFixed'' formatPnl v"

definition portfolio_cards :: "jsval \<Rightarrow> 'a view" where
  "portfolio_cards portfolio =
     (let pnl = opt_get portfolio ''dailyPnlSol'' (VI 0); totalPnl = opt_get portfolio ''totalPnlSol'' (VI 0) in
      el ''div''
       [MetricCard ''Total Value'' (sol_text 4 (opt_get portfolio ''totalValueSol'' (VI 0))) None,
        MetricCard ''Cash Balance'' (sol_text 4 (opt_get portfolio ''cashBalanceSol'' (VI 0))) None,
        MetricCard ''Positions'' (sol_text 4 (opt_get portfolio ''positionsValueSol'' (VI 0))) None,
        MetricCard ''Daily PnL'' (pnl_text pnl)
          (Some (if num_le (Fin 0) (to_num pnl) then U ''Profitable today'' else U ''Today'' @ [39] @ U ''s loss'')),
        MetricCard ''Total PnL'' (pnl_text totalPnl) None,
        MetricCard ''Win Rate'' (on_num ''toFixed'' (\<lambda>n. formatPercent n 1) (opt_get portfolio ''winRate'' (VI 0)))
          (Some (to_str (opt_get portfolio ''openPositionsCount'' (VI 0)) @ U '' open''))])"

text \<open>The points of the chart as \<open>AreaChart\<close> gets them, and the texts of its axis and tooltip.\<close>

definition chart_points :: "dates \<Rightarrow> int \<Rightarrow> string \<Rightarrow> chart_trade list \<Rightarrow> jsval" where
  "chart_points D now window trades =
     VArr (map (\<lambda>(t, c). obj [(''time'', VStr t), (''pnl'', VNum c)])
       (if window = ''24h'' then chart_24h D now trades else chart_7d D now trades))"

definition tick_text :: "jsnum \<Rightarrow> jstr" where
  "tick_text v = to_fixed 2 v"

definition tooltip_text :: "jsnum \<Rightarrow> jstr \<times> jstr" where
  "tooltip_text v = (to_fixed 4 v @ U '' SOL'', U ''PnL'')"

definition chart_card :: "jsval \<Rightarrow> jsval \<Rightarrow> dash_action view" where
  "chart_card pnl points = el ''div''
     [el ''div''
       [el ''h2'' [T ''Cumulative PnL''],
        el ''div''
         [el ''div'' (map (\<lambda>w. El ''button'' [] [(''onClick'', \<lambda>_. ChartWindow w)] [T w]) [''24h'', ''7d'']),
          el ''span'' (text_of (pnl_text pnl) @ [T '' today''])]],
      El ''ResponsiveContainer'' [] []
       [El ''AreaChart'' [(''data'', points)] []
         [El ''XAxis'' [(''dataKey'', S ''time'')] [] [], el ''YAxis'' [], el ''Tooltip'' [],
          El ''Area'' [(''dataKey'', S ''pnl'')] [] []]]]"

definition engine_metrics :: "jsval \<Rightarrow> 'a view" where
  "engine_metrics metrics =
     (let row = (\<lambda>label value. el ''div'' [el ''span'' [T label], el ''span'' value]) in
      el ''div''
       [el ''h2'' [T ''Engine Metrics''],
        row ''Orders Executed'' (child (opt_get metrics ''ordersExecuted'' (VI 0))),
        row ''Orders Failed'' (child (opt_get metrics ''ordersFailed'' (VI 0))),
        row ''Jito Bundles'' (child (opt_get metrics ''jitoLanded'' (VI 0))),
        row ''Sandwiches Blocked'' (child (opt_get metrics ''sandwichAttacks'' (VI 0))),
        row ''Tokens Sniped'' (child (opt_get metrics ''tokensSniped'' (VI 0))),
        row ''Avg Exec (ms)'' (text_of (fixed 0 (opt_get metrics ''avgExecutionMs'' (VI 0))))])"

definition advanced_metrics :: "jsval \<Rightarrow> 'a view list" where
  "advanced_metrics pyMetrics =
     (let num = (\<lambda>k d. to_fixed d (to_num (opt_get pyMetrics k (VI 0))));
          card = (\<lambda>label value note. el ''div'' [el ''div'' [el ''span'' [T label]], el ''span'' value, el ''div'' [Txt note]])
      in if truthy pyMetrics then
        [el ''div''
          [card ''Sharpe Ratio'' [Txt (num ''sharpe_ratio'' 2)] (U ''annualised''),
           card ''Max Drawdown'' [Txt (num ''max_drawdown_pct'' 2), T ''%''] (U ''peak-to-trough''),
           card ''Volatility'' [Txt (num ''volatility'' 4), T '' SOL''] (U ''per trade '' @ [0x3C3]),
           card ''Circuit Breaker'' [Txt (to_str (opt_get pyMetrics ''circuit_breaker_state'' (S ''CLOSED'')))] (U ''order submission'')]]
      else [])"

definition dashboard_page ::
  "jsval \<Rightarrow> jsval \<Rightarrow> jsval \<Rightarrow> jsval \<Rightarrow> jsval \<Rightarrow> bool \<Rightarrow> dash_action view \<Rightarrow> dash_action view \<Rightarrow> dash_action view list" where
  "dashboard_page portfolio status metrics pyMetrics points ctrlPending mev feed =
     [el ''div''
       ([el ''div'' [status_bar status, control_button status ctrlPending],
         portfolio_cards portfolio,
         el ''div'' [chart_card (opt_get portfolio ''dailyPnlSol'' (VI 0)) points, engine_metrics metrics]]
        @ advanced_metrics pyMetrics
        @ [el ''div'' [el ''div'' [mev], el ''div'' [feed]]])]"

section \<open>Properties\<close>

definition control_route :: "bot_action \<Rightarrow> engines \<Rightarrow> response io" where
  "control_route a w = (case a of Start \<Rightarrow> start_bot w | Stop \<Rightarrow> stop_bot w)"

text \<open>At least one strategy acknowledged the change.\<close>

definition acknowledged :: "bot_action \<Rightarrow> engines \<Rightarrow> event list \<Rightarrow> bool" where
  "acknowledged a w h = (case answer (setAllStrategies w (a = Start)) h of Inr k \<Rightarrow> 0 < k | Inl _ \<Rightarrow> False)"

definition fetched :: "response \<Rightarrow> exn + (bool \<times> (exn + jsval))" where
  "fetched r = Inr (200 \<le> r_status r \<and> r_status r < 300, Inr (wire (r_body r)))"

lemma control_answer:
  "\<exists>m. answer (control_route a w) h = ok (obj [(''success'', VBool (acknowledged a w h)), (''message'', VStr m)])"
proof (cases "answer (setAllStrategies w (a = Start)) h")
  case (Inl e)
  then show ?thesis
    by (cases a) (auto simp: control_route_def start_bot_def stop_bot_def answer_bind acknowledged_def S_def)
next
  case (Inr k)
  then show ?thesis
    by (cases a) (auto simp: control_route_def start_bot_def stop_bot_def answer_bind acknowledged_def control_reply_def)
qed

text \<open>The start and stop button says truly what happened. It offers to stop the bot when the status is
  running and to start it otherwise, and nothing while a request is under way; a press that reaches the server is
  reported as done, and the status is fetched again, exactly when at least one strategy acknowledged the
  change, and as failed, in red, otherwise.\<close>

theorem bot_control_told:
  "clicks [control_button status pending] = (if pending then [] else [ToggleBot (if isRunning status then Stop else Start)]) \<and>
   (let n = control_notice a (botControl a (fetched (answer (control_route a w) h)))
    in nt_destructive n = (\<not> acknowledged a w h) \<and>
        nt_invalidates n = (if acknowledged a w h then [''/api/bot/status''] else []) \<and>
        nt_title n = U (case a of Start \<Rightarrow> if acknowledged a w h then ''Bot started'' else ''Could not start bot''
                              | Stop \<Rightarrow> if acknowledged a w h then ''Bot stopped'' else ''Could not stop bot''))"
proof -
  obtain m where "answer (control_route a w) h = ok (obj [(''success'', VBool (acknowledged a w h)), (''message'', VStr m)])"
    using control_answer by blast
  then have "botControl a (fetched (answer (control_route a w) h)) = Inr (obj [(''success'', VBool (acknowledged a w h)), (''message'', VStr m)])"
    by (simp add: botControl_def fetched_def wire_obj)
  then show ?thesis by (simp add: control_notice_def control_button_def attr_def read_prop_def split: bot_action.split)
qed

lemma opt_num:
  assumes "v = VUndef \<or> has_type t v" and "t = TObject (members t)"
    and "Req k TNumber \<in> set (members t) \<or> Opt k TNumber \<in> set (members t)"
  shows "\<exists>n. opt_get v k (VNum (Fin 0)) = VNum n"
proof (cases "v = VUndef")
  case False
  then have "has_type (TObject (members t)) v" using assms(1,2) by metis
  then have "has_member (Req k TNumber) v \<or> has_member (Opt k TNumber) v" using assms(3) typed_members by blast
  then show ?thesis using typed_reads(1,3) [of k v] by (auto simp: opt_get_def)
qed (simp add: opt_get_def)

lemma status_bar_renders:
  assumes "status = VUndef \<or> has_type BotStatus status"
  shows "\<not> crashes (status_bar status)"
proof (cases "status = VUndef")
  case True
  then show ?thesis by (simp add: status_bar_def opt_get_def dash_badge_def)
next
  case False
  then have "has_type (TObject (members BotStatus)) status" using assms by (simp add: BotStatus_def)
  note m = typed_members [OF this]
  have str: "get status k = VUndef \<or> (\<exists>s. get status k = VStr s)" if "Opt k TString \<in> set (members BotStatus)" for k
    by (rule typed_reads(4) [OF m [OF that]])
  have "has_member (Opt ''activeStrategies'' (TArray TString)) status" by (rule m) (simp add: BotStatus_def)
  then consider "get status ''activeStrategies'' = VUndef"
    | ss where "get status ''activeStrategies'' = VArr ss" "list_all (has_type TString) ss"
    by (cases "get status ''activeStrategies''") (simp_all add: has_member.simps has_type.simps)
  note strategies = this
  have kid: "list_all (\<lambda>s. \<not> crashes (el ''span'' (child s) :: 'a view)) ss" if "list_all (has_type TString) ss" for ss
  proof -
    have "showable s" if "has_type TString s" for s using that by (cases s) (simp_all add: has_type.simps)
    then show ?thesis using that by (auto simp: list_all_iff)
  qed
  have env: "showable (get status ''environment'')" using str [of "''environment''"] by (auto simp: BotStatus_def)
  have addr: "truthy (get status ''walletAddress'') \<Longrightarrow> \<not> isl (short_addr 4 (get status ''walletAddress''))"
    using str [of "''walletAddress''"] by (auto simp: BotStatus_def short_addr_def)
  from strategies show ?thesis
  proof cases
    case 1
    then show ?thesis using env addr by (simp add: status_bar_def dash_badge_def opt_get_def)
  next
    case (2 ss)
    then show ?thesis using env addr kid [OF 2(2)] by (simp add: status_bar_def dash_badge_def opt_get_def renders_map)
  qed
qed

text \<open>The dashboard shows whatever it is sent of the declared types. While answers are missing and with any
  portfolio, status and engine metrics of the types that the client declares, with anything at all as the metrics
  of the strategies, the page renders if its two panels do.\<close>

theorem dashboard_shows:
  assumes "portfolio = VUndef \<or> has_type PortfolioSummary portfolio" and "status = VUndef \<or> has_type BotStatus status"
    and "metrics = VUndef \<or> has_type BotMetrics metrics" and "renders [mev, feed]"
  shows "renders (dashboard_page portfolio status metrics pyMetrics points pending mev feed)"
proof -
  have pt: "PortfolioSummary = TObject (members PortfolioSummary)" "BotMetrics = TObject (members BotMetrics)"
    by (simp_all add: PortfolioSummary_def BotMetrics_def)
  note pn = opt_num [OF assms(1) pt(1)] and mn = opt_num [OF assms(3) pt(2)]
  have card: "\<not> crashes (MetricCard l v s :: dash_action view) \<longleftrightarrow> \<not> isl v" for l v s
    by (simp add: MetricCard_def split: option.split)
  have p: "\<exists>n. opt_get portfolio k (VNum (Fin 0)) = VNum n"
    if "k = ''totalValueSol'' \<or> k = ''cashBalanceSol'' \<or> k = ''positionsValueSol'' \<or> k = ''dailyPnlSol'' \<or> k = ''totalPnlSol'' \<or> k = ''winRate''" for k
    using that by (intro pn) (auto simp: PortfolioSummary_def)
  have "\<not> crashes (portfolio_cards portfolio :: dash_action view)"
    using p by (simp add: portfolio_cards_def Let_def card pnl_text_def)
  moreover have "\<not> crashes (chart_card (opt_get portfolio ''dailyPnlSol'' (VNum (Fin 0))) points)"
    using p by (simp add: chart_card_def pnl_text_def)
  moreover have "\<not> crashes (engine_metrics metrics :: dash_action view)"
  proof -
    have "\<exists>n. opt_get metrics ''ordersExecuted'' (VNum (Fin 0)) = VNum n"
      "\<exists>n. opt_get metrics ''ordersFailed'' (VNum (Fin 0)) = VNum n"
      "\<exists>n. opt_get metrics ''jitoLanded'' (VNum (Fin 0)) = VNum n"
      "\<exists>n. opt_get metrics ''sandwichAttacks'' (VNum (Fin 0)) = VNum n"
      "\<exists>n. opt_get metrics ''tokensSniped'' (VNum (Fin 0)) = VNum n"
      "\<exists>n. opt_get metrics ''avgExecutionMs'' (VNum (Fin 0)) = VNum n"
      by (rule mn, simp add: BotMetrics_def)+
    then obtain a b c d e f where "opt_get metrics ''ordersExecuted'' (VNum (Fin 0)) = VNum a"
      "opt_get metrics ''ordersFailed'' (VNum (Fin 0)) = VNum b"
      "opt_get metrics ''jitoLanded'' (VNum (Fin 0)) = VNum c"
      "opt_get metrics ''sandwichAttacks'' (VNum (Fin 0)) = VNum d"
      "opt_get metrics ''tokensSniped'' (VNum (Fin 0)) = VNum e"
      "opt_get metrics ''avgExecutionMs'' (VNum (Fin 0)) = VNum f"
      by (elim exE)
    then show ?thesis by (simp add: engine_metrics_def Let_def)
  qed
  moreover have "renders (advanced_metrics pyMetrics :: dash_action view list)" by (simp add: advanced_metrics_def Let_def)
  moreover have "\<not> crashes (control_button status pending)" by (simp add: control_button_def)
  ultimately show ?thesis using status_bar_renders [OF assms(2)] assms(4) by (simp add: dashboard_page_def)
qed

theorem dashboard_shows_witness:
  "renders (dashboard_page VUndef (obj [(''running'', VBool True), (''rustEngineConnected'', VBool True), (''pythonEngineRunning'', VBool False),
     (''activeStrategies'', VArr [S ''sniper''])]) VUndef VUndef (VArr []) False (T ''mev'') (T ''feed''))"
proof -
  have "has_type BotStatus (obj [(''running'', VBool True), (''rustEngineConnected'', VBool True), (''pythonEngineRunning'', VBool False),
     (''activeStrategies'', VArr [S ''sniper''])])"
    by (simp add: BotStatus_def has_type.simps has_members.simps has_member.simps S_def obj_def get_def lookup_def)
  then show ?thesis by (intro dashboard_shows) simp_all
qed

end
