(* ===== verification/WalletsPage.thy ===== *)
theory WalletsPage
  imports View AdminKey Wallets
begin

text \<open>
  \<open>pages/Wallets.tsx\<close>: the list of wallets and the card of each, with the prompt for the admin key when a paused
  wallet is resumed. The state of a card and what its handlers do to the key cache are those of \<open>AdminKey\<close>; here
  are the queries, the views and the actions they offer. The first theorem says what may be resumed, the second
  that the key is nowhere to be read, the third relates a card to the tables of the server.
\<close>

section \<open>Queries\<close>

definition fetch_wallets :: "bool \<Rightarrow> exn + jsval \<Rightarrow> exn + jsval" where
  "fetch_wallets res_ok json = (if res_ok then json else Inl (Err (U ''Failed to fetch wallets'')))"

definition fetch_wallet_config :: "bool \<Rightarrow> exn + jsval \<Rightarrow> exn + jsval" where
  "fetch_wallet_config res_ok json = (if res_ok then json else Inl (Err (U ''Config not found'')))"

text \<open>The answer of \<open>fetch\<close> for the resume request: the thrown error carries the server's text.\<close>

definition resume_outcome :: "bool \<Rightarrow> exn + jsval \<Rightarrow> exn + jsval" where
  "resume_outcome res_ok json =
     (if res_ok then json
      else and_then json (\<lambda>err. and_then (read_prop err ''error'')
        (\<lambda>m. Inl (new_error (nvl m (S ''Resume failed''))))))"

section \<open>The card of a wallet\<close>

definition wallet_status_badge :: "jsval \<Rightarrow> 'a view" where
  "wallet_status_badge status = el ''span''
     [T (if status = S ''enabled'' then ''enabled'' else if status = S ''paused'' then ''paused'' else ''halted'')]"

text \<open>A preset that the table does not list is shown as balanced.\<close>

definition preset_label :: "jsval \<Rightarrow> string" where
  "preset_label preset = (if preset = S ''conservative'' then ''Conservative'' else if preset = S ''aggressive'' then ''Aggressive''
     else ''Balanced'')"

definition effectiveStatus :: "jsval \<Rightarrow> jsval \<Rightarrow> jsval" where
  "effectiveStatus wallet config = nvl (get config ''status'') (get wallet ''status'')"

datatype resume_action = PressResume | TypeKey jstr | KeyDown jstr | Confirm | CancelPrompt | TickRemember bool

text \<open>What the handlers do; \<open>i\<close> is the card's instance of the key hook.\<close>

fun resume_act :: "nat \<Rightarrow> int \<Rightarrow> resume_action \<Rightarrow> key_state \<times> unit card \<Rightarrow> key_state \<times> unit card" where
  "resume_act i now PressResume sc = press_resume now sc"
| "resume_act i now (TypeKey t) sc = type_key t now sc"
| "resume_act i now (KeyDown k) sc = (if k = U ''Enter'' then press_enter i sc else if k = U ''Escape'' then cancel_prompt now sc else sc)"
| "resume_act i now Confirm sc = press_apply i sc"
| "resume_act i now CancelPrompt sc = cancel_prompt now sc"
| "resume_act i now (TickRemember b) sc = (fst sc, tick_remember b (snd sc))"

definition key_prompt_view :: "jsval \<Rightarrow> jstr \<Rightarrow> unit card \<Rightarrow> resume_action view" where
  "key_prompt_view walletId adminKey c = el ''div''
     [el ''div''
       [El ''Input'' [(''type'', S ''password''), (''placeholder'', VStr (U ''Enter admin key'' @ [0x2026])), (''value'', VStr adminKey)]
          [(''onChange'', \<lambda>e. TypeKey (event_text e)), (''onKeyDown'', \<lambda>e. KeyDown (event_text e))] [],
        El ''Button'' [(''disabled'', VBool (adminKey = [] \<or> cd_busy c))] [(''onClick'', \<lambda>_. Confirm)]
          (if cd_busy c then [] else [T ''Confirm'']),
        El ''Button'' [] [(''onClick'', \<lambda>_. CancelPrompt)] []],
      el ''Label''
       [El ''Checkbox'' [(''id'', VStr (U ''remember-key-wallets-'' @ to_str walletId)), (''checked'', VBool (cd_remember c))]
          [(''onCheckedChange'', \<lambda>e. TickRemember (e = VBool True))] [],
        T ''Remember for 1 hour'']]"

definition paused_panel :: "jsval \<Rightarrow> jstr \<Rightarrow> unit card \<Rightarrow> resume_action view" where
  "paused_panel walletId adminKey c = el ''div''
     ([el ''div''
        ([el ''div''
           [el ''p'' [T ''Wallet auto-paused''],
            el ''p'' [T ''Paused due to repeated decision engine rejections. Resume once the underlying issue is resolved.'']]]
         @ (if cd_pending c = None \<and> \<not> cd_busy c then [El ''Button'' [] [(''onClick'', \<lambda>_. PressResume)] [el ''span'' [T ''Resume'']]] else [])
         @ (if cd_busy c \<and> cd_pending c = None then [el ''div'' [Txt (U ''Applying with remembered key'' @ [0x2026])]] else []))]
      @ (if cd_pending c \<noteq> None then [key_prompt_view walletId adminKey c] else []))"

definition WalletCard :: "(jsval \<Rightarrow> jstr) \<Rightarrow> jsval \<Rightarrow> jsval \<Rightarrow> jstr \<Rightarrow> unit card \<Rightarrow> resume_action view" where
  "WalletCard local_date wallet config adminKey c =
     (let status = effectiveStatus wallet config; preset = nvl (get config ''strategyPreset'') (S ''balanced'') in
      el ''Card''
       [el ''CardHeader'' [el ''div'' [el ''CardTitle'' (child (get wallet ''walletId'')), wallet_status_badge status]],
        el ''CardContent''
         ((if truthy (get wallet ''ownerPubkey'')
           then [el ''div'' [el ''div'' [T ''Public Key''], el ''div'' (child (get wallet ''ownerPubkey''))]] else [])
          @ [el ''div''
              ([el ''span'' [T (preset_label preset)]]
               @ (if truthy config then
                    [el ''span'' ([T ''Risk: ''] @ child (get config ''riskPerTradeSol'')
                       @ [Txt (U '' SOL/trade '' @ [0xB7] @ U '' Daily limit: '')] @ child (get config ''dailyLossLimitSol'') @ [T '' SOL''])]
                  else [])),
             el ''div'' [T ''Last active: '',
               Txt (if truthy (get wallet ''lastActiveAt'') then local_date (get wallet ''lastActiveAt'') else U ''Never'')]]
          @ (if status = S ''paused'' then [paused_panel (get wallet ''walletId'') adminKey c] else [])
          @ (if status = S ''halted'' then
               [el ''div'' [el ''div'' [el ''p'' [T ''Wallet halted''],
                  el ''p'' [T ''A critical execution error occurred. Contact your operator to re-enable via the admin CLI.'']]]]
             else []))])"

section \<open>The page\<close>

datatype wallets_action = Refetch | OnCard nat resume_action

definition lifecycle_note :: "'a view" where
  "lifecycle_note = el ''div''
     [el ''p'' [T ''Wallet lifecycle''],
      el ''p'' [el ''span'' [T ''enabled''], Txt (U '' '' @ DASH @ U '' active and processing orders.'')],
      el ''p'' [el ''span'' [T ''paused''], Txt (U '' '' @ DASH @ U '' auto-paused after''), T '' '',
        T ''repeated rejections; orders are blocked until resumed.''],
      el ''p'' [el ''span'' [T ''halted''],
        Txt (U '' '' @ DASH @ U '' stopped after a critical execution error; requires operator intervention.'')]]"

text \<open>\<open>cards\<close>: the views of the cards, in the order of the list.\<close>

definition wallets_page :: "jsval list option \<Rightarrow> bool \<Rightarrow> bool \<Rightarrow> bool \<Rightarrow> resume_action view list \<Rightarrow> wallets_action view list" where
  "wallets_page wallets isLoading err isFetching cards =
     [el ''div''
       ([el ''div''
          [el ''div'' [el ''h1'' [T ''Wallets''], el ''p'' [T ''Monitor wallet health and resume paused wallets.'']],
           El ''Button'' [(''disabled'', VBool isFetching)] [(''onClick'', \<lambda>_. Refetch)] [el ''span'' [T ''Refresh'']]]]
        @ (if isLoading then [el ''div'' [Txt (U ''Loading wallets'' @ [0x2026])]] else [])
        @ (if err then [el ''div'' [Txt (U ''Failed to load wallets '' @ DASH @ U '' API server may be offline.'')]] else [])
        @ (if wallets = Some [] then
             [el ''Card'' [el ''CardContent''
               [el ''p'' [T ''No wallets registered''],
                el ''p'' [T ''Ask your operator to register a wallet via the admin CLI or set'', T '' '', el ''span'' [T ''KEYPAIR_PATH''],
                  T '' so the engine can auto-register one.'']]]]
           else [])
        @ (if wallets \<noteq> None \<and> wallets \<noteq> Some [] then
             [el ''div'' (map (\<lambda>(i, v). map_view (OnCard i) v) (enumerate 0 cards))] else [])
        @ [lifecycle_note])]"

section \<open>Properties\<close>

lemma no_offers [simp]: "concat (map (offers ev) (child v)) = []"
proof (induction v rule: child.induct)
  case (3 vs)
  then show ?case by (simp add: map_concat concat_eq_Nil_conv)
qed simp_all

lemma resume_button:
  "PressResume \<in> set (clicks [WalletCard local_date wallet config adminKey c]) \<longleftrightarrow>
   effectiveStatus wallet config = S ''paused'' \<and> cd_pending c = None \<and> \<not> cd_busy c"
  by (cases "cd_pending c")
    (auto simp: WalletCard_def paused_panel_def key_prompt_view_def wallet_status_badge_def Let_def attr_def)

text \<open>A wallet can be resumed exactly when it is paused. The card's resume button is there exactly when the
  status it goes by (the configuration's, else the list's) is \<open>paused\<close>, no key prompt is open and no request
  is under way; the confirmation of a prompt is offered exactly when, for a paused wallet, a prompt is open, a
  key has been typed and no request is under way; and no card of a wallet that is not paused offers any action.\<close>

theorem resume_offered:
  "(let offered = clicks [WalletCard local_date wallet config adminKey c];
        paused = (effectiveStatus wallet config = S ''paused'')
    in (PressResume \<in> set offered \<longleftrightarrow> paused \<and> cd_pending c = None \<and> \<not> cd_busy c) \<and>
       (Confirm \<in> set offered \<longleftrightarrow> paused \<and> cd_pending c \<noteq> None \<and> adminKey \<noteq> [] \<and> \<not> cd_busy c) \<and>
       (offered = [] \<longleftrightarrow> \<not> paused \<or> cd_pending c = None \<and> cd_busy c))"
  using resume_button [of local_date wallet config adminKey c]
  by (cases "cd_pending c")
    (auto simp: WalletCard_def paused_panel_def key_prompt_view_def wallet_status_badge_def Let_def attr_def)

lemma wallet_card_hides:
  assumes "k = [] \<longleftrightarrow> k' = []"
  shows "hides [WalletCard local_date wallet config k c] [WalletCard local_date wallet config k' c]"
proof -
  have "hides [key_prompt_view w k c] [key_prompt_view w k' c]" for w
    unfolding key_prompt_view_def assms by (intro hides_intros)
  then have "hides [paused_panel w k c] [paused_panel w k' c]" for w
    unfolding paused_panel_def by (intro hides_intros) simp
  then show ?thesis unfolding WalletCard_def Let_def by (intro hides_intros) simp
qed

text \<open>What the card reads of the two rows of a wallet.\<close>

lemma listed_reads:
  "get (wire (wallet_list_json r)) ''status'' = VStr (wr_status r)"
  "get (wire (wallet_list_json r)) ''walletId'' = VStr (wr_walletId r)"
  "\<exists>s. get (wire (wallet_list_json r)) ''ownerPubkey'' \<in> {VNull, VStr s}"
  by (simp_all add: wallet_list_json_def wire_obj opt_json) (cases "wr_ownerPubkey r"; simp add: js_str_opt_def of_opt_def)

lemma config_reads:
  "get (wire (wallet_config_json c)) ''status'' = VStr (wc_status c)"
  "showable (get (wire (wallet_config_json c)) ''riskPerTradeSol'')"
  "showable (get (wire (wallet_config_json c)) ''dailyLossLimitSol'')"
  by (simp_all add: wallet_config_json_def wire_obj opt_json split: jsnum.split)

lemma card_of_rows:
  assumes st: "wr_status reg = wc_status row" "wc_status row \<in> set VALID_STATUSES"
    and view: "view = [WalletCard local_date (wire (wallet_list_json reg)) config k c]"
    and config: "config = VUndef \<or> config = wire (wallet_config_json row)"
  shows "renders view \<and> wc_status row \<in> set (shown_texts view) \<and>
      (PressResume \<in> set (clicks view) \<longleftrightarrow> wc_status row = U ''paused'' \<and> cd_pending c = None \<and> \<not> cd_busy c)"
proof -
  have e: "effectiveStatus (wire (wallet_list_json reg)) config = VStr (wc_status row)"
    using config st(1) by (auto simp: effectiveStatus_def listed_reads config_reads)
  have p: "\<not> crashes (paused_panel x k c)" for x
    by (simp add: paused_panel_def key_prompt_view_def)
  have own: "showable (get (wire (wallet_list_json reg)) ''ownerPubkey'')" using listed_reads(3) [of reg] by auto
  have "renders view"
    unfolding view WalletCard_def e Let_def
    using config p own config_reads(2,3) [of row]
    by (auto simp: wallet_status_badge_def listed_reads)
  moreover have "wc_status row \<in> set (shown_texts view)"
    using st(2) unfolding view WalletCard_def e Let_def by (auto simp: wallet_status_badge_def VALID_STATUSES_def S_def)
  moreover have "PressResume \<in> set (clicks view) \<longleftrightarrow> wc_status row = U ''paused'' \<and> cd_pending c = None \<and> \<not> cd_busy c"
    using resume_button [of local_date "wire (wallet_list_json reg)" config k c] unfolding view e by (simp add: S_def)
  ultimately show ?thesis by blast
qed

text \<open>C11: a wallet's card shows what the server holds. After any sequence of wallet requests, of a wallet
  that is in both tables, the card made from the list alone, while the configuration is still loading, and the
  card made from both answers both render, show the status that both tables hold, and offer to resume it
  exactly when that is \<open>paused\<close> (with no prompt open and no request under way): nothing changes when the
  configuration arrives.\<close>

theorem wallet_card_agrees:
  assumes "wallet_store W cview rview invar" and "invar d" and "wallets_ok (cview d, rview d)"
    and "wallet_run W w cs (d, h) = (d', h')" and "cview d' i = Some row" and "rview d' i = Some reg"
  shows "list_all (\<lambda>config. let view = [WalletCard local_date (wire (wallet_list_json reg)) config k c] in
      renders view \<and> wc_status row \<in> set (shown_texts view) \<and>
      (PressResume \<in> set (clicks view) \<longleftrightarrow> wc_status row = U ''paused'' \<and> cd_pending c = None \<and> \<not> cd_busy c))
    [VUndef, wire (wallet_config_json row)]"
proof -
  have ok: "wallets_ok (cview d', rview d')" using wallet_store.run_ok [OF assms(1-4)] by simp
  then have st: "wr_status reg = wc_status row" "wc_status row \<in> set VALID_STATUSES"
    using assms(5,6) by (fastforce simp: wallets_ok_def wallet_row_ok_def)+
  then show ?thesis using card_of_rows [OF st refl] by (simp only: list.pred_inject Let_def) blast
qed

theorem wallet_card_agrees_witness:
  "\<exists>d' h' row reg. wallet_run mem_wallet_db demo_engines [(5, Some (U ''k''), Pause (U ''w1''))] (demo_wallets ''enabled'', []) = (d', h') \<and>
     map_of (mw_cfg d') (U ''w1'') = Some row \<and> map_of (mw_reg d') (U ''w1'') = Some reg \<and> wc_status row = U ''paused'' \<and>
     PressResume \<in> set (clicks [WalletCard (\<lambda>_. []) (wire (wallet_list_json reg)) (wire (wallet_config_json row)) []
       \<lparr>cd_pending = None, cd_remember = False, cd_busy = False, cd_sent = []\<rparr>])"
proof -
  define c :: "unit card" where "c = \<lparr>cd_pending = None, cd_remember = False, cd_busy = False, cd_sent = []\<rparr>"
  obtain d' h' where r: "wallet_run mem_wallet_db demo_engines [(5, Some (U ''k''), Pause (U ''w1''))] (demo_wallets ''enabled'', []) = (d', h')"
    by (metis prod.collapse)
  have ok: "wallets_ok (map_of (mw_cfg (demo_wallets ''enabled'')), map_of (mw_reg (demo_wallets ''enabled'')))"
    by (auto simp: wallets_ok_def wallet_row_ok_def demo_wallets_def new_wallet_config_def new_wallet_registry_def
        VALID_STATUSES_def VALID_PRESETS_def fl_eval split: if_splits)
  obtain row reg where rows: "map_of (mw_cfg d') (U ''w1'') = Some row" "map_of (mw_reg d') (U ''w1'') = Some reg" "wc_status row = U ''paused''"
    using r by (auto simp: on_db_def pause_wallet_def transaction_def status_tx_def db_then_def
        db_return_def mem_wallet_db_def mem_ops_def demo_wallets_def status_done_def)
  have "PressResume \<in> set (clicks [WalletCard (\<lambda>_. []) (wire (wallet_list_json reg)) (wire (wallet_config_json row)) [] c])"
    using wallet_card_agrees [OF mem_wallets.wallet_store_axioms demo_invar ok r rows(1,2), of "\<lambda>_. []" "[]" c] rows(3)
    by (simp add: c_def Let_def)
  then show ?thesis using r rows c_def by blast
qed

end
