(* ===== verification/PresetCards.thy ===== *)
theory PresetCards
  imports WalletsPage
begin

text \<open>
  The two cards that choose a strategy preset: \<open>StrategyPresetCard\<close> of \<open>pages/Settings.tsx\<close> and
  \<open>WalletPresetCard\<close> of \<open>pages/Strategies.tsx\<close>. Their state and what their handlers do to the key cache are those of
  \<open>AdminKey\<close>; here are the presets they advertise, their queries and views, and the way from a tile to the tables of
  the server and back. A tile's highlight is its attribute \<open>tone\<close>.
\<close>

section \<open>The presets\<close>

record settings_preset =
  sp_id :: string
  sp_label :: string
  sp_description :: string
  sp_detail :: jstr

definition detail_text :: "string \<Rightarrow> string \<Rightarrow> string \<Rightarrow> string \<Rightarrow> jstr" where
  "detail_text buy stop target positions =
     U buy @ U '' SOL/trade '' @ [0xB7, 32] @ U stop @ U '' stop '' @ [0xB7, 32] @ U target @ U '' target ''
     @ [0xB7] @ U '' max '' @ U positions @ U '' positions''"

definition SETTINGS_PRESETS :: "settings_preset list" where
  "SETTINGS_PRESETS =
     [\<lparr>sp_id = ''conservative'', sp_label = ''Conservative'',
       sp_description = ''Small trades, tight stop-loss. Lower risk, lower reward.'', sp_detail = detail_text ''0.05'' ''5%'' ''20%'' ''2''\<rparr>,
      \<lparr>sp_id = ''balanced'', sp_label = ''Balanced'',
       sp_description = ''Moderate sizing with sensible risk controls. Good starting point.'',
       sp_detail = detail_text ''0.15'' ''10%'' ''50%'' ''5''\<rparr>,
      \<lparr>sp_id = ''aggressive'', sp_label = ''Aggressive'',
       sp_description = ''Larger positions, wider stops. Higher risk, higher reward.'',
       sp_detail = detail_text ''0.5'' ''20%'' ''100%'' ''10''\<rparr>]"

record wallet_preset =
  wp_id :: string
  wp_label :: string
  wp_risk :: string
  wp_buy :: string
  wp_stop :: string
  wp_target :: string
  wp_description :: jstr

definition WALLET_PRESETS :: "wallet_preset list" where
  "WALLET_PRESETS =
     [\<lparr>wp_id = ''conservative'', wp_label = ''Conservative'', wp_risk = ''Low risk'', wp_buy = ''0.05 SOL'', wp_stop = ''5%'',
       wp_target = ''20%'',
       wp_description = U ''Small positions with tight stops. Best for volatile markets or when starting out.''\<rparr>,
      \<lparr>wp_id = ''balanced'', wp_label = ''Balanced'', wp_risk = ''Medium risk'', wp_buy = ''0.15 SOL'', wp_stop = ''10%'',
       wp_target = ''50%'',
       wp_description = U ''Moderate position sizes with a balanced risk/reward ratio. Recommended default.''\<rparr>,
      \<lparr>wp_id = ''aggressive'', wp_label = ''Aggressive'', wp_risk = ''High risk'', wp_buy = ''0.5 SOL'', wp_stop = ''20%'',
       wp_target = ''100%'',
       wp_description = U ''Large positions targeting high returns. Higher drawdown risk '' @ DASH @ U '' use with caution.''\<rparr>]"

definition PRESET_DEFAULTS :: "(string \<times> jsnum \<times> jsnum \<times> jsnum) list" where
  "PRESET_DEFAULTS =
     [(''conservative'', fl (5 / 100), NumI 5, NumI 20), (''balanced'', fl (15 / 100), NumI 10, NumI 50),
      (''aggressive'', fl (5 / 10), NumI 20, NumI 100)]"

section \<open>Queries and answers\<close>

definition fetch_active_preset :: "bool \<Rightarrow> exn + jsval \<Rightarrow> exn + jsval" where
  "fetch_active_preset res_ok json =
     (if \<not> res_ok then Inr (obj [(''preset'', S ''balanced'')])
      else and_then json (\<lambda>data. and_then (read_prop data ''strategyPreset'')
        (\<lambda>p. Inr (obj [(''preset'', nvl p (S ''balanced''))]))))"

definition settings_active :: "jsval \<Rightarrow> jsval" where
  "settings_active presetData = nvl (get presetData ''preset'') (S ''balanced'')"

definition preset_outcome :: "bool \<Rightarrow> exn + jsval \<Rightarrow> exn + jsval" where
  "preset_outcome res_ok json =
     (if res_ok then json
      else and_then json (\<lambda>err. and_then (read_prop err ''error'')
        (\<lambda>m. Inl (new_error (nvl (nvl m (get err ''detail'')) (S ''Failed to save preset''))))))"

text \<open>A failed read of a wallet's configuration is shown as a made-up one.\<close>

definition fetch_config_or_default :: "jstr \<Rightarrow> bool \<Rightarrow> exn + jsval \<Rightarrow> exn + jsval" where
  "fetch_config_or_default walletId res_ok json =
     (if \<not> res_ok then Inr (obj [(''walletId'', VStr walletId), (''strategyPreset'', S ''balanced''), (''status'', S ''enabled''),
        (''riskPerTradeSol'', VNum (fl (15 / 100))), (''dailyLossLimitSol'', VI 1)])
      else json)"

definition wallet_active :: "jsval \<Rightarrow> jsval" where
  "wallet_active config = nvl (get config ''strategyPreset'') (S ''balanced'')"

definition change_outcome :: "bool \<Rightarrow> exn + jsval \<Rightarrow> exn + jsval" where
  "change_outcome res_ok json =
     (if res_ok then json
      else and_then json (\<lambda>err. and_then (read_prop err ''error'')
        (\<lambda>m. Inl (new_error (nvl m (S ''Failed to change preset''))))))"

text \<open>The toasts, and the queries that are fetched again.\<close>

definition preset_saved :: "jstr \<Rightarrow> jstr \<times> jsval list" where
  "preset_saved preset = (U ''Strategy preset set to '' @ preset, [S ''activePreset''])"

definition preset_changed :: "jstr \<Rightarrow> jstr \<Rightarrow> jstr \<times> jsval list" where
  "preset_changed walletId preset =
     (U ''Preset changed to '' @ preset @ U '' for '' @ walletId, [VArr [S ''walletConfig'', VStr walletId]])"

section \<open>The key prompt and the tiles\<close>

datatype preset_action =
    Choose jstr | TypePresetKey jstr | PresetKeyDown jstr | ApplyPreset | CancelPreset | RememberPreset bool

fun preset_act :: "jstr \<Rightarrow> nat \<Rightarrow> int \<Rightarrow> preset_action \<Rightarrow> key_state \<times> jstr card \<Rightarrow> key_state \<times> jstr card" where
  "preset_act active i now (Choose p) sc = select_preset active p now sc"
| "preset_act active i now (TypePresetKey t) sc = type_key t now sc"
| "preset_act active i now (PresetKeyDown k) sc =
     (if k = U ''Enter'' then press_enter i sc else if k = U ''Escape'' then cancel_prompt now sc else sc)"
| "preset_act active i now ApplyPreset sc = press_apply i sc"
| "preset_act active i now CancelPreset sc = cancel_prompt now sc"
| "preset_act active i now (RememberPreset b) sc = (fst sc, tick_remember b (snd sc))"

definition preset_prompt :: "string \<Rightarrow> jstr \<Rightarrow> jstr \<Rightarrow> jstr \<Rightarrow> jstr card \<Rightarrow> preset_action view" where
  "preset_prompt label_tag checkbox_id pendingPreset adminKey c = el ''div''
     [el ''p'' [T ''Changing to'', T '' '', el ''span'' [Txt pendingPreset], T '' '', T ''preset requires admin authorization.''],
      el ''div''
       [El ''Input'' [(''type'', S ''password''), (''placeholder'', VStr (U ''Enter admin key'' @ [0x2026])), (''value'', VStr adminKey)]
          [(''onChange'', \<lambda>e. TypePresetKey (event_text e)), (''onKeyDown'', \<lambda>e. PresetKeyDown (event_text e))] [],
        El ''Button'' [(''disabled'', VBool (adminKey = [] \<or> cd_busy c))] [(''onClick'', \<lambda>_. ApplyPreset)]
          (if cd_busy c then [] else [T ''Apply'']),
        El ''Button'' [] [(''onClick'', \<lambda>_. CancelPreset)] []],
      el label_tag
       [El ''Checkbox'' [(''id'', VStr checkbox_id), (''checked'', VBool (cd_remember c))]
          [(''onCheckedChange'', \<lambda>e. RememberPreset (e = VBool True))] [],
        T ''Remember for 1 hour'']]"

definition preset_prompts :: "string \<Rightarrow> jstr \<Rightarrow> jstr \<Rightarrow> jstr card \<Rightarrow> preset_action view list" where
  "preset_prompts label_tag checkbox_id adminKey c =
     (if cd_busy c \<and> cd_pending c = None then [el ''div'' [Txt (U ''Applying with remembered key'' @ [0x2026])]] else [])
     @ (case cd_pending c of
          Some pendingPreset \<Rightarrow> [preset_prompt label_tag checkbox_id pendingPreset adminKey c] | None \<Rightarrow> [])"

definition tile :: "jsval \<Rightarrow> string \<Rightarrow> jstr card \<Rightarrow> preset_action view list \<Rightarrow> preset_action view" where
  "tile active pid c kids = El ''button''
     [(''key'', S pid), (''disabled'', VBool (cd_busy c \<or> cd_pending c \<noteq> None)),
      (''tone'', S (if S pid = active then ''active'' else ''plain''))]
     [(''onClick'', \<lambda>_. Choose (U pid))] kids"

definition settings_tile :: "jsval \<Rightarrow> jstr card \<Rightarrow> settings_preset \<Rightarrow> preset_action view" where
  "settings_tile active c p =
     (let isActive = (S (sp_id p) = active); isPending = (cd_pending c = Some (U (sp_id p)))
      in tile active (sp_id p) c
        ((if isActive \<and> \<not> isPending then [el ''span'' []] else [])
         @ (if isPending \<and> cd_busy c then [el ''span'' []] else [])
         @ [el ''div'' [T (sp_label p)], el ''div'' [T (sp_description p)], el ''div'' [Txt (sp_detail p)]]))"

definition StrategyPresetCard :: "jsval \<Rightarrow> jstr \<Rightarrow> jstr card \<Rightarrow> preset_action view" where
  "StrategyPresetCard presetData adminKey c = el ''Card''
     [el ''CardHeader'' [el ''CardTitle'' [T ''Strategy Preset'']],
      el ''CardContent''
       ([el ''p'' [T ''Choose a risk profile for your trading strategies. The preset controls position size, stop-loss, take-profit, and max concurrent positions.''],
         el ''div'' (map (settings_tile (settings_active presetData) c) SETTINGS_PRESETS)]
        @ preset_prompts ''label'' (U ''remember-key-settings'') adminKey c
        @ [el ''div'' [el ''span''
            [Txt (U ''The preset is applied by the Python strategy engine. Changes take effect on the next strategy evaluation cycle ''
               @ DASH @ U '' no engine restart required.'')]]])]"

definition wallet_tile :: "jsval \<Rightarrow> jstr card \<Rightarrow> wallet_preset \<Rightarrow> preset_action view" where
  "wallet_tile active c p =
     (let isActive = (S (wp_id p) = active); isPending = (cd_pending c = Some (U (wp_id p)));
          row = (\<lambda>k v. el ''div'' [el ''span'' [T k], el ''span'' [T v]])
      in tile active (wp_id p) c
        ([el ''div'' [el ''span'' [T (wp_label p)]], el ''span'' [T (wp_risk p)],
          el ''div'' [row ''Position size'' (wp_buy p), row ''Stop loss'' (wp_stop p), row ''Take profit'' (wp_target p)],
          el ''p'' [Txt (wp_description p)]]
         @ (if \<not> isActive then
              [el ''div'' [if isPending \<and> cd_busy c then el ''div'' [Txt (U ''Applying'' @ [0x2026])]
                 else el ''span'' [Txt (if isPending then U ''Selected '' @ DASH @ U '' enter key below'' else U ''Select '' @ [0x2192])]]]
            else [])
         @ (if isActive then [el ''div'' [T ''Active preset'']] else [])))"

definition wallet_prompts :: "jsval \<Rightarrow> jstr \<Rightarrow> jstr card \<Rightarrow> preset_action view list" where
  "wallet_prompts walletId adminKey c = preset_prompts ''Label'' (U ''remember-key-strategies-'' @ to_str walletId) adminKey c"

definition WalletPresetCard :: "jsval \<Rightarrow> jsval \<Rightarrow> bool \<Rightarrow> jstr \<Rightarrow> jstr card \<Rightarrow> preset_action view" where
  "WalletPresetCard wallet config isLoading adminKey c = el ''Card''
     [el ''CardHeader'' [el ''CardTitle''
        (child (get wallet ''walletId'')
         @ (if get wallet ''status'' \<noteq> S ''enabled'' then [el ''span'' (child (get wallet ''status''))] else []))],
      el ''CardContent''
       (if isLoading then [el ''div'' [Txt (U ''Loading config'' @ [0x2026])]]
        else [el ''div'' (map (wallet_tile (wallet_active config) c) WALLET_PRESETS)]
          @ wallet_prompts (get wallet ''walletId'') adminKey c)]"

section \<open>Secrecy of the key\<close>

lemma prompts_hide:
  assumes "k = [] \<longleftrightarrow> k' = []"
  shows "hides (preset_prompts t i k c) (preset_prompts t i k' c)"
proof -
  have "hides [preset_prompt t i p k c] [preset_prompt t i p k' c]" for p
    unfolding preset_prompt_def assms by (intro hides_intros)
  then show ?thesis unfolding preset_prompts_def by (cases "cd_pending c") (auto intro!: hides_intros)
qed

text \<open>The admin key is nowhere to be read. In all three cards that ask for it, two keys, both typed
  or both empty, give the same texts, and the same elements with the same attributes, except those of the password
  field, in every state of the card and with whatever the queries have answered.\<close>

theorem prompts_hide_key:
  assumes "k = [] \<longleftrightarrow> k' = []"
  shows "hides [StrategyPresetCard presetData k c] [StrategyPresetCard presetData k' c]
    \<and> hides [WalletPresetCard wallet config loading k c] [WalletPresetCard wallet config loading k' c]
    \<and> hides [WalletCard local_date wallet config k r] [WalletCard local_date wallet config k' r]"
proof (intro conjI)
  show "hides [StrategyPresetCard presetData k c] [StrategyPresetCard presetData k' c]"
    unfolding StrategyPresetCard_def by (intro hides_intros prompts_hide [OF assms])
  show "hides [WalletPresetCard wallet config loading k c] [WalletPresetCard wallet config loading k' c]"
    unfolding WalletPresetCard_def wallet_prompts_def by (intro hides_intros prompts_hide [OF assms])
  show "hides [WalletCard local_date wallet config k r] [WalletCard local_date wallet config k' r]"
    by (rule wallet_card_hides [OF assms])
qed

theorem prompts_hide_key_witness:
  "hides [StrategyPresetCard VUndef (U ''secret'') \<lparr>cd_pending = Some (U ''balanced''), cd_remember = False, cd_busy = False, cd_sent = []\<rparr>]
     [StrategyPresetCard VUndef (U ''other'') \<lparr>cd_pending = Some (U ''balanced''), cd_remember = False, cd_busy = False, cd_sent = []\<rparr>]"
  using prompts_hide_key [of "U ''secret''" "U ''other''"] by simp

section \<open>From a tile to the tables and back\<close>

text \<open>The tiles that are highlighted.\<close>

fun active_tiles_of :: "'a view \<Rightarrow> jsval list" where
  "active_tiles_of (Txt s) = []"
| "active_tiles_of (Throw e) = []"
| "active_tiles_of (El tag as hs kids) =
     (if tag = ''button'' \<and> attr ''tone'' as = S ''active'' then [attr ''key'' as] else []) @ concat (map active_tiles_of kids)"

definition active_tiles :: "'a view list \<Rightarrow> jsval list" where
  "active_tiles vs = concat (map active_tiles_of vs)"

lemma active_tiles_simps [simp]:
  "active_tiles [] = []" "active_tiles (v # vs) = active_tiles_of v @ active_tiles vs"
  "active_tiles (vs @ ws) = active_tiles vs @ active_tiles ws"
  "active_tiles_of (El tag as hs kids) =
     (if tag = ''button'' \<and> attr ''tone'' as = S ''active'' then [attr ''key'' as] else []) @ active_tiles kids"
  by (simp_all add: active_tiles_def)

declare active_tiles_of.simps(3) [simp del]

lemma active_child [simp]: "active_tiles (child v) = []"
proof (induction v rule: child.induct)
  case (3 vs)
  then show ?case by (simp add: active_tiles_def map_concat concat_eq_Nil_conv)
qed simp_all

lemma active_prompts [simp]: "active_tiles (preset_prompts t i k c) = []"
  by (simp add: preset_prompts_def preset_prompt_def attr_def S_def split: option.split)

lemma active_tile: "active_tiles_of (tile active i c kids) = (if S i = active then [S i] else []) @ active_tiles kids"
  by (simp add: tile_def attr_def)

lemma active_settings: "active_tiles [StrategyPresetCard data k c]
    = filter (\<lambda>v. v = settings_active data) [S ''conservative'', S ''balanced'', S ''aggressive'']"
  by (simp add: StrategyPresetCard_def SETTINGS_PRESETS_def settings_tile_def active_tile Let_def)

lemma active_wallet: "active_tiles [WalletPresetCard wallet config False k c]
    = filter (\<lambda>v. v = wallet_active config) [S ''conservative'', S ''balanced'', S ''aggressive'']"
  by (simp add: WalletPresetCard_def wallet_prompts_def WALLET_PRESETS_def wallet_tile_def active_tile Let_def)

text \<open>The cards and the server agree on what the presets are.\<close>

lemma presets_advertised:
  "list_all2 (\<lambda>p (i, pp). U (sp_id p) = i \<and>
     map parse_float (take 3 (split_on 0xB7 (sp_detail p))) = [pp_risk pp, pp_stop pp, pp_take pp] \<and>
     parse_float (drop (length '' max '') (split_on 0xB7 (sp_detail p) ! 3)) = pp_max pp) SETTINGS_PRESETS PRESET_PARAMS"
  "list_all2 (\<lambda>p (i, pp). U (wp_id p) = i \<and>
     map (\<lambda>t. parse_float (U t)) [wp_buy p, wp_stop p, wp_target p] = [pp_risk pp, pp_stop pp, pp_take pp]) WALLET_PRESETS PRESET_PARAMS"
  "map (\<lambda>(i, d). (U i, d)) PRESET_DEFAULTS = map (\<lambda>(i, pp). (i, pp_risk pp, pp_stop pp, pp_take pp)) PRESET_PARAMS"
  using fl_int [of 5] fl_int [of 20] fl_int [of 2] fl_int [of 10] fl_int [of 50] fl_int [of 100]
  by (simp_all add: SETTINGS_PRESETS_def WALLET_PRESETS_def PRESET_PARAMS_def PRESET_DEFAULTS_def detail_text_def U_def
      parse_float_def float_prefix_def trim_start_def is_ws_def is_digit_def starts_with_def digits_val_def exp_prefix_def
      pow10_def Let_def)

text \<open>C6: choosing a tile sets the preset it advertises. When the request that a tile of either card sends is
  answered with success, the key, without the white space around it that \<open>fetch\<close> strips, was the administrator's;
  the wallet's row is what it was except for the tile's preset, the risk, which is the number the tile shows, and the
  time of the update; no other wallet and no registry entry has changed; and both cards, drawn from the row as the
  server then sends it, highlight exactly that tile.\<close>

theorem preset_selected:
  assumes "wallet_store W cview rview invar" and "invar d" and "\<And>s. w_text W (VStr s) = Inr s"
    and "p \<in> set WALLET_PRESETS"
    and "changePreset i (U (wp_id p), key) = Some req \<or> i = U ''wallet_001'' \<and> savePreset (U (wp_id p), key) = Some req"
    and "wallet_route W w now (Some (ar_key req)) (PutPreset (wire (ar_body req))) (d, h) = (out, (d', h'))" and "is_ok out"
    and "cview d i = Some old"
  shows "ar_key req \<noteq> [] \<and> header_value key = Some (ar_key req) \<and> proc_env w (U ''ADMIN_API_KEY'') = Some (ar_key req) \<and>
    (let row = old\<lparr>wc_strategyPreset := U (wp_id p), wc_riskPerTradeSol := parse_float (U (wp_buy p)), wc_updatedAt := Some now\<rparr> in
      cview d' = (cview d)(i := Some row) \<and> rview d' = rview d \<and>
      active_tiles [WalletPresetCard wallet (wire (wallet_config_json row)) False k c] = [S (wp_id p)] \<and>
      (\<exists>data. fetch_active_preset True (Inr (wire (wallet_config_json row))) = Inr data \<and>
         active_tiles [StrategyPresetCard data k c] = [S (wp_id p)]))"
proof -
  define body where "body = wire (ar_body req)"
  have b: "get body ''preset'' = VStr (U (wp_id p))" "nvl (get body ''wallet_id'') (S ''wallet_001'') = VStr i"
      "header_value key = Some (ar_key req)"
    using assms(5) by (auto simp: body_def changePreset_def savePreset_def admin_fetch_Some wire_obj nvl_def S_def)
  obtain q where q: "map_of PRESET_PARAMS (U (wp_id p)) = Some q" "pp_risk q = parse_float (U (wp_buy p))"
    using assms(4) presets_advertised(2) by (auto simp: WALLET_PRESETS_def PRESET_PARAMS_def)
  have auth: "authorised (proc_env w) (Some (ar_key req))"
    using assms(6,7) by (auto simp: admin_only_def requireAdminKey_None [symmetric] requireAdminKey_def split: option.splits if_splits)
  have "(cview d', rview d') = wallet_effect (w_text W) now (PutPreset body) (cview d, rview d)"
    using wallet_store.route_effect [OF assms(1,2,6)] assms(7) auth by (simp add: body_def)
  then have v: "cview d' = change i (apply_preset (U (wp_id p)) q now) (cview d)" "rview d' = rview d"
    using b q(1) assms(3) by simp_all
  define row where "row = old\<lparr>wc_strategyPreset := U (wp_id p), wc_riskPerTradeSol := parse_float (U (wp_buy p)), wc_updatedAt := Some now\<rparr>"
  have row: "wc_strategyPreset row = U (wp_id p)" by (simp add: row_def)
  have sent: "get (wire (wallet_config_json row)) ''strategyPreset'' = S (wp_id p)"
    by (simp add: wallet_config_json_def wire_obj row S_def)
  have ids: "wp_id p \<in> {''conservative'', ''balanced'', ''aggressive''}" using assms(4) by (auto simp: WALLET_PRESETS_def)
  have act: "filter (\<lambda>v. v = S (wp_id p)) [S ''conservative'', S ''balanced'', S ''aggressive''] = [S (wp_id p)]"
    using ids by (elim insertE emptyE) simp_all
  have "wallet_active (wire (wallet_config_json row)) = S (wp_id p)" by (simp add: wallet_active_def sent nvl_def S_def)
  then have tiles: "active_tiles [WalletPresetCard wallet (wire (wallet_config_json row)) False k c] = [S (wp_id p)]"
    by (simp only: active_wallet act)
  have "\<not> nullish (wire (wallet_config_json row))" by (simp add: wallet_config_json_def wire_obj)
  then have data: "fetch_active_preset True (Inr (wire (wallet_config_json row))) = Inr (obj [(''preset'', S (wp_id p))])"
    by (simp add: fetch_active_preset_def read_prop_def sent nvl_def S_def)
  have "settings_active (obj [(''preset'', S (wp_id p))]) = S (wp_id p)" by (simp add: settings_active_def nvl_def S_def)
  then have "active_tiles [StrategyPresetCard (obj [(''preset'', S (wp_id p))]) k c] = [S (wp_id p)]"
    by (simp only: active_settings act)
  moreover have "cview d' = (cview d)(i := Some row)"
    using v(1) assms(8) q(2) by (simp add: change_def apply_preset_def row_def)
  ultimately show ?thesis using auth b(3) v(2) tiles data unfolding row_def Let_def by (auto simp: authorised_def)
qed

theorem preset_selected_witness:
  "\<exists>p req out d' h' row. p \<in> set WALLET_PRESETS \<and> wp_id p = ''aggressive'' \<and>
     changePreset (U ''w1'') (U ''aggressive'', U '' k'') = Some req \<and>
     wallet_route mem_wallet_db demo_engines 5 (Some (ar_key req)) (PutPreset (wire (ar_body req))) (demo_wallets ''enabled'', [])
       = (out, (d', h')) \<and>
     map_of (mw_cfg d') (U ''w1'') = Some row \<and> wc_riskPerTradeSol row = parse_float (U ''0.5 SOL'') \<and>
     wc_dailyLossLimitSol row = wc_dailyLossLimitSol (new_wallet_config (U ''w1'') 0) \<and>
     active_tiles [WalletPresetCard VUndef (wire (wallet_config_json row)) False []
       \<lparr>cd_pending = None, cd_remember = False, cd_busy = False, cd_sent = []\<rparr>] = [S ''aggressive'']"
proof -
  define p where "p = WALLET_PRESETS ! 2"
  have p: "p \<in> set WALLET_PRESETS" "wp_id p = ''aggressive''" "wp_buy p = ''0.5 SOL''" by (simp_all add: p_def WALLET_PRESETS_def)
  have "header_value (U '' k'') = Some (U ''k'')" by (simp add: header_value_def http_ws_def U_def)
  then obtain req where req: "changePreset (U ''w1'') (U ''aggressive'', U '' k'') = Some req" "ar_key req = U ''k''"
    by (simp add: changePreset_def admin_fetch_def)
  obtain out d' h' where r: "wallet_route mem_wallet_db demo_engines 5 (Some (ar_key req)) (PutPreset (wire (ar_body req)))
      (demo_wallets ''enabled'', []) = (out, (d', h'))" by (metis prod.collapse)
  have body: "get (wire (ar_body req)) ''preset'' = VStr (U ''aggressive'')" "get (wire (ar_body req)) ''wallet_id'' = VStr (U ''w1'')"
    "\<not> nullish (wire (ar_body req))"
    using req(1) by (auto simp: changePreset_def admin_fetch_Some wire_obj S_def)
  have auth: "requireAdminKey (proc_env demo_engines) (Some (U ''k'')) = None"
    by (simp add: requireAdminKey_None)
  have w: "w_text mem_wallet_db (VStr s) = Inr s" for s by (simp add: mem_wallet_db_def)
  have "U ''aggressive'' \<in> set VALID_PRESETS" by (simp add: VALID_PRESETS_def)
  then have ok: "is_ok out"
    using r req(2) by (auto simp: admin_only_def auth put_preset_def body nvl_def mem_wallet_db_def mem_ops_def demo_wallets_def Let_def)
  define old where "old = (new_wallet_config (U ''w1'') 0)\<lparr>wc_status := U ''enabled''\<rparr>"
  have old: "map_of (mw_cfg (demo_wallets ''enabled'')) (U ''w1'') = Some old" by (simp add: demo_wallets_def old_def)
  have sent: "changePreset (U ''w1'') (U (wp_id p), U '' k'') = Some req" using req(1) p(2) by simp
  define c :: "jstr card" where "c = \<lparr>cd_pending = None, cd_remember = False, cd_busy = False, cd_sent = []\<rparr>"
  define row where "row = old\<lparr>wc_strategyPreset := U (wp_id p), wc_riskPerTradeSol := parse_float (U (wp_buy p)), wc_updatedAt := Some 5\<rparr>"
  have sel: "changePreset (U ''w1'') (U (wp_id p), U '' k'') = Some req \<or> U ''w1'' = U ''wallet_001'' \<and> savePreset (U (wp_id p), U '' k'') = Some req"
    using sent by (rule disjI1)
  note set = preset_selected [where cview = "\<lambda>d. map_of (mw_cfg d)" and rview = "\<lambda>d. map_of (mw_reg d)" and wallet = VUndef and k = "[]" and c = c,
      OF mem_wallets.wallet_store_axioms demo_invar w p(1) sel r ok old]
  have "map_of (mw_cfg d') (U ''w1'') = Some row" using set unfolding Let_def row_def by simp
  moreover have "active_tiles [WalletPresetCard VUndef (wire (wallet_config_json row)) False [] c] = [S ''aggressive'']"
    using set unfolding Let_def row_def p(2) by blast
  moreover have "wc_riskPerTradeSol row = parse_float (U ''0.5 SOL'')"
    "wc_dailyLossLimitSol row = wc_dailyLossLimitSol (new_wallet_config (U ''w1'') 0)"
    by (simp_all add: row_def old_def p(3))
  ultimately show ?thesis using p(1,2) req(1) r unfolding c_def by blast
qed

end
