(* ===== verification/SettingsViews.thy ===== *)
theory SettingsViews
  imports SettingsPage PresetCards
begin

text \<open>
  What \<open>pages/Settings.tsx\<close> shows: the wallet and the RPC status as \<open>GET /settings/status\<close> answers them, the preset
  card, and the three editable cards, whose state is in \<open>SettingsPage\<close>.
\<close>

section \<open>Queries\<close>

definition fetch_settings_status :: "bool \<Rightarrow> exn + jsval \<Rightarrow> exn + jsval" where
  "fetch_settings_status res_ok json = (if res_ok then json else Inl (Err (U ''Failed to fetch settings status'')))"

definition fetch_settings_config :: "bool \<Rightarrow> exn + jsval \<Rightarrow> exn + jsval" where
  "fetch_settings_config res_ok json = (if res_ok then json else Inl (Err (U ''Failed to fetch config'')))"

section \<open>Small parts\<close>

definition StatusIcon :: "jsval \<Rightarrow> 'a view" where
  "StatusIcon v = el (if truthy v then ''CheckCircle'' else ''XCircle'') []"

definition LatencyBadge :: "jsval \<Rightarrow> 'a view" where
  "LatencyBadge ms =
     (if ms = VNull then el ''Badge'' [T ''Offline'']
      else El ''span'' [(''tone'', S (if num_lt (to_num ms) (NumI 200) then ''green'' else if num_lt (to_num ms) (NumI 600) then ''yellow'' else ''red''))]
        [] (child ms @ [T '' ms'']))"

definition RestartNotice :: "'a view" where
  "RestartNotice = el ''div'' [el ''span''
     [T ''Changes saved. '', el ''strong'' [T ''Restart the trading engine''],
      T '' for connection or risk settings to take effect.'']]"

section \<open>The editable cards\<close>

datatype settings_action =
    EditRpcUrl jstr | EditRpcUrls jstr | EditJitoUrl jstr | TestRpc | SaveConnection
  | EditGrpcUrl jstr | EditPythonUrl jstr | SaveServices
  | EditTipPercent jstr | EditTipFloor jstr | EditTipCeiling jstr | EditSimEnabled bool | SaveJito
  | OnPreset preset_action

definition field :: "string \<Rightarrow> 'a view list \<Rightarrow> string \<Rightarrow> string \<Rightarrow> jstr \<Rightarrow> (jstr \<Rightarrow> 'a) \<Rightarrow> 'a view list" where
  "field fid label hint placeholder v edit =
     [El ''Label'' [(''htmlFor'', S fid)] [] (label @ [el ''span'' [T hint]]),
      El ''Input'' [(''id'', S fid), (''value'', VStr v), (''placeholder'', S placeholder)] [(''onChange'', \<lambda>e. edit (event_text e))] []]"

definition dashed :: "string \<Rightarrow> string \<Rightarrow> jstr" where
  "dashed a b = U a @ DASH @ U b"

definition test_result :: "jsval \<Rightarrow> 'a view list" where
  "test_result r = and_view r [el ''div''
     [StatusIcon (get r ''ok''),
      Txt (if truthy (get r ''ok'') then dashed ''Connected '' '' '' @ to_str (get r ''latencyMs'') @ U ''ms''
           else dashed ''Connection failed '' '' check the URL'')]]"

definition connection_view :: "connection_card \<Rightarrow> settings_action view" where
  "connection_view c = el ''Card''
     [el ''CardHeader'' [el ''CardTitle'' [T ''Connection'']],
      el ''CardContent''
       ((if cc_showRestart c then [RestartNotice] else [])
        @ [el ''div''
            ([El ''Label'' [(''htmlFor'', S ''rpc-url'')] [] [T ''Primary RPC URL'', el ''span'' [T ''(SOLANA_RPC_URL)'']],
              el ''div''
               [El ''Input'' [(''id'', S ''rpc-url''), (''value'', VStr (cc_rpcUrl c)),
                    (''placeholder'', S ''https://your-rpc.helius.xyz/...'')] [(''onChange'', \<lambda>e. EditRpcUrl (event_text e))] [],
                El ''Button'' [(''disabled'', VBool (cc_isTesting c \<or> trim (cc_rpcUrl c) = []))] [(''onClick'', \<lambda>_. TestRpc)]
                  [el (if cc_isTesting c then ''Loader2'' else ''FlaskConical'') [], el ''span'' [T ''Test'']]]]
             @ test_result (cc_testResult c)),
           el ''div''
            [El ''Label'' [(''htmlFor'', S ''rpc-urls'')] []
               [T ''Failover RPC URLs'', el ''span'' [Txt (dashed ''(SOLANA_RPC_URLS '' '' comma-separated, optional)'')]],
             El ''Input'' [(''id'', S ''rpc-urls''), (''value'', VStr (cc_rpcUrls c)),
                 (''placeholder'', S ''https://backup1.rpc.com,https://backup2.rpc.com'')] [(''onChange'', \<lambda>e. EditRpcUrls (event_text e))] []],
           el ''div''
            [El ''Label'' [(''htmlFor'', S ''jito-url'')] []
               [T ''Jito Bundle URL'', el ''span'' [Txt (dashed ''(JITO_BUNDLE_URL '' '' optional, enables MEV protection)'')]],
             El ''Input'' [(''id'', S ''jito-url''), (''value'', VStr (cc_jitoUrl c)),
                 (''placeholder'', S ''https://mainnet.block-engine.jito.wtf/api/v1/bundles'')] [(''onChange'', \<lambda>e. EditJitoUrl (event_text e))] []],
           El ''Button'' [(''disabled'', VBool (cc_isSaving c))] [(''onClick'', \<lambda>_. SaveConnection)]
             [el (if cc_isSaving c then ''Loader2'' else ''Save'') [], T ''Save connection settings'']])]"

definition service_view :: "service_card \<Rightarrow> settings_action view" where
  "service_view c = el ''Card''
     [el ''CardHeader'' [el ''CardTitle'' [T ''Internal Service URLs'']],
      el ''CardContent''
       [el ''div'' (field ''grpc-url'' [T ''Rust gRPC Address''] ''(RUST_GRPC_URL)'' ''localhost:50051'' (su_grpcUrl c) EditGrpcUrl),
        el ''div'' (field ''python-url'' [T ''Python Strategy Engine URL''] ''(PYTHON_STRATEGY_URL)'' ''http://localhost:8001''
          (su_pythonUrl c) EditPythonUrl),
        El ''Button'' [(''disabled'', VBool (su_isSaving c))] [(''onClick'', \<lambda>_. SaveServices)]
          [el (if su_isSaving c then ''Loader2'' else ''Save'') [], T ''Save service URLs'']]]"

definition jito_view :: "jito_card \<Rightarrow> settings_action view" where
  "jito_view c = el ''Card''
     [el ''CardHeader'' [el ''CardTitle'' [T ''Jito MEV Settings'']],
      el ''CardContent''
       ((if jc_savedOk c then
           [el ''div'' [el ''span'' [T ''Settings saved. Changes apply to the '', el ''strong'' [T ''next order''],
              Txt (dashed '' '' '' no engine restart required.'')]]] else [])
        @ [el ''div''
            [El ''Label'' [(''htmlFor'', S ''jito-tip-pct'')] []
               [T ''Tip Percent'', el ''span'' [Txt (dashed ''(JITO_TIP_PERCENT '' '' fraction of trade value, e.g. 0.001 = 0.1%)'')]],
             el ''div''
              [El ''Input'' [(''id'', S ''jito-tip-pct''), (''value'', VStr (jc_tipPercent c)), (''placeholder'', S ''0.001'')]
                 [(''onChange'', \<lambda>e. EditTipPercent (event_text e))] [],
               el ''span'' [T ''= '', Txt (tipPercentDisplay (jc_tipPercent c)), T '' of trade value'']]],
           el ''div''
            [el ''div'' (field ''jito-floor'' [T ''Tip Floor''] ''(JITO_TIP_FLOOR_LAMPORTS)'' ''5000'' (jc_tipFloor c) EditTipFloor
               @ [el ''p'' [T ''Min tip: '', Txt (lamportsToSol (jc_tipFloor c))]]),
             el ''div'' (field ''jito-ceiling'' [T ''Tip Ceiling''] ''(JITO_TIP_CEILING_LAMPORTS)'' ''10000000'' (jc_tipCeiling c) EditTipCeiling
               @ [el ''p'' [T ''Max tip: '', Txt (lamportsToSol (jc_tipCeiling c))]])],
           el ''div''
            [El ''Switch'' [(''id'', S ''jito-sim''), (''checked'', VBool (jc_simEnabled c))]
               [(''onCheckedChange'', \<lambda>e. EditSimEnabled (truthy e))] [],
             El ''Label'' [(''htmlFor'', S ''jito-sim'')] [] [T ''Pre-submission Simulation'', el ''span'' [T ''(JITO_SIMULATION_ENABLED)'']],
             el ''Badge'' [T (if jc_simEnabled c then ''Enabled'' else ''Disabled'')]],
           El ''Button'' [(''disabled'', VBool (jc_isSaving c))] [(''onClick'', \<lambda>_. SaveJito)]
             [el (if jc_isSaving c then ''Loader2'' else ''Save'') [], T ''Save Jito settings'']])]"

section \<open>The status sections\<close>

definition Code :: "string \<Rightarrow> 'a view" where
  "Code s = el ''code'' [T s]"

definition setup_step :: "string \<Rightarrow> string \<Rightarrow> 'a view list \<Rightarrow> 'a view" where
  "setup_step n title kids = el ''div'' (el ''div'' [el ''span'' [T n], el ''p'' [T title]] # kids)"

definition WalletSetupGuide :: "'a view" where
  "WalletSetupGuide = el ''div''
     [el ''p'' [T ''How to set up your wallet (safe method)''],
      el ''div''
       [el ''strong'' [T ''Never paste your private key or key bytes into any web interface.''], T '' '',
        T ''Use the file-path method below to keep your key material server-side only.''],
      el ''div''
       [setup_step ''1'' ''Generate a keypair file on the server''
          [el ''div'' [T ''solana-keygen new --outfile /secrets/wallet.json --no-bip39-passphrase''],
           el ''p'' [T ''Run this on the machine where the trading engine runs, not on your local computer.'']],
        setup_step ''2'' ''Set the path as a Replit Secret''
          [el ''ol''
            [el ''li'' [T ''Open the '', el ''strong'' [T ''Secrets''], T '' panel (padlock icon in the sidebar)''],
             el ''li'' [T ''Add a secret with key '', Code ''KEYPAIR_PATH''],
             el ''li'' [T ''Set the value to the '', el ''em'' [T ''file path''], T '', e.g. '', Code ''/secrets/wallet.json'']],
           el ''p'' [T ''The trading engine reads the file at startup. The key never leaves the server.'']],
        setup_step ''3'' ''Alternative: register via the Wallets page''
          [el ''p'' [T ''Your operator can also register wallets via '', Code ''POST /api/wallets'',
             T '' with the admin API key. The path is stored server-side and never returned to the UI.'']],
        setup_step ''4'' ''Restart the Trading Engine''
          [el ''p'' [T ''Click '', el ''strong'' [T ''Restart''], T '' next to'', T '' '', Code ''rust-engine: Trading Engine'',
             T '' in the Replit toolbar. The wallet badge above will turn green.'']]]]"

definition wallet_section :: "jsval \<Rightarrow> 'a view list" where
  "wallet_section status = and_view status
     (if nullish (get status ''wallet'') then [Throw (read_err (get status ''wallet'') ''configured'')]
      else let wallet = get status ''wallet''; source = get wallet ''source''; configured = get wallet ''configured'';
               pubkey = get wallet ''pubkey'' in
       [el ''Card''
         [el ''CardHeader'' [el ''CardTitle'' [T ''Wallet'', el ''Badge'' [T ''Read-only'']]],
          el ''CardContent''
           ([el ''div''
              ([StatusIcon configured,
                el ''div''
                 ([el ''div'' [T (if truthy configured then ''Wallet configured'' else ''No wallet configured'')]]
                  @ and_view source [el ''div'' [T ''Source: '', el ''span'' (child source)]])]
               @ and_view configured [el ''Badge'' [T (if source = S ''WALLET_PRIVATE_KEY'' then ''Env Secret'' else ''Key File'')]])]
            @ (if truthy pubkey then [el ''div'' [el ''div'' [T ''Public Key''], el ''div'' (child pubkey)]]
               else if truthy configured then
                 [el ''div'' [T ''Public key is available once the Rust engine starts with the configured keypair path.'']]
               else [el ''div''
                  [T ''No execution wallet registered. Ask your operator to add a wallet via the admin CLI or register one via the'',
                   T '' '', el ''strong'' [T ''Wallets page''], T ''.''],
                 WalletSetupGuide]))]])"

definition rpc_section :: "jsval \<Rightarrow> 'a view list" where
  "rpc_section status =
     (let rpc = get status ''rpc'' in and_view rpc
       [el ''Card''
         [el ''CardHeader'' [el ''CardTitle'' [el (if truthy (get rpc ''online'') then ''Wifi'' else ''WifiOff'') [], T ''RPC Status'']],
          el ''CardContent''
           ([el ''div''
              ([StatusIcon (get rpc ''online''),
                el ''span'' [T (if truthy (get rpc ''online'') then ''Connected'' else ''Offline / Unreachable'')]]
               @ and_view (get rpc ''configured'') [LatencyBadge (nvl (get rpc ''latencyMs'') VNull)])]
            @ and_view (get rpc ''url'') [el ''div'' (child (get rpc ''url''))])]])"

text \<open>The page: the answers of both queries (\<open>undefined\<close> while there is none), the time of the last answer, and the
  cards' states.\<close>

record settings_state =
  ss_status :: jsval
  ss_isLoading :: bool
  ss_error :: bool
  ss_lastUpdated :: "jstr option"
  ss_config :: bool \<comment> \<open>\<open>config && !configLoading\<close>\<close>
  ss_preset :: jsval
  ss_presetCard :: "jstr card"
  ss_connection :: connection_card
  ss_jito :: jito_card
  ss_service :: service_card

definition settings_page :: "settings_state \<Rightarrow> jstr \<Rightarrow> settings_action view list" where
  "settings_page s adminKey = [el ''div''
     ([el ''div''
        [el ''div'' (el ''h1'' [T ''Settings'']
           # (case ss_lastUpdated s of Some t \<Rightarrow> if t \<noteq> [] then [el ''p'' [T ''Updated '', Txt t]] else [] | None \<Rightarrow> [])),
         el ''p'' [T ''Connection and service configuration. Wallet keys are managed server-side via'', T '' '',
           el ''code'' [T ''KEYPAIR_PATH''], T ''.'']]]
      @ (if ss_isLoading s then [el ''div'' [Txt (U ''Loading configuration status'' @ [0x2026])]] else [])
      @ (if ss_error s then [el ''div'' [Txt (dashed ''Failed to load settings '' '' API server may be offline.'')]] else [])
      @ wallet_section (ss_status s)
      @ [map_view OnPreset (StrategyPresetCard (ss_preset s) adminKey (ss_presetCard s))]
      @ (if ss_config s then [connection_view (ss_connection s), jito_view (ss_jito s), service_view (ss_service s)] else [])
      @ rpc_section (ss_status s))]"

section \<open>What the page shows and what it does not\<close>

lemma cards_render: "renders [StrategyPresetCard data k c]" "renders [connection_view x]" "renders [jito_view y]" "renders [service_view z]"
proof -
  have t: "\<not> crashes (settings_tile a c p)" for a p by (simp add: settings_tile_def tile_def Let_def)
  have "renders (preset_prompts l i k c)" for l i by (simp add: preset_prompts_def preset_prompt_def split: option.split)
  then show "renders [StrategyPresetCard data k c]" by (simp add: StrategyPresetCard_def renders_def [of "map _ _"] list_ex_iff t)
  have "showable r" if "\<not> truthy r" for r using that by (cases r) simp_all
  then have "renders (test_result r)" for r by (simp add: test_result_def StatusIcon_def)
  then show "renders [connection_view x]" by (simp add: connection_view_def RestartNotice_def)
  show "renders [jito_view y]" "renders [service_view z]" by (simp_all add: jito_view_def service_view_def field_def)
qed

lemma no_lists: "count_tag ''ol'' [StrategyPresetCard data k c] = 0" "count_tag ''ol'' [connection_view x] = 0"
  "count_tag ''ol'' [jito_view y] = 0" "count_tag ''ol'' [service_view z] = 0" "count_tag ''ol'' (rpc_section status) = 0"
proof -
  have t: "length (filter (\<lambda>e. fst e = ''ol'') (elements (settings_tile a c p))) = 0" for a p
    by (simp add: settings_tile_def tile_def Let_def)
  have "count_tag ''ol'' (preset_prompts ''label'' i k c) = 0" for i
    by (simp add: preset_prompts_def preset_prompt_def split: option.split)
  then show "count_tag ''ol'' [StrategyPresetCard data k c] = 0" using t by (simp add: StrategyPresetCard_def SETTINGS_PRESETS_def)
  have "count_tag ''ol'' (test_result r) = 0" for r by (simp add: test_result_def StatusIcon_def)
  then have "filter (\<lambda>e. fst e = ''ol'') (elements_of (test_result r)) = []" for r
    unfolding count_tag_def by (simp del: count_tag_fold)
  then show "count_tag ''ol'' [connection_view x] = 0" by (simp add: connection_view_def RestartNotice_def)
  show "count_tag ''ol'' [jito_view y] = 0" "count_tag ''ol'' [service_view z] = 0" by (simp_all add: jito_view_def service_view_def field_def)
  show "count_tag ''ol'' (rpc_section status) = 0"
    by (simp add: rpc_section_def StatusIcon_def LatencyBadge_def Let_def)
qed

lemma hides_map_view: "hides [v] [w] \<Longrightarrow> hides [map_view f v] [map_view f w]"
  by (simp add: hides_def)

text \<open>The page of a server: whatever the environment, the tables and the RPC endpoint, it can be shown, in every state.\<close>

definition status_answer :: "env \<Rightarrow> (jstr \<Rightarrow> exn + jstr) \<Rightarrow> rpc_world \<Rightarrow> 'd config_table \<Rightarrow> 'd \<Rightarrow> jsval" where
  "status_answer e readFile p tab d = wire (r_body (fst (get_settings_status e readFile p tab d)))"

lemma status_parts:
  "get (status_answer e readFile p tab d) ''wallet'' = obj
     [(''pubkey'', of_opt VStr (wi_pubkey (deriveWalletPubkey e readFile))), (''source'', of_opt S (wi_source (deriveWalletPubkey e readFile))),
      (''configured'', VBool (env_truthy e ''WALLET_PRIVATE_KEY'' \<or> env_truthy e ''KEYPAIR_PATH''))]"
  "truthy (status_answer e readFile p tab d)"
  "\<exists>u c l on. get (status_answer e readFile p tab d) ''rpc'' = obj
     [(''url'', of_opt VStr u), (''configured'', VBool c), (''latencyMs'', of_opt VI l), (''online'', VBool on)]"
proof -
  have w: "wire (of_opt VStr x) = of_opt VStr x" "wire (of_opt S y) = of_opt S y" "wire (of_opt VI z) = of_opt VI z"
    "of_opt VStr x \<noteq> VUndef" "of_opt S y \<noteq> VUndef" "of_opt VI z \<noteq> VUndef" for x y z
    by (simp_all add: of_opt_def S_def split: option.split)
  note defs = status_answer_def get_settings_status_def Let_def wire_obj
  show "get (status_answer e readFile p tab d) ''wallet'' = obj
     [(''pubkey'', of_opt VStr (wi_pubkey (deriveWalletPubkey e readFile))), (''source'', of_opt S (wi_source (deriveWalletPubkey e readFile))),
      (''configured'', VBool (env_truthy e ''WALLET_PRIVATE_KEY'' \<or> env_truthy e ''KEYPAIR_PATH''))]"
    by (simp add: defs w split: prod.split)
  show "truthy (status_answer e readFile p tab d)" by (simp add: defs w split: prod.split)
  have u: "(case r of Some u \<Rightarrow> VStr (f u) | None \<Rightarrow> VNull) = of_opt VStr (map_option f r)" for r and f :: "jstr \<Rightarrow> jstr"
    by (simp add: of_opt_def split: option.split)
  show "\<exists>u c l on. get (status_answer e readFile p tab d) ''rpc'' = obj
     [(''url'', of_opt VStr u), (''configured'', VBool c), (''latencyMs'', of_opt VI l), (''online'', VBool on)]"
    by (auto simp: defs u w split: prod.split)
qed

lemma sections_render:
  "renders (wallet_section (status_answer e readFile p tab d) :: 'a view list)"
  "renders (rpc_section (status_answer e readFile p tab d) :: 'a view list)"
proof -
  obtain u c l on where rpc: "get (status_answer e readFile p tab d) ''rpc'' = obj
     [(''url'', of_opt VStr u), (''configured'', VBool c), (''latencyMs'', of_opt VI l), (''online'', VBool on)]"
    using status_parts(3) [of e readFile p tab d] by blast
  have sh: "showable (of_opt VStr x)" "showable (of_opt S y)" "showable (nvl (of_opt VI l) VNull)" for x y
    by (simp_all add: of_opt_def S_def nvl_def split: option.split)
  have guide: "renders [WalletSetupGuide :: 'a view]" by (simp add: WalletSetupGuide_def setup_step_def Code_def)
  show "renders (wallet_section (status_answer e readFile p tab d) :: 'a view list)"
    using guide sh by (simp add: wallet_section_def status_parts(1,2) StatusIcon_def Let_def)
  show "renders (rpc_section (status_answer e readFile p tab d) :: 'a view list)"
    using sh by (simp add: rpc_section_def rpc StatusIcon_def LatencyBadge_def Let_def)
qed

lemma guide_count: "count_tag ''ol'' (wallet_section (status_answer e readFile p tab d) :: 'a view list) =
  (if (case wi_pubkey (deriveWalletPubkey e readFile) of Some k \<Rightarrow> k \<noteq> [] | None \<Rightarrow> False)
      \<or> env_truthy e ''WALLET_PRIVATE_KEY'' \<or> env_truthy e ''KEYPAIR_PATH'' then 0 else 1)"
proof -
  have g: "count_tag ''ol'' [WalletSetupGuide :: 'a view] = 1" by (simp add: WalletSetupGuide_def setup_step_def Code_def)
  show ?thesis
    using g by (auto simp: wallet_section_def status_parts(1,2) StatusIcon_def of_opt_def Let_def split: option.split)
qed

text \<open>C10: the settings page shows no secret, from the server's environment to the screen: of the
  wallet's private key nothing beyond its presence and the public key derived from it. Take
  two servers whose environments differ in nothing but the private key of the wallet and the database's URL, both set
  or both unset and with the same public key, and two typed admin keys, both empty or neither. Then the settings pages
  that their status answers give, in any state of the cards, can be shown and have the same texts, elements and
  attributes, except in the password field; and the page explains how to set up a wallet exactly when there is neither
  a public key to show nor a configured wallet.\<close>

theorem settings_page_hides_secrets:
  assumes "\<And>k. k \<noteq> U ''WALLET_PRIVATE_KEY'' \<Longrightarrow> k \<noteq> U ''DATABASE_URL'' \<Longrightarrow> e1 k = e2 k"
    and "env_truthy e1 ''WALLET_PRIVATE_KEY'' = env_truthy e2 ''WALLET_PRIVATE_KEY''"
    and "env_truthy e1 ''DATABASE_URL'' = env_truthy e2 ''DATABASE_URL''"
    and "deriveWalletPubkey e1 readFile = deriveWalletPubkey e2 readFile"
    and "k1 = [] \<longleftrightarrow> k2 = []"
  shows "(let page = (\<lambda>e k. settings_page (s\<lparr>ss_status := status_answer e readFile p tab d\<rparr>) k) in
    renders (page e1 k1) \<and> hides (page e1 k1) (page e2 k2) \<and>
    count_tag ''ol'' (page e1 k1) =
      (if (case wi_pubkey (deriveWalletPubkey e1 readFile) of Some k \<Rightarrow> k \<noteq> [] | None \<Rightarrow> False)
          \<or> env_truthy e1 ''WALLET_PRIVATE_KEY'' \<or> env_truthy e1 ''KEYPAIR_PATH'' then 0 else 1))"
proof -
  define status where "status = status_answer e1 readFile p tab d"
  have same: "status_answer e2 readFile p tab d = status"
    using status_hides_secrets [OF assms(1-4), of p tab d] by (simp add: status_answer_def status_def)
  note cards = cards_render(1) [of "ss_preset s" k1 "ss_presetCard s"] cards_render(2-4)
  have r: "renders (settings_page (s\<lparr>ss_status := status\<rparr>) k1)"
    using cards sections_render [where 'a = settings_action, of e1 readFile p tab d] by (simp add: settings_page_def status_def split: option.split)
  have h: "hides (settings_page (s\<lparr>ss_status := status\<rparr>) k1) (settings_page (s\<lparr>ss_status := status\<rparr>) k2)"
    unfolding settings_page_def StrategyPresetCard_def
    by (intro hides_intros hides_map_view prompts_hide [OF assms(5)])
  have c: "count_tag ''ol'' (settings_page (s\<lparr>ss_status := status\<rparr>) k1) = count_tag ''ol'' (wallet_section status :: settings_action view list)"
    using no_lists(1) [of "ss_preset s" k1 "ss_presetCard s"] no_lists(2-5)
    by (simp add: settings_page_def split: option.split)
  show ?thesis using r h c guide_count [where 'a = settings_action, of e1 readFile p tab d] same by (simp add: status_def)
qed

definition demo_settings :: settings_state where
  "demo_settings = \<lparr>ss_status = VUndef, ss_isLoading = False, ss_error = False, ss_lastUpdated = None, ss_config = True, ss_preset = VUndef,
     ss_presetCard = \<lparr>cd_pending = Some (U ''balanced''), cd_remember = False, cd_busy = False, cd_sent = []\<rparr>,
     ss_connection = connection_open Map.empty, ss_jito = jito_open Map.empty, ss_service = service_open Map.empty\<rparr>"

theorem settings_page_hides_secrets_witness:
  "let page = (\<lambda>e. settings_page (demo_settings\<lparr>ss_status := status_answer e demo_files demo_rpc mem_config_table demo_config\<rparr>)) in
     hides (page [U ''DATABASE_URL'' \<mapsto> U ''postgres://a''] (U ''key'')) (page [U ''DATABASE_URL'' \<mapsto> U ''postgres://b''] (U ''lock'')) \<and>
     count_tag ''ol'' (page [U ''DATABASE_URL'' \<mapsto> U ''postgres://a''] (U ''key'')) = 1"
proof -
  let ?e1 = "[U ''DATABASE_URL'' \<mapsto> U ''postgres://a'']" and ?e2 = "[U ''DATABASE_URL'' \<mapsto> U ''postgres://b'']"
  have e: "?e1 k = ?e2 k" if "k \<noteq> U ''DATABASE_URL''" for k using that by simp
  have n: "\<not> env_truthy e ''WALLET_PRIVATE_KEY'' \<and> \<not> env_truthy e ''KEYPAIR_PATH'' \<and> env_truthy e ''DATABASE_URL''"
    if "e = ?e1 \<or> e = ?e2" for e using that by (auto simp: env_truthy_def)
  have t: "env_truthy ?e1 ''WALLET_PRIVATE_KEY'' = env_truthy ?e2 ''WALLET_PRIVATE_KEY''"
    "env_truthy ?e1 ''DATABASE_URL'' = env_truthy ?e2 ''DATABASE_URL''" using n by simp_all
  have w: "deriveWalletPubkey e demo_files = \<lparr>wi_pubkey = None, wi_source = None\<rparr>" if "e = ?e1 \<or> e = ?e2" for e
    using n [OF that] by (simp add: deriveWalletPubkey_def)
  have k: "U ''key'' = [] \<longleftrightarrow> U ''lock'' = []" by simp
  have w2: "deriveWalletPubkey ?e1 demo_files = deriveWalletPubkey ?e2 demo_files" using w by simp
  show ?thesis
    using settings_page_hides_secrets [OF e t w2 k, of demo_rpc mem_config_table demo_config demo_settings] w [of ?e1] n
    unfolding Let_def by simp
qed

end
