(* ===== verification/StrategiesPage.thy ===== *)
theory StrategiesPage
  imports PresetCards Charts Settings
begin

text \<open>
  \<open>pages/Strategies.tsx\<close>: the back-test panel, whose request and draw-down are in \<open>Charts\<close>, and the page around it
  and the preset cards of \<open>PresetCards\<close>.
\<close>

section \<open>The back-test panel\<close>

definition STRATEGIES :: "(string \<times> string \<times> string) list" where
  "STRATEGIES =
     [(''sniper'', ''Sniper'', ''Enters early when bonding curve progress < 30% with upward momentum.''),
      (''momentum'', ''Momentum'', ''Enters when 5-bar MA crosses above 20-bar MA.'')]"

record backtest_panel =
  bp_strategy :: jstr
  bp_buy :: jstr
  bp_stop :: jstr
  bp_take :: jstr
  bp_days :: jstr
  bp_result :: jsval
  bp_error :: "jstr option"
  bp_busy :: bool \<comment> \<open>\<open>runBacktest.isPending\<close>\<close>

definition panel_open :: backtest_panel where
  "panel_open = \<lparr>bp_strategy = U ''sniper'', bp_buy = [], bp_stop = [], bp_take = [], bp_days = U ''7'', bp_result = VNull,
     bp_error = None, bp_busy = False\<rparr>"

datatype panel_action =
    SelectStrategy string | LoadDefaults string | ClearOverrides | EditDays jstr | EditBuy jstr | EditStop jstr | EditTake jstr | Run

definition edit_days :: "jstr \<Rightarrow> backtest_panel \<Rightarrow> backtest_panel" where
  "edit_days v p =
     (let n = parse_int10 v
      in if v = [] then p\<lparr>bp_days := []\<rparr>
         else p\<lparr>bp_days := num_to_string (math_min (NumI 90) (math_max (NumI 1) (if n = NaN then NumI 1 else n)))\<rparr>)"

text \<open>Each handler: the request it sends, if it does, and the new state. A disabled button sends nothing.\<close>

fun panel_act :: "panel_action \<Rightarrow> backtest_panel \<Rightarrow> jsval option \<times> backtest_panel" where
  "panel_act (SelectStrategy s) p = (None, p\<lparr>bp_strategy := U s, bp_result := VNull, bp_error := None\<rparr>)"
| "panel_act (LoadDefaults preset) p =
     (case map_of PRESET_DEFAULTS preset of
        Some (b, st, tk) \<Rightarrow>
          (None, p\<lparr>bp_buy := num_to_string b, bp_stop := num_to_string st, bp_take := num_to_string tk\<rparr>)
      | None \<Rightarrow> (None, p))"
| "panel_act ClearOverrides p = (None, p\<lparr>bp_buy := [], bp_stop := [], bp_take := []\<rparr>)"
| "panel_act (EditDays v) p = (None, edit_days v p)"
| "panel_act (EditBuy v) p = (None, p\<lparr>bp_buy := v\<rparr>)"
| "panel_act (EditStop v) p = (None, p\<lparr>bp_stop := v\<rparr>)"
| "panel_act (EditTake v) p = (None, p\<lparr>bp_take := v\<rparr>)"
| "panel_act Run p =
     (if bp_busy p then (None, p)
      else (Some (backtest_body (bp_strategy p) (bp_days p) (bp_buy p) (bp_stop p) (bp_take p)), p\<lparr>bp_busy := True\<rparr>))"

definition backtest_outcome :: "int \<Rightarrow> exn + jsval \<Rightarrow> exn + jsval" where
  "backtest_outcome status json =
     (if 200 \<le> status \<and> status \<le> 299 then json
      else and_then json (\<lambda>err. and_then (read_prop err ''error'')
        (\<lambda>m. Inl (new_error (nvl m (VStr (U ''Server error '' @ dec_int status)))))))"

definition panel_answered :: "exn + jsval \<Rightarrow> backtest_panel \<Rightarrow> backtest_panel" where
  "panel_answered outcome p =
     (case outcome of
        Inr data \<Rightarrow> p\<lparr>bp_result := data, bp_error := None, bp_busy := False\<rparr>
      | Inl e \<Rightarrow> p\<lparr>bp_error := Some (exn_msg [] e), bp_result := VNull, bp_busy := False\<rparr>)"

section \<open>Its view\<close>

definition MetricTile :: "string \<Rightarrow> exn + jstr \<Rightarrow> (exn + jstr) option \<Rightarrow> 'a view" where
  "MetricTile label value sub = el ''div''
     ([el ''p'' [T label], el ''p'' (text_of value)]
      @ (case sub of Some (Inr s) \<Rightarrow> if s \<noteq> [] then [el ''p'' [Txt s]] else [] | Some (Inl e) \<Rightarrow> [Throw e] | None \<Rightarrow> []))"

definition with_unit :: "exn + jstr \<Rightarrow> string \<Rightarrow> exn + jstr" where
  "with_unit t u = map_sum id (\<lambda>s. s @ U u) t"

text \<open>\<open>`${v >= 0 ? "+" : ""}${v.toFixed(d)}u`\<close>\<close>

definition signed :: "nat \<Rightarrow> jsval \<Rightarrow> string \<Rightarrow> exn + jstr" where
  "signed d v u = map_sum id (\<lambda>s. (if num_le (Fin 0) (to_num v) then U ''+'' else []) @ s @ U u) (fixed d v)"

definition curve_points :: "jsval \<Rightarrow> jsval list" where
  "curve_points v = (case v of VArr xs \<Rightarrow> xs | _ \<Rightarrow> [])"

definition maxDrawdownSol :: "jsval \<Rightarrow> jsnum option" where
  "maxDrawdownSol result =
     (let curve = curve_points (get result ''equity_curve'')
      in if curve \<noteq> [] then Some (peakToTroughDrawdownSol (map to_num curve)) else None)"

definition EquityCurveChart :: "jsval list \<Rightarrow> jsval \<Rightarrow> 'a view" where
  "EquityCurveChart curve initialSol =
     (let data = map (\<lambda>(i, sol). obj [(''i'', VI (int i)), (''sol'', sol)]) (enumerate 0 curve);
          isPositive = (curve \<noteq> [] \<and> num_le (to_num initialSol) (to_num (last curve)));
          colour = S (if isPositive then ''#22c55e'' else ''#ef4444'') in
      El ''ResponsiveContainer'' [(''width'', S ''100%''), (''height'', VI 120)] []
       [El ''AreaChart'' [(''data'', VArr data)] []
         [El ''stop'' [(''offset'', S ''5%''), (''stopColor'', colour)] [] [],
          El ''stop'' [(''offset'', S ''95%''), (''stopColor'', colour)] [] [],
          el ''CartesianGrid'' [], El ''XAxis'' [(''dataKey'', S ''i'')] [] [], el ''YAxis'' [], el ''Tooltip'' [],
          El ''Area'' [(''type'', S ''monotone''), (''dataKey'', S ''sol''), (''stroke'', colour)] [] []]])"

definition result_view :: "jsval \<Rightarrow> 'a view" where
  "result_view result =
     (let n = (\<lambda>k. get result k) in
      el ''div''
       ([el ''div''
          ([el ''span'' (child (n ''strategy'')), Txt (U ''strategy '' @ [0xB7, 32])] @ child (n ''days'') @ [Txt (U ''d '' @ [0xB7, 32])]
           @ child (n ''total_trades'') @ [T '' trades'', el ''span'' [T (if n ''data_source'' = S ''db'' then ''DB data'' else ''In-memory data'')]]),
         el ''div''
          [MetricTile ''Total return'' (signed 2 (n ''total_return_pct'') ''%'') (Some (signed 4 (n ''simulated_pnl_sol'') '' SOL'')),
           MetricTile ''Win rate'' (with_unit (fixed 1 (n ''win_rate'')) ''%'')
             (Some (Inr (to_str (n ''wins'') @ U '' / '' @ to_str (n ''total_trades'') @ U '' wins''))),
           MetricTile ''Sharpe ratio'' (fixed 2 (n ''sharpe_ratio'')) (Some (Inr (U ''annualised''))),
           MetricTile ''Max drawdown'' (with_unit (fixed 2 (n ''max_drawdown_pct'')) ''%'')
             (map_option (\<lambda>dd. Inr (to_fixed 4 dd @ U '' SOL peak-to-trough'')) (maxDrawdownSol result)),
           MetricTile ''Volatility'' (fixed 4 (n ''volatility'')) (Some (Inr (U ''std dev of trade PnL'')))]]
        @ (if 1 < length (curve_points (n ''equity_curve''))
           then [el ''div'' [el ''p'' [T ''Equity curve (SOL)''], EquityCurveChart (curve_points (n ''equity_curve'')) (n ''initial_sol'')]]
           else [])))"

definition number_field :: "string \<Rightarrow> (string \<times> jsval) list \<Rightarrow> jstr \<Rightarrow> (jstr \<Rightarrow> panel_action) \<Rightarrow> panel_action view" where
  "number_field label as v edit = el ''div''
     [el ''Label'' [T label],
      El ''Input'' ([(''type'', S ''number'')] @ as @ [(''value'', VStr v)]) [(''onChange'', \<lambda>e. edit (event_text e))] []]"

definition override_fields :: "backtest_panel \<Rightarrow> panel_action view" where
  "override_fields p = el ''div''
     [number_field ''Days to simulate'' [(''min'', VI 1), (''max'', VI 90), (''placeholder'', S ''7'')] (bp_days p) EditDays,
      number_field ''Buy size (SOL)'' [(''min'', VNum (fl (1 / 1000))), (''step'', VNum (fl (1 / 100))), (''placeholder'', S ''engine default'')]
        (bp_buy p) EditBuy,
      number_field ''Stop loss %'' [(''min'', VNum (fl (1 / 10))), (''max'', VI 100), (''step'', VNum (fl (1 / 2))),
        (''placeholder'', S ''engine default'')] (bp_stop p) EditStop,
      number_field ''Take profit %'' [(''min'', VNum (fl (1 / 10))), (''max'', VI 1000), (''step'', VI 1),
        (''placeholder'', S ''engine default'')] (bp_take p) EditTake]"

definition strategy_selector :: "backtest_panel \<Rightarrow> panel_action view" where
  "strategy_selector p = el ''div''
     [el ''Label'' [T ''Strategy''],
      el ''div'' (map (\<lambda>(i, label, description).
        El ''button'' [(''key'', S i), (''tone'', S (if bp_strategy p = U i then ''active'' else ''plain''))] [(''onClick'', \<lambda>_. SelectStrategy i)]
          [el ''span'' [T label], el ''div'' [T description]]) STRATEGIES)]"

definition defaults_row :: "panel_action view" where
  "defaults_row = el ''div''
     ([el ''span'' [T ''Load param defaults:'']]
      @ map (\<lambda>q. El ''button'' [(''key'', S (wp_id q))] [(''onClick'', \<lambda>_. LoadDefaults (wp_id q))] [T (wp_label q)]) WALLET_PRESETS
      @ [El ''button'' [] [(''onClick'', \<lambda>_. ClearOverrides)] [T ''Clear'']])"

definition BacktestPanel :: "backtest_panel \<Rightarrow> panel_action view" where
  "BacktestPanel p = el ''Card''
     [el ''CardHeader'' [el ''CardTitle'' [T ''Strategy Backtest'', el ''span'' [T ''Read-only simulation'']]],
      el ''CardContent''
       ([el ''p'' [T ''Simulate a strategy against recent price history without affecting live settings. Results are estimates based on available market data.''],
         strategy_selector p, defaults_row, override_fields p,
         El ''Button'' [(''disabled'', VBool (bp_busy p))] [(''onClick'', \<lambda>_. Run)]
           [Txt (if bp_busy p then U ''Running simulation'' @ [0x2026] else U ''Run Backtest'')]]
        @ (case bp_error p of Some e \<Rightarrow> if e \<noteq> [] then [el ''div'' [Txt e]] else [] | None \<Rightarrow> [])
        @ (if truthy (bp_result p) then [result_view (bp_result p)] else child (bp_result p)))]"

section \<open>The page\<close>

datatype strategies_action = OnWallet nat preset_action | OnPanel panel_action

definition strategies_page :: "jsval list option \<Rightarrow> bool \<Rightarrow> bool \<Rightarrow> preset_action view list \<Rightarrow> backtest_panel \<Rightarrow> strategies_action view list" where
  "strategies_page wallets isLoading err cards p = [el ''div''
     ([el ''div'' [el ''h1'' [T ''Trading Strategy Preset''],
         el ''p'' [T ''Select a risk profile for each wallet. The preset controls position size, stop-loss, and take-profit targets across all strategies.'']]]
      @ (if isLoading then [el ''div'' [Txt (U ''Loading wallets'' @ [0x2026])]] else [])
      @ (if err then [el ''div'' [Txt (U ''Failed to load wallets '' @ DASH @ U '' API server may be offline.'')]] else [])
      @ (if wallets = Some [] then
           [el ''Card'' [el ''CardContent'' [T ''No wallets registered. Register a wallet to configure its strategy preset.'']]] else [])
      @ (if wallets = None then [] else map (\<lambda>(i, v). map_view (OnWallet i) v) (enumerate 0 cards))
      @ [el ''div''
          [el ''p'' [T ''About presets''],
           el ''p'' [T ''Presets apply immediately to new signals. Open positions are not affected until their own stop or target is hit.''],
           el ''p'' [T ''The Python strategy engine re-reads the active preset every 12 scan cycles to stay in sync.'']],
         map_view OnPanel (BacktestPanel p)])]"

section \<open>What the panel sends and shows\<close>

text \<open>Small whole numbers print as their digits.\<close>

lemma log10f_one: "1 \<le> q \<Longrightarrow> q < 10 \<Longrightarrow> log10f f q = 0"
  using log10f_bounds [of q 0 f] by simp

lemma dec_nat_two: "n < 100 \<Longrightarrow> dec_nat n = (if n < 10 then [48 + n] else [48 + n div 10, 48 + n mod 10])"
  by (subst dec_nat.simps) (simp add: dec_nat.simps [of "n div 10"] div_less_iff_less_mult)

lemma print_small:
  assumes "1 \<le> k" and "k < 100"
  shows "num_to_string (NumI (int k)) = dec_nat k"
proof -
  have fl: "fl (of_nat m) = Fin (of_nat m)" if "m < 1000" for m using fl_int [of "int m"] that by simp
  have s20: "shortest 20 q n m = (case digit_cands q n m of c # _ \<Rightarrow> c | [] \<Rightarrow> shortest 19 q n (Suc m))" for q n m
    using shortest.simps(2) [of 19 q n m] by simp
  have s19: "shortest 19 q n m = (case digit_cands q n m of c # _ \<Rightarrow> c | [] \<Rightarrow> shortest 18 q n (Suc m))" for q n m
    using shortest.simps(2) [of 18 q n m] by simp
  have strip: "strip_zeros 20 s e = (s, e)" if "s mod 10 \<noteq> 0" for s e
    using strip_zeros.simps(2) [of 19 s e] that by simp
  have p0: "pow10 0 = 1" "pow10 1 = 10" by (simp_all add: pow10_def)
  have pos: "pos_to_string (of_nat k) = dec_nat k"
  proof (cases "k < 10")
    case True
    then have l: "log10f 700 (of_nat k) + 1 = 1" using assms log10f_one [of "of_nat k" 700] by simp
    have d: "digit_cands (of_nat k) 1 1 = (k, 0) # map (\<lambda>s. (s, 0)) (filter (\<lambda>s. fl (of_nat s) = Fin (of_nat k)) [k + 1])"
      using fl [of k] assms by (simp add: digit_cands_def Let_def p0)
    have "k mod 10 \<noteq> 0" using True assms by simp
    then show ?thesis
      unfolding pos_to_string_def l s20 d using assms by (simp add: strip dec_nat_two True Let_def)
  next
    case False
    then have l: "log10f 700 (of_nat k) + 1 = 2"
      using assms log10f.simps(2) [of 699 "of_nat k"] log10f_one [of "of_nat k / 10" 699] by simp
    define a b where "a = k div 10" and "b = k mod 10"
    have ab: "k = 10 * a + b" "b < 10" "1 \<le> a" "a < 10" using False assms by (auto simp: a_def b_def)
    show ?thesis
    proof (cases "b = 0")
      case True
      have fq: "fl (of_nat s * 10) = Fin (of_nat k) \<longleftrightarrow> s = a" if "s \<le> 10" for s
        using fl [of "s * 10"] that ab True by simp
      have d: "digit_cands (of_nat k) 2 1 = [(a, 1)]"
        using fq [of a] fq [of "a + 1"] ab True by (simp add: digit_cands_def Let_def p0)
      have "a mod 10 \<noteq> 0" using ab by simp
      then show ?thesis
        unfolding pos_to_string_def l s20 d using ab True by (simp add: strip dec_nat_two Let_def)
    next
      case False
      have fq: "fl (of_nat s * 10) \<noteq> Fin (of_nat k)" if "s \<le> 10" for s
      proof
        assume "fl (of_nat s * 10) = Fin (of_nat k)"
        then have "rat_of_nat (s * 10) = of_nat k" using fl [of "s * 10"] that by simp
        then have "s * 10 = k" by (simp only: of_nat_eq_iff)
        then have "k mod 10 = 0" by auto
        then show False using False by (simp add: b_def)
      qed
      have fl10: "\<lfloor>rat_of_nat k / 10\<rfloor> = int a" using ab by (intro floor_unique) simp_all
      have d1: "digit_cands (of_nat k) 2 1 = []"
        using fq [of a] fq [of "a + 1"] ab fl10 by (simp add: digit_cands_def Let_def p0)
      have d2: "digit_cands (of_nat k) 2 (Suc 1) = (k, 0) # map (\<lambda>s. (s, 0)) (filter (\<lambda>s. fl (of_nat s) = Fin (of_nat k)) [k + 1])"
        using fl [of k] assms by (simp add: digit_cands_def Let_def p0)
      have "k mod 10 \<noteq> 0" using False b_def by simp
      then show ?thesis
        unfolding pos_to_string_def l s20 d1 s19 list.case d2 using assms \<open>\<not> k < 10\<close> by (simp add: strip dec_nat_two Let_def)
    qed
  qed
  show ?thesis using assms pos by simp
qed

text \<open>What the panel offers: the buttons in order, and the fields.\<close>

lemma no_result_offers: "offers ev (result_view r) = []" "concat (map (offers ev) (child v)) = []"
proof -
  have t: "concat (map (offers ev) (text_of x)) = []" for x by (simp add: text_of_def split: sum.split)
  have m: "offers ev (MetricTile l v s) = []" for l v s
    using t [of v] by (cases s) (auto simp: MetricTile_def split: sum.splits)
  have e: "offers ev (EquityCurveChart xs v) = []" for xs v by (simp add: EquityCurveChart_def Let_def)
  show "offers ev (result_view r) = []" by (simp add: result_view_def m e Let_def)
qed simp

lemma child_offers: "x \<in> set (child v) \<Longrightarrow> offers ev x = []"
  using no_result_offers(2) [of ev v] unfolding concat_eq_Nil_conv by auto

lemma panel_offers:
  "clicks [BacktestPanel p] = [SelectStrategy ''sniper'', SelectStrategy ''momentum'', LoadDefaults ''conservative'',
     LoadDefaults ''balanced'', LoadDefaults ''aggressive'', ClearOverrides] @ (if bp_busy p then [] else [Run])"
  "offers ''onChange'' (BacktestPanel p) = [\<lambda>e. EditDays (event_text e), \<lambda>e. EditBuy (event_text e), \<lambda>e. EditStop (event_text e),
     \<lambda>e. EditTake (event_text e)]"
  by (cases "bp_error p"; auto simp: BacktestPanel_def strategy_selector_def STRATEGIES_def defaults_row_def WALLET_PRESETS_def
      override_fields_def number_field_def no_result_offers(1) child_offers attr_def)+

text \<open>A session with the panel: presses of its buttons and edits of its fields, as far as the view offers them, and
  answers of the server to the requests, which are collected.\<close>

datatype panel_event = Press nat | Enter nat jstr | Answered "exn + jsval"

fun panel_step :: "panel_event \<Rightarrow> jsval list \<times> backtest_panel \<Rightarrow> jsval list \<times> backtest_panel" where
  "panel_step (Press i) (reqs, p) =
     (if i < length (clicks [BacktestPanel p]) then
        (let (req, q) = panel_act (clicks [BacktestPanel p] ! i) p in (reqs @ (case req of Some b \<Rightarrow> [b] | None \<Rightarrow> []), q))
      else (reqs, p))"
| "panel_step (Enter i v) (reqs, p) =
     (let fields = offers ''onChange'' (BacktestPanel p) in
      if i < length fields then (reqs, snd (panel_act ((fields ! i) (VStr v)) p)) else (reqs, p))"
| "panel_step (Answered out) (reqs, p) = (reqs, panel_answered out p)"

definition request_ok :: "jsval \<Rightarrow> bool" where
  "request_ok b \<longleftrightarrow>
     (get b ''strategy_name'' = S ''sniper'' \<or> get b ''strategy_name'' = S ''momentum'') \<and>
     (\<exists>k. get b ''days'' = VI k \<and> 1 \<le> k \<and> k \<le> 90) \<and> get b ''initial_sol'' = VI 1 \<and>
     list_all (\<lambda>f. get b f = VUndef \<or> (\<exists>n. get b f = VNum n \<and> num_lt (Fin 0) n)) [''buy_amount_sol'', ''stop_loss_pct'', ''take_profit_pct'']"

definition panel_ok :: "jsval list \<times> backtest_panel \<Rightarrow> bool" where
  "panel_ok s \<longleftrightarrow> (let (reqs, p) = s in
     list_all request_ok reqs \<and> (bp_strategy p = U ''sniper'' \<or> bp_strategy p = U ''momentum'') \<and>
     (bp_days p = [] \<or> (\<exists>k. 1 \<le> k \<and> k \<le> 90 \<and> bp_days p = dec_nat k)) \<and> (bp_result p = VNull \<or> bp_error p = None))"

lemma clamp_days: "\<exists>k. 1 \<le> k \<and> k \<le> 90 \<and> math_min (NumI 90) (math_max (NumI 1) (if n = NaN then NumI 1 else n)) = NumI (int k)"
  if "n = NaN \<or> n = PInf \<or> n = NInf \<or> (\<exists>m. n = NumI m) \<or> (\<exists>q. n = Fin q \<and> (90 \<le> q \<or> q \<le> 1))"
  using that
proof (elim disjE exE)
  fix m assume m: "n = NumI m"
  show ?thesis
  proof (cases "1 < m \<and> m < 90")
    case True
    then show ?thesis using m by (intro exI [of _ "nat m"]) (auto simp: math_min_def math_max_def)
  next
    case False
    then show ?thesis using m by (auto simp: math_min_def math_max_def intro: exI [of _ 90] exI [of _ 1])
  qed
qed (auto simp: math_min_def math_max_def intro: exI [of _ 90] exI [of _ 1])

lemma parsed_days: "parse_int10 v = NaN \<or> (\<exists>m. parse_int10 v = NumI m) \<or> parse_int10 v = PInf \<or> parse_int10 v = NInf \<or>
  (\<exists>q. parse_int10 v = Fin q \<and> (90 \<le> q \<or> q \<le> 1))"
proof -
  have f: "(\<exists>m. fl (of_nat n) = NumI m \<and> 0 \<le> m) \<or> fl (of_nat n) = PInf \<or> (\<exists>q. fl (of_nat n) = Fin q \<and> 90 \<le> q)" for n
  proof (cases "n < 100")
    case True
    then show ?thesis using fl_int [of "int n"] by (intro disjI1 exI [of _ "int n"]) simp
  next
    case False
    then have "rat_of_int 90 \<le> of_nat n" by simp
    from round_to_mono [OF this] have "90 \<le> round_to (of_nat n)" using round_to_int [of 90] by simp
    then show ?thesis by (auto simp: fl_def Let_def)
  qed
  obtain neg r where "(case trim_start v of [] \<Rightarrow> (False, [])
      | c # cs \<Rightarrow> if c = 45 then (True, cs) else if c = 43 then (False, cs) else (False, trim_start v)) = (neg, r)" by fastforce
  then have "parse_int10 v = NaN \<or> parse_int10 v = fl (of_nat (digits_val (takeWhile is_digit r)))
      \<or> parse_int10 v = num_neg (fl (of_nat (digits_val (takeWhile is_digit r))))"
    unfolding parse_int10_def Let_def by simp
  then obtain n where "parse_int10 v = NaN \<or> parse_int10 v = fl (of_nat n) \<or> parse_int10 v = num_neg (fl (of_nat n))" by blast
  then show ?thesis
  proof (elim disjE)
    assume "parse_int10 v = num_neg (fl (of_nat n))"
    then show ?thesis using f [of n]
    proof (elim disjE exE conjE)
      fix m assume "parse_int10 v = num_neg (fl (of_nat n))" "fl (of_nat n) = NumI m"
      then have "parse_int10 v = NumI (- m)" by simp
      then show ?thesis by blast
    qed simp_all
  qed (use f [of n] in auto)
qed

lemma edit_days_ok: "bp_days (edit_days v p) = [] \<or> (\<exists>k. 1 \<le> k \<and> k \<le> 90 \<and> bp_days (edit_days v p) = dec_nat k)"
proof (cases "v = []")
  case False
  obtain k where k: "1 \<le> k" "k \<le> 90" "math_min (NumI 90) (math_max (NumI 1) (if parse_int10 v = NaN then NumI 1 else parse_int10 v)) = NumI (int k)"
    using clamp_days [of "parse_int10 v"] parsed_days [of v] by blast
  then show ?thesis using False print_small [of k] by (simp add: edit_days_def Let_def del: num_to_string.simps) blast
qed (simp add: edit_days_def)

lemma sent_ok:
  assumes "panel_ok (reqs, p)"
  shows "request_ok (backtest_body (bp_strategy p) (bp_days p) (bp_buy p) (bp_stop p) (bp_take p))"
proof -
  let ?b = "backtest_body (bp_strategy p) (bp_days p) (bp_buy p) (bp_stop p) (bp_take p)"
  have over: "positive_override k v = [] \<or> (\<exists>n. positive_override k v = [(k, VNum n)] \<and> num_lt (Fin 0) n)" for k v
    by (simp add: positive_override_def Let_def)
  have days: "\<exists>k. or_else (VNum (str_to_num (bp_days p))) (VI 7) = VI k \<and> 1 \<le> k \<and> k \<le> 90"
  proof (cases "bp_days p = []")
    case True
    then show ?thesis by (simp add: str_to_num_def trim_def trim_start_def trim_end_def or_else_def)
  next
    case False
    then obtain k where "1 \<le> k" "k \<le> 90" "bp_days p = dec_nat k" using assms by (auto simp: panel_ok_def)
    then show ?thesis using str_to_num_small [of k] by (intro exI [of _ "int k"]) (simp add: or_else_def)
  qed
  have "get ?b ''strategy_name'' = VStr (bp_strategy p)" "get ?b ''days'' = or_else (VNum (str_to_num (bp_days p))) (VI 7)"
    "get ?b ''initial_sol'' = VI 1"
    by (simp_all add: backtest_body_def)
  moreover have "list_all (\<lambda>f. get ?b f = VUndef \<or> (\<exists>n. get ?b f = VNum n \<and> num_lt (Fin 0) n)) [''buy_amount_sol'', ''stop_loss_pct'', ''take_profit_pct'']"
    using over [of "''buy_amount_sol''" "bp_buy p"] over [of "''stop_loss_pct''" "bp_stop p"] over [of "''take_profit_pct''" "bp_take p"]
    by (auto simp: backtest_body_def)
  ultimately show ?thesis using days assms by (auto simp: request_ok_def panel_ok_def S_def)
qed

lemma panel_act_ok:
  assumes "panel_ok (reqs, p)" and "\<And>s. a = SelectStrategy s \<Longrightarrow> s = ''sniper'' \<or> s = ''momentum''"
    and "panel_act a p = (req, q)"
  shows "panel_ok (reqs @ (case req of Some b \<Rightarrow> [b] | None \<Rightarrow> []), q)"
proof (cases a)
  case (EditDays v)
  have "bp_strategy (edit_days v p) = bp_strategy p" "bp_result (edit_days v p) = bp_result p" "bp_error (edit_days v p) = bp_error p"
    by (simp_all add: edit_days_def Let_def)
  then show ?thesis using assms EditDays edit_days_ok [of v p] by (auto simp: panel_ok_def)
next
  case Run
  then show ?thesis using assms sent_ok [OF assms(1)] by (auto simp: panel_ok_def split: if_splits)
qed (use assms in \<open>auto simp: panel_ok_def split: option.splits\<close>)

lemma panel_step_ok: "panel_ok s \<Longrightarrow> panel_ok (panel_step e s)"
proof -
  assume ok: "panel_ok s"
  obtain reqs p where s: "s = (reqs, p)" by fastforce
  show ?thesis
  proof (cases e)
    case (Press i)
    have sel: "x = ''sniper'' \<or> x = ''momentum''"
      if "i < length (clicks [BacktestPanel p])" "clicks [BacktestPanel p] ! i = SelectStrategy x" for x
    proof -
      have "SelectStrategy x \<in> set (clicks [BacktestPanel p])" using nth_mem [OF that(1)] that(2) by simp
      then show ?thesis unfolding panel_offers(1) by (auto split: if_splits)
    qed
    show ?thesis using ok panel_act_ok [of reqs p "clicks [BacktestPanel p] ! i"] sel
      by (auto simp: s Press Let_def simp del: clicks_lists split: prod.split)
  next
    case (Enter i v)
    have "(offers ''onChange'' (BacktestPanel p) ! i) (VStr v) \<in> {EditDays v, EditBuy v, EditStop v, EditTake v}"
      if "i < length (offers ''onChange'' (BacktestPanel p))"
    proof -
      have "i = 0 \<or> i = 1 \<or> i = 2 \<or> i = 3" using that unfolding panel_offers(2) by auto
      then show ?thesis unfolding panel_offers(2) by (auto simp: event_text_def)
    qed
    then show ?thesis using ok panel_act_ok [of reqs p "EditDays v" None] panel_act_ok [of reqs p "EditBuy v" None]
        panel_act_ok [of reqs p "EditStop v" None] panel_act_ok [of reqs p "EditTake v" None]
      by (auto simp: s Enter Let_def)
  next
    case (Answered out)
    then show ?thesis using ok by (cases out) (auto simp: s panel_ok_def panel_answered_def)
  qed
qed

text \<open>The numbers and texts a result must have to be shown.\<close>

definition result_shown :: "jsval \<Rightarrow> bool" where
  "result_shown r \<longleftrightarrow>
     list_all (\<lambda>k. \<exists>n. get r k = VNum n)
       [''total_return_pct'', ''simulated_pnl_sol'', ''win_rate'', ''sharpe_ratio'', ''max_drawdown_pct'', ''volatility''] \<and>
     list_all (\<lambda>k. showable (get r k)) [''strategy'', ''days'', ''total_trades'']"

lemma result_renders: "\<not> crashes (result_view r) \<longleftrightarrow> result_shown r"
proof -
  have m: "\<not> crashes (MetricTile l v s) \<longleftrightarrow> \<not> isl v \<and> (case s of Some x \<Rightarrow> \<not> isl x | None \<Rightarrow> True)" for l v s
    by (cases s) (auto simp: MetricTile_def split: sum.split)
  have u: "isl (map_sum id f x) = isl x" for f :: "jstr \<Rightarrow> jstr" and x :: "exn + jstr" by (cases x) simp_all
  have e: "\<not> crashes (EquityCurveChart xs v)" for xs v by (simp add: EquityCurveChart_def Let_def)
  show ?thesis
    by (auto simp: result_view_def result_shown_def m u e with_unit_def signed_def Let_def split: option.split)
qed

lemma panel_renders: "renders [BacktestPanel p] \<longleftrightarrow> \<not> truthy (bp_result p) \<or> result_shown (bp_result p)"
proof -
  have s: "showable r" if "\<not> truthy r" for r using that by (cases r) simp_all
  show ?thesis
    using s [of "bp_result p"]
    by (auto simp: BacktestPanel_def strategy_selector_def STRATEGIES_def defaults_row_def WALLET_PRESETS_def
        override_fields_def number_field_def result_renders split: option.split)
qed

text \<open>C39: the back-test panel asks only for what it offers. Whatever buttons are pressed, texts
  typed and answers received, in whatever order, every request names one of the two strategies, 1 to 90 whole days
  (7 where the field is empty), one SOL to start with, and of the overrides only positive numbers; a result and an
  error are never shown together; and the panel can be shown exactly when there is no result or the result has its
  numbers.\<close>

theorem backtest_requests_bounded:
  "(let (reqs, p) = fold panel_step evs ([], panel_open) in
     list_all request_ok reqs \<and> (bp_result p = VNull \<or> bp_error p = None) \<and>
     renders [BacktestPanel p] = (if truthy (bp_result p) then result_shown (bp_result p) else True))"
proof -
  have run: "panel_ok s \<Longrightarrow> panel_ok (fold panel_step evs s)" for s
    by (induction evs arbitrary: s) (simp_all add: panel_step_ok)
  have dec7: "dec_nat 7 = U ''7''" by (simp add: dec_nat.simps U_def)
  have "panel_ok ([], panel_open)"
    by (auto simp: panel_ok_def panel_open_def dec7 [symmetric] intro!: exI [of _ 7])
  from run [OF this] show ?thesis using panel_renders by (auto simp: panel_ok_def split: prod.splits)
qed

end
