(* ===== verification/AppShell.thy ===== *)
theory AppShell
  imports DashboardPage
begin

text \<open>
  \<open>App.tsx\<close> of the dashboard: the navigation links, the side bar, the header and the bottom bar, the layout and the
  routes. How wouter matches a pattern is a parameter. A link's highlight is its attribute \<open>tone\<close>.
\<close>

datatype app_page = DashboardPage | StrategiesPage | WalletsPage | TokensPage | TradesPage | SettingsPage | NotFound

definition NAV_LINKS :: "(string \<times> string) list" where
  "NAV_LINKS = [(''/'', ''Dashboard''), (''/strategies'', ''Strategies''), (''/wallets'', ''Wallets''), (''/tokens'', ''Tokens''),
     (''/trades'', ''Trades''), (''/settings'', ''Settings'')]"

definition isActive :: "jstr \<Rightarrow> string \<Rightarrow> bool" where
  "isActive location href \<longleftrightarrow> (if href = ''/'' then location = U ''/'' else starts_with location (U href))"

definition sidebar_link :: "jstr \<Rightarrow> string \<times> string \<Rightarrow> 'a view" where
  "sidebar_link location l = El ''Link''
     [(''href'', S (fst l)), (''tone'', S (if isActive location (fst l) then ''primary'' else ''plain''))] [] [T (snd l)]"

definition Sidebar :: "jstr \<Rightarrow> 'a view" where
  "Sidebar location = el ''aside''
     [el ''div'' [el ''div'' [el ''div'' [], el ''div'' [el ''div'' [T ''PumpyPumpy''], el ''div'' [T ''Trading Bot'']]]],
      el ''nav'' (map (sidebar_link location) NAV_LINKS),
      el ''div''
        [El ''a'' [(''href'', S ''https://github.com/hairilam47/PumpyPumpyFunBotTrade''), (''target'', S ''_blank''),
            (''rel'', S ''noopener noreferrer'')] [] [T ''GitHub Repo''],
         el ''div'' [el ''div'' [T ''Pump.fun Program''], el ''div'' [T ''6EF8rre...F6P'']]]]"

definition header_status :: "jsval \<Rightarrow> string" where
  "header_status status =
     (let running = opt_get status ''running'' (VBool False);
          offline = \<not> truthy running \<and> \<not> truthy (opt_get status ''pythonEngineRunning'' (VBool False))
      in if truthy running then ''Running'' else if offline then ''Engine offline'' else ''Stopped'')"

definition MobileHeader :: "jsval \<Rightarrow> 'a view" where
  "MobileHeader status =
     (let tone = (''tone'', S (if truthy (opt_get status ''running'' (VBool False)) then ''green'' else ''red'')) in
      el ''header''
       [el ''div'' [],
        el ''div'' [el ''div'' [T ''PumpyPumpy''], el ''div'' [T ''Trading Bot'']],
        el ''div'' [El ''span'' [tone] [] [], El ''span'' [tone] [] [T (header_status status)]]])"

definition bottom_link :: "jstr \<Rightarrow> string \<times> string \<Rightarrow> 'a view" where
  "bottom_link location l = El ''Link''
     [(''href'', S (fst l)), (''tone'', S (if isActive location (fst l) then ''primary'' else ''plain''))] [] [el ''span'' [T (snd l)]]"

definition BottomNav :: "jstr \<Rightarrow> 'a view" where
  "BottomNav location = el ''nav'' (map (bottom_link location) NAV_LINKS)"

definition Layout :: "'a view list \<Rightarrow> jstr \<Rightarrow> jsval \<Rightarrow> 'a view list \<Rightarrow> 'a view" where
  "Layout offlineBanner location status children = el ''div''
     (offlineBanner @ [Sidebar location, el ''main'' [MobileHeader status, el ''div'' children], BottomNav location])"

text \<open>The routes in order; a route without a path matches always, and the first that matches is shown.\<close>

definition app_routes :: "(string option \<times> app_page) list" where
  "app_routes = [(Some ''/'', DashboardPage), (Some ''/strategies'', StrategiesPage), (Some ''/wallets'', WalletsPage),
     (Some ''/tokens'', TokensPage), (Some ''/trades'', TradesPage), (Some ''/settings'', SettingsPage), (None, NotFound)]"

fun switch :: "(string \<Rightarrow> jstr \<Rightarrow> bool) \<Rightarrow> (string option \<times> 'p) list \<Rightarrow> jstr \<Rightarrow> 'p option" where
  "switch matches [] location = None"
| "switch matches ((Some path, p) # rs) location = (if matches path location then Some p else switch matches rs location)"
| "switch matches ((None, p) # rs) location = Some p"

definition Router :: "(string \<Rightarrow> jstr \<Rightarrow> bool) \<Rightarrow> (app_page \<Rightarrow> 'a view list) \<Rightarrow> 'a view list \<Rightarrow> jstr \<Rightarrow> jsval \<Rightarrow> 'a view" where
  "Router matches page offlineBanner location status =
     Layout offlineBanner location status (case switch matches app_routes location of Some p \<Rightarrow> page p | None \<Rightarrow> [])"

definition not_found :: "'a view list" where
  "not_found = [el ''div'' [el ''Card'' [el ''CardContent''
     [el ''div'' [el ''h1'' [T ''404 Page Not Found'']],
      el ''p'' [T ''Did you forget to add the page to the router?'']]]]]"

section \<open>Navigation\<close>

text \<open>The labels of the links that are highlighted.\<close>

fun link_tones :: "'a view \<Rightarrow> (jsval \<times> jsval) list" where
  "link_tones (Txt s) = []"
| "link_tones (Throw e) = []"
| "link_tones (El tag as hs kids) =
     (if tag = ''Link'' then [(attr ''href'' as, attr ''tone'' as)] else []) @ concat (map link_tones kids)"

text \<open>What wouter does with a pattern without parameters and a path of lower-case letters without a final slash:
  it matches exactly the equal path.\<close>

definition plain_location :: "jstr \<Rightarrow> bool" where
  "plain_location l \<longleftrightarrow> (\<exists>r. l = 47 # r \<and> list_all (\<lambda>c. 97 \<le> c \<and> c \<le> 122) r)"

definition plain_matching :: "(string \<Rightarrow> jstr \<Rightarrow> bool) \<Rightarrow> bool" where
  "plain_matching matches \<longleftrightarrow>
     (\<forall>path\<in>set (map fst NAV_LINKS). \<forall>l. plain_location l \<longrightarrow> matches path l = (l = U path))"

definition page_of_link :: "(string \<times> app_page) list" where
  "page_of_link = [(''Dashboard'', DashboardPage), (''Strategies'', StrategiesPage), (''Wallets'', WalletsPage),
     (''Tokens'', TokensPage), (''Trades'', TradesPage), (''Settings'', SettingsPage)]"

lemma nav_plain: "(href, label) \<in> set NAV_LINKS \<Longrightarrow> plain_location (U href)"
  by (auto simp: NAV_LINKS_def plain_location_def U_def)

lemma switch_plain:
  assumes "plain_matching matches" and "plain_location l"
  shows "switch matches app_routes l = Some
    (if l = U ''/'' then DashboardPage else if l = U ''/strategies'' then StrategiesPage else if l = U ''/wallets'' then WalletsPage
     else if l = U ''/tokens'' then TokensPage else if l = U ''/trades'' then TradesPage
     else if l = U ''/settings'' then SettingsPage else NotFound)"
  using assms by (simp add: app_routes_def plain_matching_def NAV_LINKS_def)

lemma link_pages:
  assumes "plain_matching matches"
  shows "list_all (\<lambda>(href, label). \<exists>p. map_of page_of_link label = Some p \<and> switch matches app_routes (U href) = Some p) NAV_LINKS"
proof -
  have "list_all (\<lambda>(href, label). plain_location (U href)) NAV_LINKS" using nav_plain by (auto simp: list_all_iff)
  then have pl: "plain_location (U ''/'')" "plain_location (U ''/strategies'')" "plain_location (U ''/wallets'')"
    "plain_location (U ''/tokens'')" "plain_location (U ''/trades'')" "plain_location (U ''/settings'')"
    unfolding NAV_LINKS_def by simp_all
  show ?thesis
    unfolding NAV_LINKS_def by (simp add: pl [THEN switch_plain [OF assms]] page_of_link_def)
qed

lemma active_at_link:
  "(href, label) \<in> set NAV_LINKS \<Longrightarrow> (href', label') \<in> set NAV_LINKS \<Longrightarrow> isActive (U href) href' \<longleftrightarrow> href' = href"
  by (auto simp: NAV_LINKS_def isActive_def starts_with_def U_def)

text \<open>C35: every link leads to its page. At the address of a navigation link the router shows the page of
  the link's label, and in both navigation bars exactly that link is highlighted; at any other plain address it shows
  the page that says that nothing was found. What surrounds the page can always be rendered.\<close>

theorem navigation_complete:
  assumes "plain_matching matches"
  shows "(\<forall>(href, label) \<in> set NAV_LINKS.
      \<exists>p. map_of page_of_link label = Some p \<and> switch matches app_routes (U href) = Some p \<and>
        Router matches page banner (U href) status = Layout banner (U href) status (page p) \<and>
        (\<forall>bar \<in> {Sidebar (U href), BottomNav (U href) :: 'a view}.
           link_tones bar = map (\<lambda>(h, l). (S h, S (if h = href then ''primary'' else ''plain''))) NAV_LINKS)) \<and>
    (\<forall>l. plain_location l \<and> l \<notin> set (map (\<lambda>(h, n). U h) NAV_LINKS) \<longrightarrow> switch matches app_routes l = Some NotFound) \<and>
    (renders banner \<and> renders kids \<longrightarrow> \<not> crashes (Layout banner l status kids :: 'a view))"
proof -
  have tones: "link_tones bar = map (\<lambda>(h, n). (S h, S (if h = href then ''primary'' else ''plain''))) NAV_LINKS"
    if "(href, label) \<in> set NAV_LINKS" "bar \<in> {Sidebar (U href), BottomNav (U href) :: 'a view}" for bar href label
  proof -
    have "map (\<lambda>l. (S (fst l), S (if isActive (U href) (fst l) then ''primary'' else ''plain''))) NAV_LINKS
      = map (\<lambda>(h, n). (S h, S (if h = href then ''primary'' else ''plain''))) NAV_LINKS"
      by (rule map_cong [OF refl]) (auto simp: active_at_link [OF that(1)])
    moreover have "concat (map link_tones (map (sidebar_link (U href) :: _ \<Rightarrow> 'a view) ls))
      = map (\<lambda>l. (S (fst l), S (if isActive (U href) (fst l) then ''primary'' else ''plain''))) ls"
      "concat (map link_tones (map (bottom_link (U href) :: _ \<Rightarrow> 'a view) ls))
      = map (\<lambda>l. (S (fst l), S (if isActive (U href) (fst l) then ''primary'' else ''plain''))) ls" for ls
      by (induction ls) (simp_all add: sidebar_link_def bottom_link_def attr_def)
    ultimately show ?thesis using that(2) by (auto simp: Sidebar_def BottomNav_def)
  qed
  have pages: "\<exists>p. map_of page_of_link label = Some p \<and> switch matches app_routes (U href) = Some p"
    if "(href, label) \<in> set NAV_LINKS" for href label
    using link_pages [OF assms] that unfolding list_all_iff by fast
  have other: "switch matches app_routes l = Some NotFound" if "plain_location l" "l \<notin> set (map (\<lambda>(h, n). U h) NAV_LINKS)" for l
    using switch_plain [OF assms that(1)] that(2) by (auto simp: NAV_LINKS_def)
  have lay: "\<not> crashes (Layout banner l status kids :: 'a view)" if "renders banner" "renders kids"
    using that by (simp add: Layout_def Sidebar_def BottomNav_def MobileHeader_def Let_def renders_def list_ex_iff
        sidebar_link_def bottom_link_def)
  show ?thesis
    using tones pages other lay unfolding Router_def by fastforce
qed

theorem navigation_complete_witness:
  "switch (\<lambda>path l. l = U path) app_routes (U ''/wallets'') = Some WalletsPage \<and>
   switch (\<lambda>path l. l = U path) app_routes (U ''/orders'') = Some NotFound"
proof -
  have m: "plain_matching (\<lambda>path l. l = U path)" by (simp add: plain_matching_def)
  have l: "(''/wallets'', ''Wallets'') \<in> set NAV_LINKS" by (simp add: NAV_LINKS_def)
  have o: "plain_location (U ''/orders'')" "U ''/orders'' \<notin> set (map (\<lambda>(h, n). U h) NAV_LINKS)"
    by (simp_all add: plain_location_def NAV_LINKS_def) (simp add: U_def)
  have "map_of page_of_link ''Wallets'' = Some WalletsPage" by (simp add: page_of_link_def)
  then show ?thesis using navigation_complete [OF m, where 'a = unit] l o by fastforce
qed

end
