(* ===== verification/Preview.thy ===== *)
theory Preview
  imports View
begin

text \<open>
  The mock-up sandbox: \<open>mockupPreviewPlugin.ts\<close>, which keeps a generated module that lists the mock-up components
  of the project, and \<open>App.tsx\<close>, which shows the one a URL names. The scan of the project (fast-glob) is a
  parameter; the file system, the watcher's events and the answers of the scan are steps. What the plug-in's
  \<open>refresh\<close> returns is used by no caller and is left out. Paths are POSIX paths. The server starts with any
  files and any module on disk; the watcher reports nothing before it watches, and may then still merge or drop
  reports, as chokidar documents for \<open>atomic\<close> and \<open>awaitWriteFinish\<close> (a file removed and added again is a change,
  which the plug-in does not listen to).
\<close>

section \<open>Paths\<close>

text \<open>\<open>path.join(a, b)\<close> and \<open>path.relative(a, b)\<close> on normalised paths that are both absolute or both relative.\<close>

definition path_join :: "jstr \<Rightarrow> jstr \<Rightarrow> jstr" where
  "path_join a b = (if ends_with a [47] then a @ b else a @ 47 # b)"

fun strip_common :: "'a list \<Rightarrow> 'a list \<Rightarrow> 'a list \<times> 'a list" where
  "strip_common (x # xs) (y # ys) = (if x = y then strip_common xs ys else (x # xs, y # ys))"
| "strip_common xs ys = (xs, ys)"

definition path_segments :: "jstr \<Rightarrow> jstr list" where
  "path_segments p = filter (\<lambda>s. s \<noteq> []) (split_on 47 p)"

definition path_relative :: "jstr \<Rightarrow> jstr \<Rightarrow> jstr" where
  "path_relative a b =
     (let (up, down) = strip_common (path_segments a) (path_segments b)
      in join_with [47] (map (\<lambda>_. U ''..'') up @ down))"

definition is_absolute :: "jstr \<Rightarrow> bool" where
  "is_absolute p \<longleftrightarrow> starts_with p [47]"

lemma strip_common_prefix [simp]: "strip_common xs (xs @ ys) = ([], ys)"
  by (induction xs) (cases ys; simp)+

lemma split_join: "ss \<noteq> [] \<Longrightarrow> list_all (\<lambda>s. 47 \<notin> set s) ss \<Longrightarrow> split_on 47 (join_with [47] ss) = ss"
  by (induction "[47] :: jstr" ss rule: join_with.induct) (simp_all add: split_on_no_sep split_on_append)

lemma split_on_mid: "split_on c (a @ c # b) = split_on c a @ split_on c b"
proof (induction a)
  case (Cons x xs)
  obtain p ps where p: "split_on c xs = p # ps" by (cases "split_on c xs") auto
  with Cons show ?case by simp
qed simp

lemma segments_join:
  assumes "ss \<noteq> []" and "list_all (\<lambda>s. s \<noteq> [] \<and> 47 \<notin> set s) ss"
  shows "path_segments (path_join a (join_with [47] ss)) = path_segments a @ ss"
proof -
  have ss: "split_on 47 (join_with [47] ss) = ss" using split_join [of ss] assms by (auto simp: list_all_iff)
  have f: "filter (\<lambda>s. s \<noteq> []) ss = ss" using assms(2) by (auto simp: list_all_iff filter_id_conv)
  show ?thesis
  proof (cases "ends_with a [47]")
    case True
    then obtain b where b: "a = b @ [47]" by (auto simp: ends_with_iff)
    have "split_on 47 a = split_on 47 b @ [[]]" using split_on_mid [of 47 b "[]"] b by simp
    moreover have "split_on 47 (a @ join_with [47] ss) = split_on 47 b @ ss" using split_on_mid [of 47 b "join_with [47] ss"] b ss by simp
    ultimately show ?thesis using True f by (simp add: path_segments_def path_join_def)
  qed (simp add: path_segments_def path_join_def split_on_mid ss f)
qed

lemma relative_below:
  assumes "ss \<noteq> []" and "list_all (\<lambda>s. s \<noteq> [] \<and> 47 \<notin> set s) ss"
  shows "path_relative a (path_join a (join_with [47] ss)) = join_with [47] ss"
  using segments_join [OF assms, of a] by (simp add: path_relative_def)

section \<open>The generated module\<close>

record discovered_component =
  dc_globKey :: jstr
  dc_importPath :: jstr

definition MOCKUPS_DIR :: jstr where
  "MOCKUPS_DIR = U ''src/components/mockups''"

definition getMockupsAbsDir :: "jstr \<Rightarrow> jstr" where
  "getMockupsAbsDir rootDir = path_join rootDir MOCKUPS_DIR"

definition isMockupFile :: "jstr \<Rightarrow> jstr \<Rightarrow> bool" where
  "isMockupFile rootDir absolutePath \<longleftrightarrow>
     (let rel = path_relative (getMockupsAbsDir rootDir) absolutePath
      in \<not> starts_with rel (U ''..'') \<and> \<not> is_absolute rel \<and> ends_with rel (U ''.tsx''))"

definition isPreviewTarget :: "jstr \<Rightarrow> bool" where
  "isPreviewTarget relativeToMockups \<longleftrightarrow> list_all (\<lambda>segment. \<not> starts_with segment (U ''_'')) (split_on 47 relativeToMockups)"

definition component_of :: "jstr \<Rightarrow> discovered_component" where
  "component_of f = \<lparr>dc_globKey = U ''./'' @ drop (length ''src/'') f, dc_importPath = path_relative (U ''src/.generated'') f\<rparr>"

definition module_entry :: "discovered_component \<Rightarrow> jstr" where
  "module_entry c = U ''  '' @ json_text_of (VStr (dc_globKey c)) @ U '': () => import('' @ json_text_of (VStr (dc_importPath c)) @ U '')''"

definition generateSource :: "discovered_component list \<Rightarrow> jstr" where
  "generateSource components =
     (let entries = join_with (44 # [10]) (map module_entry components)
      in join_with [10]
        [U ''// This file is auto-generated by mockupPreviewPlugin.ts.'',
         U ''type ModuleMap = Record<string, () => Promise<Record<string, unknown>>>;'',
         U ''export const modules: ModuleMap = {'', entries, U ''};'', []])"

text \<open>\<open>s.includes(t)\<close>.\<close>

definition includes_text :: "jstr \<Rightarrow> jstr \<Rightarrow> bool" where
  "includes_text s t \<longleftrightarrow> list_ex (\<lambda>i. starts_with (drop i s) t) [0..<Suc (length s)]"

lemma includes_mid: "includes_text (a @ t @ b) t"
proof -
  have "length a \<in> set [0..<Suc (length (a @ t @ b))]" by simp
  moreover have "starts_with (drop (length a) (a @ t @ b)) t" by (simp add: starts_with_def)
  ultimately show ?thesis unfolding includes_text_def list_ex_iff by blast
qed

definition shouldAutoRescan :: "jstr \<Rightarrow> bool" where
  "shouldAutoRescan pathname \<longleftrightarrow>
     includes_text pathname (U ''/components/mockups/'') \<or> includes_text pathname (U ''/.generated/mockup-components'')"

text \<open>
  What the pattern with its \<open>ignore\<close> list selects, as fast-glob documents it: names of \<open>.tsx\<close> files below the
  directory with no part that starts with an underscore, and, as \<open>dot\<close> is not set, none that starts with a dot.
\<close>

definition mockup_name :: "jstr \<Rightarrow> bool" where
  "mockup_name f \<longleftrightarrow>
     (let ss = split_on 47 f; below = drop 3 ss
      in take 3 ss = [U ''src'', U ''components'', U ''mockups''] \<and> below \<noteq> [] \<and> ends_with f (U ''.tsx'') \<and>
         list_all (\<lambda>s. s \<noteq> [] \<and> hd s \<noteq> 46 \<and> hd s \<noteq> 95) below)"

section \<open>Refreshing\<close>

text \<open>
  The state of the plug-in with its surroundings: the files of the project, whether the watcher watches, its events
  that are still to come (\<open>True\<close> for \<open>add\<close>), \<open>refreshInFlight\<close>, \<open>refreshQueued\<close>, \<open>currentSource\<close> and the written
  module; and, to state what holds, whether the running scan must see the files as they are now, whether a relevant
  change that nobody reports has happened since the last scan was started, whether the last scan that ended went
  well, and whether a write ever failed.
\<close>

record preview_state =
  pv_disk :: "jstr set"
  pv_watching :: bool
  pv_events :: "(bool \<times> jstr) list"
  pv_inFlight :: bool
  pv_queued :: bool
  pv_source :: jstr
  pv_module :: "jstr option"
  pv_fresh :: bool
  pv_missed :: bool
  pv_ok :: bool
  pv_writeFailed :: bool

definition refresh :: "preview_state \<Rightarrow> preview_state" where
  "refresh s =
     (if pv_inFlight s then s\<lparr>pv_queued := True\<rparr>
      else s\<lparr>pv_inFlight := True, pv_fresh := True, pv_missed := False\<rparr>)"

definition follow_up :: "preview_state \<Rightarrow> preview_state" where
  "follow_up s = (if pv_queued s then refresh (s\<lparr>pv_queued := False\<rparr>) else s)"

text \<open>The end of a scan: it failed, or it found \<open>files\<close> and a write, if one is needed, fails or not. A failure leaves
  by the exception, past the follow-up.\<close>

definition scan_failed :: "preview_state \<Rightarrow> preview_state" where
  "scan_failed s = s\<lparr>pv_inFlight := False, pv_ok := False\<rparr>"

definition scan_ended :: "jstr list \<Rightarrow> bool \<Rightarrow> preview_state \<Rightarrow> preview_state" where
  "scan_ended files writable s =
     (let newSource = generateSource (map component_of files)
      in if newSource \<noteq> pv_source s then
           (if writable then follow_up (s\<lparr>pv_source := newSource, pv_module := Some newSource, pv_inFlight := False, pv_ok := True\<rparr>)
            else (scan_failed s)\<lparr>pv_source := newSource, pv_writeFailed := True\<rparr>)
         else follow_up (s\<lparr>pv_inFlight := False, pv_ok := True\<rparr>))"

definition on_watch :: "jstr \<Rightarrow> bool \<Rightarrow> jstr \<Rightarrow> preview_state \<Rightarrow> preview_state" where
  "on_watch rootDir added file s =
     (if added then
        (if isMockupFile rootDir file \<and> isPreviewTarget (path_relative (getMockupsAbsDir rootDir) file) then refresh s else s)
      else if isMockupFile rootDir file then refresh s else s)"

definition on_response :: "int \<Rightarrow> jstr \<Rightarrow> preview_state \<Rightarrow> preview_state" where
  "on_response status pathname s = (if status = 404 \<and> shouldAutoRescan pathname then refresh s else s)"

text \<open>What a change on disk leaves behind: a report to come, or none.\<close>

definition changed_disk :: "(jstr \<Rightarrow> bool) \<Rightarrow> bool \<Rightarrow> jstr \<Rightarrow> preview_state \<Rightarrow> preview_state" where
  "changed_disk sel added f s =
     s\<lparr>pv_disk := (if added then insert f (pv_disk s) else pv_disk s - {f}),
       pv_events := (if pv_watching s then pv_events s @ [(added, f)] else pv_events s),
       pv_fresh := pv_fresh s \<and> \<not> sel f, pv_missed := pv_missed s \<or> sel f \<and> \<not> pv_watching s\<rparr>"

text \<open>
  The steps: a hook of the plug-in starts a refresh; the watcher begins to watch; a file appears or goes; a report
  arrives, or the watcher withdraws it; a response is sent; a scan ends. A scan that started after the last relevant
  change finds the files that the pattern selects (\<open>sel\<close>), in some order; any other scan may find anything.
\<close>

inductive preview_step :: "(jstr \<Rightarrow> bool) \<Rightarrow> jstr \<Rightarrow> preview_state \<Rightarrow> preview_state \<Rightarrow> bool" for sel rootDir where
  hook: "preview_step sel rootDir s (refresh s)"
| watch: "preview_step sel rootDir s (s\<lparr>pv_watching := True\<rparr>)"
| appear: "f \<notin> pv_disk s \<Longrightarrow> preview_step sel rootDir s (changed_disk sel True f s)"
| vanish: "f \<in> pv_disk s \<Longrightarrow> preview_step sel rootDir s (changed_disk sel False f s)"
| report: "pv_events s = es @ (b, f) # es' \<Longrightarrow>
    preview_step sel rootDir s (on_watch rootDir b (path_join rootDir f) (s\<lparr>pv_events := es @ es'\<rparr>))"
| withdrawn: "pv_events s = es @ (b, f) # es' \<Longrightarrow>
    preview_step sel rootDir s (s\<lparr>pv_events := es @ es', pv_missed := pv_missed s \<or> sel f\<rparr>)"
| response: "preview_step sel rootDir s (on_response status pathname s)"
| ended: "pv_inFlight s \<Longrightarrow> distinct files \<Longrightarrow> (pv_fresh s \<Longrightarrow> set files = {f \<in> pv_disk s. sel f}) \<Longrightarrow>
    preview_step sel rootDir s (scan_ended files writable s)"
| failed: "pv_inFlight s \<Longrightarrow> preview_step sel rootDir s (scan_failed s)"

definition lists_files :: "(jstr \<Rightarrow> bool) \<Rightarrow> preview_state \<Rightarrow> bool" where
  "lists_files sel s \<longleftrightarrow>
     (\<exists>files. distinct files \<and> set files = {f \<in> pv_disk s. sel f} \<and> pv_source s = generateSource (map component_of files))"

text \<open>The plug-in as it is created, with the files and the module that an earlier run left.\<close>

definition preview_boot :: "jstr set \<Rightarrow> jstr option \<Rightarrow> preview_state" where
  "preview_boot disk old =
     \<lparr>pv_disk = disk, pv_watching = False, pv_events = [], pv_inFlight = False, pv_queued = False, pv_source = [],
      pv_module = old, pv_fresh = False, pv_missed = False, pv_ok = False, pv_writeFailed = False\<rparr>"

inductive preview_reachable :: "(jstr \<Rightarrow> bool) \<Rightarrow> jstr \<Rightarrow> preview_state \<Rightarrow> bool" for sel rootDir where
  boot: "preview_reachable sel rootDir (preview_boot disk old)"
| step: "preview_reachable sel rootDir s \<Longrightarrow> preview_step sel rootDir s t \<Longrightarrow> preview_reachable sel rootDir t"

text \<open>The watcher's handlers start a refresh for every file the pattern selects.\<close>

lemma split_slash_free: "s \<in> set (split_on c xs) \<Longrightarrow> c \<notin> set s"
  by (induction xs arbitrary: s) (auto split: if_splits list.splits)

lemma join_split: "join_with [c] (split_on c xs) = xs"
proof (induction xs)
  case (Cons x xs)
  obtain p ps where "split_on c xs = p # ps" by (cases "split_on c xs") auto
  with Cons show ?case by (cases ps) (simp_all add: join_Cons)
qed simp

lemma ends_with_tail: "ends_with (a @ b) p \<Longrightarrow> length p \<le> length b \<Longrightarrow> ends_with b p"
  by (simp add: ends_with_def)

lemma mockup_below:
  assumes "mockup_name f"
  obtains ss where "split_on 47 f = [U ''src'', U ''components'', U ''mockups''] @ ss" "ss \<noteq> []"
    "list_all (\<lambda>s. s \<noteq> [] \<and> 47 \<notin> set s \<and> hd s \<noteq> 46 \<and> hd s \<noteq> 95) ss"
    "f = MOCKUPS_DIR @ 47 # join_with [47] ss" "ends_with (join_with [47] ss) (U ''.tsx'')"
proof -
  define ss where "ss = drop 3 (split_on 47 f)"
  have sp: "split_on 47 f = [U ''src'', U ''components'', U ''mockups''] @ ss"
    using assms append_take_drop_id [of 3 "split_on 47 f"] by (simp add: mockup_name_def Let_def ss_def)
  have ne: "ss \<noteq> []" and la: "list_all (\<lambda>s. s \<noteq> [] \<and> hd s \<noteq> 46 \<and> hd s \<noteq> 95) ss" and ew: "ends_with f (U ''.tsx'')"
    using assms by (simp_all add: mockup_name_def Let_def ss_def)
  have la': "list_all (\<lambda>s. s \<noteq> [] \<and> 47 \<notin> set s \<and> hd s \<noteq> 46 \<and> hd s \<noteq> 95) ss"
    using la split_slash_free [of _ 47 f] sp by (auto simp: list_all_iff)
  have "join_with [47] (split_on 47 f) = MOCKUPS_DIR @ 47 # join_with [47] ss"
    unfolding sp MOCKUPS_DIR_def using ne by (simp add: join_Cons U_def)
  then have f: "f = MOCKUPS_DIR @ 47 # join_with [47] ss" by (simp add: join_split)
  have "ends_with (join_with [47] ss) (U ''.tsx'')"
  proof (cases "length (join_with [47] ss) < 4")
    case True
    obtain r where r: "f = r @ U ''.tsx''" using ew by (auto simp: ends_with_iff)
    have "length f - 4 \<le> length MOCKUPS_DIR" using f True by simp
    then have "47 \<in> set (drop (length f - 4) f)" unfolding f by simp
    then show ?thesis using r by (simp add: U_def)
  next
    case False
    then show ?thesis using ew ends_with_tail [of "MOCKUPS_DIR @ [47]" "join_with [47] ss"] by (simp add: f)
  qed
  then show thesis using that sp ne la' f by blast
qed

lemma watcher_sees:
  assumes "mockup_name f"
  shows "isMockupFile rootDir (path_join rootDir f)" and "isPreviewTarget (path_relative (getMockupsAbsDir rootDir) (path_join rootDir f))"
proof -
  obtain ss where ss: "split_on 47 f = [U ''src'', U ''components'', U ''mockups''] @ ss" "ss \<noteq> []"
    "list_all (\<lambda>s. s \<noteq> [] \<and> 47 \<notin> set s \<and> hd s \<noteq> 46 \<and> hd s \<noteq> 95) ss"
    "f = MOCKUPS_DIR @ 47 # join_with [47] ss" "ends_with (join_with [47] ss) (U ''.tsx'')"
    using mockup_below [OF assms] .
  have "path_join rootDir f = path_join (getMockupsAbsDir rootDir) (join_with [47] ss)"
    using ss(4) by (simp add: path_join_def getMockupsAbsDir_def ends_with_def MOCKUPS_DIR_def U_def)
  then have rel: "path_relative (getMockupsAbsDir rootDir) (path_join rootDir f) = join_with [47] ss"
    using relative_below [of ss] ss(2,3) by (auto simp: list_all_iff)
  obtain c s t where c: "ss = (c # s) # t" "c \<noteq> 46" "c \<noteq> 47" using ss(2,3) by (cases ss; cases "hd ss") auto
  have "\<exists>u. join_with [47] ss = c # u" using c by (simp add: join_Cons)
  then show "isMockupFile rootDir (path_join rootDir f)"
    using c ss(5) by (auto simp: isMockupFile_def rel Let_def starts_with_def is_absolute_def U_def)
  have "split_on 47 (join_with [47] ss) = ss" using split_join [of ss] ss(2,3) by (auto simp: list_all_iff)
  then show "isPreviewTarget (path_relative (getMockupsAbsDir rootDir) (path_join rootDir f))"
    using ss(3) by (auto simp: isPreviewTarget_def rel list_all_iff starts_with_def U_def neq_Nil_conv)
qed

text \<open>The invariant: unless a report of a relevant change is still to come, or will never come, a running scan is fresh
  or will be repeated, and without one the source lists the files, if the last scan went well.\<close>

definition awaited :: "(jstr \<Rightarrow> bool) \<Rightarrow> preview_state \<Rightarrow> bool" where
  "awaited sel s \<longleftrightarrow> pv_missed s \<or> list_ex (\<lambda>(b, f). sel f) (pv_events s)"

definition preview_inv :: "(jstr \<Rightarrow> bool) \<Rightarrow> preview_state \<Rightarrow> bool" where
  "preview_inv sel s \<longleftrightarrow>
     (if pv_inFlight s then pv_fresh s \<or> pv_queued s \<or> awaited sel s else pv_ok s \<longrightarrow> lists_files sel s \<or> awaited sel s) \<and>
     (pv_writeFailed s \<or> pv_source s = [] \<or> pv_module s = Some (pv_source s))"

lemma lists_files_simps [simp]:
  "lists_files sel (s\<lparr>pv_events := es\<rparr>) = lists_files sel s" "lists_files sel (s\<lparr>pv_fresh := b\<rparr>) = lists_files sel s"
  "lists_files sel (s\<lparr>pv_missed := b\<rparr>) = lists_files sel s" "lists_files sel (s\<lparr>pv_watching := b\<rparr>) = lists_files sel s"
  by (simp_all add: lists_files_def)

lemma lists_files_disk:
  "{f \<in> d. sel f} = {f \<in> pv_disk s. sel f} \<Longrightarrow> lists_files sel (s\<lparr>pv_disk := d\<rparr>) = lists_files sel s"
  by (simp add: lists_files_def)

lemma refresh_inv: "preview_inv sel s \<Longrightarrow> preview_inv sel (refresh s)"
  by (auto simp: preview_inv_def refresh_def)

lemma refresh_busy:
  "pv_writeFailed s \<or> pv_source s = [] \<or> pv_module s = Some (pv_source s) \<Longrightarrow> preview_inv sel (refresh s)"
  by (auto simp: preview_inv_def refresh_def)

lemma change_inv: "preview_inv sel s \<Longrightarrow> preview_inv sel (changed_disk sel b f s)"
  by (cases "sel f") (auto simp: preview_inv_def changed_disk_def awaited_def lists_files_def Collect_conv_if
    intro!: arg_cong [of _ _ Ex] split: if_splits)

lemma report_inv:
  assumes law: "\<And>f. sel f \<Longrightarrow> mockup_name f" and inv: "preview_inv sel s" and es: "pv_events s = es @ (b, f) # es'"
  shows "preview_inv sel (on_watch rootDir b (path_join rootDir f) (s\<lparr>pv_events := es @ es'\<rparr>))"
proof (cases "sel f")
  case True
  then have "on_watch rootDir b (path_join rootDir f) t = refresh t" for t using watcher_sees [OF law] by (simp add: on_watch_def)
  then show ?thesis using inv refresh_busy [of "s\<lparr>pv_events := es @ es'\<rparr>"] by (simp add: preview_inv_def)
next
  case False
  have "preview_inv sel (s\<lparr>pv_events := es @ es'\<rparr>)" using inv False es by (auto simp: preview_inv_def awaited_def)
  then show ?thesis by (simp add: on_watch_def refresh_inv)
qed

lemma withdrawn_inv:
  "preview_inv sel s \<Longrightarrow> pv_events s = es @ (b, f) # es' \<Longrightarrow>
    preview_inv sel (s\<lparr>pv_events := es @ es', pv_missed := pv_missed s \<or> sel f\<rparr>)"
  by (auto simp: preview_inv_def awaited_def lists_files_def)

lemma follow_up_inv:
  assumes "pv_writeFailed t \<or> pv_source t = [] \<or> pv_module t = Some (pv_source t)" and "\<not> pv_inFlight t"
    and "\<not> pv_queued t \<Longrightarrow> lists_files sel t \<or> awaited sel t"
  shows "preview_inv sel (follow_up t)"
proof (cases "pv_queued t")
  case True
  then show ?thesis using assms(1) refresh_busy [of "t\<lparr>pv_queued := False\<rparr>"] by (simp add: follow_up_def)
next
  case False
  then show ?thesis using assms by (simp add: follow_up_def preview_inv_def)
qed

lemma ended_inv:
  assumes "preview_inv sel s" and "pv_inFlight s" and "distinct files"
    and "pv_fresh s \<Longrightarrow> set files = {f \<in> pv_disk s. sel f}"
  shows "preview_inv sel (scan_ended files writable s)"
proof -
  define src where "src = generateSource (map component_of files)"
  have busy: "pv_fresh s \<or> pv_queued s \<or> awaited sel s"
    and written: "pv_writeFailed s \<or> pv_source s = [] \<or> pv_module s = Some (pv_source s)"
    using assms(1,2) by (simp_all add: preview_inv_def)
  have l: "lists_files sel t \<or> awaited sel t"
    if "\<not> pv_queued s" "pv_disk t = pv_disk s" "pv_events t = pv_events s" "pv_missed t = pv_missed s" "pv_source t = src" for t
  proof (cases "pv_fresh s")
    case True
    then show ?thesis using assms(3,4) that unfolding lists_files_def src_def by auto
  next
    case False
    then show ?thesis using busy that by (simp add: awaited_def)
  qed
  consider (same) "src = pv_source s" | (new) "src \<noteq> pv_source s" writable | (unwritable) "src \<noteq> pv_source s" "\<not> writable" by blast
  then show ?thesis
  proof cases
    case same
    then have "scan_ended files writable s = follow_up (s\<lparr>pv_inFlight := False, pv_ok := True\<rparr>)"
      by (simp add: scan_ended_def src_def [symmetric])
    then show ?thesis using follow_up_inv [of "s\<lparr>pv_inFlight := False, pv_ok := True\<rparr>"] l same written by simp
  next
    case new
    let ?t = "s\<lparr>pv_source := src, pv_module := Some src, pv_inFlight := False, pv_ok := True\<rparr>"
    have "scan_ended files writable s = follow_up ?t" using new by (simp add: scan_ended_def src_def [symmetric])
    then show ?thesis using follow_up_inv [of ?t] l by simp
  next
    case unwritable
    then show ?thesis by (simp add: scan_ended_def src_def [symmetric] scan_failed_def preview_inv_def)
  qed
qed

lemma preview_step_inv:
  assumes law: "\<And>f. sel f \<Longrightarrow> mockup_name f" and "preview_step sel rootDir s t" and "preview_inv sel s"
  shows "preview_inv sel t"
  using assms(2)
proof cases
  case hook
  then show ?thesis using refresh_inv [OF assms(3)] by simp
next
  case watch
  then show ?thesis using assms(3) by (auto simp: preview_inv_def awaited_def split: if_splits)
next
  case (appear f)
  show ?thesis unfolding appear(1) by (rule change_inv [OF assms(3)])
next
  case (vanish f)
  show ?thesis unfolding vanish(1) by (rule change_inv [OF assms(3)])
next
  case (report es b f es')
  show ?thesis unfolding report(1) by (rule report_inv [OF law assms(3) report(2)])
next
  case (withdrawn es b f es')
  show ?thesis unfolding withdrawn(1) by (rule withdrawn_inv [OF assms(3) withdrawn(2)])
next
  case (response status pathname)
  then show ?thesis using assms(3) refresh_inv by (simp add: on_response_def)
next
  case (ended files writable)
  show ?thesis unfolding ended(1) by (rule ended_inv [OF assms(3) ended(2,3,4)])
next
  case failed
  then show ?thesis using assms(3) by (auto simp: scan_failed_def preview_inv_def awaited_def)
qed

lemma preview_reachable_inv:
  assumes "\<And>f. sel f \<Longrightarrow> mockup_name f" and "preview_reachable sel rootDir s"
  shows "preview_inv sel s"
  using assms(2)
proof induction
  case (boot disk old)
  then show ?case by (simp add: preview_inv_def preview_boot_def)
next
  case (step s t)
  then show ?case using preview_step_inv [OF assms(1)] by blast
qed

text \<open>C33: the generated module catches up with the project. From the plug-in's creation on, with
  any files and any old module on disk, whatever hooks run, files come and go, and in whatever order the reports, the
  responses and the ends of scans arrive: once no report is outstanding and no scan runs, the source lists exactly
  the mock-ups that the pattern selects, each once, and the module on disk is that source, provided the last scan went
  well, no write ever failed, and every relevant change since the last scan was started has been reported. A change
  that is not reported, because the watcher did not watch yet or has merged the report with another, is caught up with
  by the next scan: any 404 below the mock-ups leaves a scan running that starts afresh or is to be repeated. At any
  time the module on disk is the source as long as one was made and no write failed.\<close>

theorem generated_module_current:
  assumes "\<And>f. sel f \<Longrightarrow> mockup_name f" and "preview_reachable sel rootDir s"
  shows "(pv_events s = [] \<and> \<not> pv_inFlight s \<and> pv_ok s \<and> \<not> pv_missed s \<longrightarrow>
      (\<exists>files. distinct files \<and> set files = {f \<in> pv_disk s. sel f} \<and> pv_source s = generateSource (map component_of files) \<and>
        (pv_writeFailed s \<or> pv_module s = Some (generateSource (map component_of files))))) \<and>
    (pv_writeFailed s \<or> pv_source s = [] \<or> pv_module s = Some (pv_source s)) \<and>
    (\<forall>before after.
      (let t = on_response 404 (before @ U ''/components/mockups/'' @ after) s
       in pv_inFlight t \<and> (pv_queued t \<or> pv_fresh t \<and> \<not> pv_missed t)))"
proof -
  have inv: "preview_inv sel s" by (rule preview_reachable_inv [OF assms])
  have ne: "generateSource cs \<noteq> []" for cs by (simp add: generateSource_def U_def)
  have auto_rescan: "shouldAutoRescan (before @ U ''/components/mockups/'' @ after)" for before after
    by (simp only: shouldAutoRescan_def includes_mid simp_thms)
  have lists: "lists_files sel s" if "pv_events s = [] \<and> \<not> pv_inFlight s \<and> pv_ok s \<and> \<not> pv_missed s"
    using inv that by (simp add: preview_inv_def awaited_def)
  have written: "pv_writeFailed s \<or> pv_source s = [] \<or> pv_module s = Some (pv_source s)" using inv by (simp add: preview_inv_def)
  have rescan: "let t = on_response 404 (before @ U ''/components/mockups/'' @ after) s
      in pv_inFlight t \<and> (pv_queued t \<or> pv_fresh t \<and> \<not> pv_missed t)" for before after
    by (simp add: on_response_def auto_rescan refresh_def)
  show ?thesis
  proof (intro conjI impI allI)
    assume "pv_events s = [] \<and> \<not> pv_inFlight s \<and> pv_ok s \<and> \<not> pv_missed s"
    then obtain files where f: "distinct files" "set files = {f \<in> pv_disk s. sel f}" "pv_source s = generateSource (map component_of files)"
      using lists unfolding lists_files_def by blast
    then show "\<exists>files. distinct files \<and> set files = {f \<in> pv_disk s. sel f} \<and> pv_source s = generateSource (map component_of files) \<and>
        (pv_writeFailed s \<or> pv_module s = Some (generateSource (map component_of files)))"
      using written ne by (intro exI [of _ files]) auto
  qed (rule written rescan)+
qed

theorem generated_module_current_witness:
  "\<exists>s files. preview_reachable mockup_name (U ''/p'') s \<and> pv_disk s = {U ''src/components/mockups/A.tsx''} \<and>
    set files = {U ''src/components/mockups/A.tsx''} \<and> pv_module s = Some (generateSource (map component_of files))"
proof -
  let ?f = "U ''src/components/mockups/A.tsx''"
  have m: "mockup_name ?f" by (simp add: mockup_name_def U_def Let_def ends_with_def)
  have sel: "{g. g = ?f \<and> mockup_name g} = {?f}" using m by auto
  let ?R = "preview_reachable mockup_name (U ''/p'')"
  define s1 where "s1 = (scan_ended [] True (refresh (preview_boot {} (Some (U ''old'')))))\<lparr>pv_watching := True\<rparr>"
  define s2 where "s2 = changed_disk mockup_name True ?f s1"
  define s3 where "s3 = scan_ended [?f] True (refresh (s2\<lparr>pv_events := []\<rparr>))"
  note step = preview_reachable.step [of mockup_name "U ''/p''"]
  have w: "pv_events s1 = []" "pv_disk s1 = {}" "pv_watching s1" "\<not> pv_missed s1" "\<not> pv_inFlight s1" "\<not> pv_queued s1" "\<not> pv_writeFailed s1"
    by (simp_all add: s1_def scan_ended_def refresh_def preview_boot_def follow_up_def scan_failed_def Let_def)
  have "?R (refresh (preview_boot {} (Some (U ''old''))))" by (rule step [OF preview_reachable.boot preview_step.hook])
  then have "?R (scan_ended [] True (refresh (preview_boot {} (Some (U ''old'')))))"
    by (rule step [OF _ preview_step.ended]) (simp_all add: refresh_def preview_boot_def)
  then have r1: "?R s1" unfolding s1_def by (rule step [OF _ preview_step.watch])
  have r2: "?R s2" unfolding s2_def by (rule step [OF r1 preview_step.appear]) (simp add: w)
  have e2: "pv_events s2 = [] @ (True, ?f) # []" by (simp add: s2_def changed_disk_def w)
  from step [OF r2 preview_step.report [OF e2]] have "?R (refresh (s2\<lparr>pv_events := []\<rparr>))"
    using watcher_sees [OF m] by (simp add: on_watch_def)
  then have r3: "?R s3" unfolding s3_def
    by (rule step [OF _ preview_step.ended]) (simp_all add: refresh_def s2_def changed_disk_def w m sel)
  have f3: "pv_events s3 = []" "\<not> pv_inFlight s3" "pv_ok s3" "\<not> pv_missed s3" "pv_disk s3 = {?f}" "\<not> pv_writeFailed s3"
    by (simp_all add: s3_def scan_ended_def refresh_def s2_def changed_disk_def w follow_up_def Let_def)
  from generated_module_current [OF _ r3] have "\<exists>files. set files = {?f} \<and> pv_module s3 = Some (generateSource (map component_of files))"
    using f3 sel by auto
  then show ?thesis using r3 f3(5) by blast
qed

text \<open>The proviso is needed: a file that is removed and added again while the watcher looks away from both is reported
  as a change, to which the plug-in does not listen, and the module stays without it although nothing is outstanding.\<close>

lemma merged_report_leaves_stale:
  defines "f \<equiv> U ''src/components/mockups/A.tsx''"
  shows "\<exists>s. preview_reachable mockup_name rootDir s \<and> pv_watching s \<and> pv_events s = [] \<and> \<not> pv_inFlight s \<and> \<not> pv_queued s \<and> pv_ok s \<and>
    pv_disk s = {f} \<and> pv_module s = Some (generateSource [])"
proof -
  have m: "mockup_name f" by (simp add: f_def mockup_name_def U_def Let_def ends_with_def)
  note step = preview_reachable.step [of mockup_name rootDir]
  define s1 where "s1 = (preview_boot {f} None)\<lparr>pv_watching := True\<rparr>"
  define s2 where "s2 = refresh (changed_disk mockup_name False f s1)"
  define s3 where "s3 = scan_ended [] True s2"
  define s4 where "s4 = changed_disk mockup_name True f s3"
  have r1: "preview_reachable mockup_name rootDir s1" unfolding s1_def by (rule step [OF preview_reachable.boot preview_step.watch])
  have "preview_reachable mockup_name rootDir (changed_disk mockup_name False f s1)"
    by (rule step [OF r1 preview_step.vanish]) (simp add: s1_def preview_boot_def)
  then have "preview_reachable mockup_name rootDir s2" unfolding s2_def by (rule step [OF _ preview_step.hook])
  then have "preview_reachable mockup_name rootDir s3" unfolding s3_def
    by (rule step [OF _ preview_step.ended]) (simp_all add: s2_def s1_def refresh_def changed_disk_def preview_boot_def)
  then have r4: "preview_reachable mockup_name rootDir s4" unfolding s4_def
    by (rule step [OF _ preview_step.appear])
      (simp add: s3_def s2_def s1_def refresh_def changed_disk_def preview_boot_def scan_ended_def follow_up_def Let_def)
  have e4: "pv_events s4 = [] @ (False, f) # [(True, f)]"
    by (simp add: s4_def s3_def s2_def s1_def refresh_def changed_disk_def preview_boot_def scan_ended_def follow_up_def Let_def)
  define s5 where "s5 = s4\<lparr>pv_events := [(True, f)], pv_missed := True\<rparr>"
  define s6 where "s6 = s5\<lparr>pv_events := [], pv_missed := True\<rparr>"
  have r5: "preview_reachable mockup_name rootDir s5" using step [OF r4 preview_step.withdrawn [OF e4]] m by (simp add: s5_def)
  have e5: "pv_events s5 = [] @ (True, f) # []" by (simp add: s5_def)
  have "preview_reachable mockup_name rootDir s6" using step [OF r5 preview_step.withdrawn [OF e5]] m by (simp add: s6_def)
  moreover have "pv_watching s6 \<and> pv_events s6 = [] \<and> \<not> pv_inFlight s6 \<and> \<not> pv_queued s6 \<and> pv_ok s6 \<and> pv_disk s6 = {f} \<and>
      pv_module s6 = Some (generateSource [])"
    by (auto simp: s6_def s5_def s4_def s3_def s2_def s1_def refresh_def changed_disk_def preview_boot_def scan_ended_def
      follow_up_def generateSource_def U_def Let_def)
  ultimately show ?thesis by blast
qed

section \<open>The preview page\<close>

text \<open>What a module exports: functions, other values that React renders (memo, forwardRef), and plain values.\<close>

datatype 'c exported = Function 'c | Renderable 'c | Value jsval

fun truthy_export :: "'c exported \<Rightarrow> bool" where
  "truthy_export (Value v) = truthy v"
| "truthy_export _ = True"

type_synonym 'c module = "(jstr \<times> 'c exported) list"

definition resolveComponent :: "'c module \<Rightarrow> jstr \<Rightarrow> 'c exported option" where
  "resolveComponent modul name =
     (let fns = filter (\<lambda>v. case v of Function c \<Rightarrow> True | _ \<Rightarrow> False) (map snd modul);
          named = (\<lambda>k. case map_of modul k of Some v \<Rightarrow> if truthy_export v then Some v else None | None \<Rightarrow> None)
      in case named (U ''default'') of Some v \<Rightarrow> Some v | None \<Rightarrow>
        (case named (U ''Preview'') of Some v \<Rightarrow> Some v | None \<Rightarrow>
          (case named name of Some v \<Rightarrow> Some v | None \<Rightarrow> if fns = [] then None else Some (last fns))))"

text \<open>The object literal of the generated module: each key with its loader, which imports a module or fails.\<close>

definition modules_of :: "discovered_component list \<Rightarrow> (jstr \<times> jstr) list" where
  "modules_of components = fold (\<lambda>c. put (dc_globKey c) (dc_importPath c)) components []"

definition preview_key :: "jstr \<Rightarrow> jstr" where
  "preview_key componentPath = U ''./components/mockups/'' @ componentPath @ U ''.tsx''"

record 'c renderer_state =
  rd_path :: jstr
  rd_effect :: nat \<comment> \<open>the number of the effect whose \<open>cancelled\<close> is still false\<close>
  rd_component :: "'c exported option"
  rd_error :: "jstr option"

definition renderer_start :: "'c renderer_state" where
  "renderer_start = \<lparr>rd_path = [], rd_effect = 0, rd_component = None, rd_error = None\<rparr>"

definition open_path :: "(jstr \<times> jstr) list \<Rightarrow> jstr \<Rightarrow> 'c renderer_state \<Rightarrow> 'c renderer_state" where
  "open_path modules componentPath s =
     s\<lparr>rd_path := componentPath, rd_effect := Suc (rd_effect s), rd_component := None,
       rd_error := (case map_of modules (preview_key componentPath) of Some loader \<Rightarrow> None
                    | None \<Rightarrow> Some (U ''No component found at '' @ componentPath @ U ''.tsx''))\<rparr>"

definition no_component :: "jstr \<Rightarrow> jstr" where
  "no_component componentPath = U ''No exported React component found in '' @ componentPath @ U ''.tsx'' @ [10, 10]
     @ U ''Make sure the file has at least one exported function component.''"

text \<open>
  What an import may throw: an \<open>Error\<close> with its message, or any other value, of which only what \<open>String(e)\<close> gives
  matters: a text, or, as the value may bring its own \<open>toString\<close>, a further exception, which leaves the handler.
\<close>

datatype thrown = AnError jstr | AnyOther "jstr option"

definition thrown_text :: "thrown \<Rightarrow> jstr option" where
  "thrown_text e = (case e of AnError message \<Rightarrow> Some message | AnyOther text_of_it \<Rightarrow> text_of_it)"

definition loaded :: "nat \<Rightarrow> thrown + 'c module \<Rightarrow> 'c renderer_state \<Rightarrow> 'c renderer_state" where
  "loaded k result s =
     (if k \<noteq> rd_effect s then s
      else case result of
        Inl e \<Rightarrow> (case thrown_text e of None \<Rightarrow> s
          | Some message \<Rightarrow> s\<lparr>rd_error := Some (U ''Failed to load preview.'' @ 10 # message)\<rparr>)
      | Inr modul \<Rightarrow>
          (case resolveComponent modul (last (split_on 47 (rd_path s))) of
             None \<Rightarrow> s\<lparr>rd_error := Some (no_component (rd_path s))\<rparr>
           | Some found \<Rightarrow> s\<lparr>rd_component := Some found\<rparr>))"

text \<open>What React makes of \<open><Component />\<close>; a string is an element of that name.\<close>

fun render_export :: "('c \<Rightarrow> 'a view) \<Rightarrow> 'c exported \<Rightarrow> 'a view" where
  "render_export r (Function c) = r c"
| "render_export r (Renderable c) = r c"
| "render_export r (Value (VStr s)) = El (map char_of s) [] [] []"
| "render_export r (Value v) = Throw (Err (U ''Element type is invalid''))"

definition PreviewRenderer :: "('c \<Rightarrow> 'a view) \<Rightarrow> 'c renderer_state \<Rightarrow> 'a view list" where
  "PreviewRenderer r s =
     (case rd_error s of Some error \<Rightarrow> [el ''pre'' [Txt error]]
      | None \<Rightarrow> (case rd_component s of None \<Rightarrow> [] | Some found \<Rightarrow> [render_export r found]))"

text \<open>\<open>import.meta.env.BASE_URL\<close> is an argument.\<close>

definition getBasePath :: "jstr \<Rightarrow> jstr" where
  "getBasePath BASE_URL = (if ends_with BASE_URL [47] then butlast BASE_URL else BASE_URL)"

definition getPreviewExamplePath :: "jstr \<Rightarrow> jstr" where
  "getPreviewExamplePath BASE_URL = getBasePath BASE_URL @ U ''/preview/ComponentName''"

definition Gallery :: "jstr \<Rightarrow> 'a view" where
  "Gallery BASE_URL = el ''div'' [el ''div''
     [el ''h1'' [T ''Component Preview Server''],
      el ''p'' [T ''This server renders individual components for the workspace canvas.''],
      el ''p'' [T ''Access component previews at'', T '' '', el ''code'' [Txt (getPreviewExamplePath BASE_URL)]]]]"

definition line_end :: "nat \<Rightarrow> bool" where
  "line_end c \<longleftrightarrow> c \<in> {10, 13, 0x2028, 0x2029}"

definition getPreviewPath :: "jstr \<Rightarrow> jstr \<Rightarrow> jstr option" where
  "getPreviewPath BASE_URL pathname =
     (let basePath = getBasePath BASE_URL;
          local = (if basePath \<noteq> [] \<and> starts_with pathname basePath
                   then (if drop (length basePath) pathname \<noteq> [] then drop (length basePath) pathname else U ''/'')
                   else pathname);
          rest = drop (length ''/preview/'') local
      in if starts_with local (U ''/preview/'') \<and> rest \<noteq> [] \<and> list_all (\<lambda>c. \<not> line_end c) rest then Some rest else None)"

definition sandbox_app :: "('c \<Rightarrow> 'a view) \<Rightarrow> jstr \<Rightarrow> jstr \<Rightarrow> 'c renderer_state \<Rightarrow> 'a view list" where
  "sandbox_app r BASE_URL pathname s =
     (case getPreviewPath BASE_URL pathname of
        Some previewPath \<Rightarrow> PreviewRenderer r s
      | None \<Rightarrow> [Gallery BASE_URL])"

section \<open>From a URL to a component\<close>

datatype 'c renderer_event = Open jstr | Loaded nat "thrown + 'c module"

fun renderer_step :: "(jstr \<times> jstr) list \<Rightarrow> 'c renderer_event \<Rightarrow> 'c renderer_state \<Rightarrow> 'c renderer_state" where
  "renderer_step modules (Open p) s = open_path modules p s"
| "renderer_step modules (Loaded k result) s = loaded k result s"

text \<open>The entry of a file: its key is the one the page looks up, its import path leads from the generated module to it.\<close>

lemma component_of_mockup:
  assumes "mockup_name (U ''src/components/mockups/'' @ p @ U ''.tsx'')"
  shows "component_of (U ''src/components/mockups/'' @ p @ U ''.tsx'')
    = \<lparr>dc_globKey = preview_key p, dc_importPath = U ''../components/mockups/'' @ p @ U ''.tsx''\<rparr>"
proof -
  let ?f = "U ''src/components/mockups/'' @ p @ U ''.tsx''"
  obtain ss where ss: "split_on 47 ?f = [U ''src'', U ''components'', U ''mockups''] @ ss" "ss \<noteq> []"
    "list_all (\<lambda>s. s \<noteq> [] \<and> 47 \<notin> set s \<and> hd s \<noteq> 46 \<and> hd s \<noteq> 95) ss" "?f = MOCKUPS_DIR @ 47 # join_with [47] ss"
    "ends_with (join_with [47] ss) (U ''.tsx'')"
    using mockup_below [OF assms] .
  have tail: "join_with [47] ss = p @ U ''.tsx''" using ss(4) by (simp add: MOCKUPS_DIR_def U_def)
  have "filter (\<lambda>s. s \<noteq> []) ss = ss" using ss(3) by (auto simp: list_all_iff filter_id_conv)
  then have "path_segments ?f = [U ''src'', U ''components'', U ''mockups''] @ ss" by (simp add: path_segments_def ss(1))
  moreover have "path_segments (U ''src/.generated'') = [U ''src'', U ''.generated'']" by (simp add: path_segments_def U_def)
  ultimately have "path_relative (U ''src/.generated'') ?f = U ''../components/mockups/'' @ p @ U ''.tsx''"
    using ss(2) tail by (simp add: path_relative_def join_Cons U_def)
  then show ?thesis by (simp add: component_of_def preview_key_def U_def)
qed

lemma mockup_as_path:
  assumes "mockup_name f"
  obtains p where "f = U ''src/components/mockups/'' @ p @ U ''.tsx''"
proof -
  obtain ss where "f = MOCKUPS_DIR @ 47 # join_with [47] ss" "ends_with (join_with [47] ss) (U ''.tsx'')"
    by (rule mockup_below [OF assms])
  then obtain p where "f = MOCKUPS_DIR @ 47 # p @ U ''.tsx''" by (auto simp: ends_with_iff)
  then show thesis using that by (simp add: MOCKUPS_DIR_def U_def)
qed

lemma fold_put: "map_of (fold (\<lambda>c. put (f c) (g c)) cs ps) k =
    (case map_of (rev (map (\<lambda>c. (f c, g c)) cs)) k of Some v \<Rightarrow> Some v | None \<Rightarrow> map_of ps k)"
  by (induction cs arbitrary: ps) (auto simp: map_add_def split: option.splits)

lemma module_lookup:
  assumes "list_all mockup_name files"
  shows "map_of (modules_of (map component_of files)) (preview_key p) =
    (if U ''src/components/mockups/'' @ p @ U ''.tsx'' \<in> set files then Some (U ''../components/mockups/'' @ p @ U ''.tsx'') else None)"
proof -
  let ?g = "\<lambda>c. (dc_globKey c, dc_importPath c)"
  have inj: "preview_key p = preview_key p' \<longleftrightarrow> p = p'" for p p' by (simp add: preview_key_def)
  have "map_of (rev (map ?g (map component_of files))) (preview_key p) =
    (if U ''src/components/mockups/'' @ p @ U ''.tsx'' \<in> set files then Some (U ''../components/mockups/'' @ p @ U ''.tsx'') else None)"
    using assms
  proof (induction files)
    case (Cons f fs)
    have "mockup_name f" using Cons.prems by simp
    then obtain p' where f: "f = U ''src/components/mockups/'' @ p' @ U ''.tsx''" by (rule mockup_as_path)
    have "component_of f = \<lparr>dc_globKey = preview_key p', dc_importPath = U ''../components/mockups/'' @ p' @ U ''.tsx''\<rparr>"
      using component_of_mockup [of p'] Cons.prems f by simp
    then show ?case using Cons by (auto simp: inj f map_add_def split: option.splits if_splits)
  qed simp
  then show ?thesis by (simp add: modules_of_def fold_put split: option.splits)
qed

lemma effect_of_events:
  "rd_effect (fold (renderer_step m) evs s) = rd_effect s + length (filter (\<lambda>e. case e of Open p \<Rightarrow> True | _ \<Rightarrow> False) evs)"
proof (induction evs arbitrary: s)
  case (Cons e evs)
  then show ?case by (cases e) (auto simp: open_path_def loaded_def split: sum.split option.split)
qed simp

text \<open>Every path under \<open>/preview/\<close> is read back from the URL, whatever the base path.\<close>

lemma preview_path_read:
  assumes "p \<noteq> []" and "list_all (\<lambda>c. \<not> line_end c) p"
  shows "getPreviewPath B (getBasePath B @ U ''/preview/'' @ p) = Some p"
  using assms by (simp add: getPreviewPath_def starts_with_def U_def Let_def)

definition answers_to :: "nat \<Rightarrow> 'c renderer_event \<Rightarrow> bool" where
  "answers_to n e \<longleftrightarrow> (case e of Loaded k r \<Rightarrow> k = n | Open p \<Rightarrow> True)"

lemma others_ignored:
  "list_all (\<lambda>e. \<not> answers_to n e) evs \<Longrightarrow> rd_effect s = n \<Longrightarrow> fold (renderer_step m) evs s = s"
proof (induction evs)
  case (Cons e evs)
  then show ?case by (cases e) (simp_all add: answers_to_def loaded_def)
qed simp

text \<open>C34: a preview URL shows the component of its file. Whatever the base path and whatever was opened
  before, opening \<open>/preview/p\<close> looks up the file \<open>src/components/mockups/p.tsx\<close> in the generated module: if it is not
  listed the page says so; if it is, nothing is shown until its import answers, and then the component that the
  module's exports give for the last part of \<open>p\<close>, or what went wrong. Answers to earlier imports, before or after,
  change nothing.\<close>

theorem preview_shown:
  assumes "list_all mockup_name files" and "p \<noteq> []" and "list_all (\<lambda>c. \<not> line_end c) p"
    and "n = Suc (length (filter (\<lambda>e. case e of Open q \<Rightarrow> True | _ \<Rightarrow> False) earlier))"
    and "list_all (\<lambda>e. \<not> answers_to n e) before" and "list_all (\<lambda>e. \<not> answers_to n e) after"
  shows "(let m = modules_of (map component_of files);
              view = (\<lambda>evs. sandbox_app r B (getBasePath B @ U ''/preview/'' @ p)
                (fold (renderer_step m) (earlier @ Open p # evs) renderer_start))
    in if U ''src/components/mockups/'' @ p @ U ''.tsx'' \<notin> set files
       then view before = [el ''pre'' [Txt (U ''No component found at '' @ p @ U ''.tsx'')]]
       else view before = [] \<and>
         view (before @ Loaded n (Inr modul) # after) =
           (case resolveComponent modul (last (split_on 47 p)) of
              Some c \<Rightarrow> [render_export r c]
            | None \<Rightarrow> [el ''pre'' [Txt (no_component p)]]) \<and>
         view (before @ Loaded n (Inl e) # after) =
           (case thrown_text e of Some message \<Rightarrow> [el ''pre'' [Txt (U ''Failed to load preview.'' @ 10 # message)]] | None \<Rightarrow> []))"
proof -
  define m where "m = modules_of (map component_of files)"
  define s where "s = open_path m p (fold (renderer_step m) earlier (renderer_start :: 'a renderer_state))"
  have n: "rd_effect s = n" using assms(4) by (simp add: s_def open_path_def effect_of_events renderer_start_def)
  have quiet: "fold (renderer_step m) evs t = t" if "list_all (\<lambda>e. \<not> answers_to n e) evs" "rd_effect t = n"
    for evs and t :: "'a renderer_state" using that by (rule others_ignored)
  have path: "rd_path s = p" "rd_component s = None" "rd_error s = (if U ''src/components/mockups/'' @ p @ U ''.tsx'' \<in> set files
      then None else Some (U ''No component found at '' @ p @ U ''.tsx''))"
    unfolding s_def open_path_def by (simp_all add: m_def module_lookup [OF assms(1)])
  have eff: "rd_effect (loaded n x s) = n" for x using n by (simp add: loaded_def split: sum.split option.split)
  have app: "sandbox_app r B (getBasePath B @ U ''/preview/'' @ p) t = PreviewRenderer r t" for t
    using preview_path_read [OF assms(2,3)] by (simp add: sandbox_app_def)
  have run: "fold (renderer_step m) (earlier @ Open p # before) renderer_start = s"
    "fold (renderer_step m) (earlier @ Open p # before @ Loaded n x # after) renderer_start = loaded n x s" for x
    using quiet [OF assms(5) n] quiet [OF assms(6) eff] by (simp_all add: s_def [symmetric])
  show ?thesis
    unfolding Let_def m_def [symmetric] run app
    using path n by (simp add: PreviewRenderer_def loaded_def split: option.split)
qed

theorem preview_shown_witness:
  "sandbox_app (\<lambda>c. el ''button'' [Txt c] :: unit view) (U ''/sandbox/'') (U ''/sandbox/preview/ui/A'')
     (fold (renderer_step (modules_of (map component_of [U ''src/components/mockups/ui/A.tsx''])))
       ([] @ Open (U ''ui/A'') # [] @ Loaded 1 (Inr [(U ''helper'', Value VNull), (U ''A'', Function (U ''Click''))]) # []) renderer_start)
   = [el ''button'' [T ''Click'']]"
proof -
  have f: "list_all mockup_name [U ''src/components/mockups/ui/A.tsx'']"
    by (simp add: mockup_name_def U_def Let_def ends_with_def)
  have p: "U ''ui/A'' \<noteq> []" "list_all (\<lambda>c. \<not> line_end c) (U ''ui/A'')" by (simp_all add: U_def line_end_def)
  have b: "getBasePath (U ''/sandbox/'') = U ''/sandbox''" by (simp add: getBasePath_def ends_with_def U_def)
  have eqs: "U ''src/components/mockups/'' @ U ''ui/A'' @ U ''.tsx'' = U ''src/components/mockups/ui/A.tsx''"
    "U ''/sandbox'' @ U ''/preview/'' @ U ''ui/A'' = U ''/sandbox/preview/ui/A''" by (simp_all add: U_def)
  have sp: "last (split_on 47 (U ''ui/A'')) = U ''A''" by (simp add: U_def)
  have rc: "resolveComponent [(U ''helper'', Value VNull), (U ''A'', Function (U ''Click''))] (U ''A'') = Some (Function (U ''Click''))"
    by (simp add: resolveComponent_def Let_def U_def)
  show ?thesis
    using preview_shown [OF f p, of 1 "[]" "[]" "[]" "\<lambda>c. el ''button'' [Txt c] :: unit view" "U ''/sandbox/''"
      "[(U ''helper'', Value VNull), (U ''A'', Function (U ''Click''))]" "AnyOther None"]
    by (simp add: b eqs sp rc Let_def)
qed

end
