(* ===== verification/Startup.thy ===== *)
theory Startup
  imports Health
begin

text \<open>
  What the processes and build tools check and take from the environment before they start: the Vite configurations
  of the dashboard and of the mock-up sandbox, the database pool (\<open>lib/db/src/index.ts\<close>), the Drizzle and orval
  configurations, and the options of the logger. The tools themselves are not modelled.
\<close>

section \<open>Ports and base paths\<close>

record vite_settings =
  vt_port :: jsnum
  vt_base :: jstr

definition needed :: "string \<Rightarrow> exn" where
  "needed k = Err (U k @ U '' environment variable is required but was not provided.'')"

definition vite_checks :: "env \<Rightarrow> exn + vite_settings" where
  "vite_checks e =
     (if \<not> env_truthy e ''PORT'' then Inl (needed ''PORT'')
      else let rawPort = the (e (U ''PORT'')); port = str_to_num rawPort in
        if port = NaN \<or> num_le port (Fin 0) then Inl (Err (U ''Invalid PORT value: '' @ [34] @ rawPort @ [34]))
        else if \<not> env_truthy e ''BASE_PATH'' then Inl (needed ''BASE_PATH'')
        else Inr \<lparr>vt_port = port, vt_base = the (e (U ''BASE_PATH''))\<rparr>)"

definition sandbox_checks :: "env \<Rightarrow> exn + vite_settings" where
  "sandbox_checks e =
     (if \<not> env_truthy e ''PORT'' then Inl (needed ''PORT'')
      else let rawPort = the (e (U ''PORT'')); port = str_to_num rawPort in
        if port = NaN \<or> num_le port (Fin 0) then Inl (Err (U ''Invalid PORT value: '' @ [34] @ rawPort @ [34]))
        else if \<not> env_truthy e ''BASE_PATH'' then Inl (needed ''BASE_PATH'')
        else Inr \<lparr>vt_port = port, vt_base = the (e (U ''BASE_PATH''))\<rparr>)"

text \<open>The plug-ins by name; the one option, the root that \<open>cartographer\<close> is told, is left out.\<close>

definition on_replit :: "env \<Rightarrow> bool" where
  "on_replit e \<longleftrightarrow> e (U ''NODE_ENV'') \<noteq> Some (U ''production'') \<and> e (U ''REPL_ID'') \<noteq> None"

definition vite_plugins :: "env \<Rightarrow> string list" where
  "vite_plugins e = [''react'', ''tailwindcss'', ''runtimeErrorOverlay''] @ (if on_replit e then [''cartographer'', ''devBanner''] else [])"

definition sandbox_plugins :: "env \<Rightarrow> string list" where
  "sandbox_plugins e = [''mockupPreviewPlugin'', ''react'', ''tailwindcss'', ''runtimeErrorOverlay''] @ (if on_replit e then [''cartographer''] else [])"

text \<open>The development server sends \<open>/api\<close>, web sockets included, to the API server.\<close>

definition proxy_target :: "env \<Rightarrow> jstr" where
  "proxy_target e = U ''http://localhost:'' @ env_or e ''API_SERVER_PORT'' ''8080''"

text \<open>\<open>res\<close> is \<open>path.resolve\<close> from the directory of the configuration, \<open>v\<close> what the checks above let through.\<close>

definition YES :: jsval where "YES = VBool True"

definition vite_config :: "(string list \<Rightarrow> jstr) \<Rightarrow> env \<Rightarrow> vite_settings \<Rightarrow> jsval" where
  "vite_config res e v = obj
     [(''base'', VStr (vt_base v)), (''plugins'', VArr (map S (vite_plugins e))),
      (''resolve'', obj [(''alias'', obj [(''@'', VStr (res [''src''])), (''@assets'', VStr (res [''..'', ''..'', ''attached_assets'']))]),
         (''dedupe'', VArr [S ''react'', S ''react-dom''])]),
      (''root'', VStr (res [])),
      (''build'', obj [(''outDir'', VStr (res [''dist/public''])), (''emptyOutDir'', YES)]),
      (''server'', obj [(''port'', VNum (vt_port v)), (''host'', S ''0.0.0.0''), (''allowedHosts'', YES),
         (''fs'', obj [(''strict'', YES), (''deny'', VArr [S ''**/.*''])]),
         (''proxy'', obj [(''/api'', obj [(''target'', VStr (proxy_target e)), (''changeOrigin'', YES), (''ws'', YES)])])]),
      (''preview'', obj [(''port'', VNum (vt_port v)), (''host'', S ''0.0.0.0''), (''allowedHosts'', YES)])]"

definition sandbox_config :: "(string list \<Rightarrow> jstr) \<Rightarrow> env \<Rightarrow> vite_settings \<Rightarrow> jsval" where
  "sandbox_config res e v = obj
     [(''base'', VStr (vt_base v)), (''plugins'', VArr (map S (sandbox_plugins e))),
      (''resolve'', obj [(''alias'', obj [(''@'', VStr (res [''src'']))])]),
      (''root'', VStr (res [])),
      (''build'', obj [(''outDir'', VStr (res [''dist''])), (''emptyOutDir'', YES)]),
      (''server'', obj [(''port'', VNum (vt_port v)), (''host'', S ''0.0.0.0''), (''allowedHosts'', YES),
         (''fs'', obj [(''strict'', YES), (''deny'', VArr [S ''**/.*''])])]),
      (''preview'', obj [(''port'', VNum (vt_port v)), (''host'', S ''0.0.0.0''), (''allowedHosts'', YES)])]"

section \<open>Database and code generation\<close>

definition db_pool :: "env \<Rightarrow> exn + jstr" where
  "db_pool e =
     (if \<not> env_truthy e ''DATABASE_URL'' then Inl (Err (U ''DATABASE_URL must be set. Did you forget to provision a database?''))
      else Inr (the (e (U ''DATABASE_URL''))))"

definition drizzle_config :: "jstr \<Rightarrow> env \<Rightarrow> exn + jsval" where
  "drizzle_config dirname e =
     (if \<not> env_truthy e ''DATABASE_URL'' then Inl (Err (U ''DATABASE_URL, ensure the database is provisioned''))
      else Inr (obj [(''schema'', VStr (dirname @ U ''/src/schema/index.ts'')), (''dialect'', S ''postgresql''),
        (''dbCredentials'', obj [(''url'', VStr (the (e (U ''DATABASE_URL''))))])]))"

text \<open>\<open>config.info ??= {}; config.info.title = "Api"\<close> on the members of the specification and of its \<open>info\<close>.\<close>

definition titleTransformer :: "(jstr \<times> jsval) list \<Rightarrow> (jstr \<times> jsval) list" where
  "titleTransformer config =
     (let info = (case map_of config (U ''info'') of Some (VObj ps) \<Rightarrow> ps | _ \<Rightarrow> [])
      in put (U ''info'') (VObj (put (U ''title'') (S ''Api'') info)) config)"

text \<open>The two outputs of orval; \<open>src\<close> gives the source directory of a library, the transformer is the one above.\<close>

definition openapi_input :: jsval where
  "openapi_input = obj [(''target'', S ''./openapi.yaml''), (''override'', obj [(''transformer'', S ''titleTransformer'')])]"

definition orval_config :: "(string \<Rightarrow> jstr) \<Rightarrow> jsval" where
  "orval_config src = obj
     [(''api-client-react'', obj
        [(''input'', openapi_input),
         (''output'', obj
            [(''workspace'', VStr (src ''api-client-react'')), (''target'', S ''generated''), (''client'', S ''react-query''), (''mode'', S ''split''),
             (''baseUrl'', S ''/api''), (''clean'', YES), (''prettier'', YES),
             (''override'', obj
                [(''fetch'', obj [(''includeHttpResponseReturnType'', VBool False)]),
                 (''mutator'', obj [(''path'', VStr (src ''api-client-react'' @ U ''/custom-fetch.ts'')), (''name'', S ''customFetch'')])])])]),
      (''zod'', obj
        [(''input'', openapi_input),
         (''output'', obj
            [(''workspace'', VStr (src ''api-zod'')), (''client'', S ''zod''), (''target'', S ''generated''),
             (''schemas'', obj [(''path'', S ''generated/types''), (''type'', S ''typescript'')]), (''mode'', S ''split''),
             (''clean'', YES), (''prettier'', YES),
             (''override'', obj
                [(''zod'', obj [(''coerce'', obj
                    [(''query'', VArr [S ''boolean'', S ''number'', S ''string'']), (''param'', VArr [S ''boolean'', S ''number'', S ''string'']),
                     (''body'', VArr [S ''bigint'', S ''date'']), (''response'', VArr [S ''bigint'', S ''date''])])]),
                 (''useDates'', YES), (''useBigInt'', YES)])])])]"

definition logger_options :: "env \<Rightarrow> jsval" where
  "logger_options e = obj
     ([(''level'', VStr (env_or e ''LOG_LEVEL'' ''info'')),
       (''redact'', VArr [S ''req.headers.authorization'', S ''req.headers.cookie'', VStr (U ''res.headers['' @ [39] @ U ''set-cookie'' @ [39] @ U '']'')])]
      @ (if e (U ''NODE_ENV'') = Some (U ''production'') then []
         else [(''transport'', obj [(''target'', S ''pino-pretty''), (''options'', obj [(''colorize'', VBool True)])])]))"

section \<open>The build of the server\<close>

definition EXTERNAL :: "string list" where
  "EXTERNAL =
     [''*.node'', ''sharp'', ''better-sqlite3'', ''sqlite3'', ''canvas'', ''bcrypt'', ''argon2'', ''fsevents'',
      ''re2'', ''farmhash'', ''xxhash-addon'', ''bufferutil'', ''utf-8-validate'', ''ssh2'', ''cpu-features'',
      ''dtrace-provider'', ''isolated-vm'', ''lightningcss'', ''pg-native'', ''oracledb'',
      ''mongodb-client-encryption'', ''nodemailer'', ''handlebars'', ''knex'', ''typeorm'', ''onnxruntime-node'',
      ''@tensorflow/*'', ''@prisma/client'', ''@mikro-orm/*'', ''@swc/*'', ''@aws-sdk/*'', ''@azure/*'',
      ''@opentelemetry/*'', ''@google-cloud/*'', ''@google/*'', ''googleapis'', ''firebase-admin'',
      ''@parcel/watcher'', ''@sentry/profiling-node'', ''@tree-sitter/*'', ''aws-sdk'', ''classic-level'',
      ''dd-trace'', ''ffi-napi'', ''grpc'', ''hiredis'', ''kerberos'', ''leveldown'', ''miniflare'', ''mysql2'',
      ''newrelic'', ''odbc'', ''piscina'', ''realm'', ''ref-napi'', ''rocksdb'', ''sass-embedded'', ''sequelize'',
      ''serialport'', ''snappy'', ''tinypool'', ''usb'', ''workerd'', ''wrangler'', ''zeromq'', ''zeromq-prebuilt'',
      ''playwright'', ''puppeteer'', ''puppeteer-core'', ''electron'']"

text \<open>The options of the bundler but for its plug-in and the banner text.\<close>

definition build_options :: "jstr \<Rightarrow> jsval" where
  "build_options artifactDir = obj
     [(''entryPoints'', VArr [VStr (artifactDir @ U ''/src/index.ts'')]), (''platform'', S ''node''), (''bundle'', YES), (''format'', S ''esm''),
      (''outdir'', VStr (artifactDir @ U ''/dist'')), (''outExtension'', obj [(''.js'', S ''.mjs'')]), (''logLevel'', S ''info''),
      (''external'', VArr (map S EXTERNAL)), (''sourcemap'', S ''linked'')]"

text \<open>\<open>buildAll\<close> and what becomes of it: how the removal of \<open>dist\<close> and the bundler settle, what the bundler is asked, and the
  exit code of the process.\<close>

definition buildAll :: "(exn + unit) \<Rightarrow> (jsval \<Rightarrow> exn + unit) \<Rightarrow> jstr \<Rightarrow> jsval list \<times> (exn + unit)" where
  "buildAll rm esbuild artifactDir =
     (case rm of Inl e \<Rightarrow> ([], Inl e) | Inr _ \<Rightarrow> ([build_options artifactDir], esbuild (build_options artifactDir)))"

definition build_exit :: "exn + unit \<Rightarrow> nat" where
  "build_exit r = (case r of Inl e \<Rightarrow> 1 | Inr _ \<Rightarrow> 0)"

lemma build_succeeds:
  "build_exit (snd (buildAll rm esbuild dir)) = 0 \<longleftrightarrow> rm = Inr () \<and> esbuild (build_options dir) = Inr ()"
  by (auto simp: buildAll_def build_exit_def split: sum.splits)

section \<open>The checks agree\<close>

text \<open>The API server and both Vite servers accept the same values of \<open>PORT\<close> and refuse the others with the same error;
  no port that is no positive number passes.\<close>

lemma ports_agree:
  "vite_checks e = sandbox_checks e"
  "boot_port e = Inl x \<Longrightarrow> vite_checks e = Inl x"
  "boot_port e = Inr n \<Longrightarrow> num_lt (Fin 0) n \<and>
     vite_checks e = (if env_truthy e ''BASE_PATH'' then Inr \<lparr>vt_port = n, vt_base = the (e (U ''BASE_PATH''))\<rparr> else Inl (needed ''BASE_PATH''))"
proof -
  show "vite_checks e = sandbox_checks e" by (simp add: vite_checks_def sandbox_checks_def)
  show "boot_port e = Inl x \<Longrightarrow> vite_checks e = Inl x"
    by (auto simp: vite_checks_def boot_port_def needed_def Let_def U_append [symmetric] split: if_splits)
  assume "boot_port e = Inr n"
  moreover have "num_lt (Fin 0) m" if "m \<noteq> NaN" "\<not> num_le m (Fin 0)" for m using that by (cases m) (auto simp: num_le_def num_eq_def)
  ultimately show "num_lt (Fin 0) n \<and>
     vite_checks e = (if env_truthy e ''BASE_PATH'' then Inr \<lparr>vt_port = n, vt_base = the (e (U ''BASE_PATH''))\<rparr> else Inl (needed ''BASE_PATH''))"
    by (auto simp: vite_checks_def boot_port_def Let_def split: if_splits)
qed

text \<open>Every server listens on the port that the checks let through.\<close>

lemma listens_on_checked_port:
  "vite_checks e = Inr v \<Longrightarrow> num_lt (Fin 0) (vt_port v) \<and>
     list_all (\<lambda>c. get (get c ''server'') ''port'' = VNum (vt_port v) \<and> get (get c ''preview'') ''port'' = VNum (vt_port v))
       [vite_config res e v, sandbox_config res e v]"
  using ports_agree(3) [of e "vt_port v"]
  by (auto simp: vite_config_def sandbox_config_def vite_checks_def boot_port_def Let_def split: if_splits)

text \<open>The database URL is not among what the logger is told, and what it is told to redact does not depend on the environment.\<close>

lemma logger_redacts: "get (logger_options e) ''redact'' = get (logger_options e') ''redact''"
  by (simp add: logger_options_def)

end
