(* ===== verification/Toaster.thy ===== *)
theory Toaster
  imports DashboardPage Toasts
begin

text \<open>
  \<open>components/ui/toaster.tsx\<close> with \<open>toast.tsx\<close>: what is on the screen of the notifications that the hook of \<open>Toasts\<close>
  keeps. The toast primitives are Radix': an open toast is shown, a closed one on its way out; closing calls
  \<open>onOpenChange(false)\<close>. The theorem follows a press of the dashboard's button through the server to the screen.
\<close>

section \<open>The components\<close>

definition Toast :: "(string \<times> jsval) list \<Rightarrow> (string \<times> (jsval \<Rightarrow> 'a)) list \<Rightarrow> 'a view list \<Rightarrow> 'a view" where
  "Toast props handlers kids = El ''ToastPrimitives.Root'' props handlers kids"

definition ToastViewport :: "'a view" where
  "ToastViewport = el ''ToastPrimitives.Viewport'' []"

definition ToastAction :: "(string \<times> jsval) list \<Rightarrow> (string \<times> (jsval \<Rightarrow> 'a)) list \<Rightarrow> 'a view list \<Rightarrow> 'a view" where
  "ToastAction props handlers kids = El ''ToastPrimitives.Action'' props handlers kids"

definition ToastClose :: "'a view" where
  "ToastClose = El ''ToastPrimitives.Close'' [(''toast-close'', VStr [])] [] []"

definition ToastTitle :: "'a view list \<Rightarrow> 'a view" where
  "ToastTitle kids = el ''ToastPrimitives.Title'' kids"

definition ToastDescription :: "'a view list \<Rightarrow> 'a view" where
  "ToastDescription kids = el ''ToastPrimitives.Description'' kids"

text \<open>Of the properties that are passed on, a toast of this program has only its variant. Its \<open>onOpenChange\<close> is the one
  that \<open>toast\<close> gave it; \<open>None\<close> is a call that does nothing.\<close>

definition toaster_item :: "toaster_toast \<Rightarrow> toast_event option view" where
  "toaster_item t =
     (let title = lookup (U ''title'') (to_props t); description = lookup (U ''description'') (to_props t);
          action = lookup (U ''action'') (to_props t)
      in Toast [(''key'', VStr (to_id t)), (''open'', VBool (to_open t)), (''variant'', lookup (U ''variant'') (to_props t))]
           [(''onOpenChange'', \<lambda>open. if truthy open then None else Some (Dismiss (to_id t)))]
           ([el ''div'' (and_view title [ToastTitle (child title)] @ and_view description [ToastDescription (child description)])]
            @ child action @ [ToastClose]))"

definition Toaster :: "toaster_toast list \<Rightarrow> toast_event option view" where
  "Toaster toasts = el ''ToastProvider'' (map toaster_item toasts @ [ToastViewport])"

section \<open>From the button to the screen\<close>

text \<open>The call of \<open>toast\<close> that a notice of the dashboard is.\<close>

definition notice_props :: "notice \<Rightarrow> (jstr \<times> jsval) list" where
  "notice_props n = [(U ''title'', VStr (nt_title n)), (U ''description'', VStr (nt_description n))]
     @ (if nt_destructive n then [(U ''variant'', S ''destructive'')] else [])"

text \<open>The toasts that are on the screen, with their variants.\<close>

definition on_screen :: "'a view list \<Rightarrow> (jsval \<times> jsval) list" where
  "on_screen vs = map (\<lambda>e. (attr ''key'' (snd e), attr ''variant'' (snd e)))
     (filter (\<lambda>e. fst e = ''ToastPrimitives.Root'' \<and> attr ''open'' (snd e) = VBool True) (elements_of vs))"

lemma single_toast:
  "shown_texts [Toaster [\<lparr>to_id = i, to_open = b, to_props = notice_props n\<rparr>]] = [nt_title n, nt_description n]"
  "on_screen [Toaster [\<lparr>to_id = i, to_open = b, to_props = notice_props n\<rparr>]]
     = (if b then [(VStr i, if nt_destructive n then S ''destructive'' else VUndef)] else [])"
  "concat (map (offers ''onOpenChange'') [Toaster [\<lparr>to_id = i, to_open = b, to_props = notice_props n\<rparr>]])
     = [\<lambda>open. if truthy open then None else Some (Dismiss i)]"
  by (auto simp: Toaster_def ToastViewport_def toaster_item_def Toast_def ToastClose_def ToastTitle_def ToastDescription_def notice_props_def
      on_screen_def attr_def lookup_def and_view_def U_def Let_def)

lemma map_of_const [simp]: "map_of (map (\<lambda>(i, u). (i, v)) xs) j = map_option (\<lambda>u. v) (map_of xs j)"
  by (induction xs) auto

lemma reducer_listeners [simp]: "tt_listeners (reducer now a s) = tt_listeners s"
  by (cases a) (auto simp: Let_def split: option.split list.split)

lemma listener_sees:
  "map_of (tt_listeners s) j \<noteq> None \<Longrightarrow> map_of (tt_listeners (dispatch now a s)) j = Some (tt_toasts (dispatch now a s))"
  by (auto simp: dispatch_def Let_def)

lemma pressed_notice:
  "\<exists>m. get (r_body (answer (control_route a w) h)) ''message'' = VStr m \<and>
     nt_description (control_notice a (botControl a (fetched (answer (control_route a w) h)))) = m"
proof -
  obtain m where m: "answer (control_route a w) h = ok (obj [(''success'', VBool (acknowledged a w h)), (''message'', VStr m)])"
    using control_answer by blast
  then have "botControl a (fetched (answer (control_route a w) h)) = Inr (obj [(''success'', VBool (acknowledged a w h)), (''message'', VStr m)])"
    by (simp add: botControl_def fetched_def wire_obj)
  then show ?thesis using m by (simp add: control_notice_def read_prop_def)
qed

text \<open>C19: what the start and stop button did is on the screen. Whatever notifications there were, and whatever
  the engines do, the notification that follows a press is the only one on the screen, says whether the bot was
  started or stopped, in red exactly when no strategy acknowledged the change, and carries the server's own message.
  Its close button takes it off the screen, and its timer removes it.\<close>

theorem press_is_seen:
  "let yes = acknowledged a w h; reply = answer (control_route a w) h;
       n = control_notice a (botControl a (fetched reply));
       (i, s) = toast now (notice_props n) (toast_run (es @ [(t, Join j)]));
       seen = (\<lambda>s. [Toaster (the (map_of (tt_listeners s) j))]);
       closed = toast_step (later, Dismiss i) s
   in (\<exists>message. get (r_body reply) ''message'' = VStr message \<and> shown_texts (seen s) =
        [U (case a of Start \<Rightarrow> if yes then ''Bot started'' else ''Could not start bot''
                    | Stop \<Rightarrow> if yes then ''Bot stopped'' else ''Could not stop bot''), message]) \<and>
      on_screen (seen s) = [(VStr i, if yes then VUndef else S ''destructive'')] \<and>
      map (\<lambda>f. f (VBool False)) (concat (map (offers ''onOpenChange'') (seen s))) = [Some (Dismiss i)] \<and>
      on_screen (seen closed) = [] \<and>
      (\<exists>due. map_of (tt_timers closed) i = Some due \<and> shown_texts (seen (toast_step (due, Timer i) closed)) = [])"
proof -
  define s0 where "s0 = toast_run (es @ [(t, Join j)])"
  define n where "n = control_notice a (botControl a (fetched (answer (control_route a w) h)))"
  obtain i s where p: "toast now (notice_props n) s0 = (i, s)" by fastforce
  have i: "i \<noteq> []" using p dec_nat_ne by (auto simp: toast_def genId_def Let_def)
  have j: "map_of (tt_listeners s0) j \<noteq> None" by (simp add: s0_def toast_run_def useToast_def)
  have s: "tt_toasts s = [\<lparr>to_id = i, to_open = True, to_props = notice_props n\<rparr>]" "map_of (tt_listeners s) j = Some (tt_toasts s)"
    using p listener_sees [of "snd (genId s0)" j] j
    by (auto simp: toast_def genId_def dispatch_def TOAST_LIMIT_def Let_def)
  define c where "c = toast_step (later, Dismiss i) s"
  have c: "map_of (tt_listeners c) j = Some (tt_toasts c)" "tt_toasts c = [\<lparr>to_id = i, to_open = False, to_props = notice_props n\<rparr>]"
    using listener_sees [of s j later "DISMISS_TOAST (Some i)"] s i
    by (auto simp: c_def dismiss_toast_def dispatch_def Let_def neq_Nil_conv)
  obtain due where due: "map_of (tt_timers c) i = Some due"
    using i by (cases "map_of (tt_timers s) i")
      (auto simp: c_def dismiss_toast_def dispatch_def addToRemoveQueue_def Let_def neq_Nil_conv)
  have r: "map_of (tt_listeners (toast_step (due, Timer i) c)) j = Some []"
    using listener_sees [of "c\<lparr>tt_timers := del i (tt_timers c)\<rparr>" j due "REMOVE_TOAST (Some i)"] c due
    by (simp add: timer_fires_def dispatch_def Let_def)
  have e: "shown_texts [Toaster []] = []" by (simp add: Toaster_def ToastViewport_def)
  note told = bot_control_told [of _ _ a w h, THEN conjunct2, unfolded Let_def, folded n_def]
  obtain m where m: "get (r_body (answer (control_route a w) h)) ''message'' = VStr m" "nt_description n = m"
    using pressed_notice [of a w h] by (auto simp: n_def)
  have "shown_texts [Toaster (the (map_of (tt_listeners (toast_step (due, Timer i) c)) j))] = []" using r e by simp
  then have gone: "\<exists>due. map_of (tt_timers c) i = Some due \<and>
      shown_texts [Toaster (the (map_of (tt_listeners (toast_step (due, Timer i) c)) j))] = []" using due by blast
  show ?thesis
    unfolding Let_def s0_def [symmetric] n_def [symmetric] p prod.case c_def [symmetric] s c option.sel single_toast
    using m told gone by simp
qed

end
