(* ===== verification/SidebarUi.thy ===== *)
theory SidebarUi
  imports View
begin

text \<open>
  \<open>hooks/use-mobile.tsx\<close> and \<open>components/ui/sidebar.tsx\<close>: the width of the window as a hook sees it, the provider
  that keeps a side bar open or collapsed, with its cookie and its key, and the parts of the bar. React renders
  after the events of one batch, and a callback goes by the values of the render it was made in, so these are part
  of the state (\<open>sd_seen_\<dots>\<close>), and a render is a step. A part's properties \<open>props\<close> come before its own attributes,
  which they override.
\<close>

section \<open>The width of the window\<close>

definition MOBILE_BREAKPOINT :: int where
  "MOBILE_BREAKPOINT = 768"

record window =
  wn_width :: int
  wn_isMobile :: "bool option" \<comment> \<open>the hook's state; \<open>None\<close> until its effect has run\<close>

definition mobile_change :: "window \<Rightarrow> window" where
  "mobile_change s = s\<lparr>wn_isMobile := Some (wn_width s < MOBILE_BREAKPOINT)\<rparr>"

text \<open>A new width; the media query \<open>(max-width: 767px)\<close> reports when its answer changes.\<close>

definition window_resized :: "int \<Rightarrow> window \<Rightarrow> window" where
  "window_resized w s =
     (let t = s\<lparr>wn_width := w\<rparr>
      in if wn_isMobile s \<noteq> None \<and> (w \<le> MOBILE_BREAKPOINT - 1) \<noteq> (wn_width s \<le> MOBILE_BREAKPOINT - 1) then mobile_change t else t)"

definition useIsMobile :: "window \<Rightarrow> bool" where
  "useIsMobile s \<longleftrightarrow> wn_isMobile s = Some True"

lemma mobile_follows_width:
  "let s = fold window_resized ws (mobile_change s0) in useIsMobile s \<longleftrightarrow> wn_width s < 768"
proof -
  have "wn_isMobile s = Some (wn_width s < 768) \<Longrightarrow>
      wn_isMobile (fold window_resized ws s) = Some (wn_width (fold window_resized ws s) < 768)" for s
    by (induction ws arbitrary: s) (auto simp: window_resized_def mobile_change_def MOBILE_BREAKPOINT_def Let_def)
  from this [of "mobile_change s0"] show ?thesis
    by (simp add: useIsMobile_def mobile_change_def MOBILE_BREAKPOINT_def Let_def)
qed

section \<open>The provider\<close>

definition SIDEBAR_COOKIE_NAME :: jstr where
  "SIDEBAR_COOKIE_NAME = U ''sidebar_state''"

definition SIDEBAR_COOKIE_MAX_AGE :: nat where
  "SIDEBAR_COOKIE_MAX_AGE = 60 * 60 * 24 * 7"

record sidebar =
  sd_open :: bool
  sd_openMobile :: bool
  sd_cookie :: "jstr option"
  sd_told :: "bool list" \<comment> \<open>the calls of \<open>onOpenChange\<close>, the last first\<close>
  sd_seen_open :: bool
  sd_seen_mobile :: bool

definition sidebar_cookie :: "bool \<Rightarrow> jstr" where
  "sidebar_cookie openState = SIDEBAR_COOKIE_NAME @ 61 # U (if openState then ''true'' else ''false'')
     @ U ''; path=/; max-age='' @ dec_nat SIDEBAR_COOKIE_MAX_AGE"

text \<open>\<open>setOpen\<close> with a value or a function of the value; \<open>handled\<close> says whether there is an \<open>onOpenChange\<close>.\<close>

definition sidebar_setOpen :: "bool \<Rightarrow> (bool \<Rightarrow> bool) \<Rightarrow> sidebar \<Rightarrow> sidebar" where
  "sidebar_setOpen handled value s =
     (let openState = value (sd_seen_open s);
          t = (if handled then s\<lparr>sd_told := openState # sd_told s\<rparr> else s\<lparr>sd_open := openState\<rparr>)
      in t\<lparr>sd_cookie := Some (sidebar_cookie openState)\<rparr>)"

definition toggleSidebar :: "bool \<Rightarrow> sidebar \<Rightarrow> sidebar" where
  "toggleSidebar handled s =
     (if sd_seen_mobile s then s\<lparr>sd_openMobile := \<not> sd_openMobile s\<rparr> else sidebar_setOpen handled Not s)"

definition sidebar_key :: "bool \<Rightarrow> jstr \<Rightarrow> bool \<Rightarrow> bool \<Rightarrow> sidebar \<Rightarrow> sidebar" where
  "sidebar_key handled key metaKey ctrlKey s =
     (if key = U ''b'' \<and> (metaKey \<or> ctrlKey) then toggleSidebar handled s else s)"

text \<open>A render, with the \<open>open\<close> property and the width hook's answer of the time.\<close>

definition sidebar_render :: "bool option \<Rightarrow> bool \<Rightarrow> sidebar \<Rightarrow> sidebar" where
  "sidebar_render openProp isMobile s =
     s\<lparr>sd_seen_open := (case openProp of Some b \<Rightarrow> b | None \<Rightarrow> sd_open s), sd_seen_mobile := isMobile\<rparr>"

definition sidebar_mount :: "bool \<Rightarrow> bool option \<Rightarrow> bool \<Rightarrow> sidebar" where
  "sidebar_mount defaultOpen openProp isMobile = sidebar_render openProp isMobile
     \<lparr>sd_open = defaultOpen, sd_openMobile = False, sd_cookie = None, sd_told = [], sd_seen_open = defaultOpen, sd_seen_mobile = isMobile\<rparr>"

datatype sidebar_event = Toggle | KeyDown jstr bool bool | SetOpen bool | SetOpenMobile bool

fun sidebar_step :: "bool \<Rightarrow> sidebar_event \<Rightarrow> sidebar \<Rightarrow> sidebar" where
  "sidebar_step handled Toggle s = toggleSidebar handled s"
| "sidebar_step handled (KeyDown k meta ctrl) s = sidebar_key handled k meta ctrl s"
| "sidebar_step handled (SetOpen b) s = sidebar_setOpen handled (\<lambda>_. b) s"
| "sidebar_step handled (SetOpenMobile b) s = s\<lparr>sd_openMobile := b\<rparr>"

section \<open>The parts\<close>

text \<open>Outside a provider the context is missing.\<close>

definition useSidebar :: "sidebar option \<Rightarrow> exn + sidebar" where
  "useSidebar context = (case context of None \<Rightarrow> Inl (Err (U ''useSidebar must be used within a SidebarProvider.'')) | Some c \<Rightarrow> Inr c)"

definition with_sidebar :: "sidebar option \<Rightarrow> (sidebar \<Rightarrow> 'a view) \<Rightarrow> 'a view" where
  "with_sidebar context f = (case useSidebar context of Inl e \<Rightarrow> Throw e | Inr s \<Rightarrow> f s)"

definition sidebar_state :: "sidebar \<Rightarrow> string" where
  "sidebar_state s = (if sd_seen_open s then ''expanded'' else ''collapsed'')"

definition SidebarProvider :: "(string \<times> jsval) list \<Rightarrow> 'a view list \<Rightarrow> 'a view" where
  "SidebarProvider props kids = El ''TooltipProvider'' [(''delayDuration'', VI 0)] []
     [El ''div'' (props @ [(''data-slot'', S ''sidebar-wrapper'')]) [] kids]"

definition Sidebar_ui ::
  "sidebar option \<Rightarrow> string \<Rightarrow> string \<Rightarrow> string \<Rightarrow> (string \<times> jsval) list \<Rightarrow> sidebar_event view list \<Rightarrow> sidebar_event view" where
  "Sidebar_ui context side variant collapsible props kids = with_sidebar context (\<lambda>s.
     if collapsible = ''none'' then El ''div'' (props @ [(''data-slot'', S ''sidebar'')]) [] kids
     else if sd_seen_mobile s then
       El ''Sheet'' (props @ [(''open'', VBool (sd_openMobile s))]) [(''onOpenChange'', \<lambda>v. SetOpenMobile (truthy v))]
         [El ''SheetContent'' [(''data-sidebar'', S ''sidebar''), (''data-slot'', S ''sidebar''), (''data-mobile'', S ''true''), (''side'', S side)] []
           [el ''SheetHeader'' [el ''SheetTitle'' [T ''Sidebar''], el ''SheetDescription'' [T ''Displays the mobile sidebar.'']],
            el ''div'' kids]]
     else
       El ''div'' [(''data-state'', S (sidebar_state s)),
           (''data-collapsible'', S (if sidebar_state s = ''collapsed'' then collapsible else '''')),
           (''data-variant'', S variant), (''data-side'', S side), (''data-slot'', S ''sidebar'')] []
         [El ''div'' [(''data-slot'', S ''sidebar-gap'')] [] [],
          El ''div'' (props @ [(''data-slot'', S ''sidebar-container'')]) []
            [El ''div'' [(''data-sidebar'', S ''sidebar''), (''data-slot'', S ''sidebar-inner'')] [] kids]])"

text \<open>The caller's own handler, if there is one, is called before the trigger toggles; the rail's replaces it.\<close>

definition SidebarTrigger :: "sidebar option \<Rightarrow> (string \<times> jsval) list \<Rightarrow> sidebar_event view" where
  "SidebarTrigger context props = with_sidebar context (\<lambda>s.
     El ''Button'' (props @ [(''data-sidebar'', S ''trigger''), (''data-slot'', S ''sidebar-trigger''), (''variant'', S ''ghost''), (''size'', S ''icon'')])
       [(''onClick'', \<lambda>_. Toggle)] [el ''span'' [T ''Toggle Sidebar'']])"

definition SidebarRail :: "sidebar option \<Rightarrow> (string \<times> jsval) list \<Rightarrow> sidebar_event view" where
  "SidebarRail context props = with_sidebar context (\<lambda>s.
     El ''button'' (props @ [(''data-sidebar'', S ''rail''), (''data-slot'', S ''sidebar-rail''), (''aria-label'', S ''Toggle Sidebar''),
         (''tabIndex'', VI (-1)), (''title'', S ''Toggle Sidebar'')])
       [(''onClick'', \<lambda>_. Toggle)] [])"

text \<open>The parts that are one element each; \<open>asChild\<close> puts the caller's element in its place.\<close>

datatype bar_part = Inset | InputField | Header | Footer | Divider | Content | Group | GroupLabel | GroupAction | GroupContent

definition slot_attrs :: "string \<Rightarrow> string \<Rightarrow> (string \<times> jsval) list" where
  "slot_attrs slot name = [(''data-slot'', S slot), (''data-sidebar'', S name)]"

fun sidebar_part :: "bar_part \<Rightarrow> bool \<Rightarrow> (string \<times> jsval) list \<Rightarrow> 'a view list \<Rightarrow> 'a view" where
  "sidebar_part Inset asChild props kids = El ''main'' (props @ [(''data-slot'', S ''sidebar-inset'')]) [] kids"
| "sidebar_part InputField asChild props kids = El ''Input'' (props @ slot_attrs ''sidebar-input'' ''input'') [] kids"
| "sidebar_part Header asChild props kids = El ''div'' (props @ slot_attrs ''sidebar-header'' ''header'') [] kids"
| "sidebar_part Footer asChild props kids = El ''div'' (props @ slot_attrs ''sidebar-footer'' ''footer'') [] kids"
| "sidebar_part Divider asChild props kids = El ''Separator'' (props @ slot_attrs ''sidebar-separator'' ''separator'') [] kids"
| "sidebar_part Content asChild props kids = El ''div'' (props @ slot_attrs ''sidebar-content'' ''content'') [] kids"
| "sidebar_part Group asChild props kids = El ''div'' (props @ slot_attrs ''sidebar-group'' ''group'') [] kids"
| "sidebar_part GroupLabel asChild props kids =
     El (if asChild then ''Slot'' else ''div'') (props @ slot_attrs ''sidebar-group-label'' ''group-label'') [] kids"
| "sidebar_part GroupAction asChild props kids =
     El (if asChild then ''Slot'' else ''button'') (props @ slot_attrs ''sidebar-group-action'' ''group-action'') [] kids"
| "sidebar_part GroupContent asChild props kids = El ''div'' (props @ slot_attrs ''sidebar-group-content'' ''group-content'') [] kids"

definition SidebarMenu :: "(string \<times> jsval) list \<Rightarrow> 'a view list \<Rightarrow> 'a view" where
  "SidebarMenu props kids = El ''ul'' (props @ slot_attrs ''sidebar-menu'' ''menu'') [] kids"

definition SidebarMenuItem :: "(string \<times> jsval) list \<Rightarrow> 'a view list \<Rightarrow> 'a view" where
  "SidebarMenuItem props kids = El ''li'' (props @ slot_attrs ''sidebar-menu-item'' ''menu-item'') [] kids"

definition SidebarMenuAction :: "bool \<Rightarrow> (string \<times> jsval) list \<Rightarrow> 'a view list \<Rightarrow> 'a view" where
  "SidebarMenuAction asChild props kids =
     El (if asChild then ''Slot'' else ''button'') (props @ slot_attrs ''sidebar-menu-action'' ''menu-action'') [] kids"

definition SidebarMenuBadge :: "(string \<times> jsval) list \<Rightarrow> 'a view list \<Rightarrow> 'a view" where
  "SidebarMenuBadge props kids = El ''div'' (props @ slot_attrs ''sidebar-menu-badge'' ''menu-badge'') [] kids"

definition SidebarMenuSub :: "(string \<times> jsval) list \<Rightarrow> 'a view list \<Rightarrow> 'a view" where
  "SidebarMenuSub props kids = El ''ul'' (props @ slot_attrs ''sidebar-menu-sub'' ''menu-sub'') [] kids"

definition SidebarMenuSubItem :: "(string \<times> jsval) list \<Rightarrow> 'a view list \<Rightarrow> 'a view" where
  "SidebarMenuSubItem props kids = El ''li'' (props @ slot_attrs ''sidebar-menu-sub-item'' ''menu-sub-item'') [] kids"

text \<open>A property of the tooltip's object, or its default.\<close>

definition prop_or :: "string \<Rightarrow> jsval \<Rightarrow> jsval \<Rightarrow> jsval" where
  "prop_or k d v = (case v of VObj ps \<Rightarrow> (case map_of ps (U k) of Some x \<Rightarrow> x | None \<Rightarrow> d) | _ \<Rightarrow> d)"

definition SidebarMenuButton ::
  "sidebar option \<Rightarrow> bool \<Rightarrow> bool \<Rightarrow> string \<Rightarrow> jsval \<Rightarrow> (string \<times> jsval) list \<Rightarrow> 'a view list \<Rightarrow> 'a view" where
  "SidebarMenuButton context asChild isActive sz tooltip props kids = with_sidebar context (\<lambda>s.
     let button = El (if asChild then ''Slot'' else ''button'')
           (props @ [(''data-slot'', S ''sidebar-menu-button''), (''data-sidebar'', S ''menu-button''), (''data-size'', S sz),
              (''data-active'', VBool isActive)]) [] kids;
         tip = (case tooltip of VStr t \<Rightarrow> obj [(''children'', VStr t)] | _ \<Rightarrow> tooltip)
     in if \<not> truthy tooltip then button
        else el ''Tooltip''
          [El ''TooltipTrigger'' [(''asChild'', VBool True)] [] [button],
           El ''TooltipContent'' [(''side'', prop_or ''side'' (S ''right'') tip), (''align'', prop_or ''align'' (S ''center'') tip),
               (''hidden'', prop_or ''hidden'' (VBool (sidebar_state s \<noteq> ''collapsed'' \<or> sd_seen_mobile s)) tip)] []
             (child (get tip ''children''))])"

text \<open>\<open>random\<close> is the answer of \<open>Math.random()\<close> at the first render.\<close>

definition skeleton_width :: "jsnum \<Rightarrow> jsnum" where
  "skeleton_width random = num_add (math_floor (num_mul random (NumI 40))) (NumI 50)"

definition SidebarMenuSkeleton :: "jsnum \<Rightarrow> bool \<Rightarrow> (string \<times> jsval) list \<Rightarrow> 'a view" where
  "SidebarMenuSkeleton random showIcon props =
     El ''div'' (props @ [(''data-slot'', S ''sidebar-menu-skeleton''), (''data-sidebar'', S ''menu-skeleton'')]) []
       ((if showIcon then [El ''Skeleton'' [(''data-sidebar'', S ''menu-skeleton-icon'')] [] []] else [])
        @ [El ''Skeleton'' [(''data-sidebar'', S ''menu-skeleton-text''),
             (''--skeleton-width'', VStr (num_to_string (skeleton_width random) @ U ''%''))] [] []])"

definition SidebarMenuSubButton :: "bool \<Rightarrow> string \<Rightarrow> bool \<Rightarrow> (string \<times> jsval) list \<Rightarrow> 'a view list \<Rightarrow> 'a view" where
  "SidebarMenuSubButton asChild sz isActive props kids =
     El (if asChild then ''Slot'' else ''a'')
       (props @ [(''data-slot'', S ''sidebar-menu-sub-button''), (''data-sidebar'', S ''menu-sub-button''), (''data-size'', S sz),
          (''data-active'', VBool isActive)]) [] kids"

section \<open>What the bar does\<close>

text \<open>The bar as its user sees it: open or not on a wide window, open or not on a narrow one, whether the window is
  narrow, and whether the wide bar's state has ever been set.\<close>

fun sidebar_spec :: "sidebar_event \<times> bool \<Rightarrow> bool \<times> bool \<times> bool \<times> bool \<Rightarrow> bool \<times> bool \<times> bool \<times> bool" where
  "sidebar_spec (Toggle, m) (wide, slim, mobile, ever) = (if mobile then (wide, \<not> slim, m, ever) else (\<not> wide, slim, m, True))"
| "sidebar_spec (KeyDown k meta ctrl, m) (wide, slim, mobile, ever) =
     (if k = U ''b'' \<and> (meta \<or> ctrl) then (if mobile then (wide, \<not> slim, m, ever) else (\<not> wide, slim, m, True)) else (wide, slim, m, ever))"
| "sidebar_spec (SetOpen b, m) (wide, slim, mobile, ever) = (b, slim, m, True)"
| "sidebar_spec (SetOpenMobile b, m) (wide, slim, mobile, ever) = (wide, b, m, ever)"

text \<open>A run with a render after each event: the provider keeps the state itself, or its parent does, as it is told to.\<close>

definition run_alone :: "bool \<Rightarrow> bool \<Rightarrow> (sidebar_event \<times> bool) list \<Rightarrow> sidebar" where
  "run_alone d m es = fold (\<lambda>(e, m) s. sidebar_render None m (sidebar_step False e s)) es (sidebar_mount d None m)"

definition told_open :: "bool \<Rightarrow> sidebar \<Rightarrow> bool" where
  "told_open d s = (case sd_told s of [] \<Rightarrow> d | b # bs \<Rightarrow> b)"

definition run_handled :: "bool \<Rightarrow> bool \<Rightarrow> (sidebar_event \<times> bool) list \<Rightarrow> sidebar" where
  "run_handled d m es = fold (\<lambda>(e, m) s. let t = sidebar_step True e s in sidebar_render (Some (told_open d t)) m t) es
     (sidebar_mount True (Some d) m)"

definition shows_spec :: "sidebar \<Rightarrow> bool \<times> bool \<times> bool \<times> bool \<Rightarrow> bool" where
  "shows_spec s t = (case t of (wide, slim, mobile, ever) \<Rightarrow>
     sd_seen_open s = wide \<and> sd_openMobile s = slim \<and> sd_seen_mobile s = mobile \<and>
     sd_cookie s = (if ever then Some (sidebar_cookie wide) else None))"

lemmas sidebar_defs = sidebar_setOpen_def toggleSidebar_def sidebar_key_def sidebar_render_def sidebar_mount_def shows_spec_def told_open_def

lemma alone_step:
  assumes "shows_spec s t" and "sd_open s = sd_seen_open s"
  shows "shows_spec (sidebar_render None m (sidebar_step False e s)) (sidebar_spec (e, m) t) \<and>
    sd_open (sidebar_render None m (sidebar_step False e s)) = sd_seen_open (sidebar_render None m (sidebar_step False e s))"
  using assms by (cases t; cases e) (auto simp: sidebar_defs Let_def)

lemma handled_step:
  assumes "shows_spec s t" and "told_open d s = sd_seen_open s"
  shows "(let u = sidebar_step True e s; v = sidebar_render (Some (told_open d u)) m u
    in shows_spec v (sidebar_spec (e, m) t) \<and> told_open d v = sd_seen_open v)"
  using assms by (cases t; cases e) (auto simp: sidebar_defs Let_def split: list.splits)

text \<open>A side bar behaves as its specification says, whoever keeps its state. With a render after
  each event, whatever is clicked, pressed and set while the window grows and shrinks, the bar is expanded or
  collapsed, and open on a narrow window, as specified, both when the provider keeps the state and when a parent keeps
  what it is told; and the cookie, written when the state is first set, always tells the state.\<close>

theorem sidebar_as_specified:
  "list_all (\<lambda>s. (case fold sidebar_spec es (d, False, m, False) of (wide, slim, mobile, ever) \<Rightarrow>
       sidebar_state s = (if wide then ''expanded'' else ''collapsed'') \<and> sd_openMobile s = slim \<and> sd_seen_mobile s = mobile \<and>
       sd_cookie s = (if ever then Some (sidebar_cookie wide) else None)))
     [run_alone d m es, run_handled d m es]"
proof -
  have "shows_spec s t \<Longrightarrow> sd_open s = sd_seen_open s \<Longrightarrow>
      shows_spec (fold (\<lambda>(e, m) s. sidebar_render None m (sidebar_step False e s)) es s) (fold sidebar_spec es t)" for s t
    using alone_step by (induction es arbitrary: s t) (auto split: prod.split)
  then have a: "shows_spec (run_alone d m es) (fold sidebar_spec es (d, False, m, False))"
    by (simp add: run_alone_def sidebar_defs)
  have "shows_spec s t \<Longrightarrow> told_open d s = sd_seen_open s \<Longrightarrow>
      shows_spec (fold (\<lambda>(e, m) s. let t = sidebar_step True e s in sidebar_render (Some (told_open d t)) m t) es s) (fold sidebar_spec es t)" for s t
    using handled_step by (induction es arbitrary: s t) (auto simp: Let_def split: prod.split)
  then have b: "shows_spec (run_handled d m es) (fold sidebar_spec es (d, False, m, False))"
    by (simp add: run_handled_def sidebar_defs)
  show ?thesis using a b by (auto simp: shows_spec_def sidebar_state_def split: prod.split)
qed

text \<open>Between two renders a callback goes by the \<open>open\<close> of the last one, so a second toggle on a wide window is lost;
  on a narrow one it is not.\<close>

lemma second_toggle_lost:
  "\<not> sd_seen_mobile s \<Longrightarrow> toggleSidebar False (toggleSidebar False s) = toggleSidebar False s"
  "sd_seen_mobile s \<Longrightarrow> toggleSidebar False (toggleSidebar False s) = s"
  by (simp_all add: toggleSidebar_def sidebar_setOpen_def Let_def)

text \<open>A menu button's tooltip appears only beside the collapsed bar of a wide window.\<close>

lemma tooltip_when_collapsed:
  assumes "t \<noteq> []"
  shows "map (attr ''hidden'' \<circ> snd) (filter (\<lambda>e. fst e = ''TooltipContent'')
      (elements (SidebarMenuButton (Some s) False isActive sz (VStr t) [] [] :: 'a view))) = [VBool (sd_seen_open s \<or> sd_seen_mobile s)]"
  using assms by (simp add: SidebarMenuButton_def with_sidebar_def useSidebar_def prop_or_def sidebar_state_def attr_def Let_def
      obj_def get_def lookup_def)

text \<open>The skeleton is at least 50 and less than 90 per cent wide, for every answer of \<open>Math.random()\<close>, which is a multiple
  of \<open>2 ^ -53\<close> below 1.\<close>

lemma skeleton_between:
  assumes "0 \<le> q" and "q \<le> 1 - 1 / 2 ^ 53"
  shows "\<exists>i. skeleton_width (Fin q) = NumI i \<and> 50 \<le> i \<and> i \<le> 89"
proof -
  have "round_to (q * 40) \<le> round_to ((1 - 1 / 2 ^ 53) * 40)" using assms(2) by (intro round_to_mono) simp
  also have "\<dots> < 40" by (simp add: round_to_def ulp_exp_def flog2.simps pow2_def round_even_def Let_def)
  finally have less: "round_to (q * 40) < 40" .
  obtain r where r: "fl (q * 40) = Fin r" "r = round_to (q * 40)" "0 \<le> r"
    using fl_between [of 0 "q * 40" 40] assms by auto
  have f: "0 \<le> \<lfloor>r\<rfloor>" "\<lfloor>r\<rfloor> \<le> 39" using r(3) less r(2) by (auto simp: floor_less_iff)
  then have "skeleton_width (Fin q) = NumI (\<lfloor>r\<rfloor> + 50)" using r(1) fl_int [of "\<lfloor>r\<rfloor> + 50"] by (simp add: skeleton_width_def)
  then show ?thesis using f by (intro exI [of _ "\<lfloor>r\<rfloor> + 50"]) simp
qed

end
