(* ===== verification/FormUi.thy ===== *)
theory FormUi
  imports View
begin

text \<open>
  \<open>components/ui/form.tsx\<close> and \<open>components/ui/field.tsx\<close>: how a form's field, its label, its description and
  its error message refer to each other, and which messages are shown. The state of the form is react-hook-form's: the
  error of a field is a parameter. Attributes that a caller adds come first and override.
\<close>

section \<open>The contexts\<close>

record form_field =
  ff_id :: jstr
  ff_name :: jstr
  ff_itemId :: jstr
  ff_descriptionId :: jstr
  ff_messageId :: jstr
  ff_error :: jsval

text \<open>Outside a form the destructuring of the form's context throws (the text of that error is the browser's), before
  the other two contexts are looked at.\<close>

definition useFormField :: "(jstr \<Rightarrow> jsval) option \<Rightarrow> jstr option \<Rightarrow> jstr option \<Rightarrow> exn + form_field" where
  "useFormField formContext fieldContext itemContext =
     (case formContext of None \<Rightarrow> Inl (read_err VNull ''getFieldState'')
      | Some errorOf \<Rightarrow>
        (case fieldContext of None \<Rightarrow> Inl (Err (U ''useFormField should be used within <FormField>''))
         | Some name \<Rightarrow>
           (case itemContext of None \<Rightarrow> Inl (Err (U ''useFormField should be used within <FormItem>''))
            | Some i \<Rightarrow> Inr \<lparr>ff_id = i, ff_name = name, ff_itemId = i @ U ''-form-item'',
                ff_descriptionId = i @ U ''-form-item-description'', ff_messageId = i @ U ''-form-item-message'',
                ff_error = errorOf name\<rparr>)))"

section \<open>The parts of a field\<close>

text \<open>\<open>FormField\<close> gives its name to what its controller renders, \<open>FormItem\<close> its generated identifier to what is in it;
  what is inside asks for both, and for the form.\<close>

definition FormField :: "jstr \<Rightarrow> (jstr option \<Rightarrow> 'a view list) \<Rightarrow> 'a view" where
  "FormField name render = el ''Controller'' (render (Some name))"

definition FormItem :: "jstr \<Rightarrow> (string \<times> jsval) list \<Rightarrow> (jstr option \<Rightarrow> 'a view list) \<Rightarrow> 'a view" where
  "FormItem useId props render = El ''div'' props [] (render (Some useId))"

definition within_field ::
  "(jstr \<Rightarrow> jsval) option \<Rightarrow> jstr option \<Rightarrow> jstr option \<Rightarrow> (form_field \<Rightarrow> 'a view list) \<Rightarrow> 'a view list" where
  "within_field form field item part = (case useFormField form field item of Inl e \<Rightarrow> [Throw e] | Inr f \<Rightarrow> part f)"

definition FormLabel :: "form_field \<Rightarrow> (string \<times> jsval) list \<Rightarrow> 'a view list \<Rightarrow> 'a view" where
  "FormLabel f props kids =
     El ''Label'' (props @ [(''htmlFor'', VStr (ff_itemId f)), (''tone'', S (if truthy (ff_error f) then ''destructive'' else ''plain''))]) [] kids"

definition FormControl :: "form_field \<Rightarrow> (string \<times> jsval) list \<Rightarrow> 'a view list \<Rightarrow> 'a view" where
  "FormControl f props kids =
     El ''Slot'' (props @ [(''id'', VStr (ff_itemId f)),
        (''aria-describedby'', VStr (if \<not> truthy (ff_error f) then ff_descriptionId f else ff_descriptionId f @ 32 # ff_messageId f)),
        (''aria-invalid'', VBool (truthy (ff_error f)))]) [] kids"

definition FormDescription :: "form_field \<Rightarrow> (string \<times> jsval) list \<Rightarrow> 'a view list \<Rightarrow> 'a view" where
  "FormDescription f props kids = El ''p'' (props @ [(''id'', VStr (ff_descriptionId f))]) [] kids"

text \<open>\<open>error?.message ?? ""\<close> as text.\<close>

definition error_text :: "form_field \<Rightarrow> jstr" where
  "error_text f = to_str (nvl (get (ff_error f) ''message'') (VStr []))"

definition FormMessage :: "form_field \<Rightarrow> (string \<times> jsval) list \<Rightarrow> 'a view list \<Rightarrow> 'a view list" where
  "FormMessage f props kids =
     (let body = (if truthy (ff_error f) then (if error_text f = [] then [] else [Txt (error_text f)]) else kids)
      in if body = [] then [] else [El ''p'' (props @ [(''id'', VStr (ff_messageId f))]) [] body])"

text \<open>A field as its parts are meant to be put together.\<close>

definition field_item :: "form_field \<Rightarrow> 'a view list \<Rightarrow> 'a view list \<Rightarrow> 'a view list \<Rightarrow> 'a view list" where
  "field_item f label control description =
     [FormLabel f [] label, FormControl f [] control, FormDescription f [] description] @ FormMessage f [] []"

definition ids_of :: "'a view list \<Rightarrow> jsval list" where
  "ids_of vs = map (\<lambda>e. attr ''id'' (snd e)) (elements_of vs)"

lemma split_two: "32 \<notin> set a \<Longrightarrow> 32 \<notin> set b \<Longrightarrow> split_on 32 (a @ 32 # b) = [a, b]"
  by (simp add: split_on_append split_on_no_sep)

text \<open>A field's label names its control, and what the control says it is described by is there: its
  description always, and its message exactly when the field has no error or the error has a text. The control is
  marked invalid, and the message shown, exactly when there is an error (with a text).\<close>

theorem field_described:
  assumes "useFormField (Some errorOf) (Some name) (Some i) = Inr f" and "32 \<notin> set i"
  shows "(let vs = field_item f [] [] [] :: 'a view list; control = FormControl f [] [] :: 'a view;
      as = snd (hd (elements control)) in
    attr ''htmlFor'' (snd (hd (elements (FormLabel f [] [] :: 'a view)))) = attr ''id'' as \<and>
    (list_all (\<lambda>d. VStr d \<in> set (ids_of vs)) (split_on 32 (to_str (attr ''aria-describedby'' as)))
       \<longleftrightarrow> \<not> truthy (errorOf name) \<or> error_text f \<noteq> []) \<and>
    attr ''aria-invalid'' as = VBool (truthy (errorOf name)) \<and>
    shown_texts vs = (if truthy (errorOf name) \<and> error_text f \<noteq> [] then [error_text f] else []))"
proof -
  have f: "ff_error f = errorOf name" "ff_itemId f = i @ U ''-form-item''" "ff_descriptionId f = i @ U ''-form-item-description''"
    "ff_messageId f = i @ U ''-form-item-message''"
    using assms(1) by (auto simp: useFormField_def)
  have sp: "32 \<notin> set (ff_descriptionId f)" "32 \<notin> set (ff_messageId f)" using assms(2) by (simp_all add: f U_def)
  have ne: "ff_messageId f \<noteq> ff_itemId f" "ff_messageId f \<noteq> ff_descriptionId f" by (simp_all add: f U_def)
  show ?thesis
    using sp ne by (auto simp: field_item_def FormLabel_def FormControl_def FormDescription_def FormMessage_def ids_of_def attr_def
        f(1) Let_def split_two split_on_no_sep)
qed

text \<open>Put together, a field appears exactly inside a form, without one as well as with an error.\<close>

lemma field_needs_form:
  "renders [FormField name (\<lambda>field. [FormItem i [] (\<lambda>item. within_field form field item
      (\<lambda>f. field_item f [Txt label] control []))])] \<longleftrightarrow> form \<noteq> None \<and> renders control"
  by (cases form) (auto simp: FormField_def FormItem_def within_field_def useFormField_def field_item_def FormLabel_def
      FormControl_def FormDescription_def FormMessage_def Let_def)

section \<open>The parts of \<open>field.tsx\<close>\<close>

definition field_slot :: "string \<Rightarrow> string \<times> jsval" where
  "field_slot name = (''data-slot'', S name)"

definition FieldSet :: "(string \<times> jsval) list \<Rightarrow> 'a view list \<Rightarrow> 'a view" where
  "FieldSet props kids = El ''fieldset'' (props @ [field_slot ''field-set'']) [] kids"

definition FieldLegend :: "string option \<Rightarrow> (string \<times> jsval) list \<Rightarrow> 'a view list \<Rightarrow> 'a view" where
  "FieldLegend variant props kids = El ''legend''
     (props @ [field_slot ''field-legend'', (''data-variant'', S (case variant of None \<Rightarrow> ''legend'' | Some v \<Rightarrow> v))]) [] kids"

definition FieldGroup :: "(string \<times> jsval) list \<Rightarrow> 'a view list \<Rightarrow> 'a view" where
  "FieldGroup props kids = El ''div'' (props @ [field_slot ''field-group'']) [] kids"

text \<open>The orientation decides the classes alone; \<open>null\<close> is no orientation and takes the default's classes.\<close>

definition Field :: "jsval \<Rightarrow> (string \<times> jsval) list \<Rightarrow> 'a view list \<Rightarrow> 'a view" where
  "Field orientation props kids = El ''div''
     (props @ [(''role'', S ''group''), field_slot ''field'',
        (''data-orientation'', if orientation = VUndef then S ''vertical'' else orientation)]) [] kids"

definition FieldContent :: "(string \<times> jsval) list \<Rightarrow> 'a view list \<Rightarrow> 'a view" where
  "FieldContent props kids = El ''div'' (props @ [field_slot ''field-content'']) [] kids"

definition FieldLabel :: "(string \<times> jsval) list \<Rightarrow> 'a view list \<Rightarrow> 'a view" where
  "FieldLabel props kids = El ''Label'' (props @ [field_slot ''field-label'']) [] kids"

definition FieldTitle :: "(string \<times> jsval) list \<Rightarrow> 'a view list \<Rightarrow> 'a view" where
  "FieldTitle props kids = El ''div'' (props @ [field_slot ''field-label'']) [] kids"

definition FieldDescription :: "(string \<times> jsval) list \<Rightarrow> 'a view list \<Rightarrow> 'a view" where
  "FieldDescription props kids = El ''p'' (props @ [field_slot ''field-description'']) [] kids"

definition FieldSeparator :: "(string \<times> jsval) list \<Rightarrow> jsval \<Rightarrow> 'a view" where
  "FieldSeparator props children = El ''div''
     (props @ [field_slot ''field-separator'', (''data-content'', VBool (truthy children))]) []
     (El ''Separator'' [] [] []
      # and_view children [El ''span'' [field_slot ''field-separator-content''] [] (child children)])"

section \<open>Lists of errors\<close>

definition FieldError :: "(string \<times> jsval) list \<Rightarrow> 'a view list \<Rightarrow> jsval list option \<Rightarrow> 'a view list" where
  "FieldError props kids errors =
     (let message = (\<lambda>e. get e ''message'');
          content = (if kids \<noteq> [] then kids
            else case errors of None \<Rightarrow> []
             | Some es \<Rightarrow>
                 if length es = 1 \<and> truthy (message (hd es)) then child (message (hd es))
                 else [el ''ul'' (concat (map (\<lambda>e. and_view (message e) [el ''li'' (child (message e))]) es))])
      in if content = [] then []
         else [El ''div'' (props @ [(''role'', S ''alert''), (''data-slot'', S ''field-error'')]) [] content])"

text \<open>Every message is shown once and in order; but a list without errors is an alert without text.\<close>

lemma field_errors_shown:
  "shown_texts (FieldError props [] (Some (map (\<lambda>m. obj [(''message'', VStr m)]) ms)) :: 'a view list) = ms"
proof -
  have one: "shown_texts (and_view (VStr m) [el ''li'' (child (VStr m))] :: 'a view list) = [m]" for m
    by (simp add: and_view_def)
  have "shown_texts (concat (map (\<lambda>m. and_view (VStr m) [el ''li'' (child (VStr m))]) ms) :: 'a view list) = ms" for ms
    by (induction ms) (simp_all add: one del: child.simps)
  then show ?thesis using one by (cases ms rule: remdups_adj.cases) (auto simp: FieldError_def Let_def o_def)
qed

lemma empty_alert:
  "FieldError [] [] (Some []) = [El ''div'' [(''role'', S ''alert''), (''data-slot'', S ''field-error'')] [] [el ''ul'' []]]"
  by (simp add: FieldError_def)

end
