(* ===== verification/ChartUi.thy ===== *)
theory ChartUi
  imports View
begin

text \<open>
  \<open>components/ui/chart.tsx\<close> around the chart library: the colours of a configuration as a style sheet, and what the
  tooltip and the legend show of a payload. The configuration is an object from series to entries; the icon of an
  entry, a component, is any truthy value. Objects have their own members only (not those of \<open>Object.prototype\<close>).
  The caller's formatters and the browser's \<open>toLocaleString\<close> are parameters.
\<close>

section \<open>Looking up an entry\<close>

definition has_key :: "jsval \<Rightarrow> jstr \<Rightarrow> bool" where
  "has_key v k = (case v of VObj ps \<Rightarrow> map_of ps k \<noteq> None | _ \<Rightarrow> False)"

definition get_key :: "jsval \<Rightarrow> jstr \<Rightarrow> jsval" where
  "get_key v k = (case v of VObj ps \<Rightarrow> lookup k ps | _ \<Rightarrow> VUndef)"

fun is_object_value :: "jsval \<Rightarrow> bool" where
  "is_object_value (VObj ps) = True"
| "is_object_value (VArr xs) = True"
| "is_object_value (VDate t) = True"
| "is_object_value v = False"

text \<open>The text of a member, if it is one.\<close>

definition text_member :: "jsval \<Rightarrow> jstr \<Rightarrow> jstr option" where
  "text_member v k = (if has_key v k then (case get_key v k of VStr s \<Rightarrow> Some s | _ \<Rightarrow> None) else None)"

definition getPayloadConfigFromPayload :: "jsval \<Rightarrow> jsval \<Rightarrow> jstr \<Rightarrow> jsval" where
  "getPayloadConfigFromPayload config payload key =
     (if \<not> is_object_value payload then VUndef
      else let payloadPayload = get payload ''payload'';
               configLabelKey = (case text_member payload key of
                   Some s \<Rightarrow> s
                 | None \<Rightarrow> (case (if is_object_value payloadPayload then text_member payloadPayload key else None) of
                       Some s \<Rightarrow> s
                     | None \<Rightarrow> key))
           in if has_key config configLabelKey then get_key config configLabelKey else get_key config key)"

section \<open>Colours\<close>

definition THEMES :: "(string \<times> string) list" where
  "THEMES = [(''light'', []), (''dark'', ''.dark'')]"

definition theme_color :: "string \<Rightarrow> jsval \<Rightarrow> jsval" where
  "theme_color theme entry = or_else (get (get entry ''theme'') theme) (get entry ''color'')"

definition color_line :: "string \<Rightarrow> jstr \<times> jsval \<Rightarrow> jstr" where
  \<comment> \<open>\<open>join\<close> makes nothing of a \<open>null\<close>\<close>
  "color_line theme p =
     (let color = theme_color theme (snd p)
      in if truthy color then U ''  --color-'' @ fst p @ U '': '' @ to_str color @ U '';'' else [])"

definition ChartStyle :: "jstr \<Rightarrow> (jstr \<times> jsval) list \<Rightarrow> 'a view list" where
  "ChartStyle i config =
     (let colorConfig = filter (\<lambda>p. truthy (get (snd p) ''theme'') \<or> truthy (get (snd p) ''color'')) config
      in if colorConfig = [] then []
         else [El ''style'' [(''__html'', VStr (join_with [10] (map (\<lambda>(theme, prefix).
            10 # U prefix @ U '' [data-chart='' @ i @ U ''] {'' @ [10] @ join_with [10] (map (color_line theme) colorConfig) @ [10, 125, 10])
            THEMES)))] [] []])"

definition chart_id :: "jstr option \<Rightarrow> jstr \<Rightarrow> jstr" where
  "chart_id i uniqueId = U ''chart-'' @ (case i of Some (c # cs) \<Rightarrow> c # cs | _ \<Rightarrow> filter (\<lambda>c. c \<noteq> 58) uniqueId)"

definition ChartContainer :: "jstr option \<Rightarrow> jstr \<Rightarrow> (jstr \<times> jsval) list \<Rightarrow> (string \<times> jsval) list \<Rightarrow> 'a view list \<Rightarrow> 'a view" where
  "ChartContainer i uniqueId config props kids =
     (let chartId = chart_id i uniqueId
      in El ''div'' (props @ [(''data-chart'', VStr chartId)]) [] (ChartStyle chartId config @ [el ''ResponsiveContainer'' kids]))"

section \<open>Tooltip and legend\<close>

definition useChart :: "jsval option \<Rightarrow> exn + jsval" where
  "useChart context = (case context of None \<Rightarrow> Inl (Err (U ''useChart must be used within a <ChartContainer />'')) | Some c \<Rightarrow> Inr c)"

record 'a tooltip_props =
  tp_active :: bool
  tp_payload :: "jsval list option"
  tp_indicator :: string
  tp_hideLabel :: bool
  tp_hideIndicator :: bool
  tp_label :: jsval
  tp_labelFormatter :: "(jsval \<Rightarrow> jsval list \<Rightarrow> 'a view list) option"
  tp_formatter :: "(jsval \<Rightarrow> jsval \<Rightarrow> jsval \<Rightarrow> nat \<Rightarrow> jsval \<Rightarrow> 'a view list) option"
  tp_color :: jsval
  tp_nameKey :: jsval
  tp_labelKey :: jsval

definition tooltip_label :: "jsval \<Rightarrow> 'a tooltip_props \<Rightarrow> 'a view list" where
  "tooltip_label config p = (case tp_payload p of
     Some (item # items) \<Rightarrow>
       if tp_hideLabel p then []
       else
         let key = to_str (or_else (tp_labelKey p) (or_else (get item ''dataKey'') (or_else (get item ''name'') (S ''value''))));
             itemConfig = getPayloadConfigFromPayload config item key;
             value = (case tp_label p of
                 VStr l \<Rightarrow> if \<not> truthy (tp_labelKey p) then or_else (get (get_key config l) ''label'') (VStr l) else get itemConfig ''label''
               | _ \<Rightarrow> get itemConfig ''label'')
         in (case tp_labelFormatter p of
               Some f \<Rightarrow> [el ''div'' (f value (item # items))]
             | None \<Rightarrow> if \<not> truthy value then [] else [el ''div'' (child value)])
   | _ \<Rightarrow> [])"

text \<open>\<open>item.payload.fill\<close> is read when no colour is given.\<close>

definition indicator_color :: "jsval \<Rightarrow> jsval \<Rightarrow> exn + jsval" where
  "indicator_color color item =
     (if truthy color then Inr color
      else map_sum id (\<lambda>fill. or_else fill (get item ''color'')) (read_prop (get item ''payload'') ''fill''))"

definition tooltip_row :: "jsval \<Rightarrow> (jsval \<Rightarrow> jstr) \<Rightarrow> 'a tooltip_props \<Rightarrow> bool \<Rightarrow> nat \<Rightarrow> jsval \<Rightarrow> 'a view" where
  "tooltip_row config locale p nestLabel index item =
     (let key = to_str (or_else (tp_nameKey p) (or_else (get item ''name'') (or_else (get item ''dataKey'') (S ''value''))));
          itemConfig = getPayloadConfigFromPayload config item key
      in case indicator_color (tp_color p) item of
           Inl e \<Rightarrow> Throw e
         | Inr indicatorColor \<Rightarrow>
             El ''div'' [(''key'', get item ''dataKey'')] []
               (case (tp_formatter p, get item ''value'' \<noteq> VUndef \<and> truthy (get item ''name'')) of
                  (Some f, True) \<Rightarrow> f (get item ''value'') (get item ''name'') item index (get item ''payload'')
                | _ \<Rightarrow>
                    (if truthy (get itemConfig ''icon'') then [el ''icon'' []]
                     else if \<not> tp_hideIndicator p then [El ''div'' [(''--color-bg'', indicatorColor), (''--color-border'', indicatorColor)] [] []]
                     else [])
                    @ [el ''div''
                        ([el ''div''
                           ((if nestLabel then tooltip_label config p else [])
                            @ [el ''span'' (child (or_else (get itemConfig ''label'') (get item ''name'')))])]
                         @ and_view (get item ''value'') [el ''span'' [Txt (locale (get item ''value''))]])]))"

definition drawn_items :: "jsval list \<Rightarrow> jsval list" where
  "drawn_items payload = filter (\<lambda>item. get item ''type'' \<noteq> S ''none'') payload"

definition ChartTooltipContent :: "jsval option \<Rightarrow> (jsval \<Rightarrow> jstr) \<Rightarrow> 'a tooltip_props \<Rightarrow> 'a view list" where
  "ChartTooltipContent context locale p =
     (case useChart context of Inl e \<Rightarrow> [Throw e]
      | Inr config \<Rightarrow>
        (case (tp_active p, tp_payload p) of
           (True, Some (item # items)) \<Rightarrow>
             let nestLabel = (items = [] \<and> tp_indicator p \<noteq> ''dot'')
             in [el ''div''
                  ((if \<not> nestLabel then tooltip_label config p else [])
                   @ [el ''div'' (map (\<lambda>(index, item). tooltip_row config locale p nestLabel index item)
                        (enumerate 0 (drawn_items (item # items))))])]
         | _ \<Rightarrow> []))"

definition ChartLegendContent :: "jsval option \<Rightarrow> bool \<Rightarrow> jsval \<Rightarrow> jsval list option \<Rightarrow> 'a view list" where
  "ChartLegendContent context hideIcon nameKey payload =
     (case useChart context of Inl e \<Rightarrow> [Throw e]
      | Inr config \<Rightarrow>
        (case payload of
           Some (item # items) \<Rightarrow>
             [el ''div'' (map (\<lambda>item.
                let key = to_str (or_else nameKey (or_else (get item ''dataKey'') (S ''value'')));
                    itemConfig = getPayloadConfigFromPayload config item key
                in El ''div'' [(''key'', get item ''value'')] []
                  ((if truthy (get itemConfig ''icon'') \<and> \<not> hideIcon then [el ''icon'' []]
                    else [El ''div'' [(''backgroundColor'', get item ''color'')] [] []])
                   @ child (get itemConfig ''label''))) (drawn_items (item # items)))]
         | _ \<Rightarrow> []))"

section \<open>What they show\<close>

text \<open>A tooltip without formatters shows exactly when every item that is drawn has a payload, or a colour is given: the
  code reads \<open>item.payload.fill\<close> otherwise. Labels are texts.\<close>

definition plain_entries :: "jsval \<Rightarrow> bool" where
  "plain_entries config \<longleftrightarrow> (\<forall>k. showable (get (get_key config k) ''label''))"

lemma config_label_showable:
  "plain_entries config \<Longrightarrow> showable (get (getPayloadConfigFromPayload config item key) ''label'')"
  by (simp add: plain_entries_def getPayloadConfigFromPayload_def Let_def)

lemma label_showable: "plain_entries config \<Longrightarrow> tp_labelFormatter p = None \<Longrightarrow> renders (tooltip_label config p)"
  using config_label_showable [of config]
  by (auto simp: tooltip_label_def plain_entries_def or_else_def Let_def split: option.split list.split jsval.split)

theorem tooltip_shown:
  assumes "plain_entries config" and "tp_labelFormatter p = None" and "tp_formatter p = None" and "tp_active p"
    and "tp_payload p = Some (item # items)" and "list_all (\<lambda>i. showable (get i ''name'') \<and> showable (get i ''value'')) (item # items)"
  shows "renders (ChartTooltipContent (Some config) locale p :: 'a view list) \<longleftrightarrow>
      truthy (tp_color p) \<or> list_all (\<lambda>i. \<not> nullish (get i ''payload'')) (drawn_items (item # items))"
proof -
  have row: "\<not> crashes (tooltip_row config locale p nest n i :: 'a view) \<longleftrightarrow> truthy (tp_color p) \<or> \<not> nullish (get i ''payload'')"
    if "i \<in> set (item # items)" for nest n i
  proof -
    have "showable (or_else (get (getPayloadConfigFromPayload config i key) ''label'') (get i ''name''))" for key
      using config_label_showable [OF assms(1)] assms(6) that by (auto simp: or_else_def list_all_iff)
    moreover have "showable (get i ''value'')" using assms(6) that by (auto simp: list_all_iff)
    ultimately show ?thesis
      using label_showable [OF assms(1,2)] assms(3)
      by (auto simp: tooltip_row_def indicator_color_def read_prop_def and_view_def Let_def)
  qed
  have en: "renders (map (\<lambda>(n, i). tooltip_row config locale p nest n i :: 'a view) (enumerate k is)) \<longleftrightarrow>
      truthy (tp_color p) \<or> list_all (\<lambda>i. \<not> nullish (get i ''payload'')) is" if "set is \<subseteq> set (item # items)" for nest k "is"
    using that by (induction "is" arbitrary: k) (auto simp: row)
  have "set (drawn_items (item # items)) \<subseteq> set (item # items)" by (auto simp: drawn_items_def)
  from en [OF this] show ?thesis
    using label_showable [OF assms(1,2)] assms(4,5) by (simp add: ChartTooltipContent_def useChart_def Let_def)
qed

text \<open>Each theme's rule sets each configured series to the theme's colour, or to the colour that is for all themes.\<close>

lemma theme_line:
  assumes "truthy (theme_color theme entry)"
  shows "color_line theme (k, entry) = U ''  --color-'' @ k @ U '': '' @ to_str (theme_color theme entry) @ U '';''"
    and "truthy (get entry ''theme'') \<or> truthy (get entry ''color'')"
proof -
  show "color_line theme (k, entry) = U ''  --color-'' @ k @ U '': '' @ to_str (theme_color theme entry) @ U '';''"
    using assms by (simp add: color_line_def)
  have "get entry ''theme'' = VObj ps \<Longrightarrow> truthy (get entry ''theme'')" for ps by simp
  then show "truthy (get entry ''theme'') \<or> truthy (get entry ''color'')"
    using assms by (cases "get entry ''theme''") (auto simp: theme_color_def or_else_def get_def [of "get entry ''theme''"] split: if_splits)
qed

end
