(* ===== verification/CarouselUi.thy ===== *)
theory CarouselUi
  imports View
begin

text \<open>
  \<open>components/ui/carousel.tsx\<close> around the carousel library: its two flags, its buttons and keys. The library is a
  parameter: an interface is at a position, can or cannot scroll back and forth from there, and reports
  \<open>select\<close> or \<open>reInit\<close> to those who asked when its position may have changed.
\<close>

record 'p embla =
  em_back :: "'p \<Rightarrow> 'p"
  em_forth :: "'p \<Rightarrow> 'p"
  em_can_back :: "'p \<Rightarrow> bool"
  em_can_forth :: "'p \<Rightarrow> bool"

section \<open>Its axis\<close>

text \<open>The orientation has the default \<open>horizontal\<close>, so it always decides the axis the library gets; the options' own
  axis comes first in \<open>...opts\<close> and is overwritten.\<close>

definition carousel_orientation :: "jstr option \<Rightarrow> jstr" where
  "carousel_orientation given = (case given of None \<Rightarrow> U ''horizontal'' | Some t \<Rightarrow> t)"

definition embla_options :: "jstr \<Rightarrow> (jstr \<times> jsval) list \<Rightarrow> (jstr \<times> jsval) list" where
  "embla_options orientation opts = put (U ''axis'') (if orientation = U ''horizontal'' then S ''x'' else S ''y'') opts"

definition told_orientation :: "jstr \<Rightarrow> (jstr \<times> jsval) list \<Rightarrow> jstr" where
  "told_orientation orientation opts =
     (if orientation \<noteq> [] then orientation
      else if map_of opts (U ''axis'') = Some (S ''y'') then U ''vertical'' else U ''horizontal'')"

text \<open>An axis that is asked for in the options alone never reaches the library.\<close>

lemma axis_ignored:
  "map_of (embla_options (carousel_orientation None) opts) (U ''axis'') = Some (S ''x'')"
  by (simp add: embla_options_def carousel_orientation_def)

section \<open>The state\<close>

text \<open>\<open>ca_api\<close> is the position of the present interface, \<open>ca_asked\<close> whether it reports to \<open>onSelect\<close>, and \<open>ca_handed\<close>
  how often \<open>setApi\<close> of the caller, if there is one, was handed an interface.\<close>

record 'p carousel =
  ca_api :: "'p option"
  ca_asked :: bool
  ca_handed :: nat
  ca_canScrollPrev :: bool
  ca_canScrollNext :: bool

definition carousel_open :: "'p carousel" where
  "carousel_open = \<lparr>ca_api = None, ca_asked = False, ca_handed = 0, ca_canScrollPrev = False, ca_canScrollNext = False\<rparr>"

definition carousel_onSelect :: "'p embla \<Rightarrow> 'p carousel \<Rightarrow> 'p carousel" where
  "carousel_onSelect E s = (case ca_api s of None \<Rightarrow> s
     | Some p \<Rightarrow> s\<lparr>ca_canScrollPrev := em_can_back E p, ca_canScrollNext := em_can_forth E p\<rparr>)"

definition reported :: "'p embla \<Rightarrow> 'p carousel \<Rightarrow> 'p carousel" where
  "reported E s = (if ca_asked s then carousel_onSelect E s else s)"

definition carousel_scrollPrev :: "'p embla \<Rightarrow> 'p carousel \<Rightarrow> 'p carousel" where
  "carousel_scrollPrev E s = reported E (s\<lparr>ca_api := map_option (em_back E) (ca_api s)\<rparr>)"

definition carousel_scrollNext :: "'p embla \<Rightarrow> 'p carousel \<Rightarrow> 'p carousel" where
  "carousel_scrollNext E s = reported E (s\<lparr>ca_api := map_option (em_forth E) (ca_api s)\<rparr>)"

definition carousel_key :: "'p embla \<Rightarrow> jstr \<Rightarrow> 'p carousel \<Rightarrow> 'p carousel" where
  "carousel_key E key s =
     (if key = U ''ArrowLeft'' then carousel_scrollPrev E s else if key = U ''ArrowRight'' then carousel_scrollNext E s else s)"

text \<open>A new interface: both effects run. The caller's \<open>setApi\<close> gets it, and \<open>onSelect\<close> runs at once and at every
  report.\<close>

definition carousel_handed :: "bool \<Rightarrow> 'p option \<Rightarrow> 'p carousel \<Rightarrow> 'p carousel" where
  "carousel_handed setApi api s = (if api = None \<or> \<not> setApi then s else s\<lparr>ca_handed := ca_handed s + 1\<rparr>)"

definition carousel_effect :: "'p embla \<Rightarrow> 'p option \<Rightarrow> 'p carousel \<Rightarrow> 'p carousel" where
  "carousel_effect E api s =
     (case api of None \<Rightarrow> s\<lparr>ca_api := None, ca_asked := False\<rparr>
      | Some p \<Rightarrow> (carousel_onSelect E (s\<lparr>ca_api := Some p\<rparr>))\<lparr>ca_asked := True\<rparr>)"

datatype 'p carousel_event = Interface "'p option" | Moved 'p | Back | Forth | CarouselKey jstr

fun carousel_step :: "'p embla \<Rightarrow> bool \<Rightarrow> 'p carousel_event \<Rightarrow> 'p carousel \<Rightarrow> 'p carousel" where
  "carousel_step E setApi (Interface api) s = carousel_effect E api (carousel_handed setApi api s)"
| "carousel_step E setApi (Moved p) s = (if ca_api s = None then s else reported E (s\<lparr>ca_api := Some p\<rparr>))"
| "carousel_step E setApi Back s = carousel_scrollPrev E s"
| "carousel_step E setApi Forth s = carousel_scrollNext E s"
| "carousel_step E setApi (CarouselKey k) s = carousel_key E k s"

section \<open>The parts\<close>

text \<open>What a part reads from its carousel; outside of one it throws.\<close>

definition useCarousel :: "'p carousel option \<Rightarrow> exn + 'p carousel" where
  "useCarousel context =
     (case context of None \<Rightarrow> Inl (Err (U ''useCarousel must be used within a <Carousel />'')) | Some s \<Rightarrow> Inr s)"

definition within_carousel :: "'p carousel option \<Rightarrow> ('p carousel \<Rightarrow> 'a view) \<Rightarrow> 'a view" where
  "within_carousel context part = (case useCarousel context of Inl e \<Rightarrow> Throw e | Inr s \<Rightarrow> part s)"

definition Carousel :: "(string \<times> jsval) list \<Rightarrow> 'p carousel_event view list \<Rightarrow> 'p carousel_event view" where
  "Carousel props kids = El ''div'' (props @ [(''role'', S ''region''), (''aria-roledescription'', S ''carousel'')])
     [(''onKeyDownCapture'', \<lambda>e. CarouselKey (event_text e))] kids"

definition CarouselContent :: "'p carousel option \<Rightarrow> (string \<times> jsval) list \<Rightarrow> 'a view list \<Rightarrow> 'a view" where
  "CarouselContent context props kids = within_carousel context (\<lambda>_. el ''div'' [El ''div'' props [] kids])"

definition CarouselItem :: "'p carousel option \<Rightarrow> (string \<times> jsval) list \<Rightarrow> 'a view list \<Rightarrow> 'a view" where
  "CarouselItem context props kids = within_carousel context
     (\<lambda>_. El ''div'' (props @ [(''role'', S ''group''), (''aria-roledescription'', S ''slide'')]) [] kids)"

definition CarouselPrevious :: "'p carousel option \<Rightarrow> (string \<times> jsval) list \<Rightarrow> 'p carousel_event view" where
  "CarouselPrevious context props = within_carousel context (\<lambda>s.
     El ''Button'' (props @ [(''variant'', S ''outline''), (''size'', S ''icon''), (''disabled'', VBool (\<not> ca_canScrollPrev s))])
       [(''onClick'', \<lambda>_. Back)] [el ''span'' [T ''Previous slide'']])"

definition CarouselNext :: "'p carousel option \<Rightarrow> (string \<times> jsval) list \<Rightarrow> 'p carousel_event view" where
  "CarouselNext context props = within_carousel context (\<lambda>s.
     El ''Button'' (props @ [(''variant'', S ''outline''), (''size'', S ''icon''), (''disabled'', VBool (\<not> ca_canScrollNext s))])
       [(''onClick'', \<lambda>_. Forth)] [el ''span'' [T ''Next slide'']])"

text \<open>The buttons offer exactly what the library can do, whatever moves and however often its interface is replaced.\<close>

theorem carousel_offers:
  "(let s = fold (carousel_step E setApi) es carousel_open in
    case ca_api s of None \<Rightarrow> True
    | Some p \<Rightarrow> clicks [CarouselPrevious (Some s) []] = (if em_can_back E p then [Back] else []) \<and>
        clicks [CarouselNext (Some s) []] = (if em_can_forth E p then [Forth] else []))"
proof -
  define ok where "ok s = (case ca_api s of None \<Rightarrow> True
    | Some p \<Rightarrow> ca_asked s \<and> ca_canScrollPrev s = em_can_back E p \<and> ca_canScrollNext s = em_can_forth E p)" for s :: "'a carousel"
  note defs = reported_def carousel_onSelect_def carousel_scrollPrev_def carousel_scrollNext_def carousel_key_def carousel_effect_def carousel_handed_def
  have "ok s \<Longrightarrow> ok (carousel_step E setApi e s)" for e s
    by (cases e) (auto simp: ok_def defs split: option.splits)
  then have "ok s \<Longrightarrow> ok (fold (carousel_step E setApi) es s)" for s by (induction es arbitrary: s) simp_all
  from this [of carousel_open] show ?thesis
    by (auto simp: ok_def carousel_open_def CarouselPrevious_def CarouselNext_def within_carousel_def useCarousel_def attr_def Let_def split: option.splits)
qed

end
