(* ===== verification/Spec2Isabelle.thy ===== *)
theory Spec2Isabelle
  imports Wallets BotRoutes Settings Trades Health SystemConfig Stream WsHub Routes Contracts AdminKey
    LiveTrades Toasts SettingsPage Charts
    Format TradesPage TokensPage EnginePanels DashboardPage WalletsPage PresetCards SettingsViews StrategiesPage
    AppShell Preview Startup Toaster SidebarUi FormUi ChartUi CarouselUi
begin

text \<open>
  Verification of the TypeScript part of the Pumpy trading bot: the API server
  (\<open>artifacts/api-server\<close>), the client library that the dashboard calls it with
  (\<open>lib/api-client-react\<close>), the dashboard (\<open>artifacts/dashboard\<close>) with its hooks, pages and navigation, the
  preview of mock-ups (\<open>artifacts/mockup-sandbox\<close>), and the shared schemas (\<open>lib/db\<close>, \<open>lib/api-zod\<close>). The Rust engine and the Python engine are other programs; the server
  reaches them over gRPC and HTTP.

  How the parts interact. A page calls an operation of the generated client, which calls \<open>customFetch\<close>; the
  request reaches the Express application, whose routers send it to one handler. A handler of \<open>bot.ts\<close> asks the
  Rust engine first, then Python, then answers from a static value; the handlers of \<open>wallets.ts\<close>,
  \<open>settings.ts\<close>, \<open>trades.ts\<close>, \<open>token-metrics.ts\<close> and \<open>admin.ts\<close> read and write PostgreSQL tables. The
  server also keeps one gRPC stream of order updates, adds what the database knows of each order, and sends it
  to the WebSocket clients that subscribed to it; the dashboard shows these updates.

  Language and library layer.
  \<^item> \<open>Prelude\<close>: strings as lists of UTF-16 code units (\<open>jstr\<close>), association lists with JavaScript's insertion
    order, error sums (\<open>exn + 'a\<close>), the state monad, and the collections \<open>js_defs\<close> and \<open>handler_defs\<close>.
  \<^item> \<open>JsNum\<close>: doubles as exact rationals with NaN and infinities and a rounding function \<open>fl\<close>; monotonicity and
    error lemmas. The sign of zero is not modelled.
  \<^item> \<open>JsVal\<close>, \<open>JsJson\<close>, \<open>JsonText\<close>: JavaScript values and coercions, \<open>JSON.parse\<close> and \<open>JSON.stringify\<close>, and
    their round trip. A conversion of a value from outside may throw (\<open>str_of\<close>, \<open>num_of\<close>, \<open>new_error\<close>). The parser spends fuel: \<open>2 * length s + 2\<close> units are enough, and more never change its
    answer (\<open>jvalue_fuel\<close>). Keys that look like integers keep their insertion place.
  \<^item> \<open>Tables\<close>, \<open>Store\<close>: the rows of \<open>lib/db/src/schema\<close> and the laws of a table (locale \<open>db_table\<close>) that the
    handlers rely on: what a statement that succeeds does, and that one that fails does nothing.
  \<^item> \<open>Http\<close>: responses, the environment, and the engines as oracles over the history of calls, so that the calls
    a handler sends, and their order, are part of its result.

  Server.
  \<^item> \<open>AdminAuth\<close>: \<open>lib/admin-auth.ts\<close>. \<open>GrpcClient\<close>: \<open>lib/grpc-client.ts\<close>.
  \<^item> \<open>Wallets\<close>: \<open>routes/wallets.ts\<close>; the routes refine a specification of their effect on both tables, keep
    the statuses consistent, and change nothing without the admin key.
  \<^item> \<open>BotRoutes\<close>: \<open>routes/bot.ts\<close>; what each handler sends to which engine, and the lamports of an order.
  \<^item> \<open>Base58\<close>, \<open>Settings\<close>: \<open>routes/settings.ts\<close>; the codec with 32-bit operators, public keys, the SSRF guard,
    the configuration table.
  \<^item> \<open>Trades\<close>: \<open>routes/trades.ts\<close> and \<open>routes/token-metrics.ts\<close>; filters, order and limits.
  \<^item> \<open>Health\<close>, \<open>SystemConfig\<close>: \<open>routes/health.ts\<close>, \<open>lib/python-status.ts\<close>, the start of Python in
    \<open>index.ts\<close>, \<open>routes/admin.ts\<close> and \<open>db/seed-system-config.ts\<close>.
  \<^item> \<open>Stream\<close>, \<open>WsHub\<close>: the order stream with its reconnects, the enrichment of updates and the WebSocket
    server of \<open>index.ts\<close>, as step relations and step functions; their properties hold in every reachable state.
  \<^item> \<open>Routes\<close>: \<open>routes/index.ts\<close>, \<open>app.ts\<close> and the registrations of all routers, in order. Whether a body parser refuses
    a request, and how, is an argument; the theorems on dispatch are about requests that both let pass.

  Client and dashboard.
  \<^item> \<open>CustomFetch\<close>, \<open>ApiClient\<close>: \<open>custom-fetch.ts\<close> and the twelve operations of \<open>generated/api.ts\<close>.
  \<^item> \<open>Contracts\<close>: the declared types of both sides (\<open>api.schemas.ts\<close>, \<open>lib/api-zod\<close>, the messages of
    \<open>grpc-client.ts\<close>), when the server's answers have them, and where the copies differ.
  \<^item> \<open>AdminKey\<close>: \<open>hooks/use-admin-key.ts\<close> and the cards that ask for the key, which \<open>fetch\<close> trims; a hook's first
    render and its subscription follow each other at once in the runs of the cache (\<open>late_subscriber\<close> shows what else
    may happen). \<open>LiveTrades\<close>:
    \<open>hooks/use-live-trades.ts\<close> and \<open>OfflineBanner.tsx\<close>. \<open>Toasts\<close>: both copies of \<open>hooks/use-toast.ts\<close>.
  \<^item> \<open>SettingsPage\<close>: the editable cards of \<open>pages/Settings.tsx\<close>, composed with the configuration routes; their
    effects run only when the configuration that the query holds is another object.
    \<open>Charts\<close>: the profit chart of \<open>pages/Dashboard.tsx\<close> and the draw-down and request of the back-test in
    \<open>pages/Strategies.tsx\<close>.

  What the pages show.
  \<^item> \<open>Decimal\<close>, \<open>Format\<close>: \<open>toFixed\<close>, \<open>toExponential\<close> and \<open>parseFloat\<close> on exact decimal expansions, with their error
    bounds, and the formatters of \<open>lib/utils.ts\<close> and of two pages.
  \<^item> \<open>View\<close>: what a component returns, as a tree of elements with attributes and event handlers, texts, and places
    where evaluation throws (\<open>Throw\<close>; React then drops the page). \<open>renders\<close> says that nothing throws, \<open>clicks\<close> lists
    the actions that can be taken, and \<open>hides\<close> that two views differ in nothing but a password field. Handlers are
    values of a datatype of actions; each page has one step function for them.
  \<^item> \<open>TradesPage\<close>, \<open>TokensPage\<close>, \<open>WalletsPage\<close>, \<open>StrategiesPage\<close>, \<open>DashboardPage\<close>, \<open>SettingsViews\<close>: the pages of
    \<open>pages/\<close>; \<open>PresetCards\<close>: the two cards that choose a preset; \<open>EnginePanels\<close>: \<open>MevStatsPanel.tsx\<close>,
    \<open>LiveTradesFeed.tsx\<close> and the banner. Their theorems compose a page with the server's answers, after JSON: what is
    shown is what the tables hold, and a press does what its button says.
  \<^item> \<open>AppShell\<close>: the navigation, layout and routes of \<open>App.tsx\<close>. \<open>Preview\<close>: \<open>mockupPreviewPlugin.ts\<close> as a step
    relation over the file system, the watcher, whose reports may be missing or withdrawn, and the scans, and the sandbox's \<open>App.tsx\<close>. \<open>Startup\<close>: what the Vite
    servers, the database pool, the bundler (\<open>build.mjs\<close>) and the tools check, and the options they are handed.
  \<^item> \<open>Toaster\<close>: \<open>toaster.tsx\<close> and \<open>toast.tsx\<close>, with the way of a press of the dashboard's button through the server
    to the notification on the screen. \<open>SidebarUi\<close> (\<open>sidebar.tsx\<close>, \<open>use-mobile.tsx\<close>), \<open>FormUi\<close> (\<open>form.tsx\<close>,
    \<open>field.tsx\<close>), \<open>ChartUi\<close> (\<open>chart.tsx\<close>), \<open>CarouselUi\<close> (\<open>carousel.tsx\<close>): the parts of \<open>components/ui\<close>
    with logic of their own. A callback is made in a render and sees the values of that render; the state keeps them
    beside the current ones where the two may differ.
  This theory composes parts that meet only at the level of the whole program: the way of an order from the form of
  the trades page to the Rust engine, of a wallet from its card to the tables and back to the card, and of the stored
  trades through query, JSON and client to the table on the trades page.

  Interfaces. \<open>db_table\<close> (a table and its statements) is extended by \<open>wallet_store\<close>, \<open>config_store\<close> and
  \<open>system_config_store\<close> with what their routes need; the clients' lemmas are proved inside them, and each is
  interpreted on a table in memory that follows the same statements and can be made to fail. What Express does
  with a path, what zod infers from a schema, and what the database, the browser's date functions, \<open>fetch\<close>
  and the URL parser answer are parameters; the laws that a theorem needs of them are its hypotheses, and its
  witness shows an instance.

  Not modelled. The Rust and the Python engine and the SQL migrations are other languages. The other files of
  \<open>components/ui\<close> are vendored wrappers that join class names around parts of a library; a page's use of one is an
  element with its name. The mock-up sandbox's copies of the modelled ones differ from them in comments at most. Class names, icons, animation and the drawing of charts from their points do not show in a view; where a
  class tells the state (a highlight, a colour of warning) it is the attribute \<open>tone\<close>. Request logging
  has no effect on an answer. React Query's cache and its timing are not modelled, apart from the sharing of an equal
  configuration: a page is a function of the answers it has, and the keys it invalidates are part of a handler's result.
  Where a page prints or compares a member that the client declares as a text or a number, the conversion is the total
  \<open>to_str\<close> or \<open>to_num\<close>: that an object with a \<open>toString\<close> member in its place would throw is modelled in the server's
  handlers and in the errors that are thrown, and not in the views.
\<close>

section \<open>From the order form to the engine\<close>

lemma submitOrder_body:
  assumes "submitOrder_call body None c w = ([req], out)" and "json_ok body" and "body \<noteq> VUndef"
  shows "\<exists>t. ro_body req = Some (BText t) \<and> json_parse t = Some (wire body)"
proof -
  have "build_request c w (InStr getSubmitOrderUrl) (no_options\<lparr>fo_method := Some (U ''POST''),
      fo_headers := Some [(U ''Content-Type'', U ''application/json'')], fo_body := map_option BText (json_stringify body)\<rparr>)
      = Inr req"
    using customFetch_Inr assms(1)
    by (fastforce simp: submitOrder_call_def call_json_def options_of_def no_options_def)
  then have "ro_body req = map_option BText (json_stringify body)"
    using parse_stringify(1) [OF assms(2,3)]
    by (auto simp: build_request_def and_then_Inr Let_def split: if_splits option.splits)
  then show ?thesis using parse_stringify [OF assms(2,3)] by simp
qed

text \<open>The number the form makes of an amount typed in decimal digits, and the body on both sides of the wire.\<close>

lemma typed_amount:
  assumes "\<And>c. c \<in> set (a @ b) \<Longrightarrow> is_digit c" and "a \<noteq> []" and "t = a \<or> t = a @ 46 # b"
  shows "parse_float t = fl (text_abs t)"
  using assms parse_float_digits [of a b] by auto

lemma order_body_wire:
  assumes "parse_float (of_amountSol f) = fl x" and "fl x = Fin q"
    and "of_slippageBps f = NaN \<or> (\<exists>i. \<bar>i\<bar> < 2 ^ 53 \<and> of_slippageBps f = NumI i)"
  shows "json_ok (order_body f)"
    and "wire (order_body f) = obj
      [(''tokenMint'', VStr (of_tokenMint f)), (''side'', VStr (of_side f)), (''amountSol'', VNum (Fin q)),
       (''orderType'', VStr (of_orderType f)),
       (''slippageBps'', if of_slippageBps f = NaN then VNull else VNum (of_slippageBps f)), (''strategyName'', S ''manual'')]"
proof -
  have "printable (of_slippageBps f)" using assms(3) printable_int by (auto simp: printable_def)
  then show "json_ok (order_body f)"
    using printable_double [OF assms(2)] assms by (simp add: order_body_def obj_def S_def)
  show "wire (order_body f) = obj
      [(''tokenMint'', VStr (of_tokenMint f)), (''side'', VStr (of_side f)), (''amountSol'', VNum (Fin q)),
       (''orderType'', VStr (of_orderType f)),
       (''slippageBps'', if of_slippageBps f = NaN then VNull else VNum (of_slippageBps f)), (''strategyName'', S ''manual'')]"
    using assms by (auto simp: order_body_def wire_obj)
qed

text \<open>C4: an order typed into the form arrives at the Rust engine as it was meant. Submitting the form with
  an amount typed in decimal digits, with or without a point, that is worth \<open>k\<close> lamports, posts one text; the server
  parses it to a value whose handler calls Rust first, with the mint, the side, the order type and exactly \<open>k\<close>
  lamports, the slippage of the form (100 where the field was left empty), the strategy \<open>manual\<close>, and fresh
  identifiers.\<close>

theorem order_end_to_end:
  assumes "0 < k" and "k \<le> 2 ^ 50" and "\<And>c. c \<in> set (a @ b) \<Longrightarrow> is_digit c" and "a \<noteq> []"
    and "of_amountSol f = a \<or> of_amountSol f = a @ 46 # b" and "text_abs (of_amountSol f) = of_int k / 10 ^ 9"
    and "of_tokenMint f \<noteq> []" and "of_side f \<noteq> []"
    and "of_slippageBps f = NaN \<or> (\<exists>i. \<bar>i\<bar> < 2 ^ 53 \<and> of_slippageBps f = NumI i)"
    and "ts_form p = f" and "trades_act Submit p = (Some body, p')"
    and "submitOrder_call body None c w = ([req], out)"
    and "reachable_rust eng ''SubmitOrder'' (h @ [NewUuid, NewUuid])"
  shows "\<exists>t v r. ro_body req = Some (BText t) \<and> json_parse t = Some v \<and>
    hd (sent (post_order eng v) h) = RustCall ''SubmitOrder'' r \<and>
    get r ''token_mint'' = VStr (of_tokenMint f) \<and> get r ''side'' = VStr (of_side f) \<and>
    get r ''amount'' = VNum (NumI k) \<and> get r ''order_type'' = VStr (of_orderType f) \<and>
    get r ''slippage_bps'' = (if of_slippageBps f = NaN then VI 100 else VNum (of_slippageBps f)) \<and>
    get r ''strategy_name'' = S ''manual'' \<and>
    get r ''client_order_id'' = VStr (uuid eng h) \<and> get r ''trace_id'' = VStr (uuid eng (h @ [NewUuid]))"
proof -
  have pf: "parse_float (of_amountSol f) = fl (of_int k / 10 ^ 9)" using typed_amount [OF assms(3-5)] assms(6) by simp
  obtain q where q: "fl (of_int k / 10 ^ 9) = Fin q" using sol_double [of "nat k"] assms(1,2)
    by (auto simp: nat_le_iff Suc_le_eq)
  note bw = order_body_wire [OF pf q assms(9)]
  define v where "v = wire (order_body f)"
  have body: "body = order_body f" using assms(10,11) by (auto simp: handleSubmit_def)
  obtain t where t: "ro_body req = Some (BText t)" "json_parse t = Some v"
    using submitOrder_body [OF assms(12)] bw(1) by (auto simp: body v_def order_body_def obj_def)
  have get: "get v ''tokenMint'' = VStr (of_tokenMint f)" "get v ''side'' = VStr (of_side f)"
    "get v ''amountSol'' = VNum (Fin q)" "get v ''orderType'' = VStr (of_orderType f)"
    "get v ''slippageBps'' = (if of_slippageBps f = NaN then VNull else VNum (of_slippageBps f))"
    "get v ''strategyName'' = S ''manual''" "get v ''clientOrderId'' = VUndef" "get v ''traceId'' = VUndef" "\<not> nullish v"
    unfolding v_def bw(2) by simp_all
  have lam: "lamports (VNum (Fin q)) = NumI k" using lamports_exact [of k] assms(1,2) q by simp
  have q0: "q \<noteq> 0" using lam assms(1) by (auto simp: lamports_def fl_int)
  define r where "r = rust_order v (VStr (uuid eng h)) (VStr (uuid eng (h @ [NewUuid])))"
  have "hd (sent (post_order eng v) h) = RustCall ''SubmitOrder'' r"
    using q0 assms(7,8,13) get
    by (simp add: post_order_def num_of_def complete_order_def id_or_fresh_def sent_bind answer_bind submitOrder_def run_bind r_def)
  moreover have "get r ''amount'' = VNum (NumI k)" "get r ''token_mint'' = VStr (of_tokenMint f)"
    "get r ''side'' = VStr (of_side f)" "get r ''order_type'' = VStr (of_orderType f)"
    "get r ''slippage_bps'' = (if of_slippageBps f = NaN then VI 100 else VNum (of_slippageBps f))"
    "get r ''strategy_name'' = S ''manual''"
    "get r ''client_order_id'' = VStr (uuid eng h)" "get r ''trace_id'' = VStr (uuid eng (h @ [NewUuid]))"
    unfolding r_def rust_order_def by (simp_all add: get lam nvl_def)
  ultimately show ?thesis using t by blast
qed

theorem order_end_to_end_witness:
  "\<exists>body p req t v r. trades_act Submit (trades_open\<lparr>ts_form := empty_form\<lparr>of_tokenMint := U ''M'', of_amountSol := U ''0.05''\<rparr>\<rparr>)
      = (Some body, p) \<and>
    submitOrder_call body None \<lparr>fc_base = None, fc_token = None\<rparr> \<lparr>w_href = Some, w_fetch = (\<lambda>_. Inl NotError)\<rparr>
      = ([req], Inl (Rejected NotError)) \<and>
    ro_body req = Some (BText t) \<and> json_parse t = Some v \<and>
    hd (sent (post_order (dead_engines\<lparr>grpc_load := \<lambda>_. None\<rparr>) v) []) = RustCall ''SubmitOrder'' r \<and>
    get r ''amount'' = VNum (NumI 50000000)"
proof -
  let ?f = "empty_form\<lparr>of_tokenMint := U ''M'', of_amountSol := U ''0.05''\<rparr>"
  let ?c = "\<lparr>fc_base = None, fc_token = None\<rparr> :: fetch_config"
  let ?w = "\<lparr>w_href = Some, w_fetch = (\<lambda>_ :: request_obj. Inl NotError)\<rparr> :: web"
  let ?p = "trades_open\<lparr>ts_form := ?f\<rparr>"
  have dg: "is_digit c" if "c \<in> set ([48] @ [48, 53])" for c using that by (auto simp: is_digit_def)
  have am: "of_amountSol ?f = [48] \<or> of_amountSol ?f = [48] @ 46 # [48, 53]" by (simp add: U_def)
  have val: "text_abs (of_amountSol ?f) = of_int 50000000 / 10 ^ 9"
    using text_abs_parts [of "[48]" "[48, 53]" "[]"] dg
    by (simp add: U_def is_digit_def exp_part_def digits_val_def pow10_def)
  have hd1: "header_value (U ''application/json'') = Some (U ''application/json'')"
    by (simp add: header_value_def http_ws_def U_def)
  obtain body p where sub: "trades_act Submit ?p = (Some body, p)" by (simp add: handleSubmit_def)
  have fr: "ts_form ?p = ?f" by simp
  have sl: "of_slippageBps ?f = NaN \<or> (\<exists>i. \<bar>i\<bar> < 2 ^ 53 \<and> of_slippageBps ?f = NumI i)" by (auto simp: empty_form_def)
  have bd: "body = order_body ?f" using sub by (auto simp: handleSubmit_def)
  have pf: "parse_float (of_amountSol ?f) = fl (of_nat 50000000 / 10 ^ 9)"
    using typed_amount [OF dg _ am] unfolding val of_int_numeral of_nat_numeral by simp
  obtain q where "fl (of_nat 50000000 / 10 ^ 9) = Fin q" using sol_double [of 50000000] by auto
  note order_body_wire(1) [OF pf this sl]
  then have js: "json_stringify body \<noteq> None"
    using parse_stringify(1) [of body] bd by (auto simp: order_body_def obj_def)
  have "\<exists>req. submitOrder_call body None ?c ?w = ([req], Inl (Rejected NotError))"
    using hd1 js by (auto simp: submitOrder_call_def call_json_def customFetch_def build_request_def applyBaseUrl_def
        options_of_def no_options_def resolveMethod_def to_upper_def U_def token_char_def add_defaults_def add_token_def
        Let_def)
  then obtain req where r: "submitOrder_call body None ?c ?w = ([req], Inl (Rejected NotError))" by blast
  have ru: "reachable_rust (dead_engines\<lparr>grpc_load := \<lambda>_. None\<rparr>) ''SubmitOrder'' ([] @ [NewUuid, NewUuid])"
    by (simp add: reachable_rust_def dead_engines_def)
  have ne: "of_tokenMint ?f \<noteq> []" "of_side ?f \<noteq> []" by (simp_all add: empty_form_def U_def)
  from order_end_to_end [OF _ _ dg _ am val ne sl fr sub r ru] show ?thesis using r sub by fastforce
qed

section \<open>From a wallet's card to the tables and back\<close>

lemma resume_sends:
  assumes "resume_act n now a (s, c) = (s', c')" and "cd_sent c' = cd_sent c @ [((), key)]"
  shows "key \<noteq> []"
  using assms by (cases a) (auto simp: press_resume_def type_key_def press_enter_def press_apply_def cancel_prompt_def
      tick_remember_def mutate_def Let_def split: prod.splits option.splits if_splits)

lemma resume_dispatched:
  assumes "express_law ex" and "plain_segment i" and "resumeMutation i v = Some req"
  shows "app_target ex static None (U (ar_method req)) (ar_path req) = Api RResume [i]"
proof -
  have r: "first_segs route_segs (U ''POST'') [U ''wallets'', i, U ''resume''] = Some (RResume, [i])"
    using assms(2) by (simp add: route_segs_def U_def to_lower_def starts_with_def plain_segment_def)
  have p: "list_all plain_segment [U ''wallets'', i, U ''resume'']"
    using assms(2) by (simp add: plain_segment_def plain_unit_def is_digit_def U_def)
  have n: "U ''POST'' \<noteq> U ''OPTIONS''" by (simp add: U_def)
  have "slash_path [U ''api'', U ''wallets'', i, U ''resume''] = U ''/api/wallets/'' @ i @ U ''/resume''"
    by (simp add: slash_path_def U_def)
  then show ?thesis using api_dispatch [OF assms(1) n p r, of static] assms(3) unfolding resumeMutation_def admin_fetch_Some
    by simp
qed

text \<open>C7: a wallet is resumed by its card. Whatever key was pressed or button clicked, a request that the card
  makes was given a key, and, for an identifier of letters, digits, \<open>-\<close> and \<open>_\<close>, is dispatched to the handler of that
  wallet. When it is answered with success, the key, without the white space around it that \<open>fetch\<close> strips, was the
  administrator's; the wallet's row in each table, where it has one, is as it was except for the status \<open>enabled\<close> and,
  in the configuration, the time of the update, and no other wallet's has changed; and the card of a wallet that has
  both rows, drawn from the server's new answers, with or without the configuration, appears, says \<open>enabled\<close> and has
  nothing left to click.\<close>

theorem wallet_resumed:
  assumes "express_law ex" and "plain_segment i" and "wallet_store W cview rview invar" and "invar d" and "wallets_ok (cview d, rview d)"
    and "resume_act n now a (s, c) = (s', c')" and "cd_sent c' = cd_sent c @ [((), key)]"
    and "resumeMutation i ((), key) = Some req"
    and "wallet_route W w t (Some (ar_key req)) (Resume i) (d, h) = (out, (d', h'))" and "is_ok out"
  shows "app_target ex static None (U (ar_method req)) (ar_path req) = Api RResume [i] \<and>
    key \<noteq> [] \<and> header_value key = Some (ar_key req) \<and> proc_env w (U ''ADMIN_API_KEY'') = Some (ar_key req) \<and>
    cview d' = (cview d)(i := map_option (\<lambda>row. row\<lparr>wc_status := U ''enabled'', wc_updatedAt := Some t\<rparr>) (cview d i)) \<and>
    rview d' = (rview d)(i := map_option (\<lambda>reg. reg\<lparr>wr_status := U ''enabled''\<rparr>) (rview d i)) \<and>
    (case (cview d' i, rview d' i) of
       (Some row, Some reg) \<Rightarrow>
         list_all (\<lambda>config. let view = [WalletCard local_date (wire (wallet_list_json reg)) config typed cd] in
           renders view \<and> U ''enabled'' \<in> set (shown_texts view) \<and> clicks view = []) [VUndef, wire (wallet_config_json row)]
     | _ \<Rightarrow> True)"
proof -
  have key: "header_value key = Some (ar_key req)" "key \<noteq> []"
    using resume_sends [OF assms(6,7)] assms(8) by (simp_all add: resumeMutation_def admin_fetch_Some)
  have auth: "authorised (proc_env w) (Some (ar_key req))"
    using assms(9,10) by (auto simp: admin_only_def requireAdminKey_None [symmetric] requireAdminKey_def split: option.splits if_splits)
  have v: "(cview d', rview d') = set_status i (U ''enabled'') t (cview d, rview d)"
    using wallet_store.route_effect [OF assms(3,4,9)] assms(10) auth by simp
  then have views: "cview d' = (cview d)(i := map_option (\<lambda>row. row\<lparr>wc_status := U ''enabled'', wc_updatedAt := Some t\<rparr>) (cview d i))"
    "rview d' = (rview d)(i := map_option (\<lambda>reg. reg\<lparr>wr_status := U ''enabled''\<rparr>) (rview d i))"
    by (simp_all add: set_status_def change_def)
  have shown: "list_all (\<lambda>config. let view = [WalletCard local_date (wire (wallet_list_json reg)) config typed cd] in
      renders view \<and> U ''enabled'' \<in> set (shown_texts view) \<and> clicks view = []) [VUndef, wire (wallet_config_json row)]"
    if rows: "cview d' i = Some row" "rview d' i = Some reg" for row reg
  proof -
    have st: "wc_status row = U ''enabled''" "wr_status reg = U ''enabled''" using rows by (auto simp: views)
    have "wc_status row \<in> set VALID_STATUSES" using st(1) by (simp add: VALID_STATUSES_def)
    from card_of_rows [OF _ this refl, of reg]
    have card: "renders view \<and> U ''enabled'' \<in> set (shown_texts view)"
      if "view = [WalletCard local_date (wire (wallet_list_json reg)) config typed cd]" "config = VUndef \<or> config = wire (wallet_config_json row)"
      for view config using that st by auto
    have "effectiveStatus (wire (wallet_list_json reg)) config = S ''enabled''" if "config = VUndef \<or> config = wire (wallet_config_json row)" for config
      using that st by (auto simp: effectiveStatus_def listed_reads config_reads S_def)
    then have "clicks [WalletCard local_date (wire (wallet_list_json reg)) config typed cd] = []"
      if "config = VUndef \<or> config = wire (wallet_config_json row)" for config
      using resume_offered [of local_date "wire (wallet_list_json reg)" config typed cd] that by (simp add: Let_def)
    then show ?thesis using card by (simp add: Let_def)
  qed
  show ?thesis
    using resume_dispatched [OF assms(1,2,8), of static] key auth views shown
    by (auto simp: authorised_def split: option.split)
qed

theorem wallet_resumed_witness:
  "\<exists>s' c' out d' h' row reg.
     resume_act 0 7 Confirm (key_init\<lparr>ks_views := [(0, U ''k'')]\<rparr>, \<lparr>cd_pending = Some (), cd_remember = False, cd_busy = False, cd_sent = []\<rparr>)
       = (s', c') \<and> cd_sent c' = [((), U ''k'')] \<and>
     wallet_route mem_wallet_db demo_engines 8 (Some (U ''k'')) (Resume (U ''w1'')) (demo_wallets ''paused'', []) = (out, (d', h')) \<and>
     map_of (mw_cfg d') (U ''w1'') = Some row \<and> map_of (mw_reg d') (U ''w1'') = Some reg \<and> wr_status reg = U ''enabled'' \<and>
     clicks [WalletCard (\<lambda>_. []) (wire (wallet_list_json reg)) (wire (wallet_config_json row)) [] c'] = []"
proof -
  define s :: key_state where "s = key_init\<lparr>ks_views := [(0, U ''k'')]\<rparr>"
  define c :: "unit card" where "c = \<lparr>cd_pending = Some (), cd_remember = False, cd_busy = False, cd_sent = []\<rparr>"
  obtain s' c' where a: "resume_act 0 7 Confirm (s, c) = (s', c')" by (metis prod.collapse)
  then have sent: "cd_sent c' = cd_sent c @ [((), U ''k'')]"
    by (auto simp: s_def c_def press_apply_def view_of_def mutate_def U_def)
  obtain out d' h' where r: "wallet_route mem_wallet_db demo_engines 8 (Some (U ''k'')) (Resume (U ''w1'')) (demo_wallets ''paused'', []) = (out, (d', h'))"
    by (metis prod.collapse)
  have ok: "wallets_ok (map_of (mw_cfg (demo_wallets ''paused'')), map_of (mw_reg (demo_wallets ''paused'')))"
    by (auto simp: wallets_ok_def wallet_row_ok_def demo_wallets_def new_wallet_config_def new_wallet_registry_def
        VALID_STATUSES_def VALID_PRESETS_def fl_eval split: if_splits)
  have auth: "requireAdminKey (proc_env demo_engines) (Some (U ''k'')) = None" by (simp add: requireAdminKey_None)
  obtain row reg where rows: "is_ok out" "map_of (mw_cfg d') (U ''w1'') = Some row" "map_of (mw_reg d') (U ''w1'') = Some reg"
    using r by (auto simp: admin_only_def auth on_db_def resume_wallet_def transaction_def status_tx_def db_then_def
        db_return_def mem_wallet_db_def mem_ops_def demo_wallets_def status_done_def)
  have p: "plain_segment (U ''w1'')" by (simp add: plain_segment_def plain_unit_def is_digit_def U_def)
  have "header_value (U ''k'') = Some (U ''k'')" by (simp add: header_value_def http_ws_def U_def)
  then obtain req where req: "resumeMutation (U ''w1'') ((), U ''k'') = Some req" "ar_key req = U ''k''"
    by (simp add: resumeMutation_def admin_fetch_def)
  have r': "wallet_route mem_wallet_db demo_engines 8 (Some (ar_key req)) (Resume (U ''w1'')) (demo_wallets ''paused'', []) = (out, (d', h'))"
    using r by (simp only: req(2))
  note all_of = wallet_resumed [where cview = "\<lambda>d. map_of (mw_cfg d)" and rview = "\<lambda>d. map_of (mw_reg d)" and local_date = "\<lambda>_. []"
      and typed = "[]" and cd = c', OF plain_express_law p mem_wallets.wallet_store_axioms demo_invar ok a sent req(1) r' rows(1)]
  then have "list_all (\<lambda>config. let view = [WalletCard (\<lambda>_. []) (wire (wallet_list_json reg)) config [] c'] in
      renders view \<and> U ''enabled'' \<in> set (shown_texts view) \<and> clicks view = []) [VUndef, wire (wallet_config_json row)]"
    using rows(2,3) by simp
  then have "clicks [WalletCard (\<lambda>_. []) (wire (wallet_list_json reg)) (wire (wallet_config_json row)) [] c'] = []"
    by (simp only: Let_def list.pred_inject simp_thms)
  moreover have "wr_status reg = U ''enabled''" using all_of rows(3) by auto
  ultimately show ?thesis using a sent r rows(2,3) unfolding s_def c_def by auto
qed

section \<open>From the database to the trades page\<close>

text \<open>What the request of the trades page is, and how its text is read on the server.\<close>

lemma print_100: "num_to_string (NumI 100) = U ''100''"
proof -
  have l: "log10f 700 100 + 1 = 3" using log10f.simps(2) [of 699 100] log10f.simps(2) [of 698 10] log10f_one [of 1 698] by simp
  have f: "fl 100 = Fin 100" "fl 200 = Fin 200" using fl_int [of 100] fl_int [of 200] by simp_all
  have d: "digit_cands 100 3 1 = [(1, 2)]" using f by (simp add: digit_cands_def Let_def pow10_def)
  have s: "shortest 20 100 3 1 = (1, 2)" using shortest.simps(2) [of 19 100 3 1] d by simp
  have z: "strip_zeros 20 1 2 = (1, 2)" using strip_zeros.simps(2) [of 19 1 2] by simp
  have n: "dec_nat 1 = [49]" by (simp add: dec_nat.simps)
  have "pos_to_string 100 = U ''100''"
    unfolding pos_to_string_def l s z Let_def split_conv n by (simp add: U_def numeral_2_eq_2)
  then show ?thesis by simp
qed

lemma form_plain: "list_all (\<lambda>c. is_digit c \<or> (97 \<le> c \<and> c \<le> 122)) s \<Longrightarrow> form_encode s = s"
proof -
  assume s: "list_all (\<lambda>c. is_digit c \<or> (97 \<le> c \<and> c \<le> 122)) s"
  then have "code_points s = s" by (induction s rule: code_points.induct) (auto simp: is_digit_def)
  moreover have "concat (map utf8 s) = s" using s by (induction s) (auto simp: utf8_def is_digit_def)
  moreover have "concat (map form_byte s) = s" using s by (induction s) (auto simp: form_byte_def is_digit_def)
  ultimately show ?thesis by (simp add: form_encode_def)
qed

lemma history_url: "getListTradesUrl (Some [(U ''limit'', VI 100)]) = U ''/api/bot/trades?limit=100''"
proof -
  have "form_encode (U ''limit'') = U ''limit''" "form_encode (U ''100'') = U ''100''"
    by (rule form_plain, simp add: U_def is_digit_def)+
  then have "search_params [(U ''limit'', U ''100'')] = U ''limit=100''" by (simp add: search_params_def U_def)
  then show ?thesis by (simp add: getListTradesUrl_def Let_def print_100 [simplified], simp add: U_def)
qed

lemma parsed_100: "parseLimit (S ''100'') (NumI 50) (NumI 1000) = NumI 100"
proof -
  have "parse_int10 (U ''100'') = NumI 100" using fl_int [of 100]
    by (simp add: parse_int10_def U_def trim_start_def is_ws_def is_digit_def digits_val_def Let_def)
  then show ?thesis by (simp add: parseLimit_def S_def Let_def math_min_def)
qed

text \<open>What a browser hands to \<open>customFetch\<close> when Express answers with \<open>res.json\<close>.\<close>

definition served :: "response \<Rightarrow> web_response" where
  "served r = \<lparr>rs_status = r_status r, rs_statusText = [], rs_url = [],
     rs_headers = [(U ''content-type'', U ''application/json; charset=utf-8'')], rs_null_body = False,
     rs_text = Inr (case json_stringify (r_body r) of Some t \<Rightarrow> t | None \<Rightarrow> []), rs_blob = None\<rparr>"

lemma served_value:
  assumes "json_ok (VArr vs)" and "ri_method info = U ''GET''"
  shows "parseSuccessBody (served (ok (VArr vs))) Auto info = Inr (DVal (wire (VArr vs)))"
proof -
  have m: "getMediaType [(U ''content-type'', U ''application/json; charset=utf-8'')] = Some (U ''application/json'')"
    by (simp add: getMediaType_def U_def to_lower_def trim_def trim_start_def trim_end_def is_ws_def)
  have "U ''GET'' \<noteq> U ''HEAD''" "U ''content-length'' \<noteq> U ''content-type''" by (simp_all add: U_def)
  then have "\<not> hasNoBody (served (ok (VArr vs))) (ri_method info)"
    by (simp add: assms(2) hasNoBody_def served_def NO_BODY_STATUS_def reply_def)
  moreover obtain t where t: "json_text_of (VArr vs) = 91 # t" by simp
  have "stripBom (json_text_of (VArr vs)) = json_text_of (VArr vs)" "trim (json_text_of (VArr vs)) \<noteq> []"
    unfolding t by (simp_all add: stripBom_def trim_def trim_start_def trim_end_def is_ws_def dropWhile_eq_Nil_conv)
  ultimately show ?thesis
    using parse_stringify [of "VArr vs"] assms(1) m
    by (simp add: parseSuccessBody_def inferResponseType_def isJsonMediaType_def parseJsonBody_def served_def reply_def)
qed

text \<open>What PostgreSQL can hold in the numeric columns: doubles, \<open>NaN\<close> and the infinities included, and 32-bit integers.\<close>

definition stored_double :: "jsnum \<Rightarrow> bool" where
  "stored_double n = (case n of Fin q \<Rightarrow> fl q = Fin q | _ \<Rightarrow> True)"

definition stored_trade :: "trade_row \<Rightarrow> bool" where
  "stored_trade r \<longleftrightarrow> stored_double (tr_amountSol r) \<and> pred_option stored_double (tr_price r) \<and>
     pred_option stored_double (tr_pnlSol r) \<and> pred_option (\<lambda>i. \<bar>i\<bar> < 2 ^ 31) (tr_slippageBps r)"

lemma stored_printable: "stored_double n \<Longrightarrow> printable n"
  using printable_double by (cases n) (auto simp: stored_double_def printable_def [of NaN] printable_def [of PInf] printable_def [of NInf])

lemma trade_json_ok:
  assumes "stored_trade r"
  shows "json_ok (trade_json r)"
proof -
  have n: "json_ok (js_num_opt v)" if "pred_option stored_double v" for v
    using that stored_printable by (cases v) (auto simp: js_num_opt_def of_opt_def)
  have i: "json_ok (js_int_opt v)" if "pred_option (\<lambda>i. \<bar>i\<bar> < 2 ^ 31) v" for v
    using that printable_int by (cases v) (auto simp: js_int_opt_def of_opt_def)
  have o: "json_ok (js_str_opt s)" "json_ok (js_date_opt t)" for s t
    by (auto simp: js_str_opt_def js_date_opt_def of_opt_def split: option.split)
  show ?thesis using assms stored_printable n i
    unfolding trade_json_def obj_def stored_trade_def by (simp add: o U_def)
qed

lemma history_answered:
  assumes "\<And>k. 0 \<le> k \<Longrightarrow> q_limit Q (NumI k) = Inr (nat k)" and "q_rows Q d = Inr all"
  shows "\<exists>rows. top_rows trade_order 100 (mset all) rows \<and>
    list_trades Q (obj [(''limit'', S ''100'')]) d = ok (VArr (map trade_json rows))"
proof -
  have lim: "q_limit Q (Fin 100) = Inr 100" using assms(1) [of 100] by simp
  have none: "filter (trade_matches None None) all = all" by (simp add: trade_matches_def)
  have "list_trades Q (obj [(''limit'', S ''100'')]) d = ok (VArr (map trade_json (take 100 (sort_desc trade_order all))))"
    using assms(2) lim none by (simp add: list_trades_def select_trades_def opt_cond_def parsed_100 [simplified] and_then_def Let_def)
  then show ?thesis using top_rows_take [of trade_order 100 all] by blast
qed

text \<open>The query string of a URL, and what is known of the request.\<close>

definition query_of :: "jstr \<Rightarrow> jstr" where
  "query_of url = drop 1 (dropWhile (\<lambda>c. c \<noteq> 63) url)"

lemma trades_request:
  assumes "fc_base c = None" and "listTrades (Some [(U ''limit'', VI 100)]) None c w = ([req], out)"
  shows "ro_method req = U ''GET''" and "ro_url req = U ''/api/bot/trades?limit=100''"
    and "w_fetch w req = Inr response \<Longrightarrow> rs_ok response \<Longrightarrow>
      out = parseSuccessBody response Auto \<lparr>ri_method = U ''GET'', ri_url = ro_url req\<rparr>"
proof -
  define url where "url = U ''/api/bot/trades?limit=100''"
  define opts where "opts = no_options\<lparr>fo_method := Some (U ''GET'')\<rparr>"
  have call: "customFetch c w (InStr url) opts = ([req], out)"
    using assms(2) by (simp add: listTrades_def call_method_def history_url [simplified] options_of_def url_def opts_def)
  have build: "build_request c w (InStr url) opts = Inr req" using customFetch_Inr [OF call] by simp
  have m: "resolveMethod (InStr url) (Some (U ''GET'')) = U ''GET''"
    by (simp add: resolveMethod_def to_upper_def U_def)
  show 1: "ro_method req = U ''GET''"
    using build assms(1) m by (auto simp: build_request_def applyBaseUrl_def opts_def no_options_def and_then_Inr Let_def
        split: option.splits)
  show 2: "ro_url req = U ''/api/bot/trades?limit=100''"
    using build assms(1) by (auto simp: build_request_def applyBaseUrl_def url_def and_then_Inr Let_def
        split: option.splits if_splits)
  show "w_fetch w req = Inr response \<Longrightarrow> rs_ok response \<Longrightarrow>
      out = parseSuccessBody response Auto \<lparr>ri_method = U ''GET'', ri_url = ro_url req\<rparr>"
    using call build 1 by (simp add: customFetch_def opts_def no_options_def Let_def)
qed

lemma trades_dispatched:
  assumes "express_law ex" and "fc_base c = None" and "listTrades params options c w = ([req], out)"
  shows "app_target ex static None (ro_method req) (path_of (ro_url req)) = Api RListTrades []"
proof -
  have "reaches ex (listTrades params options) RListTrades []"
    unfolding listTrades_def by (rule reaches_get [OF assms(1) _ dispatch_fixed(3)]) (simp_all add: trades_path)
  then show ?thesis using assms(2,3) unfolding reaches_def by blast
qed

lemma top_rows_subset: "top_rows key n (mset all) rows \<Longrightarrow> set rows \<subseteq> set all"
  unfolding top_rows_def using set_mset_mono by fastforce

text \<open>C5: the trades page shows what the database holds. The request it sends when it opens is dispatched to
  the handler of the trade list; when the handler's answer comes back, the call returns exactly the 100 newest
  trades of the table, newest first (all of them, if there are fewer), whatever columns are empty and whatever doubles
  the numeric ones hold; and the page made of them appears exactly when the amount of each trade of the chosen
  strategy is a number (a \<open>NaN\<close> column arrives as \<open>null\<close>, on which \<open>formatSol\<close> throws and React drops the page), with
  one row for each of them and their count.\<close>

theorem history_end_to_end:
  assumes "express_law ex" and "\<And>k. 0 \<le> k \<Longrightarrow> q_limit Q (NumI k) = Inr (nat k)" and "q_rows Q d = Inr all" and "list_all stored_trade all"
    and "qs (U ''limit=100'') = obj [(''limit'', S ''100'')]" and "fc_base c = None"
    and "listTrades (Some [(U ''limit'', VI 100)]) None c w = ([req], out)"
    and "w_fetch w req = Inr (served (list_trades Q (qs (query_of (ro_url req))) d))"
  shows "app_target ex static None (ro_method req) (path_of (ro_url req)) = Api RListTrades [] \<and>
    (\<exists>rows. top_rows trade_order 100 (mset all) rows \<and> out = Inr (DVal (VArr (map trade_wire rows))) \<and>
      (let chosen = filter (\<lambda>r. ts_strategy p = [] \<or> tr_strategy r = ts_strategy p) rows;
           page = trades_page C p (Some (map trade_wire rows)) False
       in (renders page \<longleftrightarrow> list_all (\<lambda>r. \<exists>q. tr_amountSol r = Fin q) chosen) \<and>
          count_tag ''tr'' page = 1 + max 1 (length chosen) \<and>
          num_to_string (NumI (int (length chosen))) \<in> set (shown_texts page)))"
proof -
  obtain rows where rows: "top_rows trade_order 100 (mset all) rows"
    and ans: "list_trades Q (obj [(''limit'', S ''100'')]) d = ok (VArr (map trade_json rows))"
    using history_answered [OF assms(2,3)] by blast
  note sent = trades_request [OF assms(6,7)]
  have "list_all stored_trade rows" using assms(4) top_rows_subset [OF rows] by (auto simp: list_all_iff)
  then have ok: "json_ok (VArr (map trade_json rows))" by (auto simp: list_all_iff trade_json_ok)
  have "w_fetch w req = Inr (served (ok (VArr (map trade_json rows))))"
    unfolding assms(8) sent(2) using assms(5) ans by (simp add: query_of_def U_def)
  then have "out = Inr (DVal (wire (VArr (map trade_json rows))))" 
    using sent(3) served_value [OF ok, of "\<lparr>ri_method = U ''GET'', ri_url = ro_url req\<rparr>"] by (simp add: rs_ok_def served_def reply_def)
  then have out: "out = Inr (DVal (VArr (map trade_wire rows)))" by (simp add: trade_wire_def)
  have "app_target ex static None (ro_method req) (path_of (ro_url req)) = Api RListTrades []"
    using trades_dispatched [OF assms(1,6,7)] .
  then show ?thesis using rows out trades_page_shows [where p = p and C = C and rows = rows] by (auto simp: Let_def)
qed

theorem history_end_to_end_witness:
  "\<exists>req rows. listTrades (Some [(U ''limit'', VI 100)]) None \<lparr>fc_base = None, fc_token = None\<rparr>
      \<lparr>w_href = Some, w_fetch = (\<lambda>req. Inr (served (list_trades demo_query (obj [(''limit'', S ''100'')])
         [new_trade (U ''t'') (U ''m'') (U ''BUY'') (NumI 1) 5])))\<rparr>
      = ([req], Inr (DVal (VArr (map trade_wire rows)))) \<and>
    top_rows trade_order 100 (mset [new_trade (U ''t'') (U ''m'') (U ''BUY'') (NumI 1) 5]) rows \<and>
    app_target plain_express (\<lambda>_. False) None (ro_method req) (path_of (ro_url req)) = Api RListTrades [] \<and>
    renders (trades_page \<lparr>ck_parse = (\<lambda>_. None), ck_now = 0\<rparr> trades_open (Some (map trade_wire rows)) False)"
proof -
  let ?d = "[new_trade (U ''t'') (U ''m'') (U ''BUY'') (NumI 1) 5]"
  let ?c = "\<lparr>fc_base = None, fc_token = None\<rparr> :: fetch_config"
  let ?w = "\<lparr>w_href = Some, w_fetch = (\<lambda>req :: request_obj. Inr (served (list_trades demo_query (obj [(''limit'', S ''100'')]) ?d)))\<rparr> :: web"
  let ?p = "Some [(U ''limit'', VI 100)]"
  have "\<exists>req out. listTrades ?p None ?c ?w = ([req], out)"
    by (simp add: listTrades_def call_method_def customFetch_def build_request_def applyBaseUrl_def resolveMethod_def
        options_of_def no_options_def add_defaults_def add_token_def json_text_def Let_def)
  then obtain req out where call: "listTrades ?p None ?c ?w = ([req], out)" by blast
  have lim: "q_limit demo_query (NumI k) = Inr (nat k)" if "0 \<le> k" for k :: int using that by (simp add: demo_query_def)
  have rows: "q_rows demo_query ?d = Inr ?d" by (simp add: demo_query_def)
  have st: "list_all stored_trade ?d" using fl_int [of 1] by (simp add: stored_trade_def stored_double_def new_trade_def)
  have base: "fc_base ?c = None" by simp
  have qs: "(\<lambda>s. obj [(''limit'', S ''100'')]) (U ''limit=100'') = obj [(''limit'', S ''100'')]" by simp
  have fetch: "w_fetch ?w req = Inr (served (list_trades demo_query ((\<lambda>s. obj [(''limit'', S ''100'')]) (query_of (ro_url req))) ?d))"
    by simp
  note all_of = history_end_to_end [OF plain_express_law lim rows st qs base call fetch, where static = "\<lambda>_. False"
      and p = trades_open and C = "\<lparr>ck_parse = (\<lambda>_. None), ck_now = 0\<rparr>"]
  then obtain rs where r: "top_rows trade_order 100 (mset ?d) rs" "out = Inr (DVal (VArr (map trade_wire rs)))"
    "renders (trades_page \<lparr>ck_parse = (\<lambda>_. None), ck_now = 0\<rparr> trades_open (Some (map trade_wire rs)) False) \<longleftrightarrow>
      list_all (\<lambda>r. \<exists>q. tr_amountSol r = Fin q) (filter (\<lambda>r. ts_strategy trades_open = [] \<or> tr_strategy r = ts_strategy trades_open) rs)"
    unfolding Let_def by blast
  have "set rs \<subseteq> set ?d" by (rule top_rows_subset [OF r(1)])
  then have "list_all (\<lambda>r. \<exists>q. tr_amountSol r = Fin q) (filter (\<lambda>r. ts_strategy trades_open = [] \<or> tr_strategy r = ts_strategy trades_open) rs)"
    by (auto simp: list_all_iff new_trade_def)
  then have shown: "renders (trades_page \<lparr>ck_parse = (\<lambda>_. None), ck_now = 0\<rparr> trades_open (Some (map trade_wire rs)) False)"
    using r(3) by simp
  have "app_target plain_express (\<lambda>_. False) None (ro_method req) (path_of (ro_url req)) = Api RListTrades []" using all_of by blast
  then show ?thesis using call [unfolded r(2)] r(1) shown by blast
qed

end
